(* ===== verification/Py_Prelude.thy ===== *)
theory Py_Prelude
  imports Complex_Main "HOL-Library.AList" "HOL-Library.List_Lexorder" "HOL-Library.Char_ord"
begin

text \<open>
  Shared vocabulary of the development: how the Python of the repository is read in HOL.

  \<^item> A raised exception is a value of \<open>py_error\<close>. An operation that only computes returns
    \<open>py_error + 'a\<close>; an operation that mutates an object is an \<open>('s, 'a) eff\<close>, a function from
    the object's state to the new state and a result. When the source raises half way, the
    mutations made before the raise stay, and so they do in \<open>eff\<close>.
  \<^item> A Python \<open>dict\<close> is an association list in insertion order; \<open>AList.update\<close> overwrites in
    place or appends, \<open>AList.delete\<close> removes, \<open>map_of\<close> looks up.
  \<^item> \<open>list.remove\<close> is \<open>remove1\<close>; \<open>list(dict.fromkeys(xs))\<close> is \<open>dedup\<close>.
  \<^item> A Python \<open>float\<close> is an exact rational; rounding of binary floating point is not modelled.
\<close>

section \<open>Errors\<close>

datatype py_error =
    ValueError string
  | KeyError string
  | TypeError string
  | RuntimeError string
  | TimeoutError string
  | InvalidTransitionError string
  | ToolPermissionError string
  | ToolTimeoutError string
  | TimeoutExpired string
  | OSError string
  | AttributeError string
  | HTTPException nat string
  | CoderPlanError string

section \<open>Named collections\<close>

named_theorems eff_simps \<open>unfolding of the effect combinators\<close>
named_theorems triple_intros \<open>proof rules for effect triples\<close>
named_theorems frame_intros \<open>proof rules for parts of the state an effect leaves alone\<close>
named_theorems py_dict \<open>facts on dictionaries as association lists\<close>

section \<open>Stateful computations that may raise\<close>

type_synonym ('s, 'a) eff = "'s \<Rightarrow> 's \<times> (py_error + 'a)"

definition eff_return :: "'a \<Rightarrow> ('s, 'a) eff" where
  "eff_return x = (\<lambda>s. (s, Inr x))"

definition eff_raise :: "py_error \<Rightarrow> ('s, 'a) eff" where
  "eff_raise e = (\<lambda>s. (s, Inl e))"

definition eff_bind :: "('s, 'a) eff \<Rightarrow> ('a \<Rightarrow> ('s, 'b) eff) \<Rightarrow> ('s, 'b) eff" where
  "eff_bind m f = (\<lambda>s. case m s of (s', Inl e) \<Rightarrow> (s', Inl e) | (s', Inr x) \<Rightarrow> f x s')"

definition eff_then :: "('s, 'a) eff \<Rightarrow> ('s, 'b) eff \<Rightarrow> ('s, 'b) eff" where
  "eff_then m n = eff_bind m (\<lambda>_. n)"

definition eff_modify :: "('s \<Rightarrow> 's) \<Rightarrow> ('s, unit) eff" where
  "eff_modify f = (\<lambda>s. (f s, Inr ()))"

definition eff_get :: "('s \<Rightarrow> ('s, 'a) eff) \<Rightarrow> ('s, 'a) eff" where
  "eff_get f = (\<lambda>s. f s s)"

definition eff_lift :: "py_error + 'a \<Rightarrow> ('s, 'a) eff" where
  "eff_lift r = (\<lambda>s. (s, r))"

text \<open>A \<open>for\<close> loop over the elements of a list; the first raise leaves the loop.\<close>

fun eff_for :: "'b list \<Rightarrow> ('b \<Rightarrow> ('s, unit) eff) \<Rightarrow> ('s, unit) eff" where
  "eff_for [] f = eff_return ()"
| "eff_for (x # xs) f = eff_then (f x) (eff_for xs f)"

definition eff_when :: "bool \<Rightarrow> ('s, unit) eff \<Rightarrow> ('s, unit) eff" where
  "eff_when b m = (if b then m else eff_return ())"

text \<open>A statement list, \<open>try .. except Exception as e\<close> and \<open>try .. finally\<close>.\<close>

fun eff_seq :: "('s, unit) eff list \<Rightarrow> ('s, unit) eff" where
  "eff_seq [] = eff_return ()"
| "eff_seq (m # ms) = eff_then m (eff_seq ms)"

definition eff_try :: "('s, 'a) eff \<Rightarrow> (py_error \<Rightarrow> ('s, 'a) eff) \<Rightarrow> ('s, 'a) eff" where
  "eff_try m h = (\<lambda>s. case m s of (s', Inl e) \<Rightarrow> h e s' | (s', Inr x) \<Rightarrow> (s', Inr x))"

definition eff_finally :: "('s, 'a) eff \<Rightarrow> ('s, unit) eff \<Rightarrow> ('s, 'a) eff" where
  "eff_finally m f = (\<lambda>s. case m s of (s', r) \<Rightarrow> case f s' of (s'', Inl e) \<Rightarrow> (s'', Inl e) | (s'', Inr u) \<Rightarrow> (s'', r))"

declare eff_return_def [eff_simps] eff_raise_def [eff_simps] eff_bind_def [eff_simps]
  eff_then_def [eff_simps] eff_modify_def [eff_simps] eff_get_def [eff_simps]
  eff_lift_def [eff_simps] eff_when_def [eff_simps]

subsection \<open>Triples\<close>

text \<open>
  \<open>triple P m Q E\<close>: from a state satisfying \<open>P\<close> the computation either returns \<open>x\<close> in a state
  with \<open>Q x\<close>, or raises \<open>e\<close> in a state with \<open>E e\<close>. An invariant that survives exceptions is
  \<open>keeps I m\<close>.
\<close>

definition triple :: "('s \<Rightarrow> bool) \<Rightarrow> ('s, 'a) eff \<Rightarrow> ('a \<Rightarrow> 's \<Rightarrow> bool) \<Rightarrow> (py_error \<Rightarrow> 's \<Rightarrow> bool) \<Rightarrow> bool" where
  "triple P m Q E \<longleftrightarrow>
     (\<forall>s. P s \<longrightarrow> (case m s of (s', Inr x) \<Rightarrow> Q x s' | (s', Inl e) \<Rightarrow> E e s'))"

definition keeps :: "('s \<Rightarrow> bool) \<Rightarrow> ('s, 'a) eff \<Rightarrow> bool" where
  "keeps I m \<longleftrightarrow> (\<forall>s. I s \<longrightarrow> I (fst (m s)))"

lemma keeps_triple: "keeps I m \<longleftrightarrow> triple I m (\<lambda>_. I) (\<lambda>_. I)"
proof -
  have "(I (fst r)) = (case r of (s', Inr x) \<Rightarrow> I s' | (s', Inl e) \<Rightarrow> I s')" for r :: "'a \<times> (py_error + 'b)"
    by (cases r) (simp split: sum.splits)
  then show ?thesis by (simp add: keeps_def triple_def)
qed

lemma tripleI:
  assumes "\<And>s s' x. P s \<Longrightarrow> m s = (s', Inr x) \<Longrightarrow> Q x s'"
    and "\<And>s s' e. P s \<Longrightarrow> m s = (s', Inl e) \<Longrightarrow> E e s'"
  shows "triple P m Q E"
  using assms by (auto simp: triple_def split: prod.splits sum.splits)

lemma tripleD_ok: "triple P m Q E \<Longrightarrow> P s \<Longrightarrow> m s = (s', Inr x) \<Longrightarrow> Q x s'"
  by (force simp: triple_def)

lemma tripleD_err: "triple P m Q E \<Longrightarrow> P s \<Longrightarrow> m s = (s', Inl e) \<Longrightarrow> E e s'"
  by (force simp: triple_def)

lemma keepsI: "(\<And>s. I s \<Longrightarrow> I (fst (m s))) \<Longrightarrow> keeps I m"
  by (simp add: keeps_def)

lemma keepsD: "keeps I m \<Longrightarrow> I s \<Longrightarrow> I (fst (m s))"
  by (simp add: keeps_def)

lemma keeps_return [triple_intros]: "keeps I (eff_return x)"
  by (simp add: keeps_def eff_return_def)

lemma keeps_raise [triple_intros]: "keeps I (eff_raise e)"
  by (simp add: keeps_def eff_raise_def)

lemma keeps_lift [triple_intros]: "keeps I (eff_lift r)"
  by (simp add: keeps_def eff_lift_def)

lemma keeps_modify [triple_intros]: "(\<And>s. I s \<Longrightarrow> I (f s)) \<Longrightarrow> keeps I (eff_modify f)"
  by (simp add: keeps_def eff_modify_def)

lemma keeps_bind [triple_intros]:
  "keeps I m \<Longrightarrow> (\<And>x. keeps I (f x)) \<Longrightarrow> keeps I (eff_bind m f)"
  by (fastforce simp: keeps_def eff_bind_def split: prod.splits sum.splits)

lemma keeps_then [triple_intros]: "keeps I m \<Longrightarrow> keeps I n \<Longrightarrow> keeps I (eff_then m n)"
  by (simp add: eff_then_def keeps_bind)

lemma keeps_when [triple_intros]: "(b \<Longrightarrow> keeps I m) \<Longrightarrow> keeps I (eff_when b m)"
  by (simp add: eff_when_def keeps_return)

lemma keeps_for [triple_intros]:
  "(\<And>x. x \<in> set xs \<Longrightarrow> keeps I (f x)) \<Longrightarrow> keeps I (eff_for xs f)"
  by (induction xs) (auto intro: triple_intros)

lemma keeps_if [triple_intros]:
  "(b \<Longrightarrow> keeps I m) \<Longrightarrow> (\<not> b \<Longrightarrow> keeps I n) \<Longrightarrow> keeps I (if b then m else n)"
  by simp

lemma keeps_seq [triple_intros]:
  "(\<And>m. m \<in> set ms \<Longrightarrow> keeps I m) \<Longrightarrow> keeps I (eff_seq ms)"
  by (induction ms) (auto intro: triple_intros)

lemma keeps_try [triple_intros]:
  "keeps I m \<Longrightarrow> (\<And>e. keeps I (h e)) \<Longrightarrow> keeps I (eff_try m h)"
  by (fastforce simp: keeps_def eff_try_def split: prod.splits sum.splits)

lemma keeps_finally [triple_intros]: "keeps I m \<Longrightarrow> keeps I f \<Longrightarrow> keeps I (eff_finally m f)"
  by (fastforce simp: keeps_def eff_finally_def split: prod.splits sum.splits)

text \<open>Reading the state: the continuation may use what the invariant says of the value read.\<close>

lemma keeps_get:
  assumes "\<And>s. I s \<Longrightarrow> I (fst (f s s))"
  shows "keeps I (eff_get f)"
  using assms by (simp add: keeps_def eff_get_def)

lemma keeps_get': "(\<And>s. keeps I (f s)) \<Longrightarrow> keeps I (eff_get f)"
  by (simp add: keeps_def eff_get_def)

text \<open>Triples with different postconditions for a return and for a raise.\<close>

lemma triple_conseq:
  assumes "triple P m Q E" "\<And>s. P' s \<Longrightarrow> P s" "\<And>x s. Q x s \<Longrightarrow> Q' x s" "\<And>e s. E e s \<Longrightarrow> E' e s"
  shows "triple P' m Q' E'"
  using assms by (fastforce simp: triple_def split: prod.splits sum.splits)

lemma triple_keeps: "keeps I m \<Longrightarrow> triple I m (\<lambda>_. I) (\<lambda>_. I)"
  by (simp add: keeps_triple)

lemma triple_return: "(\<And>s. P s \<Longrightarrow> Q x s) \<Longrightarrow> triple P (eff_return x) Q E"
  by (simp add: triple_def eff_return_def)

lemma triple_raise: "(\<And>s. P s \<Longrightarrow> E e s) \<Longrightarrow> triple P (eff_raise e) Q E"
  by (simp add: triple_def eff_raise_def)

lemma triple_modify: "(\<And>s. P s \<Longrightarrow> Q () (f s)) \<Longrightarrow> triple P (eff_modify f) Q E"
  by (simp add: triple_def eff_modify_def)

lemma triple_bind:
  "triple P m R E \<Longrightarrow> (\<And>x. triple (R x) (f x) Q E) \<Longrightarrow> triple P (eff_bind m f) Q E"
  by (fastforce simp: triple_def eff_bind_def split: prod.splits sum.splits)

lemma triple_then: "triple P m (\<lambda>_. R) E \<Longrightarrow> triple R n Q E \<Longrightarrow> triple P (eff_then m n) Q E"
  unfolding eff_then_def by (rule triple_bind)

lemma triple_try:
  "triple P m Q E' \<Longrightarrow> (\<And>e. triple (E' e) (h e) Q E) \<Longrightarrow> triple P (eff_try m h) Q E"
  by (fastforce simp: triple_def eff_try_def split: prod.splits sum.splits)

lemma triple_finally:
  "triple P m (\<lambda>_. R) (\<lambda>_. R) \<Longrightarrow> triple R f (\<lambda>_. S) (\<lambda>_. S) \<Longrightarrow> triple P (eff_finally m f) (\<lambda>_. S) (\<lambda>_. S)"
  by (fastforce simp: triple_def eff_finally_def split: prod.splits sum.splits)

lemma triple_end: "triple P m (\<lambda>_. S) (\<lambda>_. S) \<Longrightarrow> P s \<Longrightarrow> S (fst (m s))"
  by (cases "m s") (auto simp: triple_def dest!: spec[of _ s] split: sum.splits)

lemma triple_seq_snoc:
  assumes "\<And>m. m \<in> set ms \<Longrightarrow> keeps I m" "triple I l (\<lambda>_. Q) (\<lambda>_. I)"
  shows "triple I (eff_seq (ms @ [l])) (\<lambda>_. Q) (\<lambda>_. I)"
  using assms(1)
proof (induction ms)
  case Nil
  show ?case using triple_then[OF assms(2) triple_return[of Q "\<lambda>_. Q"]] by simp
next
  case (Cons m ms)
  then show ?case using triple_then[OF triple_keeps[of I m]] by simp
qed

lemma triple_get: "(\<And>s. P s \<Longrightarrow> triple (\<lambda>s'. s' = s) (f s) Q E) \<Longrightarrow> triple P (eff_get f) Q E"
  by (simp add: triple_def eff_get_def)

lemma triple_get': "(\<And>s. triple P (f s) Q E) \<Longrightarrow> triple P (eff_get f) Q E"
  by (simp add: triple_def eff_get_def)

text \<open>\<open>m\<close> leaves the part \<open>p\<close> of the state as it was, whether it returns or raises.\<close>

definition frame :: "('s \<Rightarrow> 'p) \<Rightarrow> ('s, 'a) eff \<Rightarrow> bool" where
  "frame p m \<longleftrightarrow> (\<forall>s. p (fst (m s)) = p s)"

lemma frame_keeps: "frame p m \<Longrightarrow> keeps (\<lambda>s. I (p s)) m"
  by (simp add: frame_def keeps_def)

lemma frameD: "frame p m \<Longrightarrow> m s = (s', r) \<Longrightarrow> p s' = p s"
  by (metis frame_def fst_conv)

lemma frame_return [frame_intros]: "frame p (eff_return x)"
  by (simp add: frame_def eff_return_def)

lemma frame_raise [frame_intros]: "frame p (eff_raise e)"
  by (simp add: frame_def eff_raise_def)

lemma frame_lift [frame_intros]: "frame p (eff_lift r)"
  by (simp add: frame_def eff_lift_def)

lemma frame_modify [frame_intros]: "(\<And>s. p (f s) = p s) \<Longrightarrow> frame p (eff_modify f)"
  by (simp add: frame_def eff_modify_def)

lemma frame_bind [frame_intros]: "frame p m \<Longrightarrow> (\<And>x. frame p (f x)) \<Longrightarrow> frame p (eff_bind m f)"
  by (simp add: frame_def eff_bind_def split: prod.splits sum.splits) (metis fst_conv)

lemma frame_then [frame_intros]: "frame p m \<Longrightarrow> frame p n \<Longrightarrow> frame p (eff_then m n)"
  by (simp add: eff_then_def frame_bind)

lemma frame_seq [frame_intros]: "list_all (frame p) ms \<Longrightarrow> frame p (eff_seq ms)"
  by (induction ms) (auto intro: frame_intros)

lemma frame_for [frame_intros]: "(\<And>x. frame p (f x)) \<Longrightarrow> frame p (eff_for xs f)"
  by (induction xs) (auto intro: frame_intros)

lemma frame_when [frame_intros]: "frame p m \<Longrightarrow> frame p (eff_when b m)"
  by (simp add: eff_when_def frame_return)

lemma frame_get [frame_intros]: "(\<And>s. frame p (f s)) \<Longrightarrow> frame p (eff_get f)"
  by (simp add: frame_def eff_get_def)

lemma frame_if [frame_intros]: "frame p m \<Longrightarrow> frame p n \<Longrightarrow> frame p (if b then m else n)"
  by simp

lemma frame_option [frame_intros]:
  "frame p m \<Longrightarrow> (\<And>x. frame p (f x)) \<Longrightarrow> frame p (case v of None \<Rightarrow> m | Some x \<Rightarrow> f x)"
  by (cases v) simp_all

lemma frame_sum [frame_intros]:
  "(\<And>x. frame p (f x)) \<Longrightarrow> (\<And>x. frame p (g x)) \<Longrightarrow> frame p (case v of Inl x \<Rightarrow> f x | Inr x \<Rightarrow> g x)"
  by (cases v) simp_all

lemma frame_pair [frame_intros]: "(\<And>x y. frame p (f x y)) \<Longrightarrow> frame p (case v of (x, y) \<Rightarrow> f x y)"
  by (cases v) simp_all

lemma frame_error [frame_intros]:
  "(\<And>x. frame p (f1 x)) \<Longrightarrow> (\<And>x. frame p (f2 x)) \<Longrightarrow> (\<And>x. frame p (f3 x)) \<Longrightarrow> (\<And>x. frame p (f4 x)) \<Longrightarrow>
   (\<And>x. frame p (f5 x)) \<Longrightarrow> (\<And>x. frame p (f6 x)) \<Longrightarrow> (\<And>x. frame p (f7 x)) \<Longrightarrow> (\<And>x. frame p (f8 x)) \<Longrightarrow>
   (\<And>x. frame p (f9 x)) \<Longrightarrow> (\<And>x. frame p (f10 x)) \<Longrightarrow> (\<And>x. frame p (f11 x)) \<Longrightarrow> (\<And>x y. frame p (f12 x y)) \<Longrightarrow> (\<And>x. frame p (f13 x)) \<Longrightarrow>
   frame p (case_py_error f1 f2 f3 f4 f5 f6 f7 f8 f9 f10 f11 f12 f13 e)"
  by (cases e) simp_all

lemma frame_try [frame_intros]: "frame p m \<Longrightarrow> (\<And>e. frame p (h e)) \<Longrightarrow> frame p (eff_try m h)"
  by (simp add: frame_def eff_try_def split: prod.splits sum.splits) (metis fst_conv)

lemma frame_finally [frame_intros]: "frame p m \<Longrightarrow> frame p f \<Longrightarrow> frame p (eff_finally m f)"
  by (simp add: frame_def eff_finally_def split: prod.splits sum.splits) (metis fst_conv)

lemma eff_bind_assoc: "eff_bind (eff_bind m f) g = eff_bind m (\<lambda>x. eff_bind (f x) g)"
  by (rule ext) (simp add: eff_bind_def split: prod.split sum.split)

lemma eff_then_modify: "eff_then (eff_modify f) m s = m (f s)"
  by (simp add: eff_simps)

lemma eff_for_append: "eff_for (xs @ ys) f = eff_then (eff_for xs f) (eff_for ys f)"
proof (induction xs)
  case Nil
  show ?case by (simp add: eff_simps)
next
  case (Cons x xs)
  then show ?case
    by (auto simp: eff_simps fun_eq_iff split: prod.splits sum.splits)
qed

section \<open>Dictionaries\<close>

type_synonym 'v dict = "(string \<times> 'v) list"

abbreviation dict_set :: "'k \<Rightarrow> 'v \<Rightarrow> ('k \<times> 'v) list \<Rightarrow> ('k \<times> 'v) list" where
  "dict_set \<equiv> AList.update"

abbreviation dict_pop :: "'k \<Rightarrow> ('k \<times> 'v) list \<Rightarrow> ('k \<times> 'v) list" where
  "dict_pop \<equiv> AList.delete"

abbreviation dict_keys :: "('k \<times> 'v) list \<Rightarrow> 'k list" where
  "dict_keys d \<equiv> map fst d"

definition dict_get :: "('k \<times> 'v) list \<Rightarrow> 'k \<Rightarrow> 'v \<Rightarrow> 'v" where
  "dict_get d k v = (case map_of d k of Some x \<Rightarrow> x | None \<Rightarrow> v)"

text \<open>\<open>a.update(b)\<close>: every key of \<open>b\<close> in turn.\<close>

definition dict_update :: "('k \<times> 'v) list \<Rightarrow> ('k \<times> 'v) list \<Rightarrow> ('k \<times> 'v) list" where
  "dict_update a b = fold (\<lambda>(k, v). dict_set k v) b a"

text \<open>
  \<open>OrderedDict.move_to_end\<close> with a new value, and a row of a table under \<open>INSERT OR REPLACE\<close>: the
  old entry goes, the new one comes last.
\<close>

definition put_last :: "'k \<Rightarrow> 'v \<Rightarrow> ('k \<times> 'v) list \<Rightarrow> ('k \<times> 'v) list" where
  "put_last k v d = dict_pop k d @ [(k, v)]"

lemmas dict_lookup [py_dict, simp] = AList.update_conv' AList.delete_conv'

lemma dict_keys_set [py_dict]:
  "dict_keys (dict_set k v d) = (if k \<in> fst ` set d then dict_keys d else dict_keys d @ [k])"
  by (simp add: update_keys)

lemma distinct_dict_set [simp, py_dict]: "distinct (dict_keys d) \<Longrightarrow> distinct (dict_keys (dict_set k v d))"
  by (rule AList.distinct_update)

lemma distinct_dict_pop [simp, py_dict]: "distinct (dict_keys d) \<Longrightarrow> distinct (dict_keys (dict_pop k d))"
  by (rule AList.distinct_delete)

lemma dict_get_set [simp, py_dict]:
  "dict_get (dict_set k v d) k' w = (if k' = k then v else dict_get d k' w)"
  by (simp add: dict_get_def)

lemma dict_get_pop [simp, py_dict]:
  "dict_get (dict_pop k d) k' w = (if k' = k then w else dict_get d k' w)"
  by (simp add: dict_get_def)

lemma map_of_put_last [simp]: "map_of (put_last k v d) j = (if j = k then Some v else map_of d j)"
  by (simp add: put_last_def map_add_def split: option.splits)

lemma set_put_last: "set (put_last k v d) \<subseteq> insert (k, v) (set d)"
  by (auto simp: put_last_def AList.delete_eq)

lemma dict_keys_put_last_set: "set (dict_keys (put_last k v d)) = insert k (set (dict_keys d))"
  by (auto simp: put_last_def AList.delete_eq)

lemma distinct_put_last [simp]: "distinct (dict_keys d) \<Longrightarrow> distinct (dict_keys (put_last k v d))"
  by (auto simp: put_last_def AList.delete_eq distinct_map_filter)

text \<open>Several rows put in turn, under different keys.\<close>

lemma map_of_fold_put_last_notin:
  "i \<notin> k ` set xs \<Longrightarrow> map_of (fold (\<lambda>x. put_last (k x) (v x)) xs d) i = map_of d i"
  by (induction xs arbitrary: d) auto

lemma map_of_fold_put_last:
  "distinct (map k xs) \<Longrightarrow> x \<in> set xs \<Longrightarrow> map_of (fold (\<lambda>x. put_last (k x) (v x)) xs d) (k x) = Some (v x)"
  by (induction xs arbitrary: d) (auto simp: map_of_fold_put_last_notin)

lemma length_dict_pop_le: "length (dict_pop k d) \<le> length d"
  by (rule AList.length_delete_le)

lemma length_dict_set: "distinct (dict_keys d) \<Longrightarrow>
  length (dict_set k v d) = (if k \<in> fst ` set d then length d else Suc (length d))"
  by (metis dict_keys_set length_append_singleton length_map)

lemma dom_map_of_keys: "dom (map_of d) = set (dict_keys d)"
  by (simp add: dom_map_of_conv_image_fst)

lemma map_of_dict_update:
  "map_of (dict_update a b) x = (map_of a ++ map_of (rev b)) x"
  unfolding dict_update_def
proof (induction b arbitrary: a)
  case Nil
  show ?case by simp
next
  case (Cons p b)
  obtain k v where p: "p = (k, v)" by (cases p)
  show ?case
    by (simp add: p Cons.IH) (simp add: map_add_def map_of_append split: option.splits)
qed

lemma distinct_dict_update [simp]:
  "distinct (dict_keys a) \<Longrightarrow> distinct (dict_keys (dict_update a b))"
  unfolding dict_update_def
  by (induction b arbitrary: a) (auto simp: distinct_dict_set split: prod.splits)

lemma dict_get_notin [simp]: "k \<notin> fst ` set d \<Longrightarrow> dict_get d k v = v"
  by (auto simp: dict_get_def dest: map_of_SomeD split: option.splits) (force dest: map_of_SomeD)

lemma dict_set_fresh: "k \<notin> fst ` set d \<Longrightarrow> dict_set k v d = d @ [(k, v)]"
  by (induction d) auto

lemma set_dict_set: "set (dict_set k v d) \<subseteq> insert (k, v) (set d)"
  by (induction d) auto

lemma dict_set_values: "snd ` set (dict_set k v d) \<subseteq> insert v (snd ` set d)"
  by (induction d) auto

text \<open>A sum over the values of a dictionary, under its updates.\<close>

definition dict_sum :: "('v \<Rightarrow> 'a::ab_group_add) \<Rightarrow> ('k \<times> 'v) list \<Rightarrow> 'a" where
  "dict_sum f d = sum_list (map (f \<circ> snd) d)"

lemma dict_sum_set:
  "distinct (dict_keys d) \<Longrightarrow>
   dict_sum f (dict_set k v d) = dict_sum f d - (case map_of d k of Some w \<Rightarrow> f w | None \<Rightarrow> 0) + f v"
proof (induction d)
  case Nil
  show ?case by (simp add: dict_sum_def)
next
  case (Cons p d)
  obtain j w where p: "p = (j, w)" by (cases p)
  show ?case
  proof (cases "j = k")
    case True
    then show ?thesis by (simp add: p dict_sum_def)
  next
    case False
    with Cons show ?thesis by (simp add: p dict_sum_def algebra_simps)
  qed
qed

lemma dict_sum_nonneg:
  fixes f :: "'v \<Rightarrow> 'a::linordered_field"
  assumes "\<And>v. v \<in> snd ` set d \<Longrightarrow> 0 \<le> f v"
  shows "0 \<le> dict_sum f d"
proof -
  have "0 \<le> x" if "x \<in> set (map (f \<circ> snd) d)" for x using assms that by auto
  then show ?thesis unfolding dict_sum_def by (rule sum_list_nonneg)
qed

lemma dict_sum_member_le:
  fixes f :: "'v \<Rightarrow> 'a::linordered_idom"
  assumes "map_of d k = Some v" and "\<And>v. v \<in> snd ` set d \<Longrightarrow> 0 \<le> f v"
  shows "f v \<le> dict_sum f d"
proof -
  have "(k, v) \<in> set d" using assms(1) by (rule map_of_SomeD)
  then have "f v \<in> set (map (f \<circ> snd) d)" by force
  moreover have "\<And>x. x \<in> set (map (f \<circ> snd) d) \<Longrightarrow> 0 \<le> x" using assms(2) by auto
  ultimately show ?thesis unfolding dict_sum_def by (rule member_le_sum_list)
qed

section \<open>Lists\<close>

text \<open>\<open>list(dict.fromkeys(xs))\<close>: first occurrences, in order.\<close>

fun dedup_aux :: "'a list \<Rightarrow> 'a list \<Rightarrow> 'a list" where
  "dedup_aux seen [] = []"
| "dedup_aux seen (x # xs) = (if x \<in> set seen then dedup_aux seen xs else x # dedup_aux (x # seen) xs)"

definition dedup :: "'a list \<Rightarrow> 'a list" where
  "dedup xs = dedup_aux [] xs"

lemma set_dedup_aux: "set (dedup_aux seen xs) = set xs - set seen"
  by (induction seen xs rule: dedup_aux.induct) auto

lemma set_dedup [simp]: "set (dedup xs) = set xs"
  by (simp add: dedup_def set_dedup_aux)

lemma distinct_dedup_aux: "distinct (dedup_aux seen xs)"
  by (induction seen xs rule: dedup_aux.induct) (auto simp: set_dedup_aux)

lemma distinct_dedup [simp]: "distinct (dedup xs)"
  by (simp add: dedup_def distinct_dedup_aux)

lemma set_remove1_distinct [simp]: "distinct xs \<Longrightarrow> set (remove1 x xs) = set xs - {x}"
  by (rule set_remove1_eq)

lemma sum_list_map_remove1:
  fixes f :: "'a \<Rightarrow> 'b::ab_group_add"
  shows "x \<in> set xs \<Longrightarrow> sum_list (map f (remove1 x xs)) = sum_list (map f xs) - f x"
  by (induction xs) auto

section \<open>Decimal printing\<close>

definition digit_char :: "nat \<Rightarrow> char" where
  "digit_char d = char_of (48 + d)"

fun nat_str :: "nat \<Rightarrow> string" where
  "nat_str n = (if n < 10 then [digit_char n] else nat_str (n div 10) @ [digit_char (n mod 10)])"

declare nat_str.simps [simp del]

definition int_str :: "int \<Rightarrow> string" where
  "int_str i = (if i < 0 then CHR ''-'' # nat_str (nat (- i)) else nat_str (nat i))"

definition digit_val :: "char \<Rightarrow> nat" where
  "digit_val c = of_char c - 48"

definition str_val :: "string \<Rightarrow> nat" where
  "str_val s = foldl (\<lambda>n c. 10 * n + digit_val c) 0 s"

lemma digit_val_char [simp]: "d < 10 \<Longrightarrow> digit_val (digit_char d) = d"
  by (simp add: digit_val_def digit_char_def)

lemma str_val_nat_str [simp]: "str_val (nat_str n) = n"
proof (induction n rule: nat_str.induct)
  case (1 n)
  show ?case
  proof (cases "n < 10")
    case True
    then show ?thesis by (subst nat_str.simps) (simp add: str_val_def)
  next
    case False
    with 1 have "str_val (nat_str (n div 10)) = n div 10" by simp
    with False show ?thesis
      by (subst nat_str.simps) (simp add: str_val_def)
  qed
qed

lemma nat_str_inject [simp]: "nat_str m = nat_str n \<longleftrightarrow> m = n"
  by (metis str_val_nat_str)

lemma nat_str_nonempty [simp]: "nat_str n \<noteq> []"
  by (subst nat_str.simps) simp

section \<open>Rounding\<close>

text \<open>\<open>round(x, n)\<close>: to \<open>n\<close> decimals, ties to the even digit.\<close>

definition round_half_even :: "rat \<Rightarrow> int" where
  "round_half_even r =
     (let f = \<lfloor>r\<rfloor>; d = r - of_int f
      in if d < 1 / 2 then f else if d > 1 / 2 then f + 1 else if even f then f else f + 1)"

definition py_round :: "nat \<Rightarrow> rat \<Rightarrow> rat" where
  "py_round n r = of_int (round_half_even (r * 10 ^ n)) / 10 ^ n"

lemma round_half_even_of_int [simp]: "round_half_even (of_int i) = i"
  by (simp add: round_half_even_def)

lemma round_half_even_mono:
  assumes "x \<le> y" shows "round_half_even x \<le> round_half_even y"
proof (cases "\<lfloor>x\<rfloor> = \<lfloor>y\<rfloor>")
  case True
  with assms show ?thesis by (auto simp: round_half_even_def Let_def)
next
  case False
  with floor_mono[OF assms] have "\<lfloor>x\<rfloor> + 1 \<le> \<lfloor>y\<rfloor>" by simp
  then show ?thesis by (auto simp: round_half_even_def Let_def)
qed

lemma py_round_mono: "x \<le> y \<Longrightarrow> py_round n x \<le> py_round n y"
  by (auto simp: py_round_def intro!: divide_right_mono round_half_even_mono mult_right_mono)

end
