(* ===== verification/Task_Model.thy ===== *)
theory Task_Model
  imports Py_Json
begin

text \<open>
  \<open>aruntime/core/models.py\<close>: the data model of the runtime and the task state machine.

  Every \<open>BaseModel\<close> is a record with the source's fields. \<open>TaskSpec\<close> mirrors the fields of its
  control block \<open>tcb\<close>; \<open>sync_from_tcb\<close> copies them back after each operation. Clock readings
  (\<open>datetime.now()\<close>) are arguments, in microseconds; the \<open>_ms\<close> fields are rationals.
  \<open>model_fields_set\<close> is read by the program for one field only, kept as \<open>ts_failure_policy_set\<close>.
\<close>

section \<open>Enumerations\<close>

datatype AgentStatus =
    AS_CREATED | AS_READY | AS_RUNNING | AS_WAITING | AS_FAILED | AS_COMPLETED
  | AS_SUSPENDED | AS_ISOLATED | AS_RECOVERING | AS_LOST | AS_KILLED

datatype TaskStatus =
    TS_PENDING | TS_READY | TS_RUNNING | TS_BLOCKED | TS_ORPHANED | TS_TIMEOUT
  | TS_RETRYING | TS_FALLBACK | TS_SUCCESS | TS_FAILED | TS_CANCELLED

datatype SideEffectLevel = SE_NONE | SE_FILE_WRITE | SE_NETWORK | SE_EXTERNAL_API

datatype AgentBackendType = NATIVE_PLANNER | CODEX_CLI | DIRECT_TOOL | LEGACY_LLM

datatype FailureMode = RETRY | FALLBACK | DEGRADE | FAIL_OPEN | FAIL_CLOSED

instantiation AgentStatus :: enum
begin

definition enum_AgentStatus :: "AgentStatus list" where
  "enum_AgentStatus =
     [AS_CREATED, AS_READY, AS_RUNNING, AS_WAITING, AS_FAILED, AS_COMPLETED,
      AS_SUSPENDED, AS_ISOLATED, AS_RECOVERING, AS_LOST, AS_KILLED]"

definition enum_all_AgentStatus :: "(AgentStatus \<Rightarrow> bool) \<Rightarrow> bool" where
  "enum_all_AgentStatus P = list_all P Enum.enum"

definition enum_ex_AgentStatus :: "(AgentStatus \<Rightarrow> bool) \<Rightarrow> bool" where
  "enum_ex_AgentStatus P = list_ex P Enum.enum"

instance
proof
  show univ: "(UNIV :: AgentStatus set) = set Enum.enum"
    by (auto simp: enum_AgentStatus_def intro: AgentStatus.exhaust)
  show "distinct (Enum.enum :: AgentStatus list)"
    by (simp add: enum_AgentStatus_def)
  show "Enum.enum_all P = Ball (UNIV :: AgentStatus set) P" for P
    using univ by (simp add: enum_all_AgentStatus_def list_all_iff)
  show "Enum.enum_ex P = Bex (UNIV :: AgentStatus set) P" for P
    using univ by (simp add: enum_ex_AgentStatus_def list_ex_iff)
qed

end

instantiation TaskStatus :: enum
begin

definition enum_TaskStatus :: "TaskStatus list" where
  "enum_TaskStatus =
     [TS_PENDING, TS_READY, TS_RUNNING, TS_BLOCKED, TS_ORPHANED, TS_TIMEOUT,
      TS_RETRYING, TS_FALLBACK, TS_SUCCESS, TS_FAILED, TS_CANCELLED]"

definition enum_all_TaskStatus :: "(TaskStatus \<Rightarrow> bool) \<Rightarrow> bool" where
  "enum_all_TaskStatus P = list_all P Enum.enum"

definition enum_ex_TaskStatus :: "(TaskStatus \<Rightarrow> bool) \<Rightarrow> bool" where
  "enum_ex_TaskStatus P = list_ex P Enum.enum"

instance
proof
  show univ: "(UNIV :: TaskStatus set) = set Enum.enum"
    by (auto simp: enum_TaskStatus_def intro: TaskStatus.exhaust)
  show "distinct (Enum.enum :: TaskStatus list)"
    by (simp add: enum_TaskStatus_def)
  show "Enum.enum_all P = Ball (UNIV :: TaskStatus set) P" for P
    using univ by (simp add: enum_all_TaskStatus_def list_all_iff)
  show "Enum.enum_ex P = Bex (UNIV :: TaskStatus set) P" for P
    using univ by (simp add: enum_ex_TaskStatus_def list_ex_iff)
qed

end

fun failure_mode_value :: "FailureMode \<Rightarrow> string" where
  "failure_mode_value RETRY = ''retry''"
| "failure_mode_value FALLBACK = ''fallback''"
| "failure_mode_value DEGRADE = ''degrade''"
| "failure_mode_value FAIL_OPEN = ''fail_open''"
| "failure_mode_value FAIL_CLOSED = ''fail_closed''"

fun task_status_value :: "TaskStatus \<Rightarrow> string" where
  "task_status_value TS_PENDING = ''PENDING''"
| "task_status_value TS_READY = ''READY''"
| "task_status_value TS_RUNNING = ''RUNNING''"
| "task_status_value TS_BLOCKED = ''BLOCKED''"
| "task_status_value TS_ORPHANED = ''ORPHANED''"
| "task_status_value TS_TIMEOUT = ''TIMEOUT''"
| "task_status_value TS_RETRYING = ''RETRYING''"
| "task_status_value TS_FALLBACK = ''FALLBACK''"
| "task_status_value TS_SUCCESS = ''SUCCESS''"
| "task_status_value TS_FAILED = ''FAILED''"
| "task_status_value TS_CANCELLED = ''CANCELLED''"

fun backend_value :: "AgentBackendType \<Rightarrow> string" where
  "backend_value NATIVE_PLANNER = ''native_planner''"
| "backend_value CODEX_CLI = ''codex_cli''"
| "backend_value DIRECT_TOOL = ''direct_tool''"
| "backend_value LEGACY_LLM = ''legacy_llm''"

section \<open>Records\<close>

type_synonym usec = int

text \<open>A \<open>datetime\<close> that may carry a time zone: local microseconds and the offset from UTC.\<close>

datatype py_datetime = DT usec "usec option"

record AgentBackendConfig =
  be_type :: AgentBackendType
  be_model :: "string option"
  be_executable :: string
  be_sandbox :: string
  be_approval_policy :: string
  be_timeout_s :: int
  be_ephemeral :: bool
  be_output_schema :: "string option"
  be_max_inspection_files :: int
  be_max_inspection_rounds :: int

definition validate_backend :: "AgentBackendConfig \<Rightarrow> py_error + AgentBackendConfig" where
  "validate_backend c =
     (if be_type c = CODEX_CLI \<and> be_sandbox c = ''danger-full-access''
      then Inl (ValueError ''danger-full-access is disabled by default'')
      else Inr c)"

record WorkspaceSpec =
  ws_source_repo :: string
  ws_base_ref :: string
  ws_base_commit :: "string option"
  ws_workspace_id :: "string option"
  ws_workspace_path :: "string option"
  ws_read_only :: bool
  ws_retain_on_failure :: bool

record ArtifactReference =
  ar_artifact_id :: string
  ar_artifact_type :: string
  ar_path :: string
  ar_sha256 :: string
  ar_size_bytes :: int
  ar_task_id :: string
  ar_attempt_id :: string
  ar_created_at :: usec
  ar_metadata :: jdict

record AgentCapability =
  cap_can_plan :: bool
  cap_can_code :: bool
  cap_can_test :: bool
  cap_can_review :: bool
  cap_tools :: "string list"
  cap_languages :: "string list"
  cap_cost_level :: int
  cap_reliability_score :: rat

record FailurePolicy =
  fp_mode :: FailureMode
  fp_max_retries :: int
  fp_fallback_agent :: "string option"
  fp_timeout_ms :: int

definition default_failure_policy :: FailurePolicy where
  "default_failure_policy =
     \<lparr>fp_mode = FAIL_OPEN, fp_max_retries = 0, fp_fallback_agent = None, fp_timeout_ms = 120000\<rparr>"

record TaskDefinition =
  td_agent_name :: "string option"
  td_task_input :: jdict
  td_dependencies :: "string list"
  td_priority :: int
  td_resource_request :: jdict

record TaskQueueInfo =
  qi_scheduler_decision_reason :: string
  qi_resource_block_reason :: string
  qi_queue_wait_ms :: "rat option"

record TaskAttempt =
  at_attempt_id :: string
  at_worker_pid :: "int option"
  at_agent_name :: string
  at_status :: string
  at_failure_reason :: string
  at_token_usage :: jdict
  at_result :: "jdict option"
  at_started_at :: usec
  at_completed_at :: "usec option"
  at_backend_type :: string
  at_backend_session_id :: "string option"
  at_backend_run_id :: "string option"
  at_backend_pid :: "int option"
  at_workspace_id :: "string option"
  at_workspace_path :: "string option"
  at_base_commit :: "string option"
  at_resumed_from_attempt :: "string option"
  at_recovery_context_id :: "string option"
  at_exit_code :: "int option"
  at_artifacts :: "ArtifactReference list"

record TaskControlBlock =
  tcb_task_id :: string
  tcb_state :: TaskStatus
  tcb_queue_info :: TaskQueueInfo
  tcb_resource_lease :: "jdict option"
  tcb_trace_id :: string
  tcb_current_attempt :: nat
  tcb_created_at :: usec
  tcb_started_at :: "usec option"
  tcb_completed_at :: "usec option"
  tcb_agent_runtime_ms :: "rat option"

record TaskSpec =
  ts_task_id :: string
  ts_agent_name :: "string option"
  ts_task_input :: jdict
  ts_context_id :: "string option"
  ts_priority :: int
  ts_deadline :: "py_datetime option"
  ts_resource_request :: jdict
  ts_resource_usage :: jdict
  ts_resource_lease :: "jdict option"
  ts_token_budget :: "int option"
  ts_timeout :: "rat option"
  ts_timeout_ms :: "int option"
  ts_parent_task_id :: "string option"
  ts_root_task_id :: "string option"
  ts_task_role :: "string option"
  ts_required_backend :: "AgentBackendType option"
  ts_workspace :: "WorkspaceSpec option"
  ts_children :: "string list"
  ts_trace_id :: string
  ts_dependencies :: "string list"
  ts_dependency_failure_policies :: "FailureMode dict"
  ts_failure_policy :: FailurePolicy
  ts_required_capability :: jdict
  ts_idempotency_key :: "string option"
  ts_side_effect_level :: SideEffectLevel
  ts_compensation :: jdict
  ts_status :: TaskStatus
  ts_result :: "jdict option"
  ts_error :: "string option"
  ts_llm_usage :: jdict
  ts_created_at :: usec
  ts_started_at :: "usec option"
  ts_completed_at :: "usec option"
  ts_queue_wait_ms :: "rat option"
  ts_scheduler_decision_reason :: string
  ts_resource_block_reason :: string
  ts_agent_runtime_ms :: "rat option"
  ts_definition :: "TaskDefinition option"
  ts_tcb :: "TaskControlBlock option"
  ts_attempts :: "TaskAttempt list"
  ts_failure_policy_set :: bool

record AgentSpec =
  ag_agent_name :: string
  ag_role :: string
  ag_system_prompt :: string
  ag_model :: string
  ag_capability :: AgentCapability
  ag_backend :: AgentBackendConfig
  ag_failure_policy :: FailurePolicy
  ag_status :: AgentStatus
  ag_current_task_id :: "string option"
  ag_created_at :: usec
  ag_updated_at :: usec
  ag_max_retries :: int
  ag_restart_budget :: int
  ag_fault_domain :: "string option"
  ag_memory_max_bytes :: "int option"
  ag_memory_high_bytes :: "int option"
  ag_cpu_max :: "string option"
  ag_pids_max :: "int option"
  ag_llm_max_concurrent :: int
  ag_token_quota :: "int option"

section \<open>Failure policies\<close>

text \<open>\<open>str.replace("-", "_")\<close>.\<close>

definition dash_to_underscore :: "string \<Rightarrow> string" where
  "dash_to_underscore s = map (\<lambda>c. if c = CHR ''-'' then CHR ''_'' else c) s"

text \<open>\<open>FailureMode(v)\<close>: the member with that value, or \<open>ValueError\<close>.\<close>

definition failure_mode_of :: "string \<Rightarrow> py_error + FailureMode" where
  "failure_mode_of s =
     (if s = ''retry'' then Inr RETRY
      else if s = ''fallback'' then Inr FALLBACK
      else if s = ''degrade'' then Inr DEGRADE
      else if s = ''fail_open'' then Inr FAIL_OPEN
      else if s = ''fail_closed'' then Inr FAIL_CLOSED
      else Inl (ValueError ''not a valid FailureMode''))"

text \<open>What a caller may pass for a mode: an enumeration member, a string, or anything else.\<close>

datatype raw_mode = RawEnum FailureMode | RawStr string | RawOther json

fun normalize_mode :: "raw_mode \<Rightarrow> py_error + FailureMode" where
  "normalize_mode (RawEnum m) = Inr m"
| "normalize_mode (RawStr v) =
     (let normalized = dash_to_underscore v
      in if normalized = ''isolate'' then Inr FAIL_OPEN else failure_mode_of normalized)"
| "normalize_mode (RawOther v) = Inl (ValueError ''Input should be a valid mode'')"

datatype raw_policy = RawPolicy FailurePolicy | RawDict jdict | RawMode raw_mode | RawNone

text \<open>\<open>FailurePolicy.from_legacy\<close>; \<open>mk\<close> is the model constructor applied to a keyword dictionary.\<close>

fun from_legacy :: "(jdict \<Rightarrow> py_error + FailurePolicy) \<Rightarrow> raw_policy \<Rightarrow> py_error + FailurePolicy" where
  "from_legacy mk (RawPolicy p) = Inr p"
| "from_legacy mk (RawDict d) = mk d"
| "from_legacy mk (RawMode m) =
     (case normalize_mode m of
        Inl e \<Rightarrow> (case m of RawOther _ \<Rightarrow> Inr default_failure_policy | _ \<Rightarrow> Inl e)
      | Inr md \<Rightarrow> Inr (default_failure_policy\<lparr>fp_mode := md\<rparr>))"
| "from_legacy mk RawNone = Inr default_failure_policy"

definition normalize_edge_mode :: "raw_mode \<Rightarrow> py_error + FailureMode" where
  "normalize_edge_mode m =
     (case m of
        RawEnum md \<Rightarrow> Inr md
      | RawStr v \<Rightarrow> failure_mode_of (dash_to_underscore v)
      | RawOther v \<Rightarrow> Inl (ValueError ''not a valid FailureMode''))"

fun normalize_dependency_failure_policies ::
    "(string \<times> raw_mode) list \<Rightarrow> py_error + FailureMode dict" where
  "normalize_dependency_failure_policies [] = Inr []"
| "normalize_dependency_failure_policies ((dep_id, m) # rest) =
     (case normalize_edge_mode m of
        Inl e \<Rightarrow> Inl e
      | Inr md \<Rightarrow>
          (case normalize_dependency_failure_policies rest of
             Inl e \<Rightarrow> Inl e
           | Inr d \<Rightarrow> Inr ((dep_id, md) # d)))"

section \<open>The task control block\<close>

fun tcb_allowed :: "TaskStatus \<Rightarrow> TaskStatus set" where
  "tcb_allowed TS_PENDING = {TS_READY, TS_BLOCKED, TS_FAILED, TS_CANCELLED}"
| "tcb_allowed TS_READY = {TS_PENDING, TS_RUNNING, TS_BLOCKED, TS_FAILED, TS_CANCELLED}"
| "tcb_allowed TS_RUNNING =
     {TS_PENDING, TS_ORPHANED, TS_TIMEOUT, TS_RETRYING, TS_FALLBACK, TS_SUCCESS, TS_FAILED, TS_CANCELLED}"
| "tcb_allowed TS_BLOCKED = {TS_PENDING, TS_READY, TS_FAILED, TS_CANCELLED}"
| "tcb_allowed TS_ORPHANED = {TS_READY, TS_RETRYING, TS_FAILED, TS_CANCELLED}"
| "tcb_allowed TS_TIMEOUT = {TS_RETRYING, TS_FALLBACK, TS_FAILED, TS_CANCELLED}"
| "tcb_allowed TS_RETRYING = {TS_READY, TS_RUNNING, TS_FAILED, TS_CANCELLED}"
| "tcb_allowed TS_FALLBACK = {TS_READY, TS_RUNNING, TS_FAILED, TS_CANCELLED}"
| "tcb_allowed TS_SUCCESS = {}"
| "tcb_allowed TS_FAILED = {TS_READY}"
| "tcb_allowed TS_CANCELLED = {}"

text \<open>\<open>round((b - a).total_seconds() * 1000, 3)\<close>: microseconds are whole thousandths of a millisecond.\<close>

definition elapsed_ms :: "usec \<Rightarrow> usec \<Rightarrow> rat" where
  "elapsed_ms a b = of_int (b - a) / 1000"

definition tcb_may :: "TaskStatus \<Rightarrow> TaskStatus \<Rightarrow> bool" where
  "tcb_may s s' \<longleftrightarrow> s' = s \<or> s' \<in> tcb_allowed s"

text \<open>The assignments of \<open>transition_to\<close> after its guard, in order.\<close>

definition tcb_enter :: "usec \<Rightarrow> TaskStatus \<Rightarrow> string \<Rightarrow> TaskControlBlock \<Rightarrow> TaskControlBlock" where
  "tcb_enter now state reason t =
     (let t1 = t\<lparr>tcb_state := state\<rparr>;
          t2 = (if state = TS_RUNNING \<and> tcb_started_at t1 = None
                then t1\<lparr>tcb_started_at := Some now,
                         tcb_queue_info := (tcb_queue_info t1)
                           \<lparr>qi_queue_wait_ms := Some (elapsed_ms (tcb_created_at t1) now)\<rparr>\<rparr>
                else t1);
          t3 = (if state \<in> {TS_SUCCESS, TS_FAILED, TS_CANCELLED, TS_TIMEOUT}
                then t2\<lparr>tcb_completed_at := Some now,
                         tcb_agent_runtime_ms :=
                           Some (elapsed_ms (case tcb_started_at t2 of Some st \<Rightarrow> st | None \<Rightarrow> tcb_created_at t2) now)\<rparr>
                else t2)
      in if reason \<noteq> [] then t3\<lparr>tcb_queue_info := (tcb_queue_info t3)\<lparr>qi_scheduler_decision_reason := reason\<rparr>\<rparr>
         else t3)"

definition tcb_transition_to :: "usec \<Rightarrow> TaskStatus \<Rightarrow> string \<Rightarrow> (TaskControlBlock, unit) eff" where
  "tcb_transition_to now state reason =
     eff_get (\<lambda>t. if \<not> tcb_may (tcb_state t) state
                  then eff_raise (ValueError ''invalid task transition'')
                  else eff_modify (tcb_enter now state reason))"

definition tcb_block :: "usec \<Rightarrow> string \<Rightarrow> (TaskControlBlock, unit) eff" where
  "tcb_block now reason =
     eff_then (tcb_transition_to now TS_BLOCKED ''resource_blocked'')
       (eff_modify (\<lambda>t. t\<lparr>tcb_queue_info := (tcb_queue_info t)\<lparr>qi_resource_block_reason := reason\<rparr>\<rparr>))"

definition tcb_unblock :: "usec \<Rightarrow> string \<Rightarrow> (TaskControlBlock, unit) eff" where
  "tcb_unblock now reason =
     eff_then (eff_modify (\<lambda>t. t\<lparr>tcb_queue_info := (tcb_queue_info t)\<lparr>qi_resource_block_reason := []\<rparr>\<rparr>))
       (tcb_transition_to now TS_READY reason)"

section \<open>Task operations\<close>

definition sync_from_tcb :: "TaskSpec \<Rightarrow> TaskSpec" where
  "sync_from_tcb t =
     (case ts_tcb t of
        None \<Rightarrow> t
      | Some c \<Rightarrow> t\<lparr>
          ts_status := tcb_state c,
          ts_trace_id := tcb_trace_id c,
          ts_created_at := tcb_created_at c,
          ts_started_at := tcb_started_at c,
          ts_completed_at := tcb_completed_at c,
          ts_resource_lease := tcb_resource_lease c,
          ts_agent_runtime_ms := tcb_agent_runtime_ms c,
          ts_queue_wait_ms := qi_queue_wait_ms (tcb_queue_info c),
          ts_scheduler_decision_reason := qi_scheduler_decision_reason (tcb_queue_info c),
          ts_resource_block_reason := qi_resource_block_reason (tcb_queue_info c)\<rparr>)"

definition tcb_of_task :: "TaskSpec \<Rightarrow> TaskControlBlock" where
  "tcb_of_task t =
     \<lparr>tcb_task_id = ts_task_id t,
      tcb_state = ts_status t,
      tcb_queue_info =
        \<lparr>qi_scheduler_decision_reason = ts_scheduler_decision_reason t,
         qi_resource_block_reason = ts_resource_block_reason t,
         qi_queue_wait_ms = ts_queue_wait_ms t\<rparr>,
      tcb_resource_lease = ts_resource_lease t,
      tcb_trace_id = ts_trace_id t,
      tcb_current_attempt = 0,
      tcb_created_at = ts_created_at t,
      tcb_started_at = ts_started_at t,
      tcb_completed_at = ts_completed_at t,
      tcb_agent_runtime_ms = ts_agent_runtime_ms t\<rparr>"

definition model_post_init :: "TaskSpec \<Rightarrow> TaskSpec" where
  "model_post_init t =
     (let t1 = (case ts_root_task_id t of None \<Rightarrow> t\<lparr>ts_root_task_id := Some (ts_task_id t)\<rparr> | Some _ \<Rightarrow> t);
          t2 = (case ts_definition t1 of
                  None \<Rightarrow> t1\<lparr>ts_definition := Some
                     \<lparr>td_agent_name = ts_agent_name t1, td_task_input = ts_task_input t1,
                      td_dependencies = ts_dependencies t1, td_priority = ts_priority t1,
                      td_resource_request = ts_resource_request t1\<rparr>\<rparr>
                | Some _ \<Rightarrow> t1);
          t3 = (case ts_tcb t2 of None \<Rightarrow> t2\<lparr>ts_tcb := Some (tcb_of_task t2)\<rparr> | Some _ \<Rightarrow> t2)
      in sync_from_tcb t3)"

text \<open>\<open>if self.tcb is None: self.model_post_init(None)\<close>: the control block and the task holding it.\<close>

definition ensure_tcb :: "TaskSpec \<Rightarrow> TaskControlBlock \<times> TaskSpec" where
  "ensure_tcb t =
     (case ts_tcb t of
        Some c \<Rightarrow> (c, t)
      | None \<Rightarrow> (let t' = model_post_init t in (case ts_tcb t' of Some c \<Rightarrow> c | None \<Rightarrow> tcb_of_task t, t')))"

text \<open>The shape shared by \<open>transition_to\<close>, \<open>block\<close> and \<open>unblock\<close>: call the block, then copy back.\<close>

definition via_tcb :: "(TaskControlBlock, unit) eff \<Rightarrow> (TaskSpec, unit) eff" where
  "via_tcb m = (\<lambda>t. let (c, t1) = ensure_tcb t in
     (case m c of
        (c', Inl e) \<Rightarrow> (t1\<lparr>ts_tcb := Some c'\<rparr>, Inl e)
      | (c', Inr u) \<Rightarrow> (sync_from_tcb (t1\<lparr>ts_tcb := Some c'\<rparr>), Inr ())))"

definition transition_to :: "usec \<Rightarrow> TaskStatus \<Rightarrow> string \<Rightarrow> (TaskSpec, unit) eff" where
  "transition_to now status reason = via_tcb (tcb_transition_to now status reason)"

definition block :: "usec \<Rightarrow> string \<Rightarrow> (TaskSpec, unit) eff" where
  "block now reason = via_tcb (tcb_block now reason)"

definition unblock :: "usec \<Rightarrow> string \<Rightarrow> (TaskSpec, unit) eff" where
  "unblock now reason = via_tcb (tcb_unblock now reason)"

definition set_resource_lease :: "jdict option \<Rightarrow> TaskSpec \<Rightarrow> TaskSpec" where
  "set_resource_lease lease t =
     (let (c, t1) = ensure_tcb t
      in t1\<lparr>ts_tcb := Some (c\<lparr>tcb_resource_lease := lease\<rparr>), ts_resource_lease := lease\<rparr>)"

definition attempt_id_of :: "string \<Rightarrow> nat \<Rightarrow> string" where
  "attempt_id_of task_id n = task_id @ '':attempt:'' @ nat_str n"

definition create_attempt :: "usec \<Rightarrow> string \<Rightarrow> int option \<Rightarrow> TaskSpec \<Rightarrow> TaskSpec \<times> TaskAttempt" where
  "create_attempt now agent_name worker_pid t =
     (let (c, t1) = ensure_tcb t;
          n = Suc (tcb_current_attempt c);
          a = \<lparr>at_attempt_id = attempt_id_of (ts_task_id t1) n,
               at_worker_pid = worker_pid,
               at_agent_name = agent_name,
               at_status = ''RUNNING'',
               at_failure_reason = [],
               at_token_usage = [],
               at_result = None,
               at_started_at = now,
               at_completed_at = None,
               at_backend_type = (case ts_required_backend t1 of Some b \<Rightarrow> backend_value b | None \<Rightarrow> []),
               at_backend_session_id = None,
               at_backend_run_id = None,
               at_backend_pid = None,
               at_workspace_id = Option.bind (ts_workspace t1) ws_workspace_id,
               at_workspace_path = Option.bind (ts_workspace t1) ws_workspace_path,
               at_base_commit = Option.bind (ts_workspace t1) ws_base_commit,
               at_resumed_from_attempt = None,
               at_recovery_context_id = None,
               at_exit_code = None,
               at_artifacts = []\<rparr>
      in (t1\<lparr>ts_tcb := Some (c\<lparr>tcb_current_attempt := n\<rparr>), ts_attempts := ts_attempts t1 @ [a]\<rparr>, a))"

definition active_attempt :: "TaskSpec \<Rightarrow> TaskAttempt option" where
  "active_attempt t = List.find (\<lambda>a. at_completed_at a = None) (rev (ts_attempts t))"

definition finish_attempt_obj ::
    "usec \<Rightarrow> jdict option \<Rightarrow> string \<Rightarrow> jdict option \<Rightarrow> TaskAttempt \<Rightarrow> TaskAttempt" where
  "finish_attempt_obj now result failure_reason token_usage a =
     a\<lparr>at_completed_at := Some now,
       at_result := result,
       at_failure_reason := failure_reason,
       at_token_usage := (case token_usage of Some d \<Rightarrow> d | None \<Rightarrow> []),
       at_status := (if failure_reason \<noteq> [] then ''FAILED'' else ''SUCCESS'')\<rparr>"

text \<open>The attempt object is shared with the task's list; it is addressed by its identifier.\<close>

definition finish_attempt ::
    "usec \<Rightarrow> string \<Rightarrow> jdict option \<Rightarrow> string \<Rightarrow> jdict option \<Rightarrow> TaskSpec \<Rightarrow> TaskSpec" where
  "finish_attempt now attempt_id result failure_reason token_usage t =
     t\<lparr>ts_attempts :=
         map (\<lambda>a. if at_attempt_id a = attempt_id
                  then finish_attempt_obj now result failure_reason token_usage a else a)
           (ts_attempts t)\<rparr>"

section \<open>Construction with the defaults of the class\<close>

text \<open>
  \<open>TaskSpec(task_id=.., agent_name=.., task_input=.., dependencies=..)\<close>; the generated
  \<open>trace_id\<close> and the clock reading are arguments.
\<close>

definition raw_task :: "string \<Rightarrow> string option \<Rightarrow> jdict \<Rightarrow> string list \<Rightarrow> string \<Rightarrow> usec \<Rightarrow> TaskSpec" where
  "raw_task task_id agent_name task_input deps trace_id now =
     \<lparr>ts_task_id = task_id, ts_agent_name = agent_name, ts_task_input = task_input,
      ts_context_id = None, ts_priority = 0, ts_deadline = None, ts_resource_request = [],
      ts_resource_usage = [], ts_resource_lease = None, ts_token_budget = None, ts_timeout = None,
      ts_timeout_ms = None, ts_parent_task_id = None, ts_root_task_id = None, ts_task_role = None,
      ts_required_backend = None, ts_workspace = None, ts_children = [], ts_trace_id = trace_id,
      ts_dependencies = deps, ts_dependency_failure_policies = [],
      ts_failure_policy = default_failure_policy, ts_required_capability = [],
      ts_idempotency_key = None, ts_side_effect_level = SE_NONE, ts_compensation = [],
      ts_status = TS_PENDING, ts_result = None, ts_error = None, ts_llm_usage = [],
      ts_created_at = now, ts_started_at = None, ts_completed_at = None, ts_queue_wait_ms = None,
      ts_scheduler_decision_reason = [], ts_resource_block_reason = [], ts_agent_runtime_ms = None,
      ts_definition = None, ts_tcb = None, ts_attempts = [], ts_failure_policy_set = False\<rparr>"

definition new_task :: "string \<Rightarrow> string option \<Rightarrow> jdict \<Rightarrow> string list \<Rightarrow> string \<Rightarrow> usec \<Rightarrow> TaskSpec" where
  "new_task task_id agent_name task_input deps trace_id now =
     model_post_init (raw_task task_id agent_name task_input deps trace_id now)"

definition default_backend :: AgentBackendConfig where
  "default_backend =
     \<lparr>be_type = LEGACY_LLM, be_model = None, be_executable = ''codex'', be_sandbox = ''read-only'',
      be_approval_policy = ''never'', be_timeout_s = 300, be_ephemeral = True,
      be_output_schema = None, be_max_inspection_files = 6, be_max_inspection_rounds = 1\<rparr>"

definition default_capability :: AgentCapability where
  "default_capability =
     \<lparr>cap_can_plan = False, cap_can_code = False, cap_can_test = False, cap_can_review = False,
      cap_tools = [], cap_languages = [], cap_cost_level = 1, cap_reliability_score = 1\<rparr>"

text \<open>\<open>AgentSpec(agent_name=.., role=..)\<close>.\<close>

definition new_agent :: "string \<Rightarrow> string \<Rightarrow> usec \<Rightarrow> AgentSpec" where
  "new_agent agent_name role now =
     \<lparr>ag_agent_name = agent_name, ag_role = role, ag_system_prompt = [],
      ag_model = ''gpt-4o-mini'', ag_capability = default_capability,
      ag_backend = default_backend, ag_failure_policy = default_failure_policy,
      ag_status = AS_CREATED, ag_current_task_id = None, ag_created_at = now, ag_updated_at = now,
      ag_max_retries = 3, ag_restart_budget = 3, ag_fault_domain = None,
      ag_memory_max_bytes = None, ag_memory_high_bytes = None, ag_cpu_max = None,
      ag_pids_max = None, ag_llm_max_concurrent = 1, ag_token_quota = None\<rparr>"

end
