(* ===== verification/Task_Lifecycle.thy ===== *)
theory Task_Lifecycle
  imports Task_Model
begin

text \<open>
  Correctness of the task state machine of \<open>aruntime/core/models.py\<close>: what any sequence of calls
  of the \<open>TaskSpec\<close> methods, raising or not, can do to a task. A call that raises is followed by
  the next one in the state it left behind.
\<close>

section \<open>One control block\<close>

lemma tcb_enter_simps [simp]:
  "tcb_state (tcb_enter now st r t) = st"
  "tcb_task_id (tcb_enter now st r t) = tcb_task_id t"
  "tcb_trace_id (tcb_enter now st r t) = tcb_trace_id t"
  "tcb_created_at (tcb_enter now st r t) = tcb_created_at t"
  "tcb_resource_lease (tcb_enter now st r t) = tcb_resource_lease t"
  "tcb_current_attempt (tcb_enter now st r t) = tcb_current_attempt t"
  "tcb_started_at (tcb_enter now st r t) =
     (if st = TS_RUNNING \<and> tcb_started_at t = None then Some now else tcb_started_at t)"
  "tcb_completed_at (tcb_enter now st r t) =
     (if st \<in> {TS_SUCCESS, TS_FAILED, TS_CANCELLED, TS_TIMEOUT} then Some now else tcb_completed_at t)"
  by (simp_all add: tcb_enter_def Let_def)

lemma tcb_transition_to_eq:
  "tcb_transition_to now st r t =
     (if tcb_may (tcb_state t) st then (tcb_enter now st r t, Inr ())
      else (t, Inl (ValueError ''invalid task transition'')))"
  by (simp add: tcb_transition_to_def eff_simps)

lemma tcb_block_eq:
  "tcb_block now r t =
     (if tcb_may (tcb_state t) TS_BLOCKED
      then (let t' = tcb_enter now TS_BLOCKED ''resource_blocked'' t
            in (t'\<lparr>tcb_queue_info := (tcb_queue_info t')\<lparr>qi_resource_block_reason := r\<rparr>\<rparr>, Inr ()))
      else (t, Inl (ValueError ''invalid task transition'')))"
  by (simp add: tcb_block_def eff_simps tcb_transition_to_eq Let_def)

lemma tcb_unblock_eq:
  "tcb_unblock now r t =
     (let t' = t\<lparr>tcb_queue_info := (tcb_queue_info t)\<lparr>qi_resource_block_reason := []\<rparr>\<rparr>
      in if tcb_may (tcb_state t) TS_READY then (tcb_enter now TS_READY r t', Inr ())
         else (t', Inl (ValueError ''invalid task transition'')))"
  by (simp add: tcb_unblock_def eff_simps tcb_transition_to_eq Let_def)

lemmas tcb_ops_eq = tcb_transition_to_eq tcb_block_eq tcb_unblock_eq

section \<open>Sequences of calls\<close>

datatype task_op =
    OpTransition usec TaskStatus string
  | OpBlock usec string
  | OpUnblock usec string
  | OpLease "jdict option"
  | OpCreate usec string "int option"
  | OpFinish usec string "jdict option" string "jdict option"

fun task_op_apply :: "task_op \<Rightarrow> TaskSpec \<Rightarrow> TaskSpec" where
  "task_op_apply (OpTransition now st r) t = fst (transition_to now st r t)"
| "task_op_apply (OpBlock now r) t = fst (block now r t)"
| "task_op_apply (OpUnblock now r) t = fst (unblock now r t)"
| "task_op_apply (OpLease l) t = set_resource_lease l t"
| "task_op_apply (OpCreate now ag pid) t = fst (create_attempt now ag pid t)"
| "task_op_apply (OpFinish now aid res fr tu) t = finish_attempt now aid res fr tu t"

definition task_run :: "task_op list \<Rightarrow> TaskSpec \<Rightarrow> TaskSpec" where
  "task_run ops t = fold task_op_apply ops t"

lemma task_run_Nil [simp]: "task_run [] t = t"
  by (simp add: task_run_def)

lemma task_run_Cons [simp]: "task_run (p # ops) t = task_run ops (task_op_apply p t)"
  by (simp add: task_run_def)

text \<open>A property every single call keeps holds after any sequence of calls.\<close>

lemma task_run_invariant:
  assumes "I t" and "\<And>p t. I t \<Longrightarrow> I (task_op_apply p t)"
  shows "I (task_run ops t)"
  using assms(1) by (induction ops arbitrary: t) (auto intro: assms(2))

subsection \<open>The mirrored fields\<close>

text \<open>
  The task's copies of its control block's fields agree with it; the block reason is left out,
  since \<open>unblock\<close> clears it in the block before its transition may raise.
\<close>

definition mirrors :: "TaskControlBlock \<Rightarrow> TaskSpec \<Rightarrow> bool" where
  "mirrors c t \<longleftrightarrow> ts_tcb t = Some c \<and>
     ts_status t = tcb_state c \<and> ts_trace_id t = tcb_trace_id c \<and>
     ts_created_at t = tcb_created_at c \<and> ts_started_at t = tcb_started_at c \<and>
     ts_completed_at t = tcb_completed_at c \<and> ts_resource_lease t = tcb_resource_lease c \<and>
     ts_agent_runtime_ms t = tcb_agent_runtime_ms c \<and>
     ts_queue_wait_ms t = qi_queue_wait_ms (tcb_queue_info c) \<and>
     ts_scheduler_decision_reason t = qi_scheduler_decision_reason (tcb_queue_info c)"

definition synced :: "TaskSpec \<Rightarrow> bool" where
  "synced t \<longleftrightarrow> (\<exists>c. mirrors c t)"

lemma syncedE [elim?]:
  assumes "synced t"
  obtains c where "mirrors c t" "ts_tcb t = Some c" "ts_status t = tcb_state c"
  using assms by (auto simp: synced_def mirrors_def)

lemma mirrors_sync_from_tcb: "ts_tcb t = Some c \<Longrightarrow> mirrors c (sync_from_tcb t)"
  by (simp add: mirrors_def sync_from_tcb_def)

lemma synced_sync_from_tcb: "ts_tcb t \<noteq> None \<Longrightarrow> synced (sync_from_tcb t)"
  unfolding synced_def using mirrors_sync_from_tcb by fastforce

lemma synced_model_post_init: "synced (model_post_init t)"
  unfolding model_post_init_def Let_def
  by (rule synced_sync_from_tcb) (simp split: option.splits)

lemma ensure_tcb_synced: "mirrors c t \<Longrightarrow> ensure_tcb t = (c, t)"
  by (simp add: ensure_tcb_def mirrors_def)

text \<open>What a call through the control block does to a task in agreement with it.\<close>

lemma via_tcb_ok:
  assumes "mirrors c t" "m c = (c', Inr ())"
  shows "via_tcb m t = (sync_from_tcb (t\<lparr>ts_tcb := Some c'\<rparr>), Inr ())"
  using assms by (simp add: via_tcb_def ensure_tcb_synced)

lemma via_tcb_err:
  assumes "mirrors c t" "m c = (c', Inl e)"
  shows "via_tcb m t = (t\<lparr>ts_tcb := Some c'\<rparr>, Inl e)"
  using assms by (simp add: via_tcb_def ensure_tcb_synced)

definition hidden_change :: "TaskControlBlock \<Rightarrow> TaskControlBlock \<Rightarrow> bool" where
  "hidden_change c c' \<longleftrightarrow>
     (\<exists>r. c' = c\<lparr>tcb_queue_info := (tcb_queue_info c)\<lparr>qi_resource_block_reason := r\<rparr>\<rparr>)"

lemma hidden_change_refl [simp]: "hidden_change c c"
  unfolding hidden_change_def
  by (rule exI [of _ "qi_resource_block_reason (tcb_queue_info c)"]) simp

lemma tcb_ops_err_hidden:
  "tcb_transition_to now st r c = (c', Inl e) \<Longrightarrow> hidden_change c c'"
  "tcb_block now r c = (c', Inl e) \<Longrightarrow> hidden_change c c'"
  "tcb_unblock now r c = (c', Inl e) \<Longrightarrow> hidden_change c c'"
  by (auto simp: tcb_ops_eq Let_def split: if_splits) (auto simp: hidden_change_def)

lemma mirrors_hidden: "mirrors c t \<Longrightarrow> hidden_change c c' \<Longrightarrow> mirrors c' (t\<lparr>ts_tcb := Some c'\<rparr>)"
  by (auto simp: hidden_change_def mirrors_def)

lemma mirrors_via_tcb:
  assumes "mirrors c t" and hid: "\<And>c' e. m c = (c', Inl e) \<Longrightarrow> hidden_change c c'"
  shows "mirrors (fst (m c)) (fst (via_tcb m t))"
proof (cases "m c")
  case (Pair c' r)
  show ?thesis
  proof (cases r)
    case (Inl e)
    with Pair assms show ?thesis
      by (simp add: via_tcb_err mirrors_hidden)
  next
    case (Inr u)
    with Pair assms(1) show ?thesis
      by (simp add: via_tcb_ok mirrors_sync_from_tcb)
  qed
qed

text \<open>The control block after one call; calls that raise keep its state.\<close>

fun tcb_op_apply :: "task_op \<Rightarrow> TaskControlBlock \<Rightarrow> TaskControlBlock" where
  "tcb_op_apply (OpTransition now st r) c = fst (tcb_transition_to now st r c)"
| "tcb_op_apply (OpBlock now r) c = fst (tcb_block now r c)"
| "tcb_op_apply (OpUnblock now r) c = fst (tcb_unblock now r c)"
| "tcb_op_apply (OpLease l) c = c\<lparr>tcb_resource_lease := l\<rparr>"
| "tcb_op_apply (OpCreate now ag pid) c = c\<lparr>tcb_current_attempt := Suc (tcb_current_attempt c)\<rparr>"
| "tcb_op_apply (OpFinish now aid res fr tu) c = c"

text \<open>Refinement: on the mirrored fields the task behaves as its control block alone.\<close>

lemma task_op_refines: "mirrors c t \<Longrightarrow> mirrors (tcb_op_apply p c) (task_op_apply p t)"
proof (cases p)
  case (OpLease l)
  assume "mirrors c t"
  with OpLease show ?thesis
    by (simp add: set_resource_lease_def ensure_tcb_synced mirrors_def)
next
  case (OpCreate now ag pid)
  assume "mirrors c t"
  with OpCreate show ?thesis
    by (simp add: create_attempt_def Let_def ensure_tcb_synced mirrors_def)
next
  case (OpFinish now aid res fr tu)
  assume "mirrors c t"
  with OpFinish show ?thesis
    by (simp add: finish_attempt_def mirrors_def)
qed (auto simp: transition_to_def block_def unblock_def intro!: mirrors_via_tcb dest: tcb_ops_err_hidden)

lemma task_run_refines:
  "mirrors c t \<Longrightarrow> mirrors (fold tcb_op_apply ops c) (task_run ops t)"
  by (induction ops arbitrary: c t) (auto dest: task_op_refines)

lemma task_run_synced: "synced t \<Longrightarrow> synced (task_run ops t)"
  unfolding synced_def using task_run_refines by blast

subsection \<open>Path through the state graph\<close>

definition allowed_edges :: "(TaskStatus \<times> TaskStatus) set" where
  "allowed_edges = {(a, b). b \<in> tcb_allowed a}"

lemma tcb_op_path: "(tcb_state c, tcb_state (tcb_op_apply p c)) \<in> allowed_edges\<^sup>="
  by (cases p) (auto simp: tcb_ops_eq tcb_may_def allowed_edges_def Let_def)

lemma tcb_run_path: "(tcb_state c, tcb_state (fold tcb_op_apply ops c)) \<in> allowed_edges\<^sup>*"
proof (induction ops arbitrary: c)
  case Nil
  show ?case by simp
next
  case (Cons p ops)
  have "(tcb_state c, tcb_state (tcb_op_apply p c)) \<in> allowed_edges\<^sup>*"
    using tcb_op_path[of c p] by auto
  with Cons[of "tcb_op_apply p c"] show ?case by (simp add: rtrancl_trans)
qed

lemma allowed_edges_terminal:
  "(a, b) \<in> allowed_edges\<^sup>* \<Longrightarrow> tcb_allowed a = {} \<Longrightarrow> b = a"
  by (induction rule: converse_rtrancl_induct) (auto simp: allowed_edges_def)

subsection \<open>Time stamps\<close>

definition stamps_ok :: "TaskControlBlock \<Rightarrow> bool" where
  "stamps_ok c \<longleftrightarrow>
     (tcb_state c = TS_RUNNING \<longrightarrow> tcb_started_at c \<noteq> None) \<and>
     (tcb_state c \<in> {TS_SUCCESS, TS_FAILED, TS_CANCELLED, TS_TIMEOUT} \<longrightarrow> tcb_completed_at c \<noteq> None)"

lemma stamps_ok_op: "stamps_ok c \<Longrightarrow> stamps_ok (tcb_op_apply p c)"
  by (cases p) (auto simp: tcb_ops_eq stamps_ok_def Let_def tcb_may_def)

lemma stamps_ok_run: "stamps_ok c \<Longrightarrow> stamps_ok (fold tcb_op_apply ops c)"
  by (induction ops arbitrary: c) (auto dest: stamps_ok_op)

lemma started_once_op:
  "tcb_started_at c = Some x \<Longrightarrow> tcb_started_at (tcb_op_apply p c) = Some x"
  by (cases p) (auto simp: tcb_ops_eq Let_def)

lemma started_once_run:
  "tcb_started_at c = Some x \<Longrightarrow> tcb_started_at (fold tcb_op_apply ops c) = Some x"
  by (induction ops arbitrary: c) (auto dest: started_once_op)

lemma created_const_run:
  "tcb_created_at (fold tcb_op_apply ops c) = tcb_created_at c"
proof (induction ops arbitrary: c)
  case Nil
  show ?case by simp
next
  case (Cons p ops)
  have "tcb_created_at (tcb_op_apply p c) = tcb_created_at c"
    by (cases p) (auto simp: tcb_ops_eq Let_def)
  with Cons show ?case by simp
qed

subsection \<open>Attempts\<close>

definition attempts_numbered :: "TaskSpec \<Rightarrow> bool" where
  "attempts_numbered t \<longleftrightarrow>
     (\<exists>c. ts_tcb t = Some c \<and> tcb_current_attempt c = length (ts_attempts t)) \<and>
     map at_attempt_id (ts_attempts t)
       = map (\<lambda>i. attempt_id_of (ts_task_id t) (Suc i)) [0..<length (ts_attempts t)]"

lemma attempt_id_of_inject [simp]: "attempt_id_of t m = attempt_id_of t n \<longleftrightarrow> m = n"
  by (simp add: attempt_id_of_def)

lemma attempts_numbered_distinct: "attempts_numbered t \<Longrightarrow> distinct (map at_attempt_id (ts_attempts t))"
  by (auto simp: attempts_numbered_def distinct_map inj_on_def)

lemma via_tcb_frame:
  assumes "ts_tcb t = Some c"
  shows "ts_attempts (fst (via_tcb m t)) = ts_attempts t"
    and "ts_task_id (fst (via_tcb m t)) = ts_task_id t"
    and "ts_tcb (fst (via_tcb m t)) = Some (fst (m c))"
  using assms
  by (simp_all add: via_tcb_def ensure_tcb_def sync_from_tcb_def split: prod.splits sum.splits)

lemma tcb_ops_current_attempt:
  "tcb_current_attempt (fst (tcb_transition_to now st r c)) = tcb_current_attempt c"
  "tcb_current_attempt (fst (tcb_block now r c)) = tcb_current_attempt c"
  "tcb_current_attempt (fst (tcb_unblock now r c)) = tcb_current_attempt c"
  by (simp_all add: tcb_ops_eq Let_def)

lemma attempts_numbered_op: "attempts_numbered t \<Longrightarrow> attempts_numbered (task_op_apply p t)"
proof (cases p)
  case (OpCreate now ag pid)
  assume "attempts_numbered t"
  with OpCreate show ?thesis
    by (auto simp: attempts_numbered_def create_attempt_def ensure_tcb_def Let_def)
next
  case (OpFinish now aid res fr tu)
  assume "attempts_numbered t"
  moreover have "map at_attempt_id (ts_attempts (finish_attempt now aid res fr tu t))
      = map at_attempt_id (ts_attempts t)"
    by (simp add: finish_attempt_def finish_attempt_obj_def)
  moreover have "length (ts_attempts (finish_attempt now aid res fr tu t)) = length (ts_attempts t)"
    and "ts_tcb (finish_attempt now aid res fr tu t) = ts_tcb t"
    and "ts_task_id (finish_attempt now aid res fr tu t) = ts_task_id t"
    by (simp_all add: finish_attempt_def)
  ultimately show ?thesis using OpFinish by (simp add: attempts_numbered_def)
next
  case (OpLease l)
  assume "attempts_numbered t"
  with OpLease show ?thesis
    by (auto simp: attempts_numbered_def set_resource_lease_def ensure_tcb_def)
qed (auto simp: attempts_numbered_def transition_to_def block_def unblock_def via_tcb_frame
    tcb_ops_current_attempt)

lemma active_attempt_SomeD:
  assumes "active_attempt t = Some a"
  obtains xs ys where "ts_attempts t = xs @ a # ys" "at_completed_at a = None"
    "\<And>b. b \<in> set ys \<Longrightarrow> at_completed_at b \<noteq> None"
proof -
  let ?P = "\<lambda>a. at_completed_at a = None"
  from assms obtain i where i: "i < length (rev (ts_attempts t))" "?P (rev (ts_attempts t) ! i)"
      "a = rev (ts_attempts t) ! i" "\<forall>j<i. \<not> ?P (rev (ts_attempts t) ! j)"
    unfolding active_attempt_def find_Some_iff by blast
  let ?r = "rev (ts_attempts t)"
  have "?r = take i ?r @ a # drop (Suc i) ?r"
    using i by (simp add: Cons_nth_drop_Suc)
  then have "ts_attempts t = rev (drop (Suc i) ?r) @ a # rev (take i ?r)"
    by (metis (no_types, lifting) append_Cons append_Nil append_assoc rev.simps(2) rev_append rev_rev_ident)
  moreover have "at_completed_at b \<noteq> None" if "b \<in> set (rev (take i ?r))" for b
    using that i by (auto simp: in_set_conv_nth)
  ultimately show thesis using i that by blast
qed

section \<open>Calls on one task\<close>

text \<open>
  What the schedulers and the recovery need of a task: its status and creation time are those of its control block.
  (The kernel scheduler writes two of the mirrored reason fields directly, so full agreement does not hold
  here.)
\<close>

definition coherent :: "TaskSpec \<Rightarrow> bool" where
  "coherent t \<longleftrightarrow> (\<exists>c. ts_tcb t = Some c \<and> tcb_state c = ts_status t \<and> tcb_created_at c = ts_created_at t)"

text \<open>The fields no status change touches.\<close>

definition same_task :: "TaskSpec \<Rightarrow> TaskSpec \<Rightarrow> bool" where
  "same_task t t' \<longleftrightarrow> ts_task_id t' = ts_task_id t \<and> ts_agent_name t' = ts_agent_name t \<and>
     ts_dependencies t' = ts_dependencies t \<and> ts_required_capability t' = ts_required_capability t \<and>
     ts_created_at t' = ts_created_at t \<and> ts_priority t' = ts_priority t \<and> ts_deadline t' = ts_deadline t \<and>
     ts_dependency_failure_policies t' = ts_dependency_failure_policies t \<and>
     ts_failure_policy t' = ts_failure_policy t \<and> ts_failure_policy_set t' = ts_failure_policy_set t \<and>
     ts_resource_request t' = ts_resource_request t \<and> ts_token_budget t' = ts_token_budget t"

lemma same_task_refl [simp]: "same_task t t"
  by (simp add: same_task_def)

lemma synced_coherent: "synced t \<Longrightarrow> coherent t"
  by (auto simp: synced_def mirrors_def coherent_def)

lemma via_tcb_coherent:
  assumes "coherent t" "ts_tcb t = Some c"
  shows "via_tcb m t = (case m c of
            (c', Inl e) \<Rightarrow> (t\<lparr>ts_tcb := Some c'\<rparr>, Inl e)
          | (c', Inr u) \<Rightarrow> (sync_from_tcb (t\<lparr>ts_tcb := Some c'\<rparr>), Inr ()))"
  using assms by (simp add: via_tcb_def ensure_tcb_def)

lemma task_op_ok:
  assumes "coherent t" "tcb_may (ts_status t) st"
  shows transition_to_ok: "\<exists>t'. transition_to now st r t = (t', Inr ()) \<and> coherent t' \<and> ts_status t' = st \<and> same_task t t'"
    and block_ok: "st = TS_BLOCKED \<Longrightarrow>
      \<exists>t'. block now r t = (t', Inr ()) \<and> coherent t' \<and> ts_status t' = st \<and> same_task t t'
           \<and> ts_resource_block_reason t' = r"
    and unblock_ok: "st = TS_READY \<Longrightarrow>
      \<exists>t'. unblock now r t = (t', Inr ()) \<and> coherent t' \<and> ts_status t' = st \<and> same_task t t'"
proof -
  obtain c where c: "ts_tcb t = Some c" "tcb_state c = ts_status t" "tcb_created_at c = ts_created_at t"
    using assms(1) by (auto simp: coherent_def)
  note simps = via_tcb_coherent[OF assms(1) c(1)] tcb_ops_eq c assms(2) sync_from_tcb_def coherent_def
    same_task_def Let_def
  show "\<exists>t'. transition_to now st r t = (t', Inr ()) \<and> coherent t' \<and> ts_status t' = st \<and> same_task t t'"
    by (simp add: transition_to_def simps)
  show "\<exists>t'. block now r t = (t', Inr ()) \<and> coherent t' \<and> ts_status t' = st \<and> same_task t t'
           \<and> ts_resource_block_reason t' = r" if "st = TS_BLOCKED"
    using assms(2) that by (simp add: block_def simps)
  show "\<exists>t'. unblock now r t = (t', Inr ()) \<and> coherent t' \<and> ts_status t' = st \<and> same_task t t'" if "st = TS_READY"
    using assms(2) that by (simp add: unblock_def simps)
qed

lemma transition_to_err:
  assumes "coherent t" "\<not> tcb_may (ts_status t) st"
  shows "transition_to now st r t = (t, Inl (ValueError ''invalid task transition''))"
  using assms by (auto simp: transition_to_def coherent_def via_tcb_def ensure_tcb_def tcb_ops_eq)

lemma block_err:
  assumes "coherent t" "\<not> tcb_may (ts_status t) TS_BLOCKED"
  shows "block now r t = (t, Inl (ValueError ''invalid task transition''))"
  using assms by (auto simp: block_def coherent_def via_tcb_def ensure_tcb_def tcb_ops_eq)

lemma transition_coherent:
  assumes "coherent t"
  shows "coherent (fst (transition_to now st r t))" "ts_task_id (fst (transition_to now st r t)) = ts_task_id t"
proof -
  consider "tcb_may (ts_status t) st" | "\<not> tcb_may (ts_status t) st" by blast
  then have "coherent (fst (transition_to now st r t)) \<and> ts_task_id (fst (transition_to now st r t)) = ts_task_id t"
  proof cases
    case 1
    then show ?thesis using transition_to_ok[OF assms 1, of now r] by (auto simp: same_task_def)
  qed (simp add: transition_to_err assms)
  then show "coherent (fst (transition_to now st r t))" "ts_task_id (fst (transition_to now st r t)) = ts_task_id t"
    by auto
qed

lemma coherent_mirror_updates [simp]:
  "coherent (t\<lparr>ts_resource_block_reason := r\<rparr>) = coherent t"
  "coherent (t\<lparr>ts_scheduler_decision_reason := r\<rparr>) = coherent t"
  "coherent (t\<lparr>ts_scheduler_decision_reason := r, ts_agent_name := a\<rparr>) = coherent t"
  "coherent (t\<lparr>ts_agent_name := a\<rparr>) = coherent t"
  "coherent (t\<lparr>ts_dependencies := ds\<rparr>) = coherent t"
  by (simp_all add: coherent_def)

section \<open>Properties\<close>

lemma synced_new_task: "synced (new_task i ag inp deps tr now)"
  by (simp add: new_task_def synced_model_post_init)

lemma new_task_tcb:
  "ts_tcb (new_task i ag inp deps tr now) =
     Some (tcb_of_task (raw_task i ag inp deps tr now))"
  by (simp add: new_task_def model_post_init_def sync_from_tcb_def raw_task_def tcb_of_task_def)

lemma mirrors_new_task:
  "mirrors (tcb_of_task (raw_task i ag inp deps tr now)) (new_task i ag inp deps tr now)"
  using synced_new_task new_task_tcb by (auto simp: synced_def mirrors_def)

lemma new_task_simps [simp]:
  "ts_status (new_task i ag inp deps tr now) = TS_PENDING"
  "ts_task_id (new_task i ag inp deps tr now) = i"
  "ts_attempts (new_task i ag inp deps tr now) = []"
  "ts_dependencies (new_task i ag inp deps tr now) = deps"
  "ts_agent_name (new_task i ag inp deps tr now) = ag"
  by (simp_all add: new_task_def model_post_init_def sync_from_tcb_def raw_task_def tcb_of_task_def)


text \<open>
  \<open>SUCCESS\<close> and \<open>CANCELLED\<close> are final: once a task is in one of them no later method call
  changes its status.
\<close>

theorem task_final_status:
  assumes "synced t" and "ts_status t \<in> {TS_SUCCESS, TS_CANCELLED}"
  shows "ts_status (task_run ops t) = ts_status t"
proof -
  from assms(1) obtain c where c: "mirrors c t" "ts_status t = tcb_state c"
    by (rule syncedE)
  with task_run_refines[OF c(1), of ops]
  have "ts_status (task_run ops t) = tcb_state (fold tcb_op_apply ops c)"
    by (simp add: mirrors_def)
  moreover have "tcb_allowed (tcb_state c) = {}"
    using assms(2) c(2) by auto
  ultimately show ?thesis
    using allowed_edges_terminal[OF tcb_run_path] c(2) by simp
qed

theorem task_final_status_witness:
  "ts_status (task_run [OpTransition 7 TS_READY ''again'', OpCreate 8 ''a'' None]
     (task_run [OpTransition 1 TS_READY [], OpTransition 2 TS_RUNNING [], OpTransition 3 TS_SUCCESS []]
        (new_task ''t1'' (Some ''a'') [] [] ''tr'' 0))) = TS_SUCCESS"
proof -
  let ?t = "task_run [OpTransition 1 TS_READY [], OpTransition 2 TS_RUNNING [], OpTransition 3 TS_SUCCESS []]
        (new_task ''t1'' (Some ''a'') [] [] ''tr'' 0)"
  have sy: "synced ?t"
    by (rule task_run_synced [OF synced_new_task])
  have st: "ts_status ?t = TS_SUCCESS"
    using task_run_refines[OF mirrors_new_task, where
        ops = "[OpTransition 1 TS_READY [], OpTransition 2 TS_RUNNING [], OpTransition 3 TS_SUCCESS []]"]
    by (simp add: mirrors_def tcb_ops_eq tcb_may_def tcb_of_task_def raw_task_def)
  show ?thesis
    using task_final_status[OF sy, of "[OpTransition 7 TS_READY ''again'', OpCreate 8 ''a'' None]"] st
    by simp
qed

text \<open>
  A task seen as \<open>RUNNING\<close> has a start time and a finished or timed-out task has a completion
  time; its creation time never changes, and a start time once set is never overwritten by a
  retry or a fallback.
\<close>

theorem task_time_stamps:
  fixes i ag inp deps tr now ops ops'
  defines "t \<equiv> task_run ops (new_task i ag inp deps tr now)"
  shows "ts_created_at t = now \<and>
    (ts_status t = TS_RUNNING \<longrightarrow> ts_started_at t \<noteq> None) \<and>
    (ts_status t \<in> {TS_SUCCESS, TS_FAILED, TS_CANCELLED, TS_TIMEOUT} \<longrightarrow> ts_completed_at t \<noteq> None) \<and>
    (ts_started_at t \<noteq> None \<longrightarrow> ts_started_at (task_run ops' t) = ts_started_at t)"
proof -
  let ?init = "tcb_of_task (raw_task i ag inp deps tr now)"
  let ?c = "fold tcb_op_apply ops ?init"
  have m: "mirrors ?c t"
    unfolding t_def by (rule task_run_refines [OF mirrors_new_task])
  have "stamps_ok ?init" and cr: "tcb_created_at ?init = now"
    by (simp_all add: stamps_ok_def tcb_of_task_def raw_task_def)
  then have "stamps_ok ?c" by (intro stamps_ok_run)
  moreover have "tcb_created_at ?c = now" using cr by (simp only: created_const_run)
  moreover have "ts_started_at (task_run ops' t) = Some x" if "tcb_started_at ?c = Some x" for x
    using task_run_refines[OF m, of ops'] started_once_run[OF that, of ops']
    by (simp add: mirrors_def)
  ultimately show ?thesis
    using m by (auto simp: mirrors_def stamps_ok_def)
qed

theorem task_time_stamps_witness:
  "ts_created_at (task_run [OpTransition 5 TS_READY []] (new_task ''t1'' None [] [] ''tr'' 3)) = 3"
  using task_time_stamps[of "[OpTransition 5 TS_READY []]" "''t1''" None "[]" "[]" "''tr''" 3 "[]"]
  by simp

text \<open>
  The attempts of a task are numbered from one in the order they were created and their
  identifiers are pairwise different, whatever happens between the attempts.
\<close>

theorem task_attempts_numbered:
  fixes i ag inp deps tr now ops
  defines "t \<equiv> task_run ops (new_task i ag inp deps tr now)"
  shows "map at_attempt_id (ts_attempts t)
           = map (\<lambda>k. attempt_id_of (ts_task_id t) (Suc k)) [0..<length (ts_attempts t)] \<and>
         distinct (map at_attempt_id (ts_attempts t))"
proof -
  have "attempts_numbered (new_task i ag inp deps tr now)"
    by (simp add: attempts_numbered_def new_task_tcb) (simp add: tcb_of_task_def raw_task_def)
  then have "attempts_numbered t"
    unfolding t_def by (rule task_run_invariant) (rule attempts_numbered_op)
  then show ?thesis
    using attempts_numbered_distinct by (simp add: attempts_numbered_def)
qed

text \<open>
  Finishing the active attempt closes it: the attempt carries the completion time and the
  status \<open>FAILED\<close> exactly when a failure reason is given, and it is no longer the attempt whose
  result the runtime accepts.
\<close>

theorem finish_active_attempt:
  assumes "active_attempt t = Some a" and "distinct (map at_attempt_id (ts_attempts t))"
  shows "(let t' = finish_attempt now (at_attempt_id a) res fr tu t;
              a' = finish_attempt_obj now res fr tu a
          in a' \<in> set (ts_attempts t') \<and> at_completed_at a' = Some now \<and>
             (at_status a' = ''FAILED'' \<longleftrightarrow> fr \<noteq> []) \<and>
             (\<forall>b. active_attempt t' = Some b \<longrightarrow> at_attempt_id b \<noteq> at_attempt_id a))"
proof -
  let ?t' = "finish_attempt now (at_attempt_id a) res fr tu t"
  let ?a' = "finish_attempt_obj now res fr tu a"
  obtain xs ys where s: "ts_attempts t = xs @ a # ys" "at_completed_at a = None"
    using active_attempt_SomeD[OF assms(1)] by metis
  have att: "ts_attempts ?t' = map (\<lambda>b. if at_attempt_id b = at_attempt_id a
      then finish_attempt_obj now res fr tu b else b) (ts_attempts t)"
    by (simp add: finish_attempt_def)
  have "at_attempt_id b \<noteq> at_attempt_id a" if "active_attempt ?t' = Some b" for b
  proof -
    from active_attempt_SomeD[OF that] have b: "b \<in> set (ts_attempts ?t')" "at_completed_at b = None"
      by (metis in_set_conv_decomp)+
    then obtain b0 where "b = (if at_attempt_id b0 = at_attempt_id a
        then finish_attempt_obj now res fr tu b0 else b0)"
      unfolding att set_map by blast
    with b(2) show ?thesis
      by (auto simp: finish_attempt_obj_def split: if_splits)
  qed
  moreover have "?a' \<in> set (ts_attempts ?t')"
    unfolding att s by simp
  ultimately show ?thesis
    by (simp add: Let_def finish_attempt_obj_def)
qed

theorem finish_active_attempt_witness:
  "let t = fst (create_attempt 4 ''coder'' None (new_task ''t1'' None [] [] ''tr'' 0));
       t' = finish_attempt 9 ''t1:attempt:1'' None ''worker error'' None t
   in (\<forall>b. active_attempt t' = Some b \<longrightarrow> at_attempt_id b \<noteq> ''t1:attempt:1'')"
proof -
  let ?t = "fst (create_attempt 4 ''coder'' None (new_task ''t1'' None [] [] ''tr'' 0))"
  let ?a = "snd (create_attempt 4 ''coder'' None (new_task ''t1'' None [] [] ''tr'' 0))"
  have "active_attempt ?t = Some ?a" and "distinct (map at_attempt_id (ts_attempts ?t))"
    by (simp_all add: active_attempt_def create_attempt_def ensure_tcb_def new_task_tcb Let_def)
  moreover have "nat_str (Suc 0) = ''1''" by code_simp
  then have "at_attempt_id ?a = ''t1:attempt:1''"
    by (simp add: create_attempt_def ensure_tcb_def new_task_tcb Let_def attempt_id_of_def
        tcb_of_task_def raw_task_def)
  ultimately show ?thesis
    using finish_active_attempt[of ?t ?a 9 None "''worker error''" None] by (simp add: Let_def)
qed

end
