(* ===== verification/Agent_Lifecycle.thy ===== *)
theory Agent_Lifecycle
  imports Task_Model
begin

text \<open>
  \<open>aruntime/core/lifecycle.py\<close> and \<open>aruntime/core/acb.py\<close>: the agent state machine, kept twice in
  the source (a module function over a table, and a method over a class table), and the agent
  control block with its timeline. The text of a time stamp (\<open>isoformat\<close>) is the argument \<open>stamp\<close> of
  the dictionary views.
\<close>

section \<open>The two transition tables\<close>

fun ALLOWED_TRANSITIONS :: "AgentStatus \<Rightarrow> AgentStatus set" where
  "ALLOWED_TRANSITIONS AS_CREATED = {AS_READY, AS_FAILED}"
| "ALLOWED_TRANSITIONS AS_READY = {AS_RUNNING, AS_SUSPENDED, AS_LOST, AS_KILLED}"
| "ALLOWED_TRANSITIONS AS_RUNNING = {AS_WAITING, AS_COMPLETED, AS_FAILED, AS_ISOLATED, AS_LOST, AS_KILLED}"
| "ALLOWED_TRANSITIONS AS_WAITING = {AS_READY, AS_FAILED, AS_LOST, AS_KILLED}"
| "ALLOWED_TRANSITIONS AS_FAILED = {AS_RECOVERING, AS_ISOLATED, AS_KILLED}"
| "ALLOWED_TRANSITIONS AS_LOST = {AS_RECOVERING, AS_ISOLATED, AS_KILLED}"
| "ALLOWED_TRANSITIONS AS_RECOVERING = {AS_READY, AS_KILLED}"
| "ALLOWED_TRANSITIONS AS_COMPLETED = {}"
| "ALLOWED_TRANSITIONS AS_SUSPENDED = {AS_READY, AS_KILLED}"
| "ALLOWED_TRANSITIONS AS_ISOLATED = {AS_READY, AS_KILLED}"
| "ALLOWED_TRANSITIONS AS_KILLED = {}"

fun acb_allowed_transitions :: "AgentStatus \<Rightarrow> AgentStatus set" where
  "acb_allowed_transitions AS_CREATED = {AS_READY, AS_FAILED}"
| "acb_allowed_transitions AS_READY = {AS_RUNNING, AS_SUSPENDED, AS_LOST, AS_KILLED}"
| "acb_allowed_transitions AS_RUNNING = {AS_WAITING, AS_COMPLETED, AS_FAILED, AS_ISOLATED, AS_LOST, AS_KILLED}"
| "acb_allowed_transitions AS_WAITING = {AS_READY, AS_FAILED, AS_LOST, AS_KILLED}"
| "acb_allowed_transitions AS_FAILED = {AS_RECOVERING, AS_ISOLATED, AS_KILLED}"
| "acb_allowed_transitions AS_LOST = {AS_RECOVERING, AS_ISOLATED, AS_KILLED}"
| "acb_allowed_transitions AS_RECOVERING = {AS_READY, AS_KILLED}"
| "acb_allowed_transitions AS_ISOLATED = {AS_READY, AS_KILLED}"
| "acb_allowed_transitions AS_SUSPENDED = {AS_READY, AS_KILLED}"
| "acb_allowed_transitions AS_COMPLETED = {}"
| "acb_allowed_transitions AS_KILLED = {}"

fun agent_status_value :: "AgentStatus \<Rightarrow> string" where
  "agent_status_value AS_CREATED = ''CREATED''"
| "agent_status_value AS_READY = ''READY''"
| "agent_status_value AS_RUNNING = ''RUNNING''"
| "agent_status_value AS_WAITING = ''WAITING''"
| "agent_status_value AS_FAILED = ''FAILED''"
| "agent_status_value AS_COMPLETED = ''COMPLETED''"
| "agent_status_value AS_SUSPENDED = ''SUSPENDED''"
| "agent_status_value AS_ISOLATED = ''ISOLATED''"
| "agent_status_value AS_RECOVERING = ''RECOVERING''"
| "agent_status_value AS_LOST = ''LOST''"
| "agent_status_value AS_KILLED = ''KILLED''"

section \<open>The agent control block\<close>

record AcbResourceQuota =
  rq_memory_max_bytes :: "int option"
  rq_memory_high_bytes :: "int option"
  rq_cpu_max :: "string option"
  rq_pids_max :: "int option"
  rq_llm_max_concurrent :: int

record TimelineEvent =
  tl_timestamp :: usec
  tl_event :: string
  tl_from_status :: "AgentStatus option"
  tl_to_status :: "AgentStatus option"
  tl_task_id :: "string option"
  tl_reason :: string
  tl_detail :: jdict

record AgentControlBlock =
  acb_agent_name :: string
  acb_status :: AgentStatus
  acb_current_task_id :: "string option"
  acb_resource_quota :: AcbResourceQuota
  acb_context_id :: "string option"
  acb_fault_domain :: string
  acb_trace_id :: string
  acb_mailbox :: "string option"
  acb_ipc_endpoint :: "string option"
  acb_created_at :: usec
  acb_updated_at :: usec
  acb_timeline :: "TimelineEvent list"

definition from_agent_spec :: "usec \<Rightarrow> string \<Rightarrow> AgentSpec \<Rightarrow> AgentControlBlock" where
  "from_agent_spec now trace_id agent =
     \<lparr>acb_agent_name = ag_agent_name agent,
      acb_status = ag_status agent,
      acb_current_task_id = None,
      acb_resource_quota =
        \<lparr>rq_memory_max_bytes = ag_memory_max_bytes agent,
         rq_memory_high_bytes = ag_memory_high_bytes agent,
         rq_cpu_max = ag_cpu_max agent,
         rq_pids_max = ag_pids_max agent,
         rq_llm_max_concurrent = ag_llm_max_concurrent agent\<rparr>,
      acb_context_id = None,
      acb_fault_domain = ag_agent_name agent,
      acb_trace_id = trace_id,
      acb_mailbox = None,
      acb_ipc_endpoint = None,
      acb_created_at = now,
      acb_updated_at = now,
      acb_timeline = []\<rparr>"

definition record_event ::
    "usec \<Rightarrow> string \<Rightarrow> string option \<Rightarrow> string \<Rightarrow> jdict \<Rightarrow> AgentControlBlock \<Rightarrow> AgentControlBlock" where
  "record_event now event task_id reason detail acb =
     acb\<lparr>acb_timeline := acb_timeline acb @
           [\<lparr>tl_timestamp = now, tl_event = event, tl_from_status = None, tl_to_status = None,
             tl_task_id = task_id, tl_reason = reason, tl_detail = detail\<rparr>],
         acb_updated_at := now\<rparr>"

definition record_transition ::
    "usec \<Rightarrow> AgentStatus \<Rightarrow> AgentStatus \<Rightarrow> string option \<Rightarrow> string \<Rightarrow> jdict \<Rightarrow> AgentControlBlock \<Rightarrow> AgentControlBlock" where
  "record_transition now from_status to_status task_id reason detail acb =
     acb\<lparr>acb_timeline := acb_timeline acb @
           [\<lparr>tl_timestamp = now, tl_event = ''agent.transition'',
             tl_from_status = Some from_status, tl_to_status = Some to_status,
             tl_task_id = task_id, tl_reason = reason, tl_detail = detail\<rparr>],
         acb_updated_at := now\<rparr>"

definition acb_transition_to ::
    "usec \<Rightarrow> AgentStatus \<Rightarrow> string option \<Rightarrow> string \<Rightarrow> jdict \<Rightarrow> (AgentControlBlock, unit) eff" where
  "acb_transition_to now target task_id reason detail =
     eff_get (\<lambda>acb.
       if target \<notin> acb_allowed_transitions (acb_status acb)
       then eff_raise (ValueError ''invalid agent transition'')
       else (let old = acb_status acb in
         eff_then (eff_modify (\<lambda>a. a\<lparr>acb_status := target\<rparr>))
           (eff_modify (record_transition now old target task_id reason detail))))"

definition set_current_task :: "usec \<Rightarrow> string option \<Rightarrow> AgentControlBlock \<Rightarrow> AgentControlBlock" where
  "set_current_task now task_id acb = acb\<lparr>acb_current_task_id := task_id, acb_updated_at := now\<rparr>"

definition set_context :: "usec \<Rightarrow> string option \<Rightarrow> AgentControlBlock \<Rightarrow> AgentControlBlock" where
  "set_context now context_id acb = acb\<lparr>acb_context_id := context_id, acb_updated_at := now\<rparr>"

section \<open>The module function over agents and control blocks\<close>

text \<open>
  \<open>lifecycle.transition_to\<close> works on anything with a \<open>status\<close>: a control block has
  \<open>record_transition\<close>, an \<open>AgentSpec\<close> has not.
\<close>

definition lifecycle_transition_acb ::
    "usec \<Rightarrow> AgentStatus \<Rightarrow> string option \<Rightarrow> string \<Rightarrow> jdict \<Rightarrow> (AgentControlBlock, unit) eff" where
  "lifecycle_transition_acb now new_status task_id reason detail =
     eff_get (\<lambda>acb. let current = acb_status acb in
       if new_status \<notin> ALLOWED_TRANSITIONS current
       then eff_raise (InvalidTransitionError (acb_agent_name acb))
       else eff_then (eff_modify (record_transition now current new_status task_id reason detail))
             (eff_modify (\<lambda>a. a\<lparr>acb_status := new_status, acb_updated_at := now\<rparr>)))"

definition lifecycle_transition_agent :: "usec \<Rightarrow> AgentStatus \<Rightarrow> (AgentSpec, unit) eff" where
  "lifecycle_transition_agent now new_status =
     eff_get (\<lambda>agent.
       if new_status \<notin> ALLOWED_TRANSITIONS (ag_status agent)
       then eff_raise (InvalidTransitionError (ag_agent_name agent))
       else eff_modify (\<lambda>a. a\<lparr>ag_status := new_status, ag_updated_at := now\<rparr>))"

definition can_transition_to :: "AgentControlBlock \<Rightarrow> AgentStatus \<Rightarrow> bool" where
  "can_transition_to acb new_status \<longleftrightarrow> new_status \<in> ALLOWED_TRANSITIONS (acb_status acb)"

section \<open>Dictionary views\<close>

definition jopt :: "('a \<Rightarrow> json) \<Rightarrow> 'a option \<Rightarrow> json" where
  "jopt f v = (case v of None \<Rightarrow> JNull | Some x \<Rightarrow> f x)"

definition quota_to_dict :: "AcbResourceQuota \<Rightarrow> jdict" where
  "quota_to_dict q =
     [(''memory_max_bytes'', jopt JInt (rq_memory_max_bytes q)),
      (''memory_high_bytes'', jopt JInt (rq_memory_high_bytes q)),
      (''cpu_max'', jopt JStr (rq_cpu_max q)),
      (''pids_max'', jopt JInt (rq_pids_max q)),
      (''llm_max_concurrent'', JInt (rq_llm_max_concurrent q))]"

definition timeline_event_to_dict :: "(usec \<Rightarrow> string) \<Rightarrow> TimelineEvent \<Rightarrow> jdict" where
  "timeline_event_to_dict stamp e =
     [(''timestamp'', JStr (stamp (tl_timestamp e))),
      (''event'', JStr (tl_event e)),
      (''from_status'', jopt (JStr \<circ> agent_status_value) (tl_from_status e)),
      (''to_status'', jopt (JStr \<circ> agent_status_value) (tl_to_status e)),
      (''task_id'', jopt JStr (tl_task_id e)),
      (''reason'', JStr (tl_reason e)),
      (''detail'', JObj (tl_detail e))]"

definition acb_to_dict :: "(usec \<Rightarrow> string) \<Rightarrow> AgentControlBlock \<Rightarrow> jdict" where
  "acb_to_dict stamp a =
     [(''agent_name'', JStr (acb_agent_name a)),
      (''status'', JStr (agent_status_value (acb_status a))),
      (''current_task_id'', jopt JStr (acb_current_task_id a)),
      (''resource_quota'', JObj (quota_to_dict (acb_resource_quota a))),
      (''context_handle'', JObj [(''context_id'', jopt JStr (acb_context_id a))]),
      (''fault_domain'', JStr (acb_fault_domain a)),
      (''trace_id'', JStr (acb_trace_id a)),
      (''mailbox'', jopt JStr (acb_mailbox a)),
      (''ipc_endpoint'', jopt JStr (acb_ipc_endpoint a)),
      (''created_at'', JStr (stamp (acb_created_at a))),
      (''updated_at'', JStr (stamp (acb_updated_at a))),
      (''timeline'', JList (map (JObj \<circ> timeline_event_to_dict stamp) (acb_timeline a)))]"

section \<open>Sequences of calls on a control block\<close>

datatype acb_op =
    AcbTransition usec AgentStatus "string option" string jdict
  | AcbLifecycle usec AgentStatus "string option" string jdict
  | AcbEvent usec string "string option" string jdict
  | AcbTask usec "string option"
  | AcbContext usec "string option"

fun acb_apply :: "acb_op \<Rightarrow> AgentControlBlock \<Rightarrow> AgentControlBlock" where
  "acb_apply (AcbTransition now st tid r d) a = fst (acb_transition_to now st tid r d a)"
| "acb_apply (AcbLifecycle now st tid r d) a = fst (lifecycle_transition_acb now st tid r d a)"
| "acb_apply (AcbEvent now ev tid r d) a = record_event now ev tid r d a"
| "acb_apply (AcbTask now tid) a = set_current_task now tid a"
| "acb_apply (AcbContext now cid) a = set_context now cid a"

definition acb_run :: "acb_op list \<Rightarrow> AgentControlBlock \<Rightarrow> AgentControlBlock" where
  "acb_run ops a = fold acb_apply ops a"

text \<open>The transitions a timeline records, in order.\<close>

definition recorded :: "TimelineEvent list \<Rightarrow> (AgentStatus \<times> AgentStatus) list" where
  "recorded evs = List.map_filter (\<lambda>e. case (tl_from_status e, tl_to_status e) of
     (Some a, Some b) \<Rightarrow> Some (a, b) | _ \<Rightarrow> None) evs"

fun status_path :: "AgentStatus \<Rightarrow> (AgentStatus \<times> AgentStatus) list \<Rightarrow> AgentStatus \<Rightarrow> bool" where
  "status_path s [] s' = (s = s')"
| "status_path s ((a, b) # es) s' = (a = s \<and> b \<in> ALLOWED_TRANSITIONS a \<and> status_path b es s')"

lemma status_path_append:
  "status_path s (es @ fs) s' \<longleftrightarrow> (\<exists>m. status_path s es m \<and> status_path m fs s')"
  by (induction s es s' rule: status_path.induct) auto

lemma recorded_append [simp]: "recorded (xs @ ys) = recorded xs @ recorded ys"
  by (simp add: recorded_def map_filter_def)

lemma tables_agree: "acb_allowed_transitions s = ALLOWED_TRANSITIONS s"
  by (cases s) auto

lemma acb_transition_to_eq:
  "acb_transition_to now st tid r d a =
     (if st \<in> ALLOWED_TRANSITIONS (acb_status a)
      then (record_transition now (acb_status a) st tid r d (a\<lparr>acb_status := st\<rparr>), Inr ())
      else (a, Inl (ValueError ''invalid agent transition'')))"
  by (simp add: acb_transition_to_def eff_simps Let_def tables_agree)

lemma lifecycle_transition_acb_eq:
  "lifecycle_transition_acb now st tid r d a =
     (if st \<in> ALLOWED_TRANSITIONS (acb_status a)
      then (record_transition now (acb_status a) st tid r d (a\<lparr>acb_status := st\<rparr>), Inr ())
      else (a, Inl (InvalidTransitionError (acb_agent_name a))))"
  by (simp add: lifecycle_transition_acb_def eff_simps Let_def record_transition_def)

lemma recorded_transition [simp]:
  "recorded (acb_timeline (record_transition now s s' tid r d a)) = recorded (acb_timeline a) @ [(s, s')]"
  "acb_status (record_transition now s s' tid r d a) = acb_status a"
  by (simp_all add: record_transition_def) (simp add: recorded_def map_filter_def)

lemma recorded_event [simp]:
  "recorded (acb_timeline (record_event now ev tid r d a)) = recorded (acb_timeline a)"
  "acb_status (record_event now ev tid r d a) = acb_status a"
  by (simp_all add: record_event_def) (simp add: recorded_def map_filter_def)

text \<open>One call extends the recorded path by zero or one allowed step, ending at the new status.\<close>

lemma acb_apply_step:
  "\<exists>es. recorded (acb_timeline (acb_apply p a)) = recorded (acb_timeline a) @ es \<and>
        status_path (acb_status a) es (acb_status (acb_apply p a))"
  by (cases p) (auto simp: acb_transition_to_eq lifecycle_transition_acb_eq set_current_task_def
      set_context_def intro: exI [of _ "[]"])

lemma acb_run_path:
  "\<exists>es. recorded (acb_timeline (acb_run ops a)) = recorded (acb_timeline a) @ es \<and>
        status_path (acb_status a) es (acb_status (acb_run ops a))"
proof (induction ops arbitrary: a)
  case Nil
  show ?case by (rule exI [of _ "[]"]) (simp add: acb_run_def)
next
  case (Cons p ops)
  obtain es where es: "recorded (acb_timeline (acb_apply p a)) = recorded (acb_timeline a) @ es"
      "status_path (acb_status a) es (acb_status (acb_apply p a))"
    using acb_apply_step by blast
  obtain fs where fs: "recorded (acb_timeline (acb_run ops (acb_apply p a)))
        = recorded (acb_timeline (acb_apply p a)) @ fs"
      "status_path (acb_status (acb_apply p a)) fs (acb_status (acb_run ops (acb_apply p a)))"
    using Cons by blast
  have "acb_run (p # ops) a = acb_run ops (acb_apply p a)"
    by (simp add: acb_run_def)
  with es fs show ?case
    by (intro exI [of _ "es @ fs"]) (auto simp: status_path_append)
qed

lemma status_path_terminal: "status_path s es s' \<Longrightarrow> ALLOWED_TRANSITIONS s = {} \<Longrightarrow> s' = s \<and> es = []"
  by (cases es) auto

text \<open>Without \<open>RECOVERING\<close> or \<open>ISOLATED\<close> the only way out of a failure is \<open>KILLED\<close>.\<close>

lemma status_path_failure_closed:
  "status_path s es s' \<Longrightarrow> s \<in> {AS_FAILED, AS_LOST, AS_KILLED} \<Longrightarrow>
   \<forall>e \<in> set es. snd e \<notin> {AS_RECOVERING, AS_ISOLATED} \<Longrightarrow> s' \<in> {AS_FAILED, AS_LOST, AS_KILLED}"
  by (induction s es s' rule: status_path.induct) auto

section \<open>Properties\<close>

text \<open>
  C31: The two implementations of the agent state machine agree: on every control block the module
  function and the method accept the same targets and produce the same control block, timeline
  included; a refused transition leaves the block as it was.
\<close>

theorem agent_transition_implementations_agree:
  "fst (lifecycle_transition_acb now st tid r d a) = fst (acb_transition_to now st tid r d a) \<and>
   (isl (snd (lifecycle_transition_acb now st tid r d a)) \<longleftrightarrow> isl (snd (acb_transition_to now st tid r d a))) \<and>
   (isl (snd (acb_transition_to now st tid r d a)) \<longleftrightarrow> \<not> can_transition_to a st) \<and>
   (isl (snd (acb_transition_to now st tid r d a)) \<longrightarrow> fst (acb_transition_to now st tid r d a) = a)"
  by (simp add: lifecycle_transition_acb_eq acb_transition_to_eq can_transition_to_def)

theorem agent_transition_implementations_agree_witness:
  "let a = (from_agent_spec 0 ''tr'' (new_agent ''coder'' ''dev'' 0))\<lparr>acb_status := AS_FAILED\<rparr>
   in isl (snd (acb_transition_to 5 AS_READY None [] [] a)) \<and>
      fst (lifecycle_transition_acb 5 AS_READY None [] [] a) = a"
  using agent_transition_implementations_agree[of 5 AS_READY None "[]" "[]"
      "(from_agent_spec 0 ''tr'' (new_agent ''coder'' ''dev'' 0))\<lparr>acb_status := AS_FAILED\<rparr>"]
  by (simp add: can_transition_to_def Let_def)

text \<open>
  The timeline of a control block is a faithful audit trail: from its creation on, the
  recorded transitions form one unbroken path of allowed steps from the initial status of the
  agent to its present status, whatever calls are made and whichever of them raise.
\<close>

theorem agent_timeline_is_audit_trail:
  "status_path (ag_status agent)
     (recorded (acb_timeline (acb_run ops (from_agent_spec now tr agent))))
     (acb_status (acb_run ops (from_agent_spec now tr agent)))"
proof -
  have "recorded (acb_timeline (from_agent_spec now tr agent)) = []"
    and "acb_status (from_agent_spec now tr agent) = ag_status agent"
    by (simp_all add: from_agent_spec_def recorded_def map_filter_def)
  then show ?thesis
    using acb_run_path[of ops "from_agent_spec now tr agent"] by auto
qed

text \<open>
  An agent that failed or was lost is never ready again without a recorded stay in
  \<open>RECOVERING\<close> or \<open>ISOLATED\<close>.
\<close>

theorem agent_recovery_is_explicit:
  assumes "acb_status a \<in> {AS_FAILED, AS_LOST}" and "acb_status (acb_run ops a) \<in> {AS_READY, AS_RUNNING}"
  shows "\<exists>es. recorded (acb_timeline (acb_run ops a)) = recorded (acb_timeline a) @ es \<and>
              (\<exists>e \<in> set es. snd e \<in> {AS_RECOVERING, AS_ISOLATED})"
proof -
  obtain es where es: "recorded (acb_timeline (acb_run ops a)) = recorded (acb_timeline a) @ es"
      "status_path (acb_status a) es (acb_status (acb_run ops a))"
    using acb_run_path by blast
  have "\<exists>e \<in> set es. snd e \<in> {AS_RECOVERING, AS_ISOLATED}"
    using status_path_failure_closed[OF es(2)] assms by fastforce
  with es(1) show ?thesis by blast
qed

theorem agent_recovery_is_explicit_witness:
  "let a = (from_agent_spec 0 ''tr'' (new_agent ''coder'' ''dev'' 0))\<lparr>acb_status := AS_FAILED\<rparr>;
       ops = [AcbLifecycle 1 AS_RECOVERING None [] [], AcbTransition 2 AS_READY None [] []]
   in \<exists>es. recorded (acb_timeline (acb_run ops a)) = recorded (acb_timeline a) @ es \<and>
        (\<exists>e \<in> set es. snd e \<in> {AS_RECOVERING, AS_ISOLATED})"
  unfolding Let_def
  by (rule agent_recovery_is_explicit)
    (simp_all add: acb_run_def acb_transition_to_eq lifecycle_transition_acb_eq)

end
