(* ===== verification/Task_Graph.thy ===== *)
theory Task_Graph
  imports Task_Lifecycle
begin

text \<open>
  The dependency graph that \<open>scheduler/kernel.py\<close> and \<open>scheduler/dag.py\<close> both keep: nodes with
  the set of dependencies still open and the set of dependents, the depth-first search
  \<open>_has_dependent_path\<close>, and the contract of \<open>add_dependencies\<close> as a locale.

  Python iterates a \<open>set\<close> in an unspecified order; the order is the argument \<open>it\<close>, about which
  only \<open>iterates it\<close> is ever assumed.
\<close>

section \<open>Nodes\<close>

record task_node =
  tn_dependencies :: "string set"
  tn_dependents :: "string set"

definition node_is_ready :: "task_node \<Rightarrow> bool" where
  "node_is_ready n \<longleftrightarrow> tn_dependencies n = {}"

definition iterates :: "('a set \<Rightarrow> 'a list) \<Rightarrow> bool" where
  "iterates it \<longleftrightarrow> (\<forall>S. finite S \<longrightarrow> set (it S) = S \<and> distinct (it S))"

lemma iterates_sorted: "iterates (sorted_list_of_set :: string set \<Rightarrow> string list)"
  by (simp add: iterates_def)

text \<open>Mutation of a node object through the dictionary; an absent key is left absent.\<close>

definition node_update :: "string \<Rightarrow> (task_node \<Rightarrow> task_node) \<Rightarrow> task_node dict \<Rightarrow> task_node dict" where
  "node_update i f nodes = (case map_of nodes i of None \<Rightarrow> nodes | Some n \<Rightarrow> dict_set i (f n) nodes)"

lemma map_of_node_update [simp]:
  "map_of (node_update i f nodes) j = (if j = i then map_option f (map_of nodes i) else map_of nodes j)"
  by (auto simp: node_update_def split: option.splits)

definition add_dependent :: "string \<Rightarrow> string \<Rightarrow> task_node dict \<Rightarrow> task_node dict" where
  "add_dependent d t nodes = node_update d (\<lambda>n. n\<lparr>tn_dependents := insert t (tn_dependents n)\<rparr>) nodes"

definition add_dependency :: "string \<Rightarrow> string \<Rightarrow> task_node dict \<Rightarrow> task_node dict" where
  "add_dependency t d nodes = node_update t (\<lambda>n. n\<lparr>tn_dependencies := insert d (tn_dependencies n)\<rparr>) nodes"

definition discard_dependency :: "string \<Rightarrow> string \<Rightarrow> task_node dict \<Rightarrow> task_node dict" where
  "discard_dependency t d nodes = node_update t (\<lambda>n. n\<lparr>tn_dependencies := tn_dependencies n - {d}\<rparr>) nodes"

definition graph_edges :: "task_node dict \<Rightarrow> (string \<times> string) set" where
  "graph_edges nodes = {(a, b). \<exists>n. map_of nodes a = Some n \<and> b \<in> tn_dependents n}"

definition finite_nodes :: "task_node dict \<Rightarrow> bool" where
  "finite_nodes nodes \<longleftrightarrow>
     (\<forall>i n. map_of nodes i = Some n \<longrightarrow> finite (tn_dependents n) \<and> finite (tn_dependencies n))"

lemma graph_edgesI: "map_of nodes a = Some n \<Longrightarrow> b \<in> tn_dependents n \<Longrightarrow> (a, b) \<in> graph_edges nodes"
  by (auto simp: graph_edges_def)

lemma graph_edges_add_dependent:
  "graph_edges (add_dependent d t nodes) =
     graph_edges nodes \<union> (if map_of nodes d = None then {} else {(d, t)})"
  by (auto simp: graph_edges_def add_dependent_def split: if_splits)

lemma graph_edges_add_dependency [simp]: "graph_edges (add_dependency t d nodes) = graph_edges nodes"
  by (force simp: graph_edges_def add_dependency_def split: if_splits)

lemma graph_edges_discard_dependency [simp]:
  "graph_edges (discard_dependency t d nodes) = graph_edges nodes"
  by (force simp: graph_edges_def discard_dependency_def split: if_splits)

lemma finite_nodes_updates [simp, intro]:
  assumes "finite_nodes nodes"
  shows "finite_nodes (add_dependent d t nodes)" "finite_nodes (add_dependency t d nodes)"
    "finite_nodes (discard_dependency t d nodes)"
  using assms by (fastforce simp: finite_nodes_def add_dependent_def add_dependency_def
      discard_dependency_def split: if_splits)+

section \<open>Depth-first search\<close>

text \<open>The stack's top is the head of the list: \<open>pop()\<close> takes it, \<open>extend\<close> pushes in order.\<close>

function dependent_path_loop ::
    "(string set \<Rightarrow> string list) \<Rightarrow> task_node dict \<Rightarrow> string \<Rightarrow> string set \<Rightarrow> string list \<Rightarrow> bool" where
  "dependent_path_loop it nodes target seen [] = False"
| "dependent_path_loop it nodes target seen (current # stack) =
     (if current = target then True
      else if current \<in> seen then dependent_path_loop it nodes target seen stack
      else (case map_of nodes current of
              None \<Rightarrow> dependent_path_loop it nodes target (insert current seen) stack
            | Some n \<Rightarrow> dependent_path_loop it nodes target (insert current seen)
                          (rev (it (tn_dependents n)) @ stack)))"
  by pat_completeness auto

termination
proof (relation "measures [\<lambda>(it, nodes, target, seen, stack). card (fst ` set nodes - seen),
                           \<lambda>(it, nodes, target, seen, stack). length stack]", goal_cases)
  case (3 it nodes target seen current stack)
  then have "current \<notin> fst ` set nodes" by (simp add: map_of_eq_None_iff)
  then have "fst ` set nodes - insert current seen = fst ` set nodes - seen" by blast
  then show ?case by simp
next
  case (4 it nodes target seen current stack n)
  then have "current \<in> fst ` set nodes - seen"
    by (metis DiffI domI dom_map_of_conv_image_fst)
  then have "card (fst ` set nodes - seen - {current}) < card (fst ` set nodes - seen)"
    by (intro card_Diff1_less) auto
  moreover have "fst ` set nodes - insert current seen = fst ` set nodes - seen - {current}"
    by blast
  ultimately show ?case by simp
qed auto

definition has_dependent_path ::
    "(string set \<Rightarrow> string list) \<Rightarrow> task_node dict \<Rightarrow> string \<Rightarrow> string \<Rightarrow> bool" where
  "has_dependent_path it nodes start_id target_id = dependent_path_loop it nodes target_id {} [start_id]"

text \<open>Everything seen is expanded: its successors are seen or on the stack.\<close>

lemma dependent_path_loop_iff:
  assumes "iterates it" "finite_nodes nodes" "target \<notin> seen"
    and "\<And>a b. a \<in> seen \<Longrightarrow> (a, b) \<in> graph_edges nodes \<Longrightarrow> b \<in> seen \<union> set stack"
  shows "dependent_path_loop it nodes target seen stack \<longleftrightarrow>
           (\<exists>s \<in> set stack. (s, target) \<in> (graph_edges nodes)\<^sup>*)"
  using assms
proof (induction it nodes target seen stack rule: dependent_path_loop.induct)
  case (1 it nodes target seen)
  then show ?case by simp
next
  case (2 it nodes target seen current stack)
  let ?E = "graph_edges nodes"
  show ?case
  proof (cases "current = target")
    case True
    then show ?thesis by auto
  next
    case ct: False
    show ?thesis
    proof (cases "current \<in> seen")
      case True
      have closed: "\<exists>s \<in> set stack. (s, target) \<in> ?E\<^sup>*" if "(x, target) \<in> ?E\<^sup>*" "x \<in> seen" for x
        using that
      proof (induction rule: converse_rtrancl_induct)
        case base
        with "2.prems"(3) show ?case by simp
      next
        case (step y z)
        have "z \<in> seen \<union> set (current # stack)"
          using "2.prems"(4) step by blast
        with True have "z \<in> seen \<or> z \<in> set stack" by auto
        with step show ?case by blast
      qed
      have "dependent_path_loop it nodes target seen stack \<longleftrightarrow> (\<exists>s \<in> set stack. (s, target) \<in> ?E\<^sup>*)"
        using "2.IH"(1)[OF ct True "2.prems"(1-3)] "2.prems"(4) True by auto
      with ct True closed show ?thesis by auto
    next
      case new: False
      show ?thesis
      proof (cases "map_of nodes current")
        case None
        then have no: "(current, b) \<notin> ?E" for b by (simp add: graph_edges_def)
        have "dependent_path_loop it nodes target (insert current seen) stack \<longleftrightarrow>
            (\<exists>s \<in> set stack. (s, target) \<in> ?E\<^sup>*)"
          using "2.IH"(2)[OF ct new None "2.prems"(1,2)] "2.prems"(3,4) ct no by auto
        moreover have "(current, target) \<notin> ?E\<^sup>*"
          using no ct by (auto elim: converse_rtranclE)
        ultimately show ?thesis using ct new None by simp
      next
        case (Some n)
        have it: "set (it (tn_dependents n)) = tn_dependents n"
          using "2.prems"(1,2) Some by (simp add: iterates_def finite_nodes_def)
        have succ: "(current, b) \<in> ?E \<longleftrightarrow> b \<in> tn_dependents n" for b
          using Some by (simp add: graph_edges_def)
        have cl: "b \<in> insert current seen \<union> set (rev (it (tn_dependents n)) @ stack)"
          if "a \<in> insert current seen" "(a, b) \<in> ?E" for a b
          using that "2.prems"(4)[of a b] it succ by auto
        have nt: "target \<notin> insert current seen" using ct "2.prems"(3) by simp
        have "dependent_path_loop it nodes target (insert current seen) (rev (it (tn_dependents n)) @ stack)
           \<longleftrightarrow> (\<exists>s \<in> set (rev (it (tn_dependents n)) @ stack). (s, target) \<in> ?E\<^sup>*)"
          by (rule "2.IH"(3)[OF ct new Some "2.prems"(1,2) nt cl])
        moreover have "(current, target) \<in> ?E\<^sup>* \<longleftrightarrow> (\<exists>b \<in> tn_dependents n. (b, target) \<in> ?E\<^sup>*)"
          using ct succ by (meson converse_rtranclE converse_rtrancl_into_rtrancl)
        ultimately show ?thesis using ct new Some it by auto
      qed
    qed
  qed
qed

lemma has_dependent_path_iff:
  assumes "iterates it" "finite_nodes nodes"
  shows "has_dependent_path it nodes a b \<longleftrightarrow> (a, b) \<in> (graph_edges nodes)\<^sup>*"
  using dependent_path_loop_iff[of it nodes b "{}" "[a]"] assms
  by (simp add: has_dependent_path_def)

section \<open>Acyclic updates\<close>

lemma acyclic_add_into:
  assumes "acyclic E" and "\<And>d. d \<in> D \<Longrightarrow> (t, d) \<notin> E\<^sup>*"
  shows "acyclic (E \<union> D \<times> {t})"
proof -
  have *: "(a, b) \<in> E\<^sup>+ \<or> (b = b \<and> (t, b) \<in> E\<^sup>* \<and> (\<exists>d \<in> D. (a, d) \<in> E\<^sup>*))"
    if "(a, b) \<in> (E \<union> D \<times> {t})\<^sup>+" for a b
    using that
  proof (induction rule: trancl_induct)
    case (base y)
    then show ?case by auto
  next
    case (step y z)
    from step(2) consider "(y, z) \<in> E" | "y \<in> D" "z = t" by auto
    then show ?case
    proof cases
      case 1
      with step(3) show ?thesis
        by (auto intro: trancl_into_trancl rtrancl_into_rtrancl)
    next
      case 2
      with step(3) assms(2) show ?thesis by (auto dest: trancl_into_rtrancl)
    qed
  qed
  show ?thesis
  proof (rule acyclicI, rule allI, rule notI)
    fix x assume "(x, x) \<in> (E \<union> D \<times> {t})\<^sup>+"
    from *[OF this] assms show False
      by (auto simp: acyclic_def dest: rtrancl_trans)
  qed
qed

text \<open>
  The contract of a scheduler's \<open>add_dependencies\<close>: it either leaves the graph alone, or it has
  checked that no new dependency is reachable from the task, and then adds edges into the task
  only. A scheduler with this contract never closes a cycle.
\<close>

locale dependency_scheduler =
  fixes edges :: "'s \<Rightarrow> (string \<times> string) set"
    and inv :: "'s \<Rightarrow> bool"
    and add_deps :: "string \<Rightarrow> string list \<Rightarrow> ('s, unit) eff"
  assumes add_deps_checked:
    "inv s \<Longrightarrow> edges (fst (add_deps t ds s)) = edges s \<or>
       (\<forall>d \<in> set ds. (t, d) \<notin> (edges s)\<^sup>*) \<and>
       edges (fst (add_deps t ds s)) \<subseteq> edges s \<union> set ds \<times> {t}"
    and add_deps_inv: "inv s \<Longrightarrow> inv (fst (add_deps t ds s))"
begin

lemma add_deps_acyclic:
  assumes "inv s" "acyclic (edges s)"
  shows "acyclic (edges (fst (add_deps t ds s)))"
  using add_deps_checked[OF assms(1), of t ds]
proof
  assume "edges (fst (add_deps t ds s)) = edges s"
  with assms(2) show ?thesis by simp
next
  assume *: "(\<forall>d \<in> set ds. (t, d) \<notin> (edges s)\<^sup>*) \<and>
    edges (fst (add_deps t ds s)) \<subseteq> edges s \<union> set ds \<times> {t}"
  then have "acyclic (edges s \<union> set ds \<times> {t})"
    by (intro acyclic_add_into assms(2)) auto
  with * show ?thesis by (meson acyclic_subset)
qed

lemma add_deps_many:
  assumes "inv s" "acyclic (edges s)"
  shows "acyclic (edges (fst (eff_for reqs (\<lambda>(t, ds). \<lambda>s. (fst (add_deps t ds s), Inr ())) s)))"
  using assms
proof (induction reqs arbitrary: s)
  case Nil
  then show ?case by (simp add: eff_simps)
next
  case (Cons r reqs)
  obtain t ds where r: "r = (t, ds)" by (cases r)
  show ?case
    using Cons.IH[OF add_deps_inv[OF Cons.prems(1)] add_deps_acyclic[OF Cons.prems]]
    by (simp add: r eff_simps)
qed

end

end
