(* ===== verification/Kernel_Scheduler.thy ===== *)
theory Kernel_Scheduler
  imports Task_Graph
begin

text \<open>
  \<open>aruntime/scheduler/kernel.py\<close>: the queues of the kernel scheduler and its operations.

  Task objects live in the store \<open>k_task\<close>, addressed by task identifier; the queues and the running
  table hold identifiers. So \<open>task in queue\<close> is membership of the identifier, and a change of a task
  is visible through every queue. The store is total: an identifier never enqueued has a value that
  no queue refers to. What the scheduler calls out to is in the environment: one clock reading per
  call, the resource checker, the agents of the provider, the iteration order of a set and
  \<open>float.__repr__\<close>.

  While CPython's \<open>list.sort\<close> computes its keys the list is empty, so \<open>_resource_score_details\<close> sees
  no other candidate there; the candidates it sees are an argument here.
\<close>

section \<open>State\<close>

record kenv =
  ke_now :: usec
  ke_checker :: "(TaskSpec \<Rightarrow> bool \<times> string) option"
  ke_agents :: "AgentSpec list option"
  ke_iter :: "string set \<Rightarrow> string list"
  ke_repr :: "rat \<Rightarrow> string"

record selection =
  sel_task_id :: string
  sel_agent_name :: "string option"
  sel_selected :: bool
  sel_reason :: string
  sel_at :: usec

record kernel =
  k_policy :: string
  k_task :: "string \<Rightarrow> TaskSpec"
  k_ready :: "string list"
  k_waiting :: "string list"
  k_running :: "string list"
  k_failed :: "string list"
  k_completed :: "string list"
  k_nodes :: "task_node dict"
  k_completed_tasks :: "string set"
  k_failed_tasks :: "string set"
  k_dispatch_count :: "(string option \<times> nat) list"
  k_agent_queues :: "(string option \<times> string list) list"
  k_selection_log :: "selection list"

definition kernel_init :: "string \<Rightarrow> (string \<Rightarrow> TaskSpec) \<Rightarrow> kernel" where
  "kernel_init policy store =
     \<lparr>k_policy = policy, k_task = store, k_ready = [], k_waiting = [], k_running = [], k_failed = [],
      k_completed = [], k_nodes = [], k_completed_tasks = {}, k_failed_tasks = {},
      k_dispatch_count = [], k_agent_queues = [], k_selection_log = []\<rparr>"

text \<open>A method call on the task object with identifier \<open>i\<close>; an assignment to its attributes.\<close>

definition on_task :: "string \<Rightarrow> (TaskSpec, 'a) eff \<Rightarrow> (kernel, 'a) eff" where
  "on_task i m = (\<lambda>k. case m (k_task k i) of (t, r) \<Rightarrow> (k\<lparr>k_task := (k_task k)(i := t)\<rparr>, r))"

definition set_task :: "string \<Rightarrow> (TaskSpec \<Rightarrow> TaskSpec) \<Rightarrow> (kernel, unit) eff" where
  "set_task i f = eff_modify (\<lambda>k. k\<lparr>k_task := (k_task k)(i := f (k_task k i))\<rparr>)"

section \<open>Ordering policies\<close>

definition aged_priority :: "usec \<Rightarrow> TaskSpec \<Rightarrow> rat" where
  "aged_priority now t =
     (let waited_s = max (of_int (now - ts_created_at t) / 1000000) 0
      in of_int (ts_priority t) + waited_s / 30)"

text \<open>\<open>float("inf")\<close> is above every time stamp: the first component says whether it is infinite.\<close>

fun deadline_value :: "py_datetime option \<Rightarrow> rat list" where
  "deadline_value None = [1, 0]"
| "deadline_value (Some (DT us (Some offset))) = [0, of_int (us - offset) / 1000000]"
| "deadline_value (Some (DT us None)) = [0, of_int us / 1000000]"

definition requested_number :: "TaskSpec \<Rightarrow> string \<Rightarrow> rat" where
  "requested_number t key =
     (case map_of (ts_resource_request t) key of
        Some v \<Rightarrow> (case json_number v of Some r \<Rightarrow> r | None \<Rightarrow> 0)
      | None \<Rightarrow> 0)"

definition token_budget_set :: "TaskSpec \<Rightarrow> bool" where
  "token_budget_set t \<longleftrightarrow> (case ts_token_budget t of Some b \<Rightarrow> b \<noteq> 0 | None \<Rightarrow> False)"

definition with_budget :: "TaskSpec \<Rightarrow> rat \<Rightarrow> rat" where
  "with_budget t v =
     (if token_budget_set t \<and> v \<le> 0 then of_int (case ts_token_budget t of Some b \<Rightarrow> b | None \<Rightarrow> 0) else v)"

definition max_requested :: "TaskSpec list \<Rightarrow> string \<Rightarrow> bool \<Rightarrow> rat" where
  "max_requested tasks key include_task_budget =
     (let values = map (\<lambda>item. let v = requested_number item key
                               in if include_task_budget then with_budget item v else v) tasks
      in fold max (tl (if values = [] then [0] else values)) (hd (if values = [] then [0] else values)))"

definition ratio :: "rat \<Rightarrow> rat \<Rightarrow> rat" where
  "ratio value denominator = (if denominator \<le> 0 then 0 else min (value / denominator) 1)"

record score_details =
  sd_memory_ratio :: rat
  sd_token_ratio :: rat
  sd_llm_ratio :: rat
  sd_final_score :: rat

definition resource_score_details :: "TaskSpec list \<Rightarrow> TaskSpec \<Rightarrow> score_details" where
  "resource_score_details ready t =
     (let memory = requested_number t ''memory_max_bytes'';
          tokens = with_budget t (requested_number t ''token_budget'');
          llm = requested_number t ''llm_max_concurrent'';
          candidates = (if t \<in> set ready then ready else ready @ [t]);
          memory_ratio = ratio memory (max_requested candidates ''memory_max_bytes'' False);
          token_ratio = ratio tokens (max_requested candidates ''token_budget'' True);
          llm_ratio = ratio llm (max_requested candidates ''llm_max_concurrent'' False);
          final_score = (memory_ratio + token_ratio + llm_ratio) / 3
      in \<lparr>sd_memory_ratio = py_round 4 memory_ratio, sd_token_ratio = py_round 4 token_ratio,
          sd_llm_ratio = py_round 4 llm_ratio, sd_final_score = py_round 4 final_score\<rparr>)"

definition resource_weight :: "TaskSpec list \<Rightarrow> TaskSpec \<Rightarrow> rat" where
  "resource_weight ready t = sd_final_score (resource_score_details ready t)"

definition capability_score :: "TaskSpec \<Rightarrow> rat" where
  "capability_score t =
     of_nat (length (filter (get_truthy (ts_required_capability t))
       [''can_plan'', ''can_code'', ''can_test'', ''can_review'', ''language'']))"

text \<open>\<open>not agent_name\<close>: absent or the empty string.\<close>

definition no_name :: "string option \<Rightarrow> bool" where
  "no_name a \<longleftrightarrow> a = None \<or> a = Some []"

definition find_agent :: "kenv \<Rightarrow> string option \<Rightarrow> AgentSpec option" where
  "find_agent env agent_name =
     (if no_name agent_name then None
      else case ke_agents env of
        None \<Rightarrow> None
      | Some agents \<Rightarrow> List.find (\<lambda>a. Some (ag_agent_name a) = agent_name) agents)"

definition cost_score :: "kenv \<Rightarrow> TaskSpec \<Rightarrow> rat" where
  "cost_score env t =
     (case find_agent env (ts_agent_name t) of
        Some a \<Rightarrow> of_int (cap_cost_level (ag_capability a)) | None \<Rightarrow> 0)"

definition reliability_score :: "kenv \<Rightarrow> TaskSpec \<Rightarrow> rat" where
  "reliability_score env t =
     (case find_agent env (ts_agent_name t) of
        Some a \<Rightarrow> cap_reliability_score (ag_capability a) | None \<Rightarrow> 0)"

text \<open>The key tuples, all components numeric, compared lexicographically.\<close>

definition sort_key_of :: "kenv \<Rightarrow> kernel \<Rightarrow> TaskSpec list \<Rightarrow> TaskSpec \<Rightarrow> rat list" where
  "sort_key_of env k visible t =
     (let aged = - aged_priority (ke_now env) t; created = of_int (ts_created_at t)
      in if k_policy k = ''fifo'' then [created]
         else if k_policy k = ''priority'' then [aged, created]
         else if k_policy k = ''deadline'' then deadline_value (ts_deadline t) @ [aged, created]
         else if k_policy k = ''fair_share''
           then [of_nat (dict_get (k_dispatch_count k) (ts_agent_name t) 0), aged, created]
         else if k_policy k = ''resource_aware'' then [resource_weight visible t, aged, created]
         else if k_policy k = ''capability_aware'' then [- capability_score t, aged, created]
         else if k_policy k = ''cost_aware'' then [cost_score env t, aged, created]
         else if k_policy k = ''reliability_aware'' then [- reliability_score env t, aged, created]
         else [aged, created])"

definition sort_ready :: "kenv \<Rightarrow> kernel \<Rightarrow> kernel" where
  "sort_ready env k = k\<lparr>k_ready := sort_key (\<lambda>i. sort_key_of env k [] (k_task k i)) (k_ready k)\<rparr>"

definition append_ready :: "kenv \<Rightarrow> string \<Rightarrow> kernel \<Rightarrow> kernel" where
  "append_ready env i k = sort_ready env (k\<lparr>k_ready := k_ready k @ [i]\<rparr>)"

definition decision_reason :: "kenv \<Rightarrow> kernel \<Rightarrow> TaskSpec \<Rightarrow> string \<Rightarrow> string" where
  "decision_reason env k t resource_reason =
     (let capability = (\<lambda>default. if take 16 resource_reason = ''capability_match'' then resource_reason
                          else if ts_scheduler_decision_reason t \<noteq> [] then ts_scheduler_decision_reason t
                          else default)
      in if k_policy k = ''fifo'' then ''fifo_order''
         else if k_policy k = ''priority'' then ''priority='' @ int_str (ts_priority t)
         else if k_policy k = ''deadline'' then ''earliest_deadline''
         else if k_policy k = ''fair_share''
           then ''fair_share_agent_count='' @ nat_str (dict_get (k_dispatch_count k) (ts_agent_name t) 0)
         else if k_policy k = ''resource_aware''
           then (let d = resource_score_details (map (k_task k) (k_ready k)) t
                 in resource_reason @ ''; resource_score='' @
                    json_dumps_sorted (ke_repr env) (JObj
                      [(''memory_ratio'', JFloat (sd_memory_ratio d)),
                       (''token_ratio'', JFloat (sd_token_ratio d)),
                       (''llm_ratio'', JFloat (sd_llm_ratio d)),
                       (''final_score'', JFloat (sd_final_score d))]))
         else if k_policy k = ''capability_aware'' then capability ''capability_match''
         else if k_policy k = ''cost_aware'' then capability ''cost_aware''
         else if k_policy k = ''reliability_aware'' then capability ''reliability_aware''
         else k_policy k)"

section \<open>Matching agents\<close>

text \<open>Iterating a value: a list's items, a dictionary's keys, a string's characters.\<close>

fun json_iter :: "json \<Rightarrow> py_error + json list" where
  "json_iter (JList xs) = Inr xs"
| "json_iter (JObj kvs) = Inr (map (JStr \<circ> fst) kvs)"
| "json_iter (JStr s) = Inr (map (\<lambda>c. JStr [c]) s)"
| "json_iter _ = Inl (TypeError ''object is not iterable'')"

definition json_in :: "json \<Rightarrow> string list \<Rightarrow> bool" where
  "json_in v names \<longleftrightarrow> (case v of JStr s \<Rightarrow> s \<in> set names | _ \<Rightarrow> False)"

definition key_unmet :: "jdict \<Rightarrow> string \<Rightarrow> string list \<Rightarrow> bool" where
  "key_unmet req key names \<longleftrightarrow>
     (case map_of req key of None \<Rightarrow> False | Some v \<Rightarrow> truthy v \<and> \<not> json_in v names)"

definition match_capability :: "jdict \<Rightarrow> AgentCapability \<Rightarrow> py_error + bool" where
  "match_capability req cap =
     (if get_truthy req ''can_plan'' \<and> \<not> cap_can_plan cap then Inr False
      else if get_truthy req ''can_code'' \<and> \<not> cap_can_code cap then Inr False
      else if get_truthy req ''can_test'' \<and> \<not> cap_can_test cap then Inr False
      else if get_truthy req ''can_review'' \<and> \<not> cap_can_review cap then Inr False
      else if key_unmet req ''language'' (cap_languages cap) then Inr False
      else let rest = \<not> key_unmet req ''tool'' (cap_tools cap)
        in (case map_of req ''languages'' of
              None \<Rightarrow> Inr rest
            | Some v \<Rightarrow> if \<not> truthy v then Inr rest
                else (case json_iter v of
                        Inl e \<Rightarrow> Inl e
                      | Inr ls \<Rightarrow> if \<exists>l \<in> set ls. json_in l (cap_languages cap) then Inr rest else Inr False)))"

fun matched_agents :: "jdict \<Rightarrow> AgentSpec list \<Rightarrow> py_error + AgentSpec list" where
  "matched_agents req [] = Inr []"
| "matched_agents req (a # agents) =
     (case match_capability req (ag_capability a) of
        Inl e \<Rightarrow> Inl e
      | Inr ok \<Rightarrow> (case matched_agents req agents of
          Inl e \<Rightarrow> Inl e
        | Inr rest \<Rightarrow> Inr (if ok then a # rest else rest)))"

definition match_agent_key :: "AgentSpec \<Rightarrow> rat list \<times> string" where
  "match_agent_key a =
     ([- cap_reliability_score (ag_capability a), of_int (cap_cost_level (ag_capability a))], ag_agent_name a)"

definition agent_key_le :: "rat list \<times> string \<Rightarrow> rat list \<times> string \<Rightarrow> bool" where
  "agent_key_le x y \<longleftrightarrow> fst x < fst y \<or> fst x = fst y \<and> snd x \<le> snd y"

text \<open>\<open>matched.sort(key=..)[0]\<close>: the first of the agents with the least key.\<close>

fun least_agent :: "AgentSpec \<Rightarrow> AgentSpec list \<Rightarrow> AgentSpec" where
  "least_agent a [] = a"
| "least_agent a (b # bs) =
     (if agent_key_le (match_agent_key a) (match_agent_key b) then least_agent a bs else least_agent b bs)"

definition match_agent ::
    "kenv \<Rightarrow> string \<Rightarrow> AgentSpec list \<Rightarrow> (kernel, AgentSpec option) eff" where
  "match_agent env i agents =
     eff_get (\<lambda>k. eff_bind (eff_lift (matched_agents (ts_required_capability (k_task k i)) agents)) (\<lambda>matched.
       case matched of
         [] \<Rightarrow> eff_then (set_task i (\<lambda>t. t\<lparr>ts_scheduler_decision_reason := ''capability_match:none''\<rparr>))
                 (eff_return None)
       | a # rest \<Rightarrow>
           (let selected = least_agent a rest;
                reason = decision_reason env k (k_task k i)
                  (''capability_match: selected='' @ ag_agent_name selected @ '', reliability='' @
                   ke_repr env (cap_reliability_score (ag_capability selected)))
            in eff_then (set_task i (\<lambda>t. t\<lparr>ts_scheduler_decision_reason := reason,
                                         ts_agent_name := Some (ag_agent_name selected)\<rparr>))
                 (eff_return (Some selected)))))"

definition select_agent_if_needed :: "kenv \<Rightarrow> string \<Rightarrow> (kernel, AgentSpec option) eff" where
  "select_agent_if_needed env i =
     eff_get (\<lambda>k. if ts_required_capability (k_task k i) = [] \<and> \<not> no_name (ts_agent_name (k_task k i))
                  then eff_return None
                  else match_agent env i (case ke_agents env of Some a \<Rightarrow> a | None \<Rightarrow> []))"

section \<open>Queues\<close>

definition remove_from_queues :: "string \<Rightarrow> kernel \<Rightarrow> kernel" where
  "remove_from_queues i k =
     k\<lparr>k_ready := remove1 i (k_ready k), k_waiting := remove1 i (k_waiting k),
       k_failed := remove1 i (k_failed k), k_completed := remove1 i (k_completed k)\<rparr>"

definition remove_agent_queue_task :: "string \<Rightarrow> kernel \<Rightarrow> kernel" where
  "remove_agent_queue_task i k =
     (let a = ts_agent_name (k_task k i)
      in case map_of (k_agent_queues k) a of
           None \<Rightarrow> k
         | Some q \<Rightarrow> if i \<in> set q then k\<lparr>k_agent_queues := dict_set a (remove1 i q) (k_agent_queues k)\<rparr> else k)"

definition move_to_waiting :: "kenv \<Rightarrow> string \<Rightarrow> string \<Rightarrow> (kernel, unit) eff" where
  "move_to_waiting env i reason =
     eff_then (eff_modify (remove_from_queues i))
       (eff_then (on_task i (block (ke_now env) reason))
         (eff_modify (\<lambda>k. k\<lparr>k_waiting := k_waiting k @ [i]\<rparr>)))"

definition resource_available :: "kenv \<Rightarrow> TaskSpec \<Rightarrow> bool \<times> string" where
  "resource_available env t =
     (case ke_checker env of None \<Rightarrow> (True, ''resource_not_checked'') | Some c \<Rightarrow> c t)"

text \<open>\<open>self.waiting_queue.remove(task); task.unblock(reason); self._append_ready(task)\<close>.\<close>

definition wake_task :: "kenv \<Rightarrow> string \<Rightarrow> string \<Rightarrow> (kernel, unit) eff" where
  "wake_task env i reason =
     eff_then (eff_modify (\<lambda>k. k\<lparr>k_waiting := remove1 i (k_waiting k)\<rparr>))
       (eff_then (on_task i (unblock (ke_now env) reason))
         (eff_modify (append_ready env i)))"

definition or_default :: "string \<Rightarrow> string \<Rightarrow> string" where
  "or_default s d = (if s = [] then d else s)"

definition wake_one :: "kenv \<Rightarrow> string \<Rightarrow> (kernel, unit) eff" where
  "wake_one env i =
     eff_get (\<lambda>k. let t = k_task k i;
           dependency_ready = (case map_of (k_nodes k) i of None \<Rightarrow> True | Some n \<Rightarrow> node_is_ready n)
       in eff_when (dependency_ready \<and> ts_resource_block_reason t \<noteq> [])
            (case resource_available env t of (ok, reason) \<Rightarrow>
               if \<not> ok then set_task i (\<lambda>t. t\<lparr>ts_resource_block_reason := reason\<rparr>)
               else wake_task env i (or_default reason ''resource_available'')))"

definition wake_waiting :: "kenv \<Rightarrow> (kernel, unit) eff" where
  "wake_waiting env = eff_get (\<lambda>k. eff_for (k_waiting k) (wake_one env))"

section \<open>Submission\<close>

definition link_dependencies :: "string \<Rightarrow> string list \<Rightarrow> kernel \<Rightarrow> kernel" where
  "link_dependencies i deps k =
     fold (\<lambda>d k. let k1 = k\<lparr>k_nodes := add_dependent d i (k_nodes k)\<rparr>
                 in if d \<in> k_completed_tasks k1 then k1\<lparr>k_nodes := discard_dependency i d (k_nodes k1)\<rparr> else k1)
       deps k"

text \<open>The closing step of \<open>enqueue\<close> and \<open>add_dependencies\<close>: into the ready or the waiting queue.\<close>

definition place_task :: "kenv \<Rightarrow> string \<Rightarrow> (kernel, unit) eff" where
  "place_task env i =
     eff_get (\<lambda>k. if (case map_of (k_nodes k) i of None \<Rightarrow> True | Some n \<Rightarrow> node_is_ready n)
       then eff_then (on_task i (transition_to (ke_now env) TS_READY ''dependencies_satisfied''))
              (eff_modify (append_ready env i))
       else eff_then (on_task i (transition_to (ke_now env) TS_PENDING ''waiting_dependencies''))
              (eff_modify (\<lambda>k. k\<lparr>k_waiting := k_waiting k @ [i]\<rparr>)))"

definition kernel_enqueue :: "kenv \<Rightarrow> TaskSpec \<Rightarrow> (kernel, unit) eff" where
  "kernel_enqueue env t =
     (let i = ts_task_id t
      in eff_then (eff_modify (\<lambda>k.
           let k1 = k\<lparr>k_task := (k_task k)(i := t),
                      k_nodes := dict_set i \<lparr>tn_dependencies = set (ts_dependencies t), tn_dependents = {}\<rparr> (k_nodes k)\<rparr>;
               k2 = link_dependencies i (ts_dependencies t) k1;
               a = ts_agent_name t
           in k2\<lparr>k_agent_queues := dict_set a (dict_get (k_agent_queues k2) a [] @ [i]) (k_agent_queues k2)\<rparr>))
         (place_task env i))"

fun check_dependencies :: "kenv \<Rightarrow> kernel \<Rightarrow> string \<Rightarrow> string list \<Rightarrow> py_error + unit" where
  "check_dependencies env k i [] = Inr ()"
| "check_dependencies env k i (d # ds) =
     (if map_of (k_nodes k) d = None then Inl (KeyError d)
      else if has_dependent_path (ke_iter env) (k_nodes k) i d
      then Inl (ValueError ''cyclic dependency is not allowed'')
      else check_dependencies env k i ds)"

definition insert_dependency :: "string \<Rightarrow> string \<Rightarrow> kernel \<Rightarrow> kernel" where
  "insert_dependency i d k =
     (case map_of (k_nodes k) i of
        None \<Rightarrow> k
      | Some n \<Rightarrow>
          if d \<in> tn_dependencies n then k
          else (let t = k_task k i;
                    t' = (if d \<in> set (ts_dependencies t) then t else t\<lparr>ts_dependencies := ts_dependencies t @ [d]\<rparr>);
                    nodes = add_dependent d i (add_dependency i d (k_nodes k));
                    nodes' = (if d \<in> k_completed_tasks k then discard_dependency i d nodes else nodes)
                in k\<lparr>k_task := (k_task k)(i := t'), k_nodes := nodes'\<rparr>))"

definition kernel_add_dependencies :: "kenv \<Rightarrow> string \<Rightarrow> string list \<Rightarrow> (kernel, unit) eff" where
  "kernel_add_dependencies env i dependency_ids =
     eff_get (\<lambda>k.
       if map_of (k_nodes k) i = None then eff_raise (KeyError i)
       else if ts_status (k_task k i) \<in> {TS_RUNNING, TS_SUCCESS, TS_FAILED, TS_CANCELLED}
       then eff_raise (ValueError ''task state does not allow dependency updates'')
       else let unique_ids = dedup dependency_ids
         in if i \<in> set unique_ids then eff_raise (ValueError ''self dependency is not allowed'')
            else eff_then (eff_lift (check_dependencies env k i unique_ids))
              (eff_then (eff_modify (fold (insert_dependency i) unique_ids))
                (eff_then (eff_modify (\<lambda>k. k\<lparr>k_ready := remove1 i (k_ready k),
                                            k_waiting := remove1 i (k_waiting k)\<rparr>))
                  (place_task env i))))"

section \<open>Dispatch\<close>

definition log_selection :: "kenv \<Rightarrow> string \<Rightarrow> bool \<Rightarrow> string \<Rightarrow> kernel \<Rightarrow> kernel" where
  "log_selection env i selected reason k =
     k\<lparr>k_selection_log := k_selection_log k @
         [\<lparr>sel_task_id = i, sel_agent_name = ts_agent_name (k_task k i), sel_selected = selected,
           sel_reason = reason, sel_at = ke_now env\<rparr>]\<rparr>"

definition mark_running :: "kenv \<Rightarrow> string \<Rightarrow> string \<Rightarrow> (kernel, unit) eff" where
  "mark_running env i reason =
     eff_get (\<lambda>k.
       eff_then (on_task i (transition_to (ke_now env) TS_RUNNING (decision_reason env k (k_task k i) reason)))
         (eff_then (set_task i (\<lambda>t. t\<lparr>ts_resource_block_reason := []\<rparr>))
           (eff_modify (\<lambda>k. let a = ts_agent_name (k_task k i) in
              k\<lparr>k_running := (if i \<in> set (k_running k) then k_running k else k_running k @ [i]),
                k_dispatch_count := dict_set a (dict_get (k_dispatch_count k) a 0 + 1) (k_dispatch_count k)\<rparr>))))"

text \<open>One round of the loop of \<open>dispatch_ready\<close> for the task just popped: was it dispatched?\<close>

definition dispatch_selected :: "kenv \<Rightarrow> string \<Rightarrow> AgentSpec option \<Rightarrow> (kernel, bool) eff" where
  "dispatch_selected env i agent =
     eff_get (\<lambda>k.
       if agent = None \<and> (ts_required_capability (k_task k i) \<noteq> [] \<or> no_name (ts_agent_name (k_task k i)))
       then eff_then (move_to_waiting env i ''no_capability_match'')
              (eff_then (set_task i (\<lambda>t. t\<lparr>ts_scheduler_decision_reason := ''capability_match:none''\<rparr>))
                (eff_then (eff_modify (log_selection env i False ''no_capability_match''))
                  (eff_return False)))
       else (case resource_available env (k_task k i) of (ok, reason) \<Rightarrow>
         if \<not> ok
         then eff_then (move_to_waiting env i reason)
                (eff_then (eff_modify (log_selection env i False reason)) (eff_return False))
         else eff_then (mark_running env i (or_default reason ''resource_available''))
                (eff_then (case agent of
                             None \<Rightarrow> eff_return ()
                           | Some a \<Rightarrow> set_task i (\<lambda>t. t\<lparr>ts_agent_name := Some (ag_agent_name a)\<rparr>))
                  (eff_then (eff_modify (\<lambda>k. log_selection env i True (ts_scheduler_decision_reason (k_task k i)) k))
                    (eff_return True)))))"

definition dispatch_one :: "kenv \<Rightarrow> string \<Rightarrow> (kernel, bool) eff" where
  "dispatch_one env i = eff_bind (select_agent_if_needed env i) (dispatch_selected env i)"

text \<open>No round puts a task into the ready queue, so the loop ends.\<close>

definition ready_shrinks :: "(kernel, 'a) eff \<Rightarrow> bool" where
  "ready_shrinks m \<longleftrightarrow> (\<forall>k. length (k_ready (fst (m k))) \<le> length (k_ready k))"

lemma ready_shrinks_bind:
  assumes "ready_shrinks m" "\<And>x. ready_shrinks (f x)"
  shows "ready_shrinks (eff_bind m f)"
  unfolding ready_shrinks_def
proof
  fix k
  obtain k' r where "m k = (k', r)" by (cases "m k")
  moreover from this have "length (k_ready k') \<le> length (k_ready k)"
    using assms(1) by (metis fst_conv ready_shrinks_def)
  ultimately show "length (k_ready (fst (eff_bind m f k))) \<le> length (k_ready k)"
    using assms(2) by (fastforce simp: eff_bind_def ready_shrinks_def split: sum.splits intro: le_trans)
qed

lemma ready_shrinks_then: "ready_shrinks m \<Longrightarrow> ready_shrinks n \<Longrightarrow> ready_shrinks (eff_then m n)"
  by (simp add: eff_then_def ready_shrinks_bind)

lemma ready_shrinks_basic:
  "ready_shrinks (eff_return x)" "ready_shrinks (eff_lift r)" "ready_shrinks (eff_raise e)"
  "ready_shrinks (on_task i op)" "ready_shrinks (set_task i f)"
  by (simp_all add: ready_shrinks_def eff_simps on_task_def set_task_def split: prod.splits)

lemma ready_shrinks_modify:
  "(\<And>k. length (k_ready (f k)) \<le> length (k_ready k)) \<Longrightarrow> ready_shrinks (eff_modify f)"
  by (simp add: ready_shrinks_def eff_simps)

lemma ready_shrinks_get: "(\<And>k. ready_shrinks (f k)) \<Longrightarrow> ready_shrinks (eff_get f)"
  by (simp add: ready_shrinks_def eff_simps)

lemmas ready_shrinks_intros = ready_shrinks_bind ready_shrinks_then ready_shrinks_basic
  ready_shrinks_modify ready_shrinks_get

lemma ready_shrinks_select: "ready_shrinks (select_agent_if_needed env i)"
  unfolding select_agent_if_needed_def match_agent_def
  by (auto intro!: ready_shrinks_intros split: list.splits simp: Let_def)

lemma ready_shrinks_move: "ready_shrinks (move_to_waiting env i reason)"
  unfolding move_to_waiting_def
  by (auto intro!: ready_shrinks_intros simp: remove_from_queues_def length_remove1)

lemma ready_shrinks_dispatch_one: "ready_shrinks (dispatch_one env i)"
  unfolding dispatch_one_def dispatch_selected_def mark_running_def
  by (auto intro!: ready_shrinks_intros ready_shrinks_select ready_shrinks_move
      simp: log_selection_def Let_def split: prod.splits option.splits)

function dispatch_loop :: "kenv \<Rightarrow> int option \<Rightarrow> string list \<Rightarrow> (kernel, string list) eff" where
  "dispatch_loop env limit dispatched k =
     (case k_ready k of
        [] \<Rightarrow> (k, Inr dispatched)
      | i # rest \<Rightarrow>
          if (case limit of None \<Rightarrow> False | Some l \<Rightarrow> int (length dispatched) \<ge> l) then (k, Inr dispatched)
          else (case dispatch_one env i (k\<lparr>k_ready := rest\<rparr>) of
                  (k', Inl e) \<Rightarrow> (k', Inl e)
                | (k', Inr selected) \<Rightarrow>
                    dispatch_loop env limit (if selected then dispatched @ [i] else dispatched) k'))"
  by pat_completeness auto

termination
proof (relation "measure (\<lambda>(env, limit, dispatched, k). length (k_ready k))", goal_cases)
  case 1
  show ?case by simp
next
  case (2 env limit dispatched k i rest k' r selected)
  have "length (k_ready k') \<le> length rest"
    using ready_shrinks_dispatch_one[of env i] 2
    unfolding ready_shrinks_def by (metis (no_types, lifting) fst_conv kernel.select_convs(3) kernel.surjective kernel.update_convs(3))
  with 2(1) show ?case by simp
qed

declare dispatch_loop.simps [simp del]

definition dispatch_ready :: "kenv \<Rightarrow> int option \<Rightarrow> (kernel, string list) eff" where
  "dispatch_ready env limit =
     eff_then (eff_get (\<lambda>k. eff_when (k_ready k = []) (wake_waiting env)))
       (eff_then (eff_modify (sort_ready env)) (dispatch_loop env limit []))"

definition kernel_dequeue :: "kenv \<Rightarrow> (kernel, string option) eff" where
  "kernel_dequeue env =
     eff_bind (dispatch_ready env (Some 1)) (\<lambda>dispatched.
       eff_return (case dispatched of [] \<Rightarrow> None | i # _ \<Rightarrow> Some i))"

section \<open>Completion and failure\<close>

definition pop_running :: "string \<Rightarrow> kernel \<Rightarrow> kernel" where
  "pop_running i k = k\<lparr>k_running := remove1 i (k_running k)\<rparr>"

definition complete_dependent :: "kenv \<Rightarrow> string \<Rightarrow> string \<Rightarrow> (kernel, unit) eff" where
  "complete_dependent env i d =
     eff_get (\<lambda>k. case map_of (k_nodes k) d of
         None \<Rightarrow> eff_return ()
       | Some _ \<Rightarrow>
           eff_then (eff_modify (\<lambda>k. k\<lparr>k_nodes := discard_dependency d i (k_nodes k)\<rparr>))
             (eff_get (\<lambda>k. eff_when
                ((case map_of (k_nodes k) d of Some n \<Rightarrow> node_is_ready n | None \<Rightarrow> False) \<and> d \<in> set (k_waiting k))
                (wake_task env d ''dependencies_satisfied''))))"

definition finish_running :: "kenv \<Rightarrow> string \<Rightarrow> TaskStatus \<Rightarrow> string \<Rightarrow> (kernel \<Rightarrow> kernel) \<Rightarrow> (kernel, unit) eff" where
  "finish_running env i status reason file =
     eff_get (\<lambda>k. eff_when (i \<in> set (k_running k))
       (eff_then (eff_modify (pop_running i))
         (eff_then (on_task i (transition_to (ke_now env) status reason))
           (eff_then (eff_modify file) (eff_modify (remove_agent_queue_task i))))))"

definition file_completed :: "string \<Rightarrow> kernel \<Rightarrow> kernel" where
  "file_completed i k = (if i \<in> set (k_completed k) then k else k\<lparr>k_completed := k_completed k @ [i]\<rparr>)"

definition file_failed :: "string \<Rightarrow> kernel \<Rightarrow> kernel" where
  "file_failed i k = (if i \<in> set (k_failed k) then k else k\<lparr>k_failed := k_failed k @ [i]\<rparr>)"

definition kernel_complete_task :: "kenv \<Rightarrow> string \<Rightarrow> (kernel, unit) eff" where
  "kernel_complete_task env i =
     eff_then (finish_running env i TS_SUCCESS ''task.success'' (file_completed i))
       (eff_get (\<lambda>k. case map_of (k_nodes k) i of
           None \<Rightarrow> eff_return ()
         | Some n \<Rightarrow>
             eff_then (eff_modify (\<lambda>k. k\<lparr>k_completed_tasks := insert i (k_completed_tasks k)\<rparr>))
               (eff_for (ke_iter env (tn_dependents n)) (complete_dependent env i))))"

definition edge_failure_mode :: "string \<Rightarrow> TaskSpec \<Rightarrow> TaskSpec \<Rightarrow> FailureMode option" where
  "edge_failure_mode i failed dep_task =
     (case map_of (ts_dependency_failure_policies dep_task) i of
        Some m \<Rightarrow> Some m
      | None \<Rightarrow> if ts_failure_policy_set failed then Some (fp_mode (ts_failure_policy failed)) else None)"

definition fail_dependent :: "kenv \<Rightarrow> string \<Rightarrow> string \<Rightarrow> (kernel, unit) eff" where
  "fail_dependent env i d =
     eff_get (\<lambda>k. case map_of (k_nodes k) d of
         None \<Rightarrow> eff_return ()
       | Some _ \<Rightarrow>
           (case edge_failure_mode i (k_task k i) (k_task k d) of
              Some FAIL_CLOSED \<Rightarrow>
                eff_then (on_task d (transition_to (ke_now env) TS_FAILED ''dependency_fail_closed''))
                  (eff_modify (\<lambda>k. let k1 = file_failed d k;
                                       k2 = k1\<lparr>k_failed_tasks := insert d (k_failed_tasks k1)\<rparr>
                                   in remove_from_queues d k2))
            | Some m \<Rightarrow>
                if m \<in> {FAIL_OPEN, DEGRADE, FALLBACK}
                then eff_then (eff_modify (\<lambda>k. k\<lparr>k_nodes := discard_dependency d i (k_nodes k)\<rparr>))
                  (eff_get (\<lambda>k. eff_when
                     ((case map_of (k_nodes k) d of Some n \<Rightarrow> node_is_ready n | None \<Rightarrow> False) \<and> d \<in> set (k_waiting k))
                     (wake_task env d (''dependency_'' @ failure_mode_value m))))
                else eff_return ()
            | None \<Rightarrow> eff_return ()))"

definition kernel_fail_task :: "kenv \<Rightarrow> string \<Rightarrow> (kernel, unit) eff" where
  "kernel_fail_task env i =
     eff_then (finish_running env i TS_FAILED ''task.failed'' (file_failed i))
       (eff_then (eff_modify (\<lambda>k. k\<lparr>k_failed_tasks := insert i (k_failed_tasks k)\<rparr>))
         (eff_get (\<lambda>k. case map_of (k_nodes k) i of
             None \<Rightarrow> eff_return ()
           | Some n \<Rightarrow> eff_for (ke_iter env (tn_dependents n)) (fail_dependent env i))))"

definition block_task :: "kenv \<Rightarrow> string \<Rightarrow> (kernel, unit) eff" where
  "block_task env i =
     eff_then (eff_modify (pop_running i)) (move_to_waiting env i ''blocked'')"

definition wake_blocked :: "kenv \<Rightarrow> string \<Rightarrow> (kernel, bool) eff" where
  "wake_blocked env i =
     eff_get (\<lambda>k. if i \<in> set (k_waiting k)
       then eff_then (wake_task env i ''blocked_wake'') (eff_return True)
       else eff_return False)"

section \<open>Views\<close>

record queue_view =
  qv_ready :: "string list"
  qv_running :: "string list"
  qv_waiting :: "string list"
  qv_failed :: "string list"
  qv_completed :: "string list"
  qv_blocked :: "string list"
  qv_agent_queues :: "(string option \<times> string list) list"

definition queue_snapshot :: "kernel \<Rightarrow> queue_view" where
  "queue_snapshot k =
     \<lparr>qv_ready = k_ready k, qv_running = k_running k, qv_waiting = k_waiting k,
      qv_failed = k_failed k, qv_completed = k_completed k,
      qv_blocked = filter (\<lambda>i. ts_resource_block_reason (k_task k i) \<noteq> []) (k_waiting k),
      qv_agent_queues = k_agent_queues k\<rparr>"

definition pending_count :: "kernel \<Rightarrow> nat" where
  "pending_count k = length (k_ready k) + length (k_waiting k)"

definition blocked_count :: "kernel \<Rightarrow> nat" where
  "blocked_count k = length (filter (\<lambda>i. ts_resource_block_reason (k_task k i) \<noteq> []) (k_waiting k))"

end
