(* ===== verification/Kernel_Invariants.thy ===== *)
theory Kernel_Invariants
  imports Kernel_Scheduler
begin

text \<open>
  Correctness of the kernel scheduler: the invariant of its queues under every operation, raising
  or not; what a dispatch may hand out and in which order; the acyclicity of the dependency graph;
  what completion and failure do to the dependents.
\<close>

section \<open>The queue invariant\<close>

definition known :: "kernel \<Rightarrow> string \<Rightarrow> bool" where
  "known k i \<longleftrightarrow> map_of (k_nodes k) i \<noteq> None"

definition open_deps :: "kernel \<Rightarrow> string \<Rightarrow> string set" where
  "open_deps k i = (case map_of (k_nodes k) i of Some n \<Rightarrow> tn_dependencies n | None \<Rightarrow> {})"

definition queued :: "kernel \<Rightarrow> string set" where
  "queued k = set (k_ready k) \<union> set (k_waiting k) \<union> set (k_running k)"

definition tasks_ok :: "kernel \<Rightarrow> bool" where
  "tasks_ok k \<longleftrightarrow> finite_nodes (k_nodes k) \<and>
     (\<forall>i. known k i \<longrightarrow> coherent (k_task k i) \<and> ts_task_id (k_task k i) = i)"

definition kernel_inv :: "kernel \<Rightarrow> bool" where
  "kernel_inv k \<longleftrightarrow> tasks_ok k \<and>
     distinct (k_ready k @ k_waiting k @ k_running k) \<and>
     (\<forall>i \<in> queued k. known k i) \<and>
     (\<forall>i \<in> set (k_ready k). ts_status (k_task k i) = TS_READY \<and> open_deps k i = {}) \<and>
     (\<forall>i \<in> set (k_waiting k). ts_status (k_task k i) \<in> {TS_PENDING, TS_BLOCKED})"

named_theorems kernel_frame \<open>fields an operation leaves alone\<close>

lemma sort_ready_frame [simp, kernel_frame]:
  "set (k_ready (sort_ready env k)) = set (k_ready k)"
  "distinct (k_ready (sort_ready env k)) = distinct (k_ready k)"
  "k_waiting (sort_ready env k) = k_waiting k" "k_running (sort_ready env k) = k_running k"
  "k_task (sort_ready env k) = k_task k" "k_nodes (sort_ready env k) = k_nodes k"
  "k_failed (sort_ready env k) = k_failed k" "k_completed (sort_ready env k) = k_completed k"
  "k_completed_tasks (sort_ready env k) = k_completed_tasks k"
  "k_failed_tasks (sort_ready env k) = k_failed_tasks k" "k_policy (sort_ready env k) = k_policy k"
  "k_dispatch_count (sort_ready env k) = k_dispatch_count k"
  by (simp_all add: sort_ready_def)

lemma append_ready_frame [simp, kernel_frame]:
  "set (k_ready (append_ready env i k)) = insert i (set (k_ready k))"
  "distinct (k_ready (append_ready env i k)) \<longleftrightarrow> i \<notin> set (k_ready k) \<and> distinct (k_ready k)"
  "k_waiting (append_ready env i k) = k_waiting k" "k_running (append_ready env i k) = k_running k"
  "k_task (append_ready env i k) = k_task k" "k_nodes (append_ready env i k) = k_nodes k"
  "k_failed (append_ready env i k) = k_failed k" "k_completed (append_ready env i k) = k_completed k"
  "k_completed_tasks (append_ready env i k) = k_completed_tasks k"
  "k_failed_tasks (append_ready env i k) = k_failed_tasks k"
  "k_policy (append_ready env i k) = k_policy k"
  by (auto simp: append_ready_def)

lemma kernel_inv_sort [simp]: "kernel_inv (sort_ready env k) = kernel_inv k"
  by (simp add: kernel_inv_def tasks_ok_def known_def open_deps_def queued_def)

text \<open>The four elementary moves of a task between the queues.\<close>

lemma inv_task_update:
  assumes "kernel_inv k" "i \<notin> set (k_ready k)" "i \<notin> set (k_waiting k)"
    and "known k i \<Longrightarrow> coherent t \<and> ts_task_id t = i"
  shows "kernel_inv (k\<lparr>k_task := (k_task k)(i := t)\<rparr>)"
  using assms by (auto simp: kernel_inv_def tasks_ok_def known_def open_deps_def queued_def)

lemma inv_same_status:
  assumes "kernel_inv k" "known k i \<Longrightarrow> coherent t \<and> ts_task_id t = i" "ts_status t = ts_status (k_task k i)"
  shows "kernel_inv (k\<lparr>k_task := (k_task k)(i := t)\<rparr>)"
  using assms by (auto simp: kernel_inv_def tasks_ok_def known_def open_deps_def queued_def)

lemma inv_append_ready:
  assumes "kernel_inv k" "i \<notin> queued k" "known k i" "ts_status (k_task k i) = TS_READY" "open_deps k i = {}"
  shows "kernel_inv (append_ready env i k)"
  using assms by (auto simp: kernel_inv_def tasks_ok_def known_def open_deps_def queued_def)

lemma inv_append_waiting:
  assumes "kernel_inv k" "i \<notin> queued k" "known k i" "ts_status (k_task k i) \<in> {TS_PENDING, TS_BLOCKED}"
  shows "kernel_inv (k\<lparr>k_waiting := k_waiting k @ [i]\<rparr>)"
  using assms by (auto simp: kernel_inv_def tasks_ok_def known_def open_deps_def queued_def)

lemma inv_append_running:
  assumes "kernel_inv k" "i \<notin> queued k" "known k i"
  shows "kernel_inv (k\<lparr>k_running := k_running k @ [i]\<rparr>)"
  using assms by (auto simp: kernel_inv_def tasks_ok_def known_def open_deps_def queued_def)

lemma inv_remove:
  assumes "kernel_inv k"
  shows "kernel_inv (k\<lparr>k_ready := remove1 i (k_ready k)\<rparr>)"
    "kernel_inv (k\<lparr>k_waiting := remove1 i (k_waiting k)\<rparr>)"
    "kernel_inv (pop_running i k)"
    "kernel_inv (remove_from_queues i k)"
  using assms
  by (auto simp: kernel_inv_def tasks_ok_def known_def open_deps_def queued_def pop_running_def
      remove_from_queues_def dest: notin_set_remove1 distinct_remove1 in_set_remove1)

text \<open>Fields the invariant does not read.\<close>

lemma inv_other_fields [simp]:
  "kernel_inv (k\<lparr>k_failed := a\<rparr>) = kernel_inv k"
  "kernel_inv (k\<lparr>k_completed := a\<rparr>) = kernel_inv k"
  "kernel_inv (k\<lparr>k_completed_tasks := b\<rparr>) = kernel_inv k"
  "kernel_inv (k\<lparr>k_failed_tasks := b\<rparr>) = kernel_inv k"
  "kernel_inv (k\<lparr>k_dispatch_count := d\<rparr>) = kernel_inv k"
  "kernel_inv (k\<lparr>k_agent_queues := q\<rparr>) = kernel_inv k"
  "kernel_inv (k\<lparr>k_selection_log := l\<rparr>) = kernel_inv k"
  by (simp_all add: kernel_inv_def tasks_ok_def known_def open_deps_def queued_def)

lemma not_queued_removed:
  assumes "kernel_inv k"
  shows "i \<in> set (k_waiting k) \<Longrightarrow> i \<notin> queued (k\<lparr>k_waiting := remove1 i (k_waiting k)\<rparr>)"
    "i \<in> set (k_running k) \<Longrightarrow> i \<notin> queued (pop_running i k)"
    "i \<notin> set (k_running k) \<Longrightarrow> i \<notin> queued (remove_from_queues i k)"
  using assms by (auto simp: kernel_inv_def queued_def pop_running_def remove_from_queues_def)

lemma inv_knownD:
  assumes "kernel_inv k"
  shows "i \<in> set (k_waiting k) \<Longrightarrow> known k i" "i \<in> set (k_ready k) \<Longrightarrow> known k i"
    "i \<in> set (k_running k) \<Longrightarrow> known k i" "known k i \<Longrightarrow> coherent (k_task k i)"
    "known k i \<Longrightarrow> ts_task_id (k_task k i) = i"
  using assms by (auto simp: kernel_inv_def tasks_ok_def queued_def)

lemma known_frame [simp, kernel_frame]:
  "known (k\<lparr>k_waiting := a\<rparr>) = known k" "known (k\<lparr>k_ready := a\<rparr>) = known k"
  "known (k\<lparr>k_running := a\<rparr>) = known k" "known (k\<lparr>k_task := f\<rparr>) = known k"
  "known (pop_running i k) = known k" "known (remove_from_queues i k) = known k"
  "known (append_ready env i k) = known k" "known (sort_ready env k) = known k"
  by (auto simp: known_def pop_running_def remove_from_queues_def)

lemma open_deps_frame [simp, kernel_frame]:
  "open_deps (k\<lparr>k_waiting := a\<rparr>) = open_deps k" "open_deps (k\<lparr>k_ready := a\<rparr>) = open_deps k"
  "open_deps (k\<lparr>k_running := a\<rparr>) = open_deps k" "open_deps (k\<lparr>k_task := f\<rparr>) = open_deps k"
  "open_deps (pop_running i k) = open_deps k" "open_deps (remove_from_queues i k) = open_deps k"
  "open_deps (append_ready env i k) = open_deps k" "open_deps (sort_ready env k) = open_deps k"
  by (auto simp: open_deps_def pop_running_def remove_from_queues_def)

section \<open>The operations keep the invariant\<close>

lemma wake_task_ok:
  assumes inv: "kernel_inv k" and i: "i \<in> set (k_waiting k)"
  obtains t' where "wake_task env i r k =
      (append_ready env i (k\<lparr>k_waiting := remove1 i (k_waiting k), k_task := (k_task k)(i := t')\<rparr>), Inr ())"
    "coherent t'" "ts_status t' = TS_READY" "same_task (k_task k i) t'"
proof -
  have "tcb_may (ts_status (k_task k i)) TS_READY"
    using inv i by (auto simp: kernel_inv_def tcb_may_def)
  moreover have "coherent (k_task k i)"
    using inv_knownD[OF inv] i by blast
  ultimately obtain t' where "unblock (ke_now env) r (k_task k i) = (t', Inr ())"
      "coherent t'" "ts_status t' = TS_READY" "same_task (k_task k i) t'"
    using unblock_ok by blast
  then show thesis
    by (intro that[of t']) (simp_all add: wake_task_def eff_simps on_task_def)
qed

lemma inv_wake_task:
  assumes inv: "kernel_inv k" and i: "i \<in> set (k_waiting k)" "open_deps k i = {}"
  shows "kernel_inv (fst (wake_task env i r k))"
proof -
  obtain t' where t': "wake_task env i r k =
      (append_ready env i (k\<lparr>k_waiting := remove1 i (k_waiting k), k_task := (k_task k)(i := t')\<rparr>), Inr ())"
    "coherent t'" "ts_status t' = TS_READY" "same_task (k_task k i) t'"
    using wake_task_ok[OF inv i(1)] by metis
  let ?k1 = "k\<lparr>k_waiting := remove1 i (k_waiting k)\<rparr>"
  have nq: "i \<notin> queued ?k1" by (rule not_queued_removed(1)[OF inv i(1)])
  have "kernel_inv (?k1\<lparr>k_task := (k_task ?k1)(i := t')\<rparr>)"
    using nq t' inv_knownD[OF inv] i
    by (intro inv_task_update inv_remove inv) (auto simp: queued_def same_task_def)
  then have "kernel_inv (append_ready env i (?k1\<lparr>k_task := (k_task ?k1)(i := t')\<rparr>))"
    using nq t'(3) i inv_knownD(1)[OF inv i(1)] by (intro inv_append_ready) (auto simp: queued_def)
  then show ?thesis by (simp add: t'(1))
qed

lemma inv_wake_one:
  assumes "kernel_inv k" "i \<in> set (k_waiting k)"
  shows "kernel_inv (fst (wake_one env i k))"
proof -
  obtain n where n: "map_of (k_nodes k) i = Some n"
    using inv_knownD(1)[OF assms] by (auto simp: known_def)
  have "kernel_inv (fst (set_task i (\<lambda>t. t\<lparr>ts_resource_block_reason := r\<rparr>) k))" for r
    using inv_same_status[OF assms(1), of i "(k_task k i)\<lparr>ts_resource_block_reason := r\<rparr>"] inv_knownD[OF assms(1)]
    by (simp add: set_task_def eff_simps)
  then show ?thesis
    using n assms inv_wake_task[OF assms]
    by (auto simp: wake_one_def eff_get_def Let_def eff_when_def node_is_ready_def open_deps_def eff_return_def
        split: prod.splits)
qed

lemma wake_one_waiting:
  "k_waiting (fst (wake_one env i k)) = k_waiting k \<or> k_waiting (fst (wake_one env i k)) = remove1 i (k_waiting k)"
  by (auto simp: wake_one_def eff_simps Let_def set_task_def wake_task_def on_task_def
      split: prod.splits sum.splits)

lemma inv_wake_list:
  assumes "kernel_inv k" "distinct is" "set is \<subseteq> set (k_waiting k)"
  shows "kernel_inv (fst (eff_for is (wake_one env) k))"
  using assms
proof (induction "is" arbitrary: k)
  case Nil
  then show ?case by (simp add: eff_simps)
next
  case (Cons i "is")
  obtain k' r where k': "wake_one env i k = (k', r)" by (cases "wake_one env i k")
  have "kernel_inv k'" using inv_wake_one[of k i env] Cons.prems k' by simp
  moreover have "set is \<subseteq> set (k_waiting k')"
    using wake_one_waiting[of env i k] Cons.prems k' by (auto simp: subset_iff) (metis in_set_remove1)
  ultimately have "kernel_inv (fst (eff_for is (wake_one env) k'))"
    using Cons by simp
  with \<open>kernel_inv k'\<close> k' show ?case
    by (simp add: eff_simps split: sum.splits)
qed

lemma inv_wake_waiting: "kernel_inv k \<Longrightarrow> kernel_inv (fst (wake_waiting env k))"
  unfolding wake_waiting_def eff_get_def
  by (rule inv_wake_list) (auto simp: kernel_inv_def)

lemma move_to_waiting_eq:
  "move_to_waiting env i reason k =
     (case block (ke_now env) reason (k_task k i) of
        (t', Inl e) \<Rightarrow> ((remove_from_queues i k)\<lparr>k_task := (k_task k)(i := t')\<rparr>, Inl e)
      | (t', Inr u) \<Rightarrow> (let k1 = (remove_from_queues i k)\<lparr>k_task := (k_task k)(i := t')\<rparr>
                        in (k1\<lparr>k_waiting := k_waiting k1 @ [i]\<rparr>, Inr ())))"
  by (simp add: move_to_waiting_def eff_simps on_task_def Let_def remove_from_queues_def
      split: prod.splits sum.splits)

lemma inv_move_to_waiting:
  assumes inv: "kernel_inv k" and i: "i \<notin> set (k_running k)" "known k i"
  shows "kernel_inv (fst (move_to_waiting env i reason k))"
proof -
  let ?k1 = "remove_from_queues i k"
  have inv1: "kernel_inv ?k1" by (rule inv_remove[OF inv])
  have nq: "i \<notin> queued ?k1" by (rule not_queued_removed(3)[OF inv i(1)])
  have task: "k_task ?k1 = k_task k" by (simp add: remove_from_queues_def)
  have upd: "kernel_inv (?k1\<lparr>k_task := (k_task k)(i := t)\<rparr>)" if "coherent t" "ts_task_id t = i" for t
    using inv_task_update[OF inv1, of i t] nq that by (simp add: queued_def task)
  have co: "coherent (k_task k i)" "ts_task_id (k_task k i) = i" using inv_knownD[OF inv] i by auto
  show ?thesis
  proof (cases "tcb_may (ts_status (k_task k i)) TS_BLOCKED")
    case True
    then obtain t' where t': "block (ke_now env) reason (k_task k i) = (t', Inr ())" "coherent t'"
        "ts_status t' = TS_BLOCKED" "same_task (k_task k i) t'"
      using block_ok[OF co(1)] by blast
    let ?k2 = "?k1\<lparr>k_task := (k_task k)(i := t')\<rparr>"
    have "kernel_inv ?k2" using upd t' co by (simp add: same_task_def)
    then have "kernel_inv (?k2\<lparr>k_waiting := k_waiting ?k2 @ [i]\<rparr>)"
      using nq i t' by (intro inv_append_waiting) (auto simp: queued_def)
    then show ?thesis by (simp add: move_to_waiting_eq t' Let_def)
  next
    case False
    then show ?thesis using upd[OF co] by (simp add: move_to_waiting_eq block_err co)
  qed
qed

subsection \<open>Choosing an agent\<close>

lemma matched_agents_filter:
  "matched_agents req agents = Inr ms \<Longrightarrow>
     ms = filter (\<lambda>a. match_capability req (ag_capability a) = Inr True) agents"
  by (induction agents arbitrary: ms) (auto split: sum.splits)

lemma least_agent_in: "least_agent a bs \<in> insert a (set bs)"
  by (induction a bs rule: least_agent.induct) auto

lemma agent_key_le_trans: "agent_key_le x y \<Longrightarrow> agent_key_le y z \<Longrightarrow> agent_key_le x z"
  by (auto simp: agent_key_le_def)

lemma agent_key_le_linear: "agent_key_le x y \<or> agent_key_le y x"
  by (auto simp: agent_key_le_def)

lemma least_agent_least:
  "b \<in> insert a (set bs) \<Longrightarrow> agent_key_le (match_agent_key (least_agent a bs)) (match_agent_key b)"
proof (induction a bs arbitrary: b rule: least_agent.induct)
  case (1 a)
  then show ?case by (simp add: agent_key_le_def)
next
  case (2 a c cs)
  show ?case
  proof (cases "agent_key_le (match_agent_key a) (match_agent_key c)")
    case True
    with 2 show ?thesis using agent_key_le_trans by (metis insert_iff least_agent.simps(2) list.simps(15))
  next
    case False
    then have "agent_key_le (match_agent_key c) (match_agent_key a)" using agent_key_le_linear by blast
    with 2 False show ?thesis using agent_key_le_trans by (metis insert_iff least_agent.simps(2) list.simps(15))
  qed
qed

definition provided_agents :: "kenv \<Rightarrow> AgentSpec list" where
  "provided_agents env = (case ke_agents env of Some a \<Rightarrow> a | None \<Rightarrow> [])"

text \<open>A task may run with its agent: no capability asked, or an agent of the provider that has it.\<close>

definition eligible :: "kenv \<Rightarrow> TaskSpec \<Rightarrow> bool" where
  "eligible env t \<longleftrightarrow>
     (ts_required_capability t = [] \<and> \<not> no_name (ts_agent_name t)) \<or>
     (\<exists>a \<in> set (provided_agents env). ts_agent_name t = Some (ag_agent_name a) \<and>
        match_capability (ts_required_capability t) (ag_capability a) = Inr True)"

definition same_but_agent :: "TaskSpec \<Rightarrow> TaskSpec \<Rightarrow> bool" where
  "same_but_agent t t' \<longleftrightarrow> same_task t (t'\<lparr>ts_agent_name := ts_agent_name t\<rparr>)"

lemma select_agent_spec:
  assumes "coherent (k_task k i)"
  obtains (err) e where "select_agent_if_needed env i k = (k, Inl e)"
      "matched_agents (ts_required_capability (k_task k i)) (provided_agents env) = Inl e"
  | (none) t' where "select_agent_if_needed env i k = (k\<lparr>k_task := (k_task k)(i := t')\<rparr>, Inr None)"
      "coherent t'" "ts_status t' = ts_status (k_task k i)" "same_task (k_task k i) t'"
      "ts_required_capability t' \<noteq> [] \<or> no_name (ts_agent_name t') \<or> eligible env t'"
  | (some) t' a where "select_agent_if_needed env i k = (k\<lparr>k_task := (k_task k)(i := t')\<rparr>, Inr (Some a))"
      "coherent t'" "ts_status t' = ts_status (k_task k i)" "same_but_agent (k_task k i) t'"
      "ts_agent_name t' = Some (ag_agent_name a)" "eligible env t'"
proof (cases "ts_required_capability (k_task k i) = [] \<and> \<not> no_name (ts_agent_name (k_task k i))")
  case True
  with assms show thesis
    by (intro none[of "k_task k i"]) (simp_all add: select_agent_if_needed_def eff_simps eligible_def)
next
  case False
  let ?m = "matched_agents (ts_required_capability (k_task k i)) (provided_agents env)"
  have eq: "select_agent_if_needed env i k = match_agent env i (provided_agents env) k"
    using False by (auto simp: select_agent_if_needed_def eff_simps provided_agents_def)
  show thesis
  proof (cases ?m)
    case (Inl e)
    then show thesis by (intro err[of e]) (simp_all add: eq match_agent_def eff_simps)
  next
    case (Inr ms)
    show thesis
    proof (cases ms)
      case Nil
      let ?t = "(k_task k i)\<lparr>ts_scheduler_decision_reason := ''capability_match:none''\<rparr>"
      show thesis
        using assms False
        by (intro none[of ?t]) (auto simp: eq match_agent_def eff_simps Inr Nil set_task_def same_task_def)
    next
      case (Cons a rest)
      let ?s = "least_agent a rest"
      have "?s \<in> set ms" using least_agent_in Cons by (metis list.simps(15))
      then have s: "?s \<in> set (provided_agents env)"
          "match_capability (ts_required_capability (k_task k i)) (ag_capability ?s) = Inr True"
        using matched_agents_filter[OF Inr] by auto
      let ?r = "decision_reason env k (k_task k i)
                  (''capability_match: selected='' @ ag_agent_name ?s @ '', reliability='' @
                   ke_repr env (cap_reliability_score (ag_capability ?s)))"
      let ?t = "(k_task k i)\<lparr>ts_scheduler_decision_reason := ?r, ts_agent_name := Some (ag_agent_name ?s)\<rparr>"
      have "select_agent_if_needed env i k = (k\<lparr>k_task := (k_task k)(i := ?t)\<rparr>, Inr (Some ?s))"
        by (simp add: eq match_agent_def eff_simps Inr Cons set_task_def Let_def)
      then show thesis
        using assms s by (intro some[of ?t ?s]) (auto simp: same_but_agent_def same_task_def eligible_def)
    qed
  qed
qed

subsection \<open>Dispatch\<close>

text \<open>What one round changes besides the queues: the task itself, the counters and the log.\<close>

definition only_task :: "string \<Rightarrow> kernel \<Rightarrow> kernel \<Rightarrow> bool" where
  "only_task i k k' \<longleftrightarrow> k_ready k' = k_ready k \<and> k_nodes k' = k_nodes k \<and> k_policy k' = k_policy k \<and>
     (\<forall>j. j \<noteq> i \<longrightarrow> k_task k' j = k_task k j) \<and> k_completed_tasks k' = k_completed_tasks k \<and>
     k_failed_tasks k' = k_failed_tasks k"

definition checked :: "kenv \<Rightarrow> TaskSpec \<Rightarrow> bool" where
  "checked env t' \<longleftrightarrow> (\<exists>t. same_task t t' \<and> fst (resource_available env t))"

definition round_ok :: "kenv \<Rightarrow> string \<Rightarrow> kernel \<Rightarrow> kernel \<Rightarrow> bool \<Rightarrow> bool" where
  "round_ok env i k k' selected \<longleftrightarrow> only_task i k k' \<and> coherent (k_task k' i) \<and> ts_task_id (k_task k' i) = i \<and>
     (if selected
      then k_running k' = k_running k @ [i] \<and> k_waiting k' = k_waiting k \<and> ts_status (k_task k' i) = TS_RUNNING \<and>
           checked env (k_task k' i) \<and> eligible env (k_task k' i)
      else k_waiting k' = k_waiting k @ [i] \<and> k_running k' = k_running k \<and> ts_status (k_task k' i) = TS_BLOCKED)"

lemma mark_running_ok:
  assumes "coherent (k_task k i)" "ts_status (k_task k i) = TS_READY" "i \<notin> set (k_running k)"
  obtains t' d where "mark_running env i reason k =
      (k\<lparr>k_task := (k_task k)(i := t'), k_running := k_running k @ [i], k_dispatch_count := d\<rparr>, Inr ())"
    "coherent t'" "ts_status t' = TS_RUNNING" "same_task (k_task k i) t'"
proof -
  have "tcb_may (ts_status (k_task k i)) TS_RUNNING" by (simp add: assms(2) tcb_may_def)
  then obtain t1 where t1: "transition_to (ke_now env) TS_RUNNING (decision_reason env k (k_task k i) reason) (k_task k i)
      = (t1, Inr ())" "coherent t1" "ts_status t1 = TS_RUNNING" "same_task (k_task k i) t1"
    using transition_to_ok[OF assms(1)] by blast
  let ?t = "t1\<lparr>ts_resource_block_reason := []\<rparr>"
  show thesis
    using t1 assms(3)
    by (intro that[where t' = ?t and d = "dict_set (ts_agent_name t1)
          (dict_get (k_dispatch_count k) (ts_agent_name t1) 0 + 1) (k_dispatch_count k)"])
      (simp_all add: mark_running_def eff_simps on_task_def set_task_def Let_def same_task_def)
qed

lemma block_round:
  assumes "coherent (k_task k i)" "ts_task_id (k_task k i) = i" "ts_status (k_task k i) = TS_READY"
    "i \<notin> queued k"
  obtains k' where "move_to_waiting env i reason k = (k', Inr ())" "only_task i k k'"
    "k_waiting k' = k_waiting k @ [i]" "k_running k' = k_running k" "coherent (k_task k' i)"
    "ts_task_id (k_task k' i) = i" "ts_status (k_task k' i) = TS_BLOCKED"
proof -
  have "tcb_may (ts_status (k_task k i)) TS_BLOCKED" by (simp add: assms(3) tcb_may_def)
  then obtain t' where "block (ke_now env) reason (k_task k i) = (t', Inr ())" "coherent t'"
      "ts_status t' = TS_BLOCKED" "same_task (k_task k i) t'"
    using block_ok[OF assms(1)] by blast
  moreover have "remove1 i (k_ready k) = k_ready k" "remove1 i (k_waiting k) = k_waiting k"
    using assms(4) by (auto simp: queued_def remove1_idem)
  ultimately show thesis
    using assms(2)
    by (intro that[where k' = "(remove_from_queues i k)\<lparr>k_task := (k_task k)(i := t'), k_waiting := k_waiting k @ [i]\<rparr>"])
      (simp_all add: move_to_waiting_eq Let_def only_task_def remove_from_queues_def same_task_def)
qed

lemma only_task_trans: "only_task i k k1 \<Longrightarrow> only_task i k1 k2 \<Longrightarrow> only_task i k k2"
  by (simp add: only_task_def)

text \<open>The task is blocked, then annotated and logged.\<close>

lemma round_blocked:
  assumes "only_task i k k'" "k_waiting k' = k_waiting k @ [i]" "k_running k' = k_running k"
    "coherent (k_task k' i)" "ts_task_id (k_task k' i) = i" "ts_status (k_task k' i) = TS_BLOCKED"
  shows "round_ok env i k (log_selection env i False reason k') False"
    and "round_ok env i k (log_selection env i False reason
           (k'\<lparr>k_task := (k_task k')(i := (k_task k' i)\<lparr>ts_scheduler_decision_reason := r\<rparr>)\<rparr>)) False"
  using assms by (simp_all add: round_ok_def only_task_def log_selection_def)

lemma eligible_cong: "same_task t t' \<Longrightarrow> eligible env t' = eligible env t"
  by (simp add: eligible_def same_task_def)

lemma dispatch_selected_spec:
  assumes co: "coherent (k_task k i)" "ts_task_id (k_task k i) = i" "ts_status (k_task k i) = TS_READY"
    and nq: "i \<notin> queued k"
    and agent: "case agent of
        None \<Rightarrow> ts_required_capability (k_task k i) \<noteq> [] \<or> no_name (ts_agent_name (k_task k i)) \<or> eligible env (k_task k i)
      | Some a \<Rightarrow> ts_agent_name (k_task k i) = Some (ag_agent_name a) \<and> eligible env (k_task k i)"
  shows "\<exists>k' selected. dispatch_selected env i agent k = (k', Inr selected) \<and> round_ok env i k k' selected"
proof -
  let ?none = "agent = None \<and> (ts_required_capability (k_task k i) \<noteq> [] \<or> no_name (ts_agent_name (k_task k i)))"
  let ?chk = "resource_available env (k_task k i)"
  obtain kb where kb: "move_to_waiting env i ''no_capability_match'' k = (kb, Inr ())" "only_task i k kb"
    "k_waiting kb = k_waiting k @ [i]" "k_running kb = k_running k" "coherent (k_task kb i)"
    "ts_task_id (k_task kb i) = i" "ts_status (k_task kb i) = TS_BLOCKED"
    using block_round[OF co nq] by metis
  obtain kc where kc: "move_to_waiting env i (snd ?chk) k = (kc, Inr ())" "only_task i k kc"
    "k_waiting kc = k_waiting k @ [i]" "k_running kc = k_running k" "coherent (k_task kc i)"
    "ts_task_id (k_task kc i) = i" "ts_status (k_task kc i) = TS_BLOCKED"
    using block_round[OF co nq] by metis
  have "i \<notin> set (k_running k)" using nq by (simp add: queued_def)
  then obtain t' d where run: "mark_running env i (or_default (snd ?chk) ''resource_available'') k =
      (k\<lparr>k_task := (k_task k)(i := t'), k_running := k_running k @ [i], k_dispatch_count := d\<rparr>, Inr ())"
    and t': "coherent t'" "ts_status t' = TS_RUNNING" "same_task (k_task k i) t'"
    using mark_running_ok[OF co(1,3)] by metis
  show ?thesis
  proof (cases ?none)
    case True
    then show ?thesis
      using round_blocked(2)[OF kb(2-)]
      by (auto simp: dispatch_selected_def eff_simps kb(1) set_task_def)
  next
    case some: False
    show ?thesis
    proof (cases "fst ?chk")
      case False
      with some show ?thesis
        using round_blocked(1)[OF kc(2-)] kc(1)
        by (cases ?chk) (auto simp: dispatch_selected_def eff_simps)
    next
      case True
      have chk: "checked env t'" using True t'(3) by (auto simp: checked_def)
      have el: "eligible env (k_task k i)" using agent some by (auto split: option.splits)
      then have el': "eligible env t'" using eligible_cong[OF t'(3)] by simp
      let ?k2 = "k\<lparr>k_task := (k_task k)(i := t'), k_running := k_running k @ [i], k_dispatch_count := d\<rparr>"
      have same: "t'\<lparr>ts_agent_name := Some (ag_agent_name a)\<rparr> = t'" if "agent = Some a" for a
        using agent that t'(3) by (simp add: same_task_def)
      have "dispatch_selected env i agent k =
          (log_selection env i True (ts_scheduler_decision_reason t') ?k2, Inr True)"
        using some True run same
        by (cases ?chk) (auto simp: dispatch_selected_def eff_simps set_task_def log_selection_def
            split: option.splits)
      moreover have "round_ok env i k (log_selection env i True (ts_scheduler_decision_reason t') ?k2) True"
        using t' co(2) chk el' by (simp add: round_ok_def only_task_def log_selection_def same_task_def)
      ultimately show ?thesis by blast
    qed
  qed
qed

lemma round_ok_start:
  "round_ok env i (k\<lparr>k_task := (k_task k)(i := t)\<rparr>) k' selected \<Longrightarrow> round_ok env i k k' selected"
  by (simp add: round_ok_def only_task_def)

lemma dispatch_one_spec:
  assumes co: "coherent (k_task k i)" "ts_task_id (k_task k i) = i" "ts_status (k_task k i) = TS_READY"
    and nq: "i \<notin> queued k"
  shows "(\<exists>e. dispatch_one env i k = (k, Inl e) \<and>
              matched_agents (ts_required_capability (k_task k i)) (provided_agents env) = Inl e) \<or>
         (\<exists>k' selected. dispatch_one env i k = (k', Inr selected) \<and> round_ok env i k k' selected)"
proof (cases rule: select_agent_spec[OF co(1), of env])
  case (1 e)
  then show ?thesis by (simp add: dispatch_one_def eff_simps)
next
  case (2 t')
  let ?k = "k\<lparr>k_task := (k_task k)(i := t')\<rparr>"
  have "\<exists>k' selected. dispatch_selected env i None ?k = (k', Inr selected) \<and> round_ok env i ?k k' selected"
    using 2 co nq by (intro dispatch_selected_spec) (auto simp: same_task_def queued_def)
  then show ?thesis using round_ok_start by (fastforce simp: dispatch_one_def eff_bind_def 2(1))
next
  case (3 t' a)
  let ?k = "k\<lparr>k_task := (k_task k)(i := t')\<rparr>"
  have "\<exists>k' selected. dispatch_selected env i (Some a) ?k = (k', Inr selected) \<and> round_ok env i ?k k' selected"
    using 3 co nq by (intro dispatch_selected_spec) (auto simp: same_task_def same_but_agent_def queued_def)
  then show ?thesis using round_ok_start by (fastforce simp: dispatch_one_def eff_bind_def 3(1))
qed

lemma inv_popped:
  assumes inv: "kernel_inv k" and r: "k_ready k = i # rest"
  shows "kernel_inv (k\<lparr>k_ready := rest\<rparr>)" "i \<notin> queued (k\<lparr>k_ready := rest\<rparr>)" "coherent (k_task k i)"
    "ts_task_id (k_task k i) = i" "ts_status (k_task k i) = TS_READY" "known k i" "open_deps k i = {}"
proof -
  show "kernel_inv (k\<lparr>k_ready := rest\<rparr>)" using inv_remove(1)[OF inv, of i] r by simp
  show "i \<notin> queued (k\<lparr>k_ready := rest\<rparr>)" using inv r by (auto simp: kernel_inv_def queued_def)
  show "known k i" "coherent (k_task k i)" "ts_task_id (k_task k i) = i"
    using inv_knownD[OF inv] r by simp_all
  show "ts_status (k_task k i) = TS_READY" "open_deps k i = {}"
    using inv r by (simp_all add: kernel_inv_def)
qed

lemma inv_round:
  assumes inv: "kernel_inv k" and r: "k_ready k = i # rest" and ok: "round_ok env i (k\<lparr>k_ready := rest\<rparr>) k' selected"
  shows "kernel_inv k'"
proof -
  have nodes: "known k' = known k" "open_deps k' = open_deps k"
    using ok by (auto simp: round_ok_def only_task_def known_def open_deps_def fun_eq_iff)
  have tasks: "tasks_ok k'"
    using ok inv nodes by (auto simp: round_ok_def only_task_def kernel_inv_def tasks_ok_def)
  have q: "k_ready k' = rest" "queued k' = insert i (queued k)"
    using ok r by (auto simp: round_ok_def only_task_def queued_def split: if_splits)
  have d: "distinct (k_ready k' @ k_waiting k' @ k_running k')"
    using ok r inv by (auto simp: round_ok_def only_task_def kernel_inv_def split: if_splits)
  have same: "k_task k' j = k_task k j" if "j \<noteq> i" for j
    using ok that by (simp add: round_ok_def only_task_def)
  have ir: "i \<notin> set rest" using inv r by (simp add: kernel_inv_def)
  have w: "set (k_waiting k') \<subseteq> insert i (set (k_waiting k))" and iw: "i \<notin> set (k_waiting k)"
    using ok inv r by (auto simp: round_ok_def kernel_inv_def split: if_splits)
  have st: "ts_status (k_task k' i) = TS_BLOCKED" if "i \<in> set (k_waiting k')"
    using ok that iw by (auto simp: round_ok_def split: if_splits)
  have "\<forall>j \<in> set rest. ts_status (k_task k' j) = TS_READY \<and> open_deps k' j = {}"
    using inv r same ir nodes unfolding kernel_inv_def by (metis list.set_intros(2))
  moreover have "\<forall>j \<in> set (k_waiting k'). ts_status (k_task k' j) \<in> {TS_PENDING, TS_BLOCKED}"
    using inv same st w by (auto simp: kernel_inv_def) (metis in_mono insertE same)
  ultimately show ?thesis
    using tasks d q nodes inv inv_popped(6)[OF inv r] by (auto simp: kernel_inv_def)
qed

text \<open>
  The outcome of the loop: the taken prefix of the ready queue is split into the dispatched tasks,
  appended to the running table, and the blocked ones, appended to the waiting queue.
\<close>

definition dispatch_ok :: "kenv \<Rightarrow> kernel \<Rightarrow> kernel \<Rightarrow> string list \<Rightarrow> bool" where
  "dispatch_ok env k k' new \<longleftrightarrow>
     (\<exists>taken sel. k_ready k = taken @ k_ready k' \<and> new = filter sel taken \<and>
        k_waiting k' = k_waiting k @ filter (\<lambda>i. \<not> sel i) taken \<and> k_running k' = k_running k @ new \<and>
        k_nodes k' = k_nodes k \<and> (\<forall>j. j \<notin> set taken \<longrightarrow> k_task k' j = k_task k j) \<and>
        (\<forall>i \<in> set taken. if sel i then ts_status (k_task k' i) = TS_RUNNING \<and> checked env (k_task k' i) \<and>
                                      eligible env (k_task k' i)
                         else ts_status (k_task k' i) = TS_BLOCKED))"

lemma dispatch_ok_refl: "dispatch_ok env k k []"
  unfolding dispatch_ok_def by (rule exI [of _ "[]"]) simp

lemma dispatch_ok_step:
  assumes r: "k_ready k = i # rest" and d: "distinct (k_ready k)"
    and ok: "round_ok env i (k\<lparr>k_ready := rest\<rparr>) k1 selected" and rec: "dispatch_ok env k1 k' new"
  shows "dispatch_ok env k k' (if selected then i # new else new)"
proof -
  from rec obtain taken sel where t: "k_ready k1 = taken @ k_ready k'" "new = filter sel taken"
      "k_waiting k' = k_waiting k1 @ filter (\<lambda>i. \<not> sel i) taken" "k_running k' = k_running k1 @ new"
      "k_nodes k' = k_nodes k1" "\<And>j. j \<notin> set taken \<Longrightarrow> k_task k' j = k_task k1 j"
      "\<And>i. i \<in> set taken \<Longrightarrow> if sel i then ts_status (k_task k' i) = TS_RUNNING \<and> checked env (k_task k' i) \<and>
          eligible env (k_task k' i) else ts_status (k_task k' i) = TS_BLOCKED"
    unfolding dispatch_ok_def by blast
  have rest: "k_ready k1 = rest" using ok by (simp add: round_ok_def only_task_def)
  have ni: "i \<notin> set taken" using d r t(1) rest by auto
  define sel' where "sel' = sel(i := selected)"
  have f: "filter sel' taken = filter sel taken" "filter (\<lambda>i. \<not> sel' i) taken = filter (\<lambda>i. \<not> sel i) taken"
    using ni by (auto simp: sel'_def intro!: filter_cong split: if_splits)
  show ?thesis
    unfolding dispatch_ok_def
  proof (intro exI[of _ "i # taken"] exI[of _ sel'] conjI ballI allI impI)
    fix j assume "j \<in> set (i # taken)"
    then show "if sel' j then ts_status (k_task k' j) = TS_RUNNING \<and> checked env (k_task k' j) \<and>
          eligible env (k_task k' j) else ts_status (k_task k' j) = TS_BLOCKED"
      using t(6,7) ni ok by (auto simp: sel'_def round_ok_def split: if_splits)
  qed (use r t rest ok ni f in \<open>auto simp: round_ok_def only_task_def sel'_def split: if_splits\<close>)
qed

definition limit_reached :: "int option \<Rightarrow> nat \<Rightarrow> bool" where
  "limit_reached limit n \<longleftrightarrow> (case limit of None \<Rightarrow> False | Some l \<Rightarrow> int n \<ge> l)"

lemma dispatch_loop_spec:
  assumes "kernel_inv k"
  shows "(\<exists>k' e i. dispatch_loop env limit disp k = (k', Inl e) \<and> kernel_inv k' \<and> i \<in> set (k_ready k) \<and>
            matched_agents (ts_required_capability (k_task k i)) (provided_agents env) = Inl e) \<or>
         (\<exists>k' new. dispatch_loop env limit disp k = (k', Inr (disp @ new)) \<and> kernel_inv k' \<and>
            dispatch_ok env k k' new \<and> (k_ready k' = [] \<or> limit_reached limit (length (disp @ new))) \<and>
            (new \<noteq> [] \<longrightarrow> \<not> limit_reached limit (length (disp @ new) - 1)))"
  using assms
proof (induction env limit disp k rule: dispatch_loop.induct)
  case (1 env limit disp k)
  note inv = "1.prems"
  show ?case
  proof (cases "k_ready k")
    case Nil
    then have "dispatch_loop env limit disp k = (k, Inr (disp @ []))" by (simp add: dispatch_loop.simps)
    with Nil inv dispatch_ok_refl[of env k] show ?thesis by blast
  next
    case (Cons i rest)
    note p = inv_popped[OF inv Cons]
    have d: "distinct (k_ready k)" using inv by (simp add: kernel_inv_def)
    show ?thesis
    proof (cases "limit_reached limit (length disp)")
      case True
      then have "dispatch_loop env limit disp k = (k, Inr (disp @ []))"
        using Cons by (simp add: dispatch_loop.simps limit_reached_def split: option.splits)
      with True inv dispatch_ok_refl[of env k] show ?thesis by force
    next
      case False
      let ?k = "k\<lparr>k_ready := rest\<rparr>"
      have lim: "\<not> (case limit of None \<Rightarrow> False | Some l \<Rightarrow> l \<le> int (length disp))"
        using False by (auto simp: limit_reached_def split: option.splits)
      have step: "dispatch_loop env limit disp k = (case dispatch_one env i ?k of
            (k', Inl e) \<Rightarrow> (k', Inl e)
          | (k', Inr selected) \<Rightarrow> dispatch_loop env limit (if selected then disp @ [i] else disp) k')"
        using lim Cons by (subst dispatch_loop.simps) simp
      from dispatch_one_spec[of ?k i env] p
      consider (err) e where "dispatch_one env i ?k = (?k, Inl e)"
          "matched_agents (ts_required_capability (k_task k i)) (provided_agents env) = Inl e"
        | (ok) k1 selected where "dispatch_one env i ?k = (k1, Inr selected)" "round_ok env i ?k k1 selected"
        by auto
      then show ?thesis
      proof cases
        case err
        then have "dispatch_loop env limit disp k = (?k, Inl e)" by (simp add: step)
        then show ?thesis using err(2) p(1) Cons by auto
      next
        case ok
        have inv1: "kernel_inv k1" by (rule inv_round[OF inv Cons ok(2)])
        have same: "k_task k1 j = k_task k j" if "j \<in> set (k_ready k1)" for j
          using that ok(2) d Cons by (auto simp: round_ok_def only_task_def)
        let ?disp = "if selected then disp @ [i] else disp"
        have step1: "dispatch_loop env limit disp k = dispatch_loop env limit ?disp k1"
          by (simp add: step ok(1))
        have sub: "set (k_ready k1) \<subseteq> set (k_ready k)"
          using ok(2) Cons by (auto simp: round_ok_def only_task_def)
        from "1.IH"[OF Cons lim ok(1)[symmetric] refl inv1]
        consider (e) k' e j where "dispatch_loop env limit ?disp k1 = (k', Inl e)" "kernel_inv k'"
            "j \<in> set (k_ready k1)" "matched_agents (ts_required_capability (k_task k1 j)) (provided_agents env) = Inl e"
          | (r) k' new where "dispatch_loop env limit ?disp k1 = (k', Inr (?disp @ new))" "kernel_inv k'"
            "dispatch_ok env k1 k' new" "k_ready k' = [] \<or> limit_reached limit (length (?disp @ new))"
            "new \<noteq> [] \<longrightarrow> \<not> limit_reached limit (length (?disp @ new) - 1)"
          by metis
        then show ?thesis
        proof cases
          case e
          have "dispatch_loop env limit disp k = (k', Inl e)" using e(1) by (simp only: step1)
          then show ?thesis using e(2-4) same[OF e(3)] sub by auto
        next
          case r
          let ?new = "if selected then i # new else new"
          have "dispatch_loop env limit disp k = (k', Inr (disp @ ?new))"
            using r(1) by (simp add: step1)
          moreover have "dispatch_ok env k k' ?new" by (rule dispatch_ok_step[OF Cons d ok(2) r(3)])
          moreover have "?new \<noteq> [] \<longrightarrow> \<not> limit_reached limit (length (disp @ ?new) - 1)"
            using r(5) False by (cases new) auto
          moreover have "k_ready k' = [] \<or> limit_reached limit (length (disp @ ?new))"
            using r(4) by auto
          ultimately show ?thesis using r(2) by blast
        qed
      qed
    qed
  qed
qed

lemma inv_dispatch_loop: "kernel_inv k \<Longrightarrow> kernel_inv (fst (dispatch_loop env limit disp k))"
  using dispatch_loop_spec[of k env limit disp] by auto

lemma inv_dispatch_ready: "keeps kernel_inv (dispatch_ready env limit)"
  unfolding dispatch_ready_def
  by (intro keeps_then keeps_get' keeps_when keeps_modify keepsI[of _ "wake_waiting env"]
      keepsI[of _ "dispatch_loop env limit []"] inv_wake_waiting inv_dispatch_loop) simp_all

subsection \<open>A task outside the queues\<close>

definition detached :: "string \<Rightarrow> kernel \<Rightarrow> bool" where
  "detached i k \<longleftrightarrow> kernel_inv k \<and> i \<notin> queued k"

lemma fst_on_task: "fst (on_task i m k) = k\<lparr>k_task := (k_task k)(i := fst (m (k_task k i)))\<rparr>"
  by (simp add: on_task_def split: prod.splits)

lemma snd_on_task: "snd (on_task i m k) = snd (m (k_task k i))"
  by (simp add: on_task_def split: prod.splits)

lemma detached_transition: "keeps (detached i) (on_task i (transition_to now st r))"
  unfolding keeps_def detached_def fst_on_task
  by (auto intro!: inv_task_update dest: inv_knownD simp: transition_coherent queued_def inv_knownD)

lemma detached_modify:
  "keeps (detached i) (eff_modify (file_completed j))"
  "keeps (detached i) (eff_modify (file_failed j))"
  "keeps (detached i) (eff_modify (remove_agent_queue_task j))"
  by (auto intro!: keeps_modify simp: detached_def file_completed_def file_failed_def queued_def
      remove_agent_queue_task_def Let_def split: option.splits)

lemma inv_finish_running:
  assumes "kernel_inv k" "keeps (detached i) (eff_modify file)"
  shows "kernel_inv (fst (finish_running env i st r file k))"
proof (cases "i \<in> set (k_running k)")
  case True
  let ?m = "eff_then (on_task i (transition_to (ke_now env) st r))
              (eff_then (eff_modify file) (eff_modify (remove_agent_queue_task i)))"
  have "keeps (detached i) ?m"
    by (intro keeps_then detached_transition detached_modify assms(2))
  moreover have "detached i (pop_running i k)"
    using True assms(1) not_queued_removed(2) inv_remove(3) by (simp add: detached_def)
  ultimately have "detached i (fst (?m (pop_running i k)))" by (rule keepsD)
  moreover have "finish_running env i st r file k = ?m (pop_running i k)"
    using True by (simp add: finish_running_def eff_simps)
  ultimately show ?thesis by (simp add: detached_def)
next
  case False
  with assms(1) show ?thesis by (simp add: finish_running_def eff_simps)
qed

lemma inv_discard:
  assumes "kernel_inv k"
  shows "kernel_inv (k\<lparr>k_nodes := discard_dependency d i (k_nodes k)\<rparr>)"
proof -
  have "known (k\<lparr>k_nodes := discard_dependency d i (k_nodes k)\<rparr>) j = known k j" for j
    by (simp add: known_def discard_dependency_def)
  moreover have "open_deps (k\<lparr>k_nodes := discard_dependency d i (k_nodes k)\<rparr>) j \<subseteq> open_deps k j" for j
    by (auto simp: open_deps_def discard_dependency_def split: option.splits if_splits)
  ultimately show ?thesis
    using assms by (fastforce simp: kernel_inv_def tasks_ok_def queued_def)
qed

lemma inv_release_dependent:
  assumes "kernel_inv k"
  shows "kernel_inv (fst (eff_then (eff_modify (\<lambda>k. k\<lparr>k_nodes := discard_dependency d i (k_nodes k)\<rparr>))
             (eff_get (\<lambda>k. eff_when
                ((case map_of (k_nodes k) d of Some n \<Rightarrow> node_is_ready n | None \<Rightarrow> False) \<and> d \<in> set (k_waiting k))
                (wake_task env d reason))) k))"
proof -
  let ?k = "k\<lparr>k_nodes := discard_dependency d i (k_nodes k)\<rparr>"
  have inv: "kernel_inv ?k" by (rule inv_discard[OF assms])
  have "kernel_inv (fst (wake_task env d reason ?k))"
    if "case map_of (k_nodes ?k) d of Some n \<Rightarrow> node_is_ready n | None \<Rightarrow> False" "d \<in> set (k_waiting ?k)"
    using inv_wake_task[OF inv that(2)] that(1) by (auto simp: open_deps_def node_is_ready_def split: option.splits)
  with inv show ?thesis by (simp add: eff_simps)
qed

lemma inv_complete_dependent: "keeps kernel_inv (complete_dependent env i d)"
  unfolding complete_dependent_def
  by (rule keeps_get) (auto simp: eff_return_def intro: inv_release_dependent split: option.splits)

lemma inv_fail_closed:
  assumes inv: "kernel_inv k" and "known k d"
  shows "kernel_inv (fst (eff_then (on_task d (transition_to now TS_FAILED r))
                  (eff_modify (\<lambda>k. remove_from_queues d ((file_failed d k)
                     \<lparr>k_failed_tasks := insert d (k_failed_tasks (file_failed d k))\<rparr>))) k))"
proof -
  have co: "coherent (k_task k d)" "ts_task_id (k_task k d) = d" using inv_knownD[OF inv] assms(2) by auto
  show ?thesis
  proof (cases "tcb_may (ts_status (k_task k d)) TS_FAILED")
    case True
    then obtain t' where t': "transition_to now TS_FAILED r (k_task k d) = (t', Inr ())" "coherent t'"
        "same_task (k_task k d) t'" using transition_to_ok[OF co(1)] by blast
    let ?k = "remove_from_queues d k"
    have "kernel_inv (?k\<lparr>k_task := (k_task ?k)(d := t')\<rparr>)"
    proof (rule inv_task_update)
      show "kernel_inv ?k" by (rule inv_remove(4)[OF inv])
    qed (use inv t' co in \<open>auto simp: remove_from_queues_def kernel_inv_def same_task_def\<close>)
    moreover have "kernel_inv (remove_from_queues d ((file_failed d (k\<lparr>k_task := (k_task k)(d := t')\<rparr>))
         \<lparr>k_failed_tasks := x\<rparr>)) = kernel_inv (?k\<lparr>k_task := (k_task ?k)(d := t')\<rparr>)" for x
      by (simp add: remove_from_queues_def file_failed_def kernel_inv_def tasks_ok_def known_def
          open_deps_def queued_def)
    ultimately show ?thesis by (simp add: eff_simps on_task_def t' Let_def)
  next
    case False
    then show ?thesis using inv co by (simp add: eff_simps on_task_def transition_to_err)
  qed
qed

lemma inv_fail_dependent: "keeps kernel_inv (fail_dependent env i d)"
  unfolding fail_dependent_def Let_def
  by (rule keeps_get) (auto simp: eff_return_def known_def intro: inv_release_dependent inv_fail_closed
      split: option.splits FailureMode.splits)

lemma inv_complete_task: "keeps kernel_inv (kernel_complete_task env i)"
proof -
  have "keeps kernel_inv (finish_running env i TS_SUCCESS r (file_completed i))" for r
    by (rule keepsI) (rule inv_finish_running[OF _ detached_modify(1)])
  moreover have "keeps kernel_inv
      (eff_then (eff_modify (\<lambda>k. k\<lparr>k_completed_tasks := insert i (k_completed_tasks k)\<rparr>))
         (eff_for ds (complete_dependent env i)))" for ds
    by (intro keeps_then keeps_for keeps_modify inv_complete_dependent) simp
  ultimately show ?thesis
    unfolding kernel_complete_task_def
    by (intro keeps_then keeps_get') (auto split: option.splits intro: keeps_return)
qed

lemma inv_fail_task: "keeps kernel_inv (kernel_fail_task env i)"
proof -
  have "keeps kernel_inv (finish_running env i TS_FAILED r (file_failed i))" for r
    by (rule keepsI) (rule inv_finish_running[OF _ detached_modify(2)])
  moreover have "keeps kernel_inv (eff_for ds (fail_dependent env i))" for ds
    by (intro keeps_for inv_fail_dependent)
  ultimately show ?thesis
    unfolding kernel_fail_task_def
    by (intro keeps_then keeps_get' keeps_modify) (auto split: option.splits intro: keeps_return)
qed

subsection \<open>Submission and new dependencies\<close>

lemma place_task_eq:
  "place_task env i k =
     (let st = (if open_deps k i = {} then TS_READY else TS_PENDING);
          r = (if open_deps k i = {} then ''dependencies_satisfied'' else ''waiting_dependencies'')
      in case transition_to (ke_now env) st r (k_task k i) of
           (t', Inl e) \<Rightarrow> (k\<lparr>k_task := (k_task k)(i := t')\<rparr>, Inl e)
         | (t', Inr u) \<Rightarrow>
             (let k1 = k\<lparr>k_task := (k_task k)(i := t')\<rparr>
              in (if open_deps k i = {} then append_ready env i k1 else k1\<lparr>k_waiting := k_waiting k1 @ [i]\<rparr>, Inr ())))"
  by (auto simp: place_task_def eff_simps on_task_def open_deps_def node_is_ready_def Let_def
      split: prod.splits sum.splits option.splits)

lemma inv_place_task:
  assumes "detached i k" "known k i"
  shows "kernel_inv (fst (place_task env i k))"
proof -
  have inv: "kernel_inv k" and nq: "i \<notin> queued k" using assms(1) by (simp_all add: detached_def)
  define st where "st = (if open_deps k i = {} then TS_READY else TS_PENDING)"
  define r where "r = (if open_deps k i = {} then ''dependencies_satisfied'' else ''waiting_dependencies'')"
  have co: "coherent (k_task k i)" "ts_task_id (k_task k i) = i" using inv_knownD[OF inv] assms(2) by auto
  have upd: "kernel_inv (k\<lparr>k_task := (k_task k)(i := t)\<rparr>)" if "coherent t" "ts_task_id t = i" for t
    using inv_task_update[OF inv, of i t] nq that by (simp add: queued_def)
  note eq = place_task_eq[of env i k, folded st_def r_def, unfolded Let_def]
  show ?thesis
  proof (cases "tcb_may (ts_status (k_task k i)) st")
    case False
    then show ?thesis using upd[OF co] by (simp add: eq transition_to_err[OF co(1)])
  next
    case True
    then obtain t' where t': "transition_to (ke_now env) st r (k_task k i) = (t', Inr ())" "coherent t'"
        "ts_status t' = st" "same_task (k_task k i) t'" using transition_to_ok[OF co(1)] by blast
    let ?k = "k\<lparr>k_task := (k_task k)(i := t')\<rparr>"
    have inv': "kernel_inv ?k" using upd t' co(2) by (simp add: same_task_def)
    have nq': "i \<notin> queued ?k" using nq by (simp add: queued_def)
    have "kernel_inv (append_ready env i ?k)" if "open_deps k i = {}"
      using inv_append_ready[OF inv' nq'] assms(2) t' that by (simp add: st_def)
    moreover have "kernel_inv (?k\<lparr>k_waiting := k_waiting ?k @ [i]\<rparr>)" if "open_deps k i \<noteq> {}"
      using inv_append_waiting[OF inv' nq'] assms(2) t' that by (simp add: st_def)
    ultimately show ?thesis by (simp add: eq t'(1))
  qed
qed

text \<open>Node updates that leave the other nodes' open dependencies alone.\<close>

definition nodes_extend :: "string \<Rightarrow> kernel \<Rightarrow> kernel \<Rightarrow> bool" where
  "nodes_extend i k k' \<longleftrightarrow> k_ready k' = k_ready k \<and> k_waiting k' = k_waiting k \<and> k_running k' = k_running k \<and>
     (\<forall>j. j \<noteq> i \<longrightarrow> known k' j = known k j \<and> open_deps k' j = open_deps k j \<and> k_task k' j = k_task k j) \<and>
     (finite_nodes (k_nodes k) \<longrightarrow> finite_nodes (k_nodes k')) \<and>
     k_completed_tasks k' = k_completed_tasks k"

lemma nodes_extend_refl [simp]: "nodes_extend i k k"
  by (simp add: nodes_extend_def)

lemma nodes_extend_trans: "nodes_extend i k k1 \<Longrightarrow> nodes_extend i k1 k2 \<Longrightarrow> nodes_extend i k k2"
  by (simp add: nodes_extend_def)

lemma nodes_extend_fold:
  "(\<And>x k. nodes_extend i k (f x k)) \<Longrightarrow> nodes_extend i k (fold f xs k)"
  by (induction xs arbitrary: k) (auto intro: nodes_extend_trans)

lemma nodes_extend_link: "nodes_extend i k (link_dependencies i deps k)"
  unfolding link_dependencies_def
  by (rule nodes_extend_fold)
    (auto simp: nodes_extend_def Let_def known_def open_deps_def add_dependent_def discard_dependency_def
      finite_nodes_def split: option.splits)

lemma nodes_extend_insert: "nodes_extend i k (fold (insert_dependency i) ds k)"
proof (rule nodes_extend_fold)
  fix d k
  show "nodes_extend i k (insert_dependency i d k)"
    unfolding insert_dependency_def nodes_extend_def Let_def
    by (auto simp: known_def open_deps_def split: option.splits)
      (auto simp: add_dependent_def discard_dependency_def add_dependency_def split: if_splits)
qed

lemma insert_dependency_task:
  "coherent (k_task (fold (insert_dependency i) ds k) i) = coherent (k_task k i) \<and>
   ts_task_id (k_task (fold (insert_dependency i) ds k) i) = ts_task_id (k_task k i) \<and>
   ts_status (k_task (fold (insert_dependency i) ds k) i) = ts_status (k_task k i) \<and>
   known (fold (insert_dependency i) ds k) i = known k i"
proof (induction ds arbitrary: k)
  case (Cons d ds)
  have "coherent (k_task (insert_dependency i d k) i) = coherent (k_task k i) \<and>
    ts_task_id (k_task (insert_dependency i d k) i) = ts_task_id (k_task k i) \<and>
    ts_status (k_task (insert_dependency i d k) i) = ts_status (k_task k i) \<and>
    known (insert_dependency i d k) i = known k i"
    by (auto simp: insert_dependency_def Let_def known_def add_dependent_def add_dependency_def
        discard_dependency_def split: option.splits)
  with Cons show ?case by simp
qed simp

lemma inv_extend:
  assumes inv: "kernel_inv k" and ext: "nodes_extend i k k'"
    and q: "k_ready k'' = remove1 i (k_ready k)" "k_waiting k'' = remove1 i (k_waiting k)"
      "k_running k'' = k_running k" "k_nodes k'' = k_nodes k'" "k_task k'' = k_task k'"
    and i: "i \<notin> set (k_running k)" "known k' i \<Longrightarrow> coherent (k_task k' i) \<and> ts_task_id (k_task k' i) = i"
  shows "detached i k''"
proof -
  have kn: "known k'' = known k'" and od: "open_deps k'' = open_deps k'"
    using q by (simp_all add: known_def open_deps_def fun_eq_iff)
  have "coherent (k_task k'' j) \<and> ts_task_id (k_task k'' j) = j" if "known k'' j" for j
    using inv ext i(2) kn q that by (cases "j = i") (simp_all add: tasks_ok_def kernel_inv_def nodes_extend_def)
  then have t: "tasks_ok k''"
    using inv ext q by (simp add: tasks_ok_def kernel_inv_def nodes_extend_def)
  have sets: "set (k_ready k'') = set (k_ready k) - {i}" "set (k_waiting k'') = set (k_waiting k) - {i}"
    using q inv by (auto simp: kernel_inv_def)
  have nq: "i \<notin> queued k''" using q(3) i(1) sets by (auto simp: queued_def)
  have "queued k'' \<subseteq> queued k - {i}"
    using nq q(3) sets by (auto simp: queued_def)
  then have "\<forall>j \<in> queued k''. known k'' j"
    using inv ext kn unfolding kernel_inv_def nodes_extend_def by (metis DiffD1 DiffD2 insertI1 subsetD)
  moreover have "ts_status (k_task k'' j) = TS_READY \<and> open_deps k'' j = {}" if "j \<in> set (k_ready k'')" for j
  proof -
    have "j \<noteq> i" "j \<in> set (k_ready k)" using that sets by auto
    then show ?thesis using inv ext od q by (simp add: kernel_inv_def nodes_extend_def)
  qed
  moreover have "ts_status (k_task k'' j) \<in> {TS_PENDING, TS_BLOCKED}" if "j \<in> set (k_waiting k'')" for j
  proof -
    have "j \<noteq> i" "j \<in> set (k_waiting k)" using that sets by auto
    then show ?thesis using inv ext q by (simp add: kernel_inv_def nodes_extend_def)
  qed
  moreover have "distinct (k_ready k'' @ k_waiting k'' @ k_running k'')"
    using inv q sets by (auto simp: kernel_inv_def)
  ultimately show ?thesis using t nq by (simp add: detached_def kernel_inv_def)
qed

lemma inv_enqueue:
  assumes inv: "kernel_inv k" and fresh: "\<not> known k (ts_task_id t)" and co: "coherent t"
  shows "kernel_inv (fst (kernel_enqueue env t k))"
proof -
  let ?i = "ts_task_id t"
  let ?k1 = "k\<lparr>k_task := (k_task k)(?i := t),
      k_nodes := dict_set ?i \<lparr>tn_dependencies = set (ts_dependencies t), tn_dependents = {}\<rparr> (k_nodes k)\<rparr>"
  let ?k2 = "link_dependencies ?i (ts_dependencies t) ?k1"
  let ?k3 = "?k2\<lparr>k_agent_queues := dict_set (ts_agent_name t)
      (dict_get (k_agent_queues ?k2) (ts_agent_name t) [] @ [?i]) (k_agent_queues ?k2)\<rparr>"
  have e1: "nodes_extend ?i k ?k1"
    by (auto simp: nodes_extend_def known_def open_deps_def finite_nodes_def)
  have e2: "nodes_extend ?i k ?k2"
    by (rule nodes_extend_trans[OF e1 nodes_extend_link])
  have k2: "known ?k2 ?i \<and> k_task ?k2 ?i = t"
    unfolding link_dependencies_def
  proof (rule fold_invariant[where Q = "\<lambda>_. True" and P = "\<lambda>k'. known k' ?i \<and> k_task k' ?i = t"])
    show "known ?k1 ?i \<and> k_task ?k1 ?i = t" by (simp add: known_def)
  qed (auto simp: Let_def known_def add_dependent_def discard_dependency_def)
  have ni: "?i \<notin> queued k" using inv fresh by (auto simp: kernel_inv_def)
  have "detached ?i ?k3"
    by (rule inv_extend[OF inv e2]) (use e2 ni co k2 in \<open>auto simp: nodes_extend_def queued_def remove1_idem\<close>)
  moreover have "known ?k3 ?i" using k2 by (simp add: known_def)
  ultimately have "kernel_inv (fst (place_task env ?i ?k3))" by (rule inv_place_task)
  then show ?thesis by (simp add: kernel_enqueue_def eff_simps Let_def)
qed

text \<open>A successful check of every new dependency.\<close>

lemma check_dependencies_ok:
  "check_dependencies env k i ds = Inr () \<longleftrightarrow>
     (\<forall>d \<in> set ds. map_of (k_nodes k) d \<noteq> None \<and> \<not> has_dependent_path (ke_iter env) (k_nodes k) i d)"
  by (induction ds) auto

text \<open>The two possible courses of \<open>add_dependencies\<close>: refused without effect, or carried out.\<close>

lemma add_dependencies_eq:
  "kernel_add_dependencies env i ds k =
     (if \<not> known k i then (k, Inl (KeyError i))
      else if ts_status (k_task k i) \<in> {TS_RUNNING, TS_SUCCESS, TS_FAILED, TS_CANCELLED}
      then (k, Inl (ValueError ''task state does not allow dependency updates''))
      else if i \<in> set ds then (k, Inl (ValueError ''self dependency is not allowed''))
      else case check_dependencies env k i (dedup ds) of
             Inl e \<Rightarrow> (k, Inl e)
           | Inr u \<Rightarrow> place_task env i ((fold (insert_dependency i) (dedup ds) k)
                 \<lparr>k_ready := remove1 i (k_ready k), k_waiting := remove1 i (k_waiting k)\<rparr>))"
proof -
  have "k_ready (fold (insert_dependency i) xs k) = k_ready k" "k_waiting (fold (insert_dependency i) xs k) = k_waiting k" for xs
    using nodes_extend_insert[of i k xs] by (simp_all add: nodes_extend_def)
  then show ?thesis
    by (simp add: kernel_add_dependencies_def eff_simps Let_def known_def split: sum.splits)
qed

lemma add_dependencies_cases:
  obtains (refused) e where "kernel_add_dependencies env i ds k = (k, Inl e)"
  | (done_add) "known k i" "i \<notin> set ds" "check_dependencies env k i (dedup ds) = Inr ()"
      "kernel_add_dependencies env i ds k =
         place_task env i ((fold (insert_dependency i) (dedup ds) k)
           \<lparr>k_ready := remove1 i (k_ready k), k_waiting := remove1 i (k_waiting k)\<rparr>)"
      "ts_status (k_task k i) \<notin> {TS_RUNNING, TS_SUCCESS, TS_FAILED, TS_CANCELLED}"
proof (cases "\<exists>e. kernel_add_dependencies env i ds k = (k, Inl e)")
  case True
  then show thesis using refused by blast
next
  case False
  then have "known k i" "i \<notin> set ds" "check_dependencies env k i (dedup ds) = Inr ()"
      "ts_status (k_task k i) \<notin> {TS_RUNNING, TS_SUCCESS, TS_FAILED, TS_CANCELLED}"
    unfolding add_dependencies_eq by (auto split: if_splits sum.splits)
  then show thesis by (intro done_add) (simp_all add: add_dependencies_eq)
qed

lemma inv_add_dependencies:
  assumes inv: "kernel_inv k" and i: "i \<notin> set (k_running k)"
  shows "kernel_inv (fst (kernel_add_dependencies env i ds k))"
proof (cases rule: add_dependencies_cases[of env i ds k])
  case (refused e)
  with inv show ?thesis by simp
next
  case done_add
  note 2 = done_add
  let ?k1 = "fold (insert_dependency i) (dedup ds) k"
  let ?k2 = "?k1\<lparr>k_ready := remove1 i (k_ready k), k_waiting := remove1 i (k_waiting k)\<rparr>"
  have ext: "nodes_extend i k ?k1" by (rule nodes_extend_insert)
  have "detached i ?k2"
    using insert_dependency_task[of i "dedup ds" k] inv_knownD[OF inv] 2(1) ext
    by (intro inv_extend[OF inv ext]) (auto simp: i nodes_extend_def)
  moreover have "known ?k2 i" using insert_dependency_task[of i "dedup ds" k] 2(1) by simp
  ultimately show ?thesis using inv_place_task 2(4) by simp
qed

lemma inv_block_task:
  assumes "kernel_inv k" "known k i"
  shows "kernel_inv (fst (block_task env i k))"
proof -
  have "i \<notin> set (k_running (pop_running i k))" using assms(1) by (simp add: pop_running_def kernel_inv_def)
  then have "kernel_inv (fst (move_to_waiting env i ''blocked'' (pop_running i k)))"
    using assms by (intro inv_move_to_waiting inv_remove) auto
  then show ?thesis by (simp add: block_task_def eff_simps)
qed

lemma inv_wake_blocked:
  assumes "kernel_inv k" "open_deps k i = {}"
  shows "kernel_inv (fst (wake_blocked env i k))"
proof -
  have "fst (eff_then m (eff_return True) k) = fst (m k)" for m :: "(kernel, unit) eff"
    by (simp add: eff_simps split: prod.splits sum.splits)
  then show ?thesis
    using inv_wake_task[OF assms(1)] assms by (simp add: wake_blocked_def eff_get_def eff_return_def)
qed

section \<open>Sequences of operations\<close>

text \<open>
  The calls made on the scheduler; \<open>KTask\<close> is the daemon working on a running task through the
  methods of \<open>TaskSpec\<close>.
\<close>

datatype kernel_op =
    KEnqueue TaskSpec
  | KAddDependencies string "string list"
  | KDispatch "int option"
  | KComplete string
  | KFail string
  | KBlock string
  | KWakeBlocked string
  | KWakeWaiting
  | KTask string "task_op list"

fun kernel_apply :: "kenv \<Rightarrow> kernel_op \<Rightarrow> kernel \<Rightarrow> kernel" where
  "kernel_apply env (KEnqueue t) k = fst (kernel_enqueue env t k)"
| "kernel_apply env (KAddDependencies i ds) k = fst (kernel_add_dependencies env i ds k)"
| "kernel_apply env (KDispatch limit) k = fst (dispatch_ready env limit k)"
| "kernel_apply env (KComplete i) k = fst (kernel_complete_task env i k)"
| "kernel_apply env (KFail i) k = fst (kernel_fail_task env i k)"
| "kernel_apply env (KBlock i) k = fst (block_task env i k)"
| "kernel_apply env (KWakeBlocked i) k = fst (wake_blocked env i k)"
| "kernel_apply env KWakeWaiting k = fst (wake_waiting env k)"
| "kernel_apply env (KTask i ops) k = k\<lparr>k_task := (k_task k)(i := task_run ops (k_task k i))\<rparr>"

text \<open>What the callers see to: fresh identifiers, known tasks, work only on running tasks.\<close>

fun kernel_pre :: "kernel_op \<Rightarrow> kernel \<Rightarrow> bool" where
  "kernel_pre (KEnqueue t) k \<longleftrightarrow> map_of (k_nodes k) (ts_task_id t) = None \<and> coherent t"
| "kernel_pre (KAddDependencies i ds) k \<longleftrightarrow> i \<notin> set (k_running k)"
| "kernel_pre (KBlock i) k \<longleftrightarrow> map_of (k_nodes k) i \<noteq> None"
| "kernel_pre (KWakeBlocked i) k \<longleftrightarrow> open_deps k i = {}"
| "kernel_pre (KTask i ops) k \<longleftrightarrow> i \<in> set (k_running k)"
| "kernel_pre _ k \<longleftrightarrow> True"

inductive kernel_reach :: "kernel \<Rightarrow> bool" where
  init: "kernel_reach (kernel_init policy store)"
| step: "kernel_reach k \<Longrightarrow> kernel_pre op k \<Longrightarrow> kernel_reach (kernel_apply env op k)"

lemma kernel_inv_init: "kernel_inv (kernel_init policy store)"
  by (simp add: kernel_inv_def kernel_init_def tasks_ok_def known_def queued_def finite_nodes_def)

lemma via_tcb_keeps_coherent:
  assumes "coherent t" and "\<And>c c' e. m c = (c', Inl e) \<Longrightarrow> hidden_change c c'"
    and "\<And>c. tcb_created_at (fst (m c)) = tcb_created_at c"
  shows "coherent (fst (via_tcb m t)) \<and> ts_task_id (fst (via_tcb m t)) = ts_task_id t"
proof -
  obtain c where c: "ts_tcb t = Some c" "tcb_state c = ts_status t" "tcb_created_at c = ts_created_at t"
    using assms(1) by (auto simp: coherent_def)
  obtain c' r where m: "m c = (c', r)" by (cases "m c")
  show ?thesis
  proof (cases r)
    case (Inl e)
    then show ?thesis using assms(2)[of c c' e] m c
      by (auto simp: via_tcb_coherent[OF assms(1) c(1)] coherent_def hidden_change_def)
  next
    case (Inr u)
    then show ?thesis using assms(3)[of c] m c
      by (simp add: via_tcb_coherent[OF assms(1) c(1)] coherent_def sync_from_tcb_def)
  qed
qed

lemma task_op_coherent:
  "coherent t \<Longrightarrow> coherent (task_op_apply p t) \<and> ts_task_id (task_op_apply p t) = ts_task_id t"
proof (cases p)
  case (OpLease l)
  assume "coherent t"
  with OpLease show ?thesis by (auto simp: set_resource_lease_def ensure_tcb_def coherent_def)
next
  case (OpCreate now ag pid)
  assume "coherent t"
  with OpCreate show ?thesis by (auto simp: create_attempt_def ensure_tcb_def coherent_def Let_def)
next
  case (OpFinish now aid res fr tu)
  assume "coherent t"
  with OpFinish show ?thesis by (auto simp: finish_attempt_def coherent_def)
qed (auto simp: transition_to_def block_def unblock_def tcb_ops_eq Let_def dest: tcb_ops_err_hidden
    intro!: via_tcb_keeps_coherent [THEN conjunct1] via_tcb_keeps_coherent [THEN conjunct2])

lemma task_run_coherent:
  "coherent t \<Longrightarrow> coherent (task_run ops t) \<and> ts_task_id (task_run ops t) = ts_task_id t"
proof (induction ops arbitrary: t)
  case (Cons p ops)
  then show ?case using task_op_coherent[of t p] by simp
qed simp

lemma inv_apply:
  assumes inv: "kernel_inv k" and pre: "kernel_pre op k"
  shows "kernel_inv (kernel_apply env op k)"
proof (cases op)
  case (KTask i ops)
  then have "i \<in> set (k_running k)" using pre by simp
  then have "known k i" "i \<notin> set (k_ready k)" "i \<notin> set (k_waiting k)"
    using inv inv_knownD(3)[OF inv] by (auto simp: kernel_inv_def)
  then have "kernel_inv (k\<lparr>k_task := (k_task k)(i := task_run ops (k_task k i))\<rparr>)"
    using inv_knownD[OF inv] by (intro inv_task_update[OF inv]) (simp_all add: task_run_coherent)
  with KTask show ?thesis by simp
qed (use inv pre in \<open>simp_all add: inv_enqueue known_def inv_add_dependencies inv_block_task inv_wake_blocked
    inv_wake_waiting keepsD[OF inv_dispatch_ready] keepsD[OF inv_complete_task] keepsD[OF inv_fail_task]\<close>)

lemma reach_inv: "kernel_reach k \<Longrightarrow> kernel_inv k"
  by (induction rule: kernel_reach.induct) (auto intro: kernel_inv_init inv_apply)

end
