(* ===== verification/Kernel_Properties.thy ===== *)
theory Kernel_Properties
  imports Kernel_Invariants "HOL-Library.Sublist"
begin

text \<open>
  The properties of the kernel scheduler, over every state reachable by its operations: the queue
  discipline, what a dispatch hands out and in which order, completion, failure, the acyclic
  dependency graph, aging and the choice of an agent.
\<close>

section \<open>The dependency graph\<close>

lemma edges_insert_dependency:
  "graph_edges (k_nodes (insert_dependency i d k)) \<subseteq> graph_edges (k_nodes k) \<union> {(d, i)}"
  by (auto simp: insert_dependency_def Let_def graph_edges_add_dependent split: option.splits if_splits)

lemma edges_insert_dependencies:
  "graph_edges (k_nodes (fold (insert_dependency i) ds k)) \<subseteq> graph_edges (k_nodes k) \<union> set ds \<times> {i}"
proof (induction ds arbitrary: k)
  case (Cons d ds)
  show ?case using Cons[of "insert_dependency i d k"] edges_insert_dependency[of i d k] by auto
qed simp

lemma place_task_nodes [simp]: "k_nodes (fst (place_task env i k)) = k_nodes k"
  by (simp add: place_task_eq Let_def split: prod.splits sum.splits)

definition graph_ok :: "kenv \<Rightarrow> kernel \<Rightarrow> bool" where
  "graph_ok env k \<longleftrightarrow> finite_nodes (k_nodes k) \<and> iterates (ke_iter env)"

interpretation kernel_deps: dependency_scheduler "\<lambda>k. graph_edges (k_nodes k)" "graph_ok env"
  "kernel_add_dependencies env"
  for env
proof
  fix k t ds assume g: "graph_ok env k"
  let ?k = "fold (insert_dependency t) (dedup ds) k"
  show "graph_edges (k_nodes (fst (kernel_add_dependencies env t ds k))) = graph_edges (k_nodes k) \<or>
      (\<forall>d \<in> set ds. (t, d) \<notin> (graph_edges (k_nodes k))\<^sup>*) \<and>
      graph_edges (k_nodes (fst (kernel_add_dependencies env t ds k))) \<subseteq> graph_edges (k_nodes k) \<union> set ds \<times> {t}"
  proof (cases rule: add_dependencies_cases[of env t ds k])
    case done_add
    have "\<forall>d \<in> set ds. (t, d) \<notin> (graph_edges (k_nodes k))\<^sup>*"
      using done_add(3) g by (simp add: check_dependencies_ok has_dependent_path_iff graph_ok_def)
    then show ?thesis using edges_insert_dependencies[of t "dedup ds" k] done_add(4) by simp
  qed simp
  show "graph_ok env (fst (kernel_add_dependencies env t ds k))"
  proof (cases rule: add_dependencies_cases[of env t ds k])
    case done_add
    then show ?thesis using nodes_extend_insert[of t k "dedup ds"] g by (simp add: graph_ok_def nodes_extend_def)
  qed (use g in simp)
qed

lemma edges_link_dependencies:
  "graph_edges (k_nodes (link_dependencies i deps k)) \<subseteq> graph_edges (k_nodes k) \<union> set deps \<times> {i}"
  unfolding link_dependencies_def
proof (induction deps arbitrary: k)
  case (Cons d deps)
  let ?f = "\<lambda>d k. let k1 = k\<lparr>k_nodes := add_dependent d i (k_nodes k)\<rparr>
        in if d \<in> k_completed_tasks k1 then k1\<lparr>k_nodes := discard_dependency i d (k_nodes k1)\<rparr> else k1"
  have "graph_edges (k_nodes (?f d k)) \<subseteq> graph_edges (k_nodes k) \<union> {(d, i)}"
    by (auto simp: Let_def graph_edges_add_dependent split: if_splits)
  with Cons[of "?f d k"] show ?case by auto
qed simp

lemma edges_new_node:
  "graph_edges (dict_set i \<lparr>tn_dependencies = S, tn_dependents = {}\<rparr> nodes) = {e \<in> graph_edges nodes. fst e \<noteq> i}"
  by (auto simp: graph_edges_def split: if_splits)

lemma acyclic_enqueue:
  assumes "acyclic (graph_edges (k_nodes k))" "ts_task_id t \<notin> set (ts_dependencies t)"
  shows "acyclic (graph_edges (k_nodes (fst (kernel_enqueue env t k))))"
proof -
  let ?i = "ts_task_id t"
  let ?E = "{e \<in> graph_edges (k_nodes k). fst e \<noteq> ?i}"
  have none: "(?i, d) \<notin> ?E\<^sup>*" if "d \<noteq> ?i" for d
    using that by (auto elim: converse_rtranclE)
  have "acyclic (?E \<union> set (ts_dependencies t) \<times> {?i})"
  proof (rule acyclic_add_into)
    show "acyclic ?E" using assms(1) by (rule acyclic_subset) auto
    show "(?i, d) \<notin> ?E\<^sup>*" if "d \<in> set (ts_dependencies t)" for d
      using none[of d] assms(2) that by blast
  qed
  moreover have "graph_edges (k_nodes (fst (kernel_enqueue env t k))) \<subseteq> ?E \<union> set (ts_dependencies t) \<times> {?i}"
    using edges_link_dependencies[of ?i "ts_dependencies t" "k\<lparr>k_task := (k_task k)(?i := t),
      k_nodes := dict_set ?i \<lparr>tn_dependencies = set (ts_dependencies t), tn_dependents = {}\<rparr> (k_nodes k)\<rparr>"]
    by (simp add: kernel_enqueue_def eff_simps Let_def edges_new_node)
  ultimately show ?thesis by (rule acyclic_subset)
qed

section \<open>Waking\<close>

lemma wake_list_ok:
  assumes "kernel_inv k" "distinct is" "set is \<subseteq> set (k_waiting k)"
  shows "\<exists>k'. eff_for is (wake_one env) k = (k', Inr ()) \<and> k_running k' = k_running k \<and> k_nodes k' = k_nodes k \<and>
     set (k_ready k') \<subseteq> set (k_ready k) \<union> set is \<and>
     (\<forall>j. ts_required_capability (k_task k' j) = ts_required_capability (k_task k j))"
  using assms
proof (induction "is" arbitrary: k)
  case Nil
  then show ?case by (simp add: eff_simps)
next
  case (Cons i "is")
  have i: "i \<in> set (k_waiting k)" using Cons.prems by simp
  obtain n where n: "map_of (k_nodes k) i = Some n"
    using inv_knownD(1)[OF Cons.prems(1) i] by (auto simp: known_def)
  obtain k1 where k1: "wake_one env i k = (k1, Inr ())" "k_running k1 = k_running k" "k_nodes k1 = k_nodes k"
      "set (k_ready k1) \<subseteq> insert i (set (k_ready k))"
      "\<forall>j. ts_required_capability (k_task k1 j) = ts_required_capability (k_task k j)"
  proof -
    obtain t' where "wake_task env i (or_default (snd (resource_available env (k_task k i))) ''resource_available'') k =
      (append_ready env i (k\<lparr>k_waiting := remove1 i (k_waiting k), k_task := (k_task k)(i := t')\<rparr>), Inr ())"
      "same_task (k_task k i) t'"
      using wake_task_ok[OF Cons.prems(1) i] by metis
    then show thesis
      by (intro that[of "fst (wake_one env i k)"])
        (auto simp: wake_one_def eff_simps n Let_def set_task_def same_task_def split: prod.splits)
  qed
  have "kernel_inv k1" using inv_wake_one[OF Cons.prems(1) i, of env] k1(1) by simp
  moreover have "set is \<subseteq> set (k_waiting k1)"
    using wake_one_waiting[of env i k] Cons.prems k1(1) by (auto simp: subset_iff) (metis in_set_remove1)
  ultimately obtain k' where "eff_for is (wake_one env) k1 = (k', Inr ())" "k_running k' = k_running k1"
      "k_nodes k' = k_nodes k1" "set (k_ready k') \<subseteq> set (k_ready k1) \<union> set is"
      "\<forall>j. ts_required_capability (k_task k' j) = ts_required_capability (k_task k1 j)"
    using Cons.IH[of k1] Cons.prems(2) by auto
  with k1 show ?case by (intro exI[of _ k']) (auto simp: eff_simps)
qed

lemma wake_waiting_ok:
  assumes "kernel_inv k"
  obtains k' where "wake_waiting env k = (k', Inr ())" "kernel_inv k'" "k_running k' = k_running k"
    "k_nodes k' = k_nodes k" "set (k_ready k') \<subseteq> set (k_ready k) \<union> set (k_waiting k)"
    "\<And>j. ts_required_capability (k_task k' j) = ts_required_capability (k_task k j)"
proof -
  have "distinct (k_waiting k)" using assms by (simp add: kernel_inv_def)
  from wake_list_ok[OF assms this subset_refl, of env]
  obtain k' where "wake_waiting env k = (k', Inr ())" "k_running k' = k_running k"
    "k_nodes k' = k_nodes k" "set (k_ready k') \<subseteq> set (k_ready k) \<union> set (k_waiting k)"
    "\<And>j. ts_required_capability (k_task k' j) = ts_required_capability (k_task k j)"
    by (auto simp: wake_waiting_def eff_get_def)
  moreover from this have "kernel_inv k'" using inv_wake_waiting[OF assms, of env] by simp
  ultimately show thesis using that by blast
qed

text \<open>The state in which the loop of \<open>dispatch_ready\<close> starts.\<close>

lemma dispatch_ready_start:
  assumes "kernel_inv k"
  obtains k1 where "dispatch_ready env limit k = dispatch_loop env limit [] (sort_ready env k1)"
    "kernel_inv k1" "k_running k1 = k_running k" "k_nodes k1 = k_nodes k"
    "set (k_ready k1) \<subseteq> set (k_ready k) \<union> set (k_waiting k)"
    "\<And>j. ts_required_capability (k_task k1 j) = ts_required_capability (k_task k j)"
    "k_ready k \<noteq> [] \<Longrightarrow> k1 = k"
proof (cases "k_ready k = []")
  case True
  obtain k1 where "wake_waiting env k = (k1, Inr ())" "kernel_inv k1" "k_running k1 = k_running k"
    "k_nodes k1 = k_nodes k" "set (k_ready k1) \<subseteq> set (k_ready k) \<union> set (k_waiting k)"
    "\<And>j. ts_required_capability (k_task k1 j) = ts_required_capability (k_task k j)"
    using wake_waiting_ok[OF assms] by metis
  with True show thesis by (intro that[of k1]) (simp_all add: dispatch_ready_def eff_simps)
next
  case False
  with assms show thesis by (intro that[of k]) (auto simp: dispatch_ready_def eff_simps)
qed

section \<open>Properties: queues and dispatch\<close>

definition demo_env :: kenv where
  "demo_env = \<lparr>ke_now = 10, ke_checker = None, ke_agents = None, ke_iter = sorted_list_of_set, ke_repr = (\<lambda>_. ''0'')\<rparr>"

definition demo_task :: "string \<Rightarrow> string list \<Rightarrow> TaskSpec" where
  "demo_task i deps = new_task i (Some ''coder'') [] deps ''tr'' 0"

definition demo_kernel :: kernel where
  "demo_kernel = kernel_apply demo_env (KEnqueue (demo_task ''a'' []))
     (kernel_init ''priority'' (\<lambda>i. demo_task i []))"

lemma coherent_demo_task: "coherent (demo_task i deps)"
  by (simp add: demo_task_def synced_coherent synced_new_task)

lemma reach_demo: "kernel_reach demo_kernel"
  unfolding demo_kernel_def
  by (rule kernel_reach.step[OF kernel_reach.init]) (simp add: kernel_init_def coherent_demo_task)



text \<open>
  C2: A dispatch hands out only tasks that may run: each one has no open dependency, its agent was
  given or has the required capability, the resource checker has approved it, and it is now
  \<open>RUNNING\<close> and in the running table, which grows by exactly the dispatched tasks. A limit is never
  exceeded, and without a limit nothing is left in the ready queue.
\<close>

theorem kernel_dispatch_safe:
  assumes "kernel_reach k" and "dispatch_ready env limit k = (k', Inr ids)"
  shows "k_running k' = k_running k @ ids \<and>
    (\<forall>i \<in> set ids. open_deps k' i = {} \<and> ts_status (k_task k' i) = TS_RUNNING \<and>
       checked env (k_task k' i) \<and> eligible env (k_task k' i)) \<and>
    (case limit of Some l \<Rightarrow> int (length ids) \<le> max l 0 | None \<Rightarrow> k_ready k' = [])"
proof -
  have inv: "kernel_inv k" by (rule reach_inv[OF assms(1)])
  obtain k1 where k1: "dispatch_ready env limit k = dispatch_loop env limit [] (sort_ready env k1)"
    "kernel_inv k1" "k_running k1 = k_running k" "k_nodes k1 = k_nodes k"
    using dispatch_ready_start[OF inv] by metis
  have loop: "dispatch_loop env limit [] (sort_ready env k1) = (k', Inr ids)" using assms(2) k1(1) by simp
  from dispatch_loop_spec[of "sort_ready env k1" env limit "[]"] k1(2) loop
  have ok: "dispatch_ok env (sort_ready env k1) k' ids"
    and lim: "k_ready k' = [] \<or> limit_reached limit (length ids)"
      "ids \<noteq> [] \<longrightarrow> \<not> limit_reached limit (length ids - 1)" by auto
  from ok obtain taken sel where t: "k_ready (sort_ready env k1) = taken @ k_ready k'" "ids = filter sel taken"
      "k_running k' = k_running k1 @ ids" "k_nodes k' = k_nodes k1"
      "\<forall>i \<in> set taken. if sel i then ts_status (k_task k' i) = TS_RUNNING \<and> checked env (k_task k' i) \<and>
          eligible env (k_task k' i) else ts_status (k_task k' i) = TS_BLOCKED"
    unfolding dispatch_ok_def by auto
  have "open_deps k' i = {}" if "i \<in> set ids" for i
  proof -
    have "i \<in> set (k_ready k1)" using that t(1,2) by (metis UnCI filter_is_subset set_append sort_ready_frame(1) subsetD)
    then have "open_deps k1 i = {}" using k1(2) by (simp add: kernel_inv_def)
    then show ?thesis using t(4) by (simp add: open_deps_def)
  qed
  moreover have "\<forall>i \<in> set ids. ts_status (k_task k' i) = TS_RUNNING \<and> checked env (k_task k' i) \<and> eligible env (k_task k' i)"
    using t(2,5) by auto
  moreover have "case limit of Some l \<Rightarrow> int (length ids) \<le> max l 0 | None \<Rightarrow> k_ready k' = []"
    using lim by (cases ids) (auto simp: limit_reached_def split: option.splits)
  ultimately show ?thesis using t(3) k1(3) by simp
qed

lemma demo_dispatch: "snd (dispatch_ready demo_env (Some 1) demo_kernel) = Inr [''a'']"
  by code_simp

theorem kernel_dispatch_safe_witness:
  "k_running (fst (dispatch_ready demo_env (Some 1) demo_kernel)) = k_running demo_kernel @ [''a'']"
proof -
  obtain k' where "dispatch_ready demo_env (Some 1) demo_kernel = (k', Inr [''a''])"
    using demo_dispatch by (metis prod.collapse)
  then show ?thesis using kernel_dispatch_safe[OF reach_demo, of demo_env "Some 1" k' "[''a'']"] by simp
qed

text \<open>The key by which a task is ordered when the dispatch starts.\<close>

definition dispatch_key :: "kenv \<Rightarrow> kernel \<Rightarrow> string \<Rightarrow> rat list" where
  "dispatch_key env k i = sort_key_of env k [] (k_task k i)"

lemma sorted_ready: "sorted (map (dispatch_key env k) (k_ready (sort_ready env k)))"
  by (simp add: sort_ready_def dispatch_key_def[abs_def])

lemma sorted_filter_map: "sorted (map f xs) \<Longrightarrow> sorted (map f (filter P xs))"
  by (induction xs) auto





section \<open>Properties: dependencies\<close>

text \<open>
  The search \<open>_has_dependent_path\<close> ends and answers exactly whether the target can be reached
  from the start along dependents, in whatever order Python iterates a set.
\<close>

theorem kernel_path_search_correct:
  assumes "kernel_reach k" and "iterates it"
  shows "has_dependent_path it (k_nodes k) a b \<longleftrightarrow> (a, b) \<in> (graph_edges (k_nodes k))\<^sup>*"
  using reach_inv[OF assms(1)] assms(2)
  by (simp add: has_dependent_path_iff kernel_inv_def tasks_ok_def)

theorem kernel_path_search_correct_witness:
  "has_dependent_path sorted_list_of_set (k_nodes demo_kernel) ''a'' ''a''"
  using kernel_path_search_correct[OF reach_demo iterates_sorted] by simp



section \<open>Completion\<close>

text \<open>The dependents of \<open>i\<close> among \<open>ds\<close> that wait for nothing else.\<close>

definition released :: "kernel \<Rightarrow> string \<Rightarrow> string list \<Rightarrow> string set" where
  "released k i ds = {d \<in> set ds. d \<in> set (k_waiting k) \<and> open_deps k d \<subseteq> {i}}"

lemma open_deps_discard:
  "open_deps (k\<lparr>k_nodes := discard_dependency d i (k_nodes k)\<rparr>) j =
     (if j = d then open_deps k d - {i} else open_deps k j)"
  by (simp add: open_deps_def discard_dependency_def split: option.splits)

lemma known_discard [simp]: "known (k\<lparr>k_nodes := discard_dependency d i (k_nodes k)\<rparr>) = known k"
  by (auto simp: known_def discard_dependency_def fun_eq_iff)

lemma complete_dependent_ok:
  assumes inv: "kernel_inv k"
  shows "\<exists>k'. complete_dependent env i d k = (k', Inr ()) \<and>
     (\<forall>j. open_deps k' j = (if j = d then open_deps k d - {i} else open_deps k j)) \<and>
     k_running k' = k_running k \<and> k_completed_tasks k' = k_completed_tasks k \<and>
     set (k_ready k') = set (k_ready k) \<union> released k i [d] \<and>
     set (k_waiting k') = set (k_waiting k) - released k i [d] \<and>
     (\<forall>j. j \<notin> released k i [d] \<longrightarrow> k_task k' j = k_task k j)"
proof (cases "map_of (k_nodes k) d")
  case None
  then have "d \<notin> set (k_waiting k)" using inv_knownD(1)[OF inv, of d] by (auto simp: known_def)
  then have "released k i [d] = {}" by (auto simp: released_def)
  with None show ?thesis by (simp add: complete_dependent_def eff_simps open_deps_def)
next
  case (Some n)
  let ?k = "k\<lparr>k_nodes := discard_dependency d i (k_nodes k)\<rparr>"
  have ready: "(case map_of (k_nodes ?k) d of Some n \<Rightarrow> node_is_ready n | None \<Rightarrow> False) \<longleftrightarrow> open_deps k d \<subseteq> {i}"
    using Some by (auto simp: discard_dependency_def node_is_ready_def open_deps_def)
  have eq: "complete_dependent env i d k =
      (if open_deps k d \<subseteq> {i} \<and> d \<in> set (k_waiting k)
       then wake_task env d ''dependencies_satisfied'' ?k else (?k, Inr ()))"
    using Some ready by (simp add: complete_dependent_def eff_simps)
  show ?thesis
  proof (cases "d \<in> set (k_waiting k) \<and> open_deps k d \<subseteq> {i}")
    case True
    then have "d \<in> set (k_waiting ?k)" by simp
    from wake_task_ok[OF inv_discard[OF inv] this, of env "''dependencies_satisfied''"]
    obtain t' where t': "wake_task env d ''dependencies_satisfied'' ?k =
      (append_ready env d (?k\<lparr>k_waiting := remove1 d (k_waiting ?k), k_task := (k_task ?k)(d := t')\<rparr>), Inr ())"
      by blast
    moreover have "released k i [d] = {d}" using True by (auto simp: released_def)
    moreover have "distinct (k_waiting k)" using inv by (simp add: kernel_inv_def)
    ultimately show ?thesis using True by (simp add: eq open_deps_discard)
  next
    case False
    then have "released k i [d] = {}" by (auto simp: released_def)
    with False show ?thesis by (auto simp: eq open_deps_discard)
  qed
qed

lemma complete_dependents_ok:
  assumes "kernel_inv k" "distinct ds"
  shows "\<exists>k'. eff_for ds (complete_dependent env i) k = (k', Inr ()) \<and>
     (\<forall>j. open_deps k' j = (if j \<in> set ds then open_deps k j - {i} else open_deps k j)) \<and>
     k_running k' = k_running k \<and> k_completed_tasks k' = k_completed_tasks k \<and>
     set (k_ready k') = set (k_ready k) \<union> released k i ds \<and>
     set (k_waiting k') = set (k_waiting k) - released k i ds \<and>
     (\<forall>j. j \<notin> released k i ds \<longrightarrow> k_task k' j = k_task k j)"
  using assms
proof (induction ds arbitrary: k)
  case Nil
  then show ?case by (simp add: eff_simps released_def)
next
  case (Cons d ds)
  from complete_dependent_ok[OF Cons.prems(1), of env i d]
  obtain k1 where k1: "complete_dependent env i d k = (k1, Inr ())"
      "\<forall>j. open_deps k1 j = (if j = d then open_deps k d - {i} else open_deps k j)"
      "k_running k1 = k_running k" "k_completed_tasks k1 = k_completed_tasks k"
      "set (k_ready k1) = set (k_ready k) \<union> released k i [d]"
      "set (k_waiting k1) = set (k_waiting k) - released k i [d]"
      "\<forall>j. j \<notin> released k i [d] \<longrightarrow> k_task k1 j = k_task k j" by blast
  have inv1: "kernel_inv k1" using keepsD[OF inv_complete_dependent Cons.prems(1), of env i d] k1(1) by simp
  have rel: "released k1 i ds = released k i ds"
    using k1(2,6) Cons.prems(2) by (auto simp: released_def)
  have rel': "released k i (d # ds) = released k i [d] \<union> released k i ds"
    by (auto simp: released_def)
  from Cons.IH[OF inv1] Cons.prems
  obtain k' where "eff_for ds (complete_dependent env i) k1 = (k', Inr ())"
      "\<forall>j. open_deps k' j = (if j \<in> set ds then open_deps k1 j - {i} else open_deps k1 j)"
      "k_running k' = k_running k1" "k_completed_tasks k' = k_completed_tasks k1"
      "set (k_ready k') = set (k_ready k1) \<union> released k1 i ds"
      "set (k_waiting k') = set (k_waiting k1) - released k1 i ds"
      "\<forall>j. j \<notin> released k1 i ds \<longrightarrow> k_task k' j = k_task k1 j" by auto
  then show ?case
    using k1 rel rel' Cons.prems(2) by (intro exI[of _ k']) (auto simp: eff_simps)
qed

lemma file_frame:
  "k_running (file_completed i k) = k_running k \<and> k_task (file_completed i k) = k_task k \<and>
     k_nodes (file_completed i k) = k_nodes k \<and> k_ready (file_completed i k) = k_ready k \<and>
     k_waiting (file_completed i k) = k_waiting k \<and> k_completed_tasks (file_completed i k) = k_completed_tasks k"
  "k_running (file_failed i k) = k_running k \<and> k_task (file_failed i k) = k_task k \<and>
     k_nodes (file_failed i k) = k_nodes k \<and> k_ready (file_failed i k) = k_ready k \<and>
     k_waiting (file_failed i k) = k_waiting k \<and> k_completed_tasks (file_failed i k) = k_completed_tasks k"
  by (simp_all add: file_completed_def file_failed_def)

lemma finish_running_ok:
  assumes inv: "kernel_inv k" and i: "i \<in> set (k_running k)" "st \<in> tcb_allowed (ts_status (k_task k i))"
    and filing: "\<And>k. k_running (file k) = k_running k \<and> k_task (file k) = k_task k \<and> k_nodes (file k) = k_nodes k \<and>
        k_ready (file k) = k_ready k \<and> k_waiting (file k) = k_waiting k \<and>
        k_completed_tasks (file k) = k_completed_tasks k"
  shows "\<exists>k'. finish_running env i st r file k = (k', Inr ()) \<and> k_running k' = remove1 i (k_running k) \<and>
     k_nodes k' = k_nodes k \<and> k_ready k' = k_ready k \<and> k_waiting k' = k_waiting k \<and>
     ts_status (k_task k' i) = st \<and> k_completed_tasks k' = k_completed_tasks k \<and>
     (\<forall>j. j \<noteq> i \<longrightarrow> k_task k' j = k_task k j)"
proof -
  have "tcb_may (ts_status (k_task k i)) st" using i(2) by (simp add: tcb_may_def)
  then obtain t' where "transition_to (ke_now env) st r (k_task k i) = (t', Inr ())" "ts_status t' = st"
    using transition_to_ok inv_knownD[OF inv] i(1) by blast
  then show ?thesis
    using i(1) filing
    by (simp add: finish_running_def eff_simps on_task_def pop_running_def remove_agent_queue_task_def Let_def
        split: option.splits)
qed

text \<open>
  C12: Completing a running task makes it \<open>SUCCESS\<close>, takes it out of the running table and closes its
  edge in every dependent; the dependents woken by it are exactly those that waited for nothing
  else, and every other queue entry stays where it was.
\<close>

theorem kernel_complete_releases:
  assumes "kernel_reach k" and "iterates (ke_iter env)" and "map_of (k_nodes k) i = Some n"
    and "i \<in> set (k_running k)" and "TS_SUCCESS \<in> tcb_allowed (ts_status (k_task k i))"
  shows "\<exists>k'. kernel_complete_task env i k = (k', Inr ()) \<and> ts_status (k_task k' i) = TS_SUCCESS \<and>
     k_running k' = remove1 i (k_running k) \<and> i \<in> k_completed_tasks k' \<and>
     (\<forall>j. open_deps k' j = (if j \<in> tn_dependents n then open_deps k j - {i} else open_deps k j)) \<and>
     (let woken = {d \<in> tn_dependents n. d \<in> set (k_waiting k) \<and> open_deps k d \<subseteq> {i}}
      in set (k_ready k') = set (k_ready k) \<union> woken \<and> set (k_waiting k') = set (k_waiting k) - woken)"
proof -
  have inv: "kernel_inv k" by (rule reach_inv[OF assms(1)])
  let ?fin = "finish_running env i TS_SUCCESS ''task.success'' (file_completed i)"
  obtain k1 where k1: "?fin k = (k1, Inr ())" "k_running k1 = remove1 i (k_running k)" "k_nodes k1 = k_nodes k"
      "k_ready k1 = k_ready k" "k_waiting k1 = k_waiting k" "ts_status (k_task k1 i) = TS_SUCCESS"
    using finish_running_ok[OF inv assms(4,5) file_frame(1)[of i], of env "''task.success''"] by auto
  have "kernel_inv (fst (?fin k))" by (rule inv_finish_running[OF inv detached_modify(1)])
  then have "kernel_inv k1" by (simp add: k1(1))
  let ?k2 = "k1\<lparr>k_completed_tasks := insert i (k_completed_tasks k1)\<rparr>"
  let ?ds = "ke_iter env (tn_dependents n)"
  have inv2: "kernel_inv ?k2" using \<open>kernel_inv k1\<close> by simp
  have "finite (tn_dependents n)"
    using inv assms(3) by (simp add: kernel_inv_def tasks_ok_def finite_nodes_def)
  then have ds: "distinct ?ds" "set ?ds = tn_dependents n" using assms(2) by (auto simp: iterates_def)
  have od: "open_deps ?k2 = open_deps k" using k1(3) by (simp add: open_deps_def fun_eq_iff)
  have rel: "released ?k2 i ?ds = {d \<in> tn_dependents n. d \<in> set (k_waiting k) \<and> open_deps k d \<subseteq> {i}}"
    using ds k1(5) by (simp add: released_def od)
  have ni: "i \<notin> set (k_waiting k)" using inv assms(4) by (auto simp: kernel_inv_def)
  from complete_dependents_ok[OF inv2 ds(1), of env i]
  obtain k' where k': "eff_for ?ds (complete_dependent env i) ?k2 = (k', Inr ())"
      "\<forall>j. open_deps k' j = (if j \<in> set ?ds then open_deps ?k2 j - {i} else open_deps ?k2 j)"
      "k_running k' = k_running ?k2" "k_completed_tasks k' = k_completed_tasks ?k2"
      "set (k_ready k') = set (k_ready ?k2) \<union> released ?k2 i ?ds"
      "set (k_waiting k') = set (k_waiting ?k2) - released ?k2 i ?ds"
      "\<forall>j. j \<notin> released ?k2 i ?ds \<longrightarrow> k_task k' j = k_task ?k2 j" by blast
  have "kernel_complete_task env i k = (k', Inr ())"
    using k1(1,3) assms(3) k'(1) by (simp add: kernel_complete_task_def eff_simps)
  moreover have "k_task k' i = k_task k1 i" using k'(7) ni rel by simp
  ultimately show ?thesis using k'(2-6) k1 od ds(2) rel by (intro exI[of _ k']) (simp add: Let_def)
qed

definition demo_chain :: kernel where
  "demo_chain = kernel_apply demo_env (KDispatch None)
     (kernel_apply demo_env (KEnqueue (demo_task ''b'' [''a''])) demo_kernel)"

lemma reach_demo_chain: "kernel_reach demo_chain"
proof -
  have "map_of (k_nodes demo_kernel) ''b'' = None" by code_simp
  then have "kernel_reach (kernel_apply demo_env (KEnqueue (demo_task ''b'' [''a''])) demo_kernel)"
    by (intro kernel_reach.step[OF reach_demo]) (simp add: coherent_demo_task, simp add: demo_task_def)
  then show ?thesis unfolding demo_chain_def by (rule kernel_reach.step) simp
qed

theorem kernel_complete_releases_witness:
  "\<exists>k'. kernel_complete_task demo_env ''a'' demo_chain = (k', Inr ()) \<and> ts_status (k_task k' ''a'') = TS_SUCCESS"
proof -
  have "map_of (k_nodes demo_chain) ''a'' = Some \<lparr>tn_dependencies = {}, tn_dependents = {''b''}\<rparr>"
    and "''a'' \<in> set (k_running demo_chain)"
    and "TS_SUCCESS \<in> tcb_allowed (ts_status (k_task demo_chain ''a''))"
    by code_simp+
  moreover have "iterates (ke_iter demo_env)" by (simp add: demo_env_def iterates_sorted)
  ultimately show ?thesis using kernel_complete_releases[OF reach_demo_chain] by blast
qed

section \<open>Failure of a dependency\<close>



section \<open>A task submitted before its dependency\<close>

text \<open>
  \<open>enqueue\<close> registers a task only with the dependencies that have a node already. Here ''t'' depends on
  ''c'' and is submitted first; ''c'' is then submitted, dispatched and completed.
\<close>

definition late_kernel :: kernel where
  "late_kernel = kernel_apply demo_env (KComplete ''c'') (kernel_apply demo_env (KDispatch None)
     (kernel_apply demo_env (KEnqueue (demo_task ''c'' []))
       (kernel_apply demo_env (KEnqueue (demo_task ''t'' [''c''])) (kernel_init ''priority'' (\<lambda>i. demo_task i [])))))"

lemma late_kernel_completed: "k_completed_tasks late_kernel = {''c''}"
  by code_simp

lemma late_kernel_queues: "k_waiting late_kernel = [''t''] \<and> k_ready late_kernel = []"
  by code_simp

lemma late_kernel_open: "open_deps late_kernel ''t'' = {''c''}"
  by code_simp

lemmas late_kernel_state = late_kernel_completed late_kernel_queues late_kernel_open

end
