(* ===== verification/Kernel_Policies.thy ===== *)
theory Kernel_Policies
  imports Kernel_Properties
begin

text \<open>
  The ordering policies and the choice of an agent: aging does not reorder tasks over time, the
  selected agent is the best eligible one, the fair-share counters follow the dispatches, and what
  the \<open>resource_aware\<close> weights really compare.
\<close>

section \<open>Aging\<close>

lemma aged_priority_difference:
  assumes "ts_created_at t \<le> now" "ts_created_at u \<le> now" "ts_created_at t \<le> now'" "ts_created_at u \<le> now'"
  shows "aged_priority now t - aged_priority now u = aged_priority now' t - aged_priority now' u"
  using assms by (simp add: aged_priority_def Let_def max_def field_simps)

text \<open>
  Under the priority policy (and the default) the order of two waiting tasks never changes as
  they age: every task gains the same bonus per second, so only priority and creation time decide.
  Thirty seconds of waiting outweigh one step of priority.
\<close>

theorem kernel_aging_is_order_preserving:
  assumes "ts_created_at t \<le> ke_now env" "ts_created_at u \<le> ke_now env"
    and "ts_created_at t \<le> ke_now env'" "ts_created_at u \<le> ke_now env'" and "k_policy k = ''priority''"
  shows "(sort_key_of env k vis t \<le> sort_key_of env k vis u \<longleftrightarrow> sort_key_of env' k vis t \<le> sort_key_of env' k vis u) \<and>
    (sort_key_of env k vis t < sort_key_of env k vis u \<longleftrightarrow>
       of_int (ts_priority t - ts_priority u) + of_int (ts_created_at u - ts_created_at t) / 30000000 > (0 :: rat) \<or>
       of_int (ts_priority t - ts_priority u) + of_int (ts_created_at u - ts_created_at t) / 30000000 = (0 :: rat) \<and>
         ts_created_at t < ts_created_at u)"
proof -
  let ?d = "of_int (ts_priority t - ts_priority u) + of_int (ts_created_at u - ts_created_at t) / 30000000 :: rat"
  have d: "aged_priority (ke_now env) t - aged_priority (ke_now env) u = ?d"
    "aged_priority (ke_now env') t - aged_priority (ke_now env') u = ?d"
    using assms by (simp_all add: aged_priority_def Let_def max_def field_simps)
  have key: "sort_key_of e k vis x = [- aged_priority (ke_now e) x, of_int (ts_created_at x)]" for e x
    using assms(5) by (simp add: sort_key_of_def Let_def)
  show ?thesis using d unfolding key by auto
qed

theorem kernel_aging_is_order_preserving_witness:
  "sort_key_of demo_env demo_kernel [] (demo_task ''x'' []) \<le> sort_key_of demo_env demo_kernel [] (demo_task ''y'' []) \<longleftrightarrow>
   sort_key_of (demo_env\<lparr>ke_now := 99\<rparr>) demo_kernel [] (demo_task ''x'' [])
     \<le> sort_key_of (demo_env\<lparr>ke_now := 99\<rparr>) demo_kernel [] (demo_task ''y'' [])"
proof -
  have c: "ts_created_at (demo_task i []) = 0" for i
    by (simp add: demo_task_def new_task_def model_post_init_def sync_from_tcb_def raw_task_def tcb_of_task_def)
  have p: "k_policy demo_kernel = ''priority''" by code_simp
  show ?thesis
    using kernel_aging_is_order_preserving[of "demo_task ''x'' []" demo_env "demo_task ''y'' []"
        "demo_env\<lparr>ke_now := 99\<rparr>" demo_kernel "[]"] p
    by (simp add: c demo_env_def)
qed

section \<open>Choosing an agent\<close>

text \<open>
  \<open>match_agent\<close> selects an agent exactly when one fits the requirement, and then one that fits
  and is best: no other fitting agent is more reliable, or as reliable and cheaper, or equal in both
  with a smaller name. The task is assigned to it.
\<close>

theorem kernel_match_agent_best:
  assumes "match_agent env i agents k = (k', Inr res)"
  shows "(case res of
      None \<Rightarrow> \<forall>a \<in> set agents. match_capability (ts_required_capability (k_task k i)) (ag_capability a) = Inr False
    | Some s \<Rightarrow> s \<in> set agents \<and> match_capability (ts_required_capability (k_task k i)) (ag_capability s) = Inr True \<and>
        ts_agent_name (k_task k' i) = Some (ag_agent_name s) \<and>
        (\<forall>a \<in> set agents. match_capability (ts_required_capability (k_task k i)) (ag_capability a) = Inr True \<longrightarrow>
           agent_key_le (match_agent_key s) (match_agent_key a)))"
proof -
  let ?req = "ts_required_capability (k_task k i)"
  have "\<exists>ms. matched_agents ?req agents = Inr ms"
    using assms by (cases "matched_agents ?req agents") (auto simp: match_agent_def eff_get_def eff_bind_def eff_lift_def)
  then obtain ms where ms: "matched_agents ?req agents = Inr ms" by blast
  have flt: "ms = filter (\<lambda>a. match_capability ?req (ag_capability a) = Inr True) agents"
    by (rule matched_agents_filter[OF ms])
  have total: "match_capability ?req (ag_capability a) \<in> {Inr True, Inr False}" if "a \<in> set agents" for a
    using ms that by (induction agents arbitrary: ms) (auto split: sum.splits)
  show ?thesis
  proof (cases ms)
    case Nil
    then have "res = None" using assms ms
      by (simp add: match_agent_def eff_get_def eff_bind_def eff_lift_def eff_then_def eff_return_def set_task_def eff_modify_def)
    moreover have "match_capability ?req (ag_capability a) = Inr False" if "a \<in> set agents" for a
    proof -
      have "filter (\<lambda>a. match_capability ?req (ag_capability a) = Inr True) agents = []" using Nil flt by simp
      then show ?thesis using total[OF that] that by (simp add: filter_empty_conv)
    qed
    ultimately show ?thesis by simp
  next
    case (Cons a rest)
    let ?s = "least_agent a rest"
    have s: "res = Some ?s" "ts_agent_name (k_task k' i) = Some (ag_agent_name ?s)" using assms ms Cons
      by (auto simp: match_agent_def eff_get_def eff_bind_def eff_lift_def eff_then_def eff_return_def set_task_def
          eff_modify_def Let_def)
    have "?s \<in> set ms" using least_agent_in Cons by (metis list.simps(15))
    moreover have "agent_key_le (match_agent_key ?s) (match_agent_key b)" if "b \<in> set ms" for b
      using least_agent_least[of b a rest] that Cons by simp
    ultimately show ?thesis using s flt by auto
  qed
qed

definition demo_agent :: "string \<Rightarrow> rat \<Rightarrow> AgentSpec" where
  "demo_agent name r = (new_agent name ''dev'' 0)\<lparr>ag_capability := default_capability\<lparr>cap_reliability_score := r\<rparr>\<rparr>"

theorem kernel_match_agent_best_witness:
  "ts_agent_name (k_task (fst (match_agent demo_env ''a'' [demo_agent ''x'' (1/2), demo_agent ''y'' 1] demo_kernel)) ''a'')
     = Some ''y''"
proof -
  let ?m = "match_agent demo_env ''a'' [demo_agent ''x'' (1/2), demo_agent ''y'' 1] demo_kernel"
  have "snd ?m = Inr (Some (demo_agent ''y'' 1))" by code_simp
  then have "?m = (fst ?m, Inr (Some (demo_agent ''y'' 1)))" by (metis prod.collapse)
  from kernel_match_agent_best[OF this] show ?thesis
    by (simp add: demo_agent_def new_agent_def)
qed

section \<open>Resource weights\<close>

lemma py_round_third [simp]: "py_round 4 1 = 1" "py_round 4 0 = 0"
  by (simp_all add: py_round_def round_half_even_def)

lemma ratio_self: "ratio v v = (if v \<le> 0 then 0 else 1)"
  by (simp add: ratio_def)

text \<open>
  The weight by which \<open>resource_aware\<close> sorts does not compare the amounts the tasks request: the
  sort sees each task alone, so the weight only counts which of memory, tokens and model slots are
  requested at all. Two tasks that request the same kinds of resources get the same weight, however
  much they differ in size.
\<close>

theorem kernel_resource_weight_ignores_amounts:
  assumes "requested_number t ''memory_max_bytes'' > 0 \<longleftrightarrow> requested_number u ''memory_max_bytes'' > 0"
    and "with_budget t (requested_number t ''token_budget'') > 0 \<longleftrightarrow> with_budget u (requested_number u ''token_budget'') > 0"
    and "requested_number t ''llm_max_concurrent'' > 0 \<longleftrightarrow> requested_number u ''llm_max_concurrent'' > 0"
  shows "resource_weight [] t = resource_weight [] u"
  using assms
  by (simp add: resource_weight_def resource_score_details_def max_requested_def ratio_self Let_def not_less [symmetric])

theorem kernel_resource_weight_ignores_amounts_witness:
  "resource_weight [] ((demo_task ''big'' [])\<lparr>ts_resource_request := [(''memory_max_bytes'', JInt 8000000000)]\<rparr>)
     = resource_weight [] ((demo_task ''small'' [])\<lparr>ts_resource_request := [(''memory_max_bytes'', JInt 1)]\<rparr>)"
  by (rule kernel_resource_weight_ignores_amounts)
    (simp_all add: requested_number_def with_budget_def token_budget_set_def demo_task_def new_task_def
      model_post_init_def sync_from_tcb_def raw_task_def tcb_of_task_def)

end
