(* ===== verification/Resource_Monitor.thy ===== *)
theory Resource_Monitor
  imports Task_Model
begin

text \<open>
  \<open>aruntime/resource/types.py\<close> and \<open>aruntime/resource/monitor.py\<close>: resource classes, requests,
  leases and the monitor that accounts for them. Every public method runs under one re-entrant
  lock, so an operation is one step. The readings of \<open>psutil\<close>, the generated lease identifier and
  the clock are arguments. A lease is a shared object, addressed by its identifier.
\<close>

section \<open>Types\<close>

datatype ResourceClass = RC_CPU | RC_MEMORY | RC_LLM_CONCURRENCY | RC_TOKEN | RC_TOOL | RC_KV_CACHE | RC_NETWORK

fun resource_class_value :: "ResourceClass \<Rightarrow> string" where
  "resource_class_value RC_CPU = ''cpu''"
| "resource_class_value RC_MEMORY = ''memory''"
| "resource_class_value RC_LLM_CONCURRENCY = ''llm_concurrency''"
| "resource_class_value RC_TOKEN = ''token''"
| "resource_class_value RC_TOOL = ''tool''"
| "resource_class_value RC_KV_CACHE = ''kv_cache''"
| "resource_class_value RC_NETWORK = ''network''"

definition resource_class_of :: "string \<Rightarrow> ResourceClass option" where
  "resource_class_of s =
     List.find (\<lambda>c. resource_class_value c = s)
       [RC_CPU, RC_MEMORY, RC_LLM_CONCURRENCY, RC_TOKEN, RC_TOOL, RC_KV_CACHE, RC_NETWORK]"

type_synonym amounts = "(ResourceClass \<times> rat) list"

text \<open>\<open>get\<close> of quota, request and usage alike.\<close>

definition amount_of :: "amounts \<Rightarrow> ResourceClass \<Rightarrow> rat" where
  "amount_of d c = dict_get d c 0"

definition request_aliases :: "(string \<times> ResourceClass) list" where
  "request_aliases =
     [(''memory_max_bytes'', RC_MEMORY), (''cpu_max'', RC_CPU),
      (''llm_max_concurrent'', RC_LLM_CONCURRENCY), (''token_budget'', RC_TOKEN)]"

definition request_class :: "string \<Rightarrow> ResourceClass option" where
  "request_class key =
     (case map_of request_aliases key of Some c \<Rightarrow> Some c | None \<Rightarrow> resource_class_of key)"

definition request_from_dict :: "jdict \<Rightarrow> amounts" where
  "request_from_dict data =
     fold (\<lambda>(key, value) acc.
             case json_number value of
               None \<Rightarrow> acc
             | Some r \<Rightarrow> (case request_class key of None \<Rightarrow> acc | Some c \<Rightarrow> dict_set c r acc))
       data []"

definition usage_add :: "ResourceClass \<Rightarrow> rat \<Rightarrow> amounts \<Rightarrow> amounts" where
  "usage_add c amount used = dict_set c (amount_of used c + amount) used"

definition usage_sub :: "ResourceClass \<Rightarrow> rat \<Rightarrow> amounts \<Rightarrow> amounts" where
  "usage_sub c amount used = dict_set c (max 0 (amount_of used c - amount)) used"

definition usage_to_dict :: "amounts \<Rightarrow> jdict" where
  "usage_to_dict used = map (\<lambda>(c, a). (resource_class_value c, JFloat a)) used"

record ResourceLease =
  ls_task_id :: string
  ls_agent_name :: string
  ls_request :: amounts
  ls_created_at :: usec
  ls_released_at :: "usec option"
  ls_status :: string
  ls_reason :: string

definition new_lease :: "string \<Rightarrow> string \<Rightarrow> amounts \<Rightarrow> usec \<Rightarrow> ResourceLease" where
  "new_lease task_id agent_name request now =
     \<lparr>ls_task_id = task_id, ls_agent_name = agent_name, ls_request = request, ls_created_at = now,
      ls_released_at = None, ls_status = ''active'', ls_reason = []\<rparr>"

definition lease_release :: "usec \<Rightarrow> ResourceLease \<Rightarrow> ResourceLease" where
  "lease_release now l = l\<lparr>ls_status := ''released'', ls_released_at := Some now\<rparr>"

definition lease_to_dict :: "(usec \<Rightarrow> string) \<Rightarrow> string \<Rightarrow> ResourceLease \<Rightarrow> jdict" where
  "lease_to_dict stamp lease_id l =
     [(''lease_id'', JStr lease_id), (''task_id'', JStr (ls_task_id l)),
      (''agent_name'', JStr (ls_agent_name l)), (''request'', JObj (usage_to_dict (ls_request l))),
      (''created_at'', JStr (stamp (ls_created_at l))),
      (''released_at'', case ls_released_at l of Some r \<Rightarrow> JStr (stamp r) | None \<Rightarrow> JNull),
      (''status'', JStr (ls_status l)), (''reason'', JStr (ls_reason l))]"

section \<open>The monitor\<close>

record ResourceMonitor =
  rm_cpu_threshold :: rat
  rm_mem_threshold :: rat
  rm_llm_max :: int
  rm_quota :: amounts
  rm_usage :: amounts
  rm_leases :: "ResourceLease dict"
  rm_task_leases :: "string dict"
  rm_active_llm :: "string set"
  rm_llm_counts :: "int dict"
  rm_llm_total :: int
  rm_reclaimed :: "string list"

text \<open>The configuration read from the environment, with the defaults of the class.\<close>

record monitor_config =
  mc_cpu_threshold :: rat
  mc_mem_threshold :: rat
  mc_llm_max :: int
  mc_memory_quota :: rat
  mc_token_quota :: rat
  mc_tool_quota :: rat
  mc_kv_cache_quota :: rat
  mc_network_quota :: rat

definition monitor_init :: "monitor_config \<Rightarrow> ResourceMonitor" where
  "monitor_init c =
     \<lparr>rm_cpu_threshold = mc_cpu_threshold c, rm_mem_threshold = mc_mem_threshold c, rm_llm_max = mc_llm_max c,
      rm_quota = [(RC_CPU, 100), (RC_MEMORY, mc_memory_quota c), (RC_LLM_CONCURRENCY, of_int (mc_llm_max c)),
                  (RC_TOKEN, mc_token_quota c), (RC_TOOL, mc_tool_quota c), (RC_KV_CACHE, mc_kv_cache_quota c),
                  (RC_NETWORK, mc_network_quota c)],
      rm_usage = [], rm_leases = [], rm_task_leases = [], rm_active_llm = {}, rm_llm_counts = [],
      rm_llm_total = 0, rm_reclaimed = []\<rparr>"

record sysload =
  ld_cpu :: rat
  ld_mem :: rat

definition check_system_cpu :: "sysload \<Rightarrow> ResourceMonitor \<Rightarrow> bool" where
  "check_system_cpu ld m \<longleftrightarrow> ld_cpu ld < rm_cpu_threshold m"

definition check_system_memory :: "sysload \<Rightarrow> ResourceMonitor \<Rightarrow> bool" where
  "check_system_memory ld m \<longleftrightarrow> ld_mem ld < rm_mem_threshold m"

definition check_llm_global :: "ResourceMonitor \<Rightarrow> bool" where
  "check_llm_global m \<longleftrightarrow> rm_llm_total m < rm_llm_max m"

definition has_enough :: "sysload \<Rightarrow> ResourceMonitor \<Rightarrow> bool" where
  "has_enough ld m \<longleftrightarrow> check_system_cpu ld m \<and> check_system_memory ld m \<and> check_llm_global m"

fun quota_check :: "ResourceMonitor \<Rightarrow> amounts \<Rightarrow> bool \<times> string" where
  "quota_check m [] = (True, ''resource_available'')"
| "quota_check m ((c, amount) # rest) =
     (let quota = amount_of (rm_quota m) c
      in if quota \<le> 0 then quota_check m rest
         else if amount_of (rm_usage m) c + amount > quota then (False, resource_class_value c @ ''_quota'')
         else quota_check m rest)"

definition can_allocate :: "sysload \<Rightarrow> amounts \<Rightarrow> ResourceMonitor \<Rightarrow> bool \<times> string" where
  "can_allocate ld request m =
     (if amount_of request RC_CPU > 0 \<and> \<not> check_system_cpu ld m then (False, ''cpu_threshold'')
      else if amount_of request RC_MEMORY > 0 \<and> \<not> check_system_memory ld m then (False, ''memory_threshold'')
      else quota_check m request)"

fun lease_limit_check :: "ResourceMonitor \<Rightarrow> amounts \<Rightarrow> bool \<times> string" where
  "lease_limit_check m [] = (True, ''within_limits'')"
| "lease_limit_check m ((c, amount) # rest) =
     (let quota = amount_of (rm_quota m) c
      in if quota > 0 \<and> amount > quota then (False, resource_class_value c @ ''_lease_limit'')
         else lease_limit_check m rest)"

definition monitor_lease :: "sysload \<Rightarrow> ResourceLease \<Rightarrow> ResourceMonitor \<Rightarrow> bool \<times> string" where
  "monitor_lease ld l m =
     (if ls_request l = [] then (True, ''within_limits'')
      else case can_allocate ld [] m of (ok, reason) \<Rightarrow>
        if \<not> ok then (False, reason) else lease_limit_check m (ls_request l))"

definition acquire_llm :: "string \<Rightarrow> int \<Rightarrow> ResourceMonitor \<Rightarrow> ResourceMonitor \<times> bool" where
  "acquire_llm agent_name llm_max_concurrent m =
     (let current = dict_get (rm_llm_counts m) agent_name 0
      in if current \<ge> llm_max_concurrent then (m, False)
         else if rm_llm_total m \<ge> rm_llm_max m then (m, False)
         else (m\<lparr>rm_active_llm := insert agent_name (rm_active_llm m),
                 rm_llm_counts := dict_set agent_name (current + 1) (rm_llm_counts m),
                 rm_llm_total := rm_llm_total m + 1\<rparr>, True))"

definition release_llm :: "string \<Rightarrow> ResourceMonitor \<Rightarrow> ResourceMonitor" where
  "release_llm agent_name m =
     (let current = dict_get (rm_llm_counts m) agent_name 0;
          m1 = (if current \<le> 1
                then m\<lparr>rm_active_llm := rm_active_llm m - {agent_name},
                       rm_llm_counts := dict_pop agent_name (rm_llm_counts m)\<rparr>
                else m\<lparr>rm_llm_counts := dict_set agent_name (current - 1) (rm_llm_counts m)\<rparr>)
      in m1\<lparr>rm_llm_total := max (rm_llm_total m1 - 1) 0\<rparr>)"

definition release_llm_times :: "nat \<Rightarrow> string \<Rightarrow> ResourceMonitor \<Rightarrow> ResourceMonitor" where
  "release_llm_times n agent_name m = ((release_llm agent_name) ^^ n) m"

text \<open>The loop over the requested slots, with the roll-back of those acquired so far.\<close>

fun acquire_llm_loop :: "nat \<Rightarrow> nat \<Rightarrow> string \<Rightarrow> int \<Rightarrow> ResourceMonitor \<Rightarrow> ResourceMonitor \<times> bool" where
  "acquire_llm_loop 0 acquired agent_name limit m = (m, True)"
| "acquire_llm_loop (Suc n) acquired agent_name limit m =
     (case acquire_llm agent_name limit m of
        (m', True) \<Rightarrow> acquire_llm_loop n (Suc acquired) agent_name limit m'
      | (m', False) \<Rightarrow> (release_llm_times acquired agent_name m', False))"

text \<open>\<open>int(x)\<close> of a float: towards zero.\<close>

definition trunc :: "rat \<Rightarrow> int" where
  "trunc r = (if r < 0 then \<lceil>r\<rceil> else \<lfloor>r\<rfloor>)"

definition llm_amount :: "amounts \<Rightarrow> int" where
  "llm_amount request = trunc (amount_of request RC_LLM_CONCURRENCY)"

definition store_lease :: "string \<Rightarrow> ResourceLease \<Rightarrow> ResourceMonitor \<Rightarrow> ResourceMonitor" where
  "store_lease lid l m =
     m\<lparr>rm_leases := dict_set lid l (rm_leases m), rm_task_leases := dict_set (ls_task_id l) lid (rm_task_leases m)\<rparr>"

definition acquire ::
    "sysload \<Rightarrow> usec \<Rightarrow> string \<Rightarrow> string \<Rightarrow> string \<Rightarrow> amounts \<Rightarrow> ResourceMonitor \<Rightarrow> ResourceMonitor \<times> string option" where
  "acquire ld now lid task_id agent_name request m =
     (let lease = new_lease task_id agent_name request now
      in if request = [] then (store_lease lid lease m, Some lid)
         else if \<not> fst (can_allocate ld request m) then (m, None)
         else (let n = llm_amount request; per_agent_limit = max n 1
           in if dict_get (rm_llm_counts m) agent_name 0 + n > per_agent_limit then (m, None)
              else if rm_llm_total m + n > rm_llm_max m then (m, None)
              else (case acquire_llm_loop (nat n) 0 agent_name per_agent_limit m of
                      (m', False) \<Rightarrow> (m', None)
                    | (m', True) \<Rightarrow>
                        (let m1 = store_lease lid lease m'
                         in (m1\<lparr>rm_usage := fold (\<lambda>(c, a). usage_add c a) request (rm_usage m1)\<rparr>, Some lid)))))"

text \<open>The argument of \<open>release\<close>: nothing, a task or lease identifier, or a lease object.\<close>

datatype release_arg = RelNone | RelKey string | RelLease string

definition release_target :: "release_arg \<Rightarrow> ResourceMonitor \<Rightarrow> string option" where
  "release_target arg m =
     (case arg of
        RelNone \<Rightarrow> None
      | RelKey key \<Rightarrow> Some (dict_get (rm_task_leases m) key key)
      | RelLease lid \<Rightarrow> Some lid)"

definition release :: "usec \<Rightarrow> release_arg \<Rightarrow> ResourceMonitor \<Rightarrow> ResourceMonitor" where
  "release now arg m =
     (case release_target arg m of
        None \<Rightarrow> m
      | Some lid \<Rightarrow>
          (case map_of (rm_leases m) lid of
             None \<Rightarrow> m
           | Some lease \<Rightarrow>
               if ls_status lease \<noteq> ''active'' then m
               else (let m1 = m\<lparr>rm_usage := fold (\<lambda>(c, a). usage_sub c a) (ls_request lease) (rm_usage m)\<rparr>;
                         m2 = release_llm_times (nat (llm_amount (ls_request lease))) (ls_agent_name lease) m1
                     in m2\<lparr>rm_leases := dict_set lid (lease_release now lease) (rm_leases m2),
                           rm_task_leases := dict_pop (ls_task_id lease) (rm_task_leases m2)\<rparr>)))"

definition reclaimer_reclaim :: "usec \<Rightarrow> string \<Rightarrow> string \<Rightarrow> ResourceMonitor \<Rightarrow> ResourceMonitor" where
  "reclaimer_reclaim now lid reason m =
     (case map_of (rm_leases m) lid of
        None \<Rightarrow> m
      | Some lease \<Rightarrow> m\<lparr>rm_leases := dict_set lid (lease_release now (lease\<lparr>ls_reason := reason\<rparr>)) (rm_leases m),
                        rm_reclaimed := rm_reclaimed m @ [lid]\<rparr>)"

definition reclaim :: "usec \<Rightarrow> string \<Rightarrow> string \<Rightarrow> ResourceMonitor \<Rightarrow> ResourceMonitor" where
  "reclaim now task_id reason m =
     (let lid = dict_get (rm_task_leases m) task_id []
      in case map_of (rm_leases m) lid of
           None \<Rightarrow> m
         | Some _ \<Rightarrow> reclaimer_reclaim now lid reason (release now (RelLease lid) m))"

definition active_leases :: "ResourceMonitor \<Rightarrow> (string \<times> ResourceLease) list" where
  "active_leases m = filter (\<lambda>(lid, l). ls_status l = ''active'') (rm_leases m)"

text \<open>\<open>psutil\<close> supplies the load and the available bytes.\<close>

record monitor_snapshot =
  sn_cpu_percent :: rat
  sn_mem_percent :: rat
  sn_mem_available_mb :: rat
  sn_llm_active_agents :: "string list"
  sn_llm_total_concurrent :: int
  sn_llm_max_concurrent :: int
  sn_usage :: jdict
  sn_leases :: "jdict list"
  sn_reclaimed :: "jdict list"

definition get_snapshot ::
    "sysload \<Rightarrow> int \<Rightarrow> (string set \<Rightarrow> string list) \<Rightarrow> (usec \<Rightarrow> string) \<Rightarrow> ResourceMonitor \<Rightarrow> monitor_snapshot" where
  "get_snapshot ld available it stamp m =
     \<lparr>sn_cpu_percent = ld_cpu ld, sn_mem_percent = ld_mem ld,
      sn_mem_available_mb = py_round 1 (of_int available / (1024 * 1024)), sn_llm_active_agents = it (rm_active_llm m),
      sn_llm_total_concurrent = rm_llm_total m, sn_llm_max_concurrent = rm_llm_max m,
      sn_usage = usage_to_dict (rm_usage m),
      sn_leases = map (\<lambda>(lid, l). lease_to_dict stamp lid l) (active_leases m),
      sn_reclaimed = List.map_filter (\<lambda>lid. map_option (lease_to_dict stamp lid) (map_of (rm_leases m) lid))
        (rm_reclaimed m)\<rparr>"

end
