(* ===== verification/Resource_Accounting.thy ===== *)
theory Resource_Accounting
  imports Resource_Monitor Task_Graph
begin

text \<open>
  Correctness of the resource monitor: the accounted usage is the sum of the active leases, quotas
  and model slots are never exceeded, a refused request changes nothing, and a release gives back
  exactly what its lease holds, once.
\<close>

section \<open>Model slots\<close>

abbreviation llm_count :: "ResourceMonitor \<Rightarrow> string \<Rightarrow> int" where
  "llm_count m a \<equiv> dict_get (rm_llm_counts m) a 0"

definition llm_wf :: "ResourceMonitor \<Rightarrow> bool" where
  "llm_wf m \<longleftrightarrow> (\<forall>a. 0 \<le> llm_count m a \<and> (a \<in> rm_active_llm m \<longleftrightarrow> 1 \<le> llm_count m a))"

definition llm_only :: "ResourceMonitor \<Rightarrow> ResourceMonitor \<Rightarrow> bool" where
  "llm_only m m' \<longleftrightarrow> rm_usage m' = rm_usage m \<and> rm_leases m' = rm_leases m \<and> rm_task_leases m' = rm_task_leases m \<and>
     rm_quota m' = rm_quota m \<and> rm_llm_max m' = rm_llm_max m \<and> rm_reclaimed m' = rm_reclaimed m \<and>
     rm_cpu_threshold m' = rm_cpu_threshold m \<and> rm_mem_threshold m' = rm_mem_threshold m"

lemma llm_only_frame:
  assumes "llm_only m m'"
  shows "rm_usage m' = rm_usage m" "rm_leases m' = rm_leases m" "rm_task_leases m' = rm_task_leases m"
    "rm_quota m' = rm_quota m" "rm_llm_max m' = rm_llm_max m" "rm_reclaimed m' = rm_reclaimed m"
  using assms by (auto simp: llm_only_def)

lemma llm_only_refl [simp]: "llm_only m m"
  by (simp add: llm_only_def)

lemma llm_only_trans: "llm_only m m1 \<Longrightarrow> llm_only m1 m2 \<Longrightarrow> llm_only m m2"
  by (simp add: llm_only_def)

lemma llm_count_nonneg: "llm_wf m \<Longrightarrow> 0 \<le> llm_count m a"
  by (simp add: llm_wf_def)

lemma acquire_llm_ok:
  assumes "llm_wf m" "llm_count m a < limit" "rm_llm_total m < rm_llm_max m"
  obtains m' where "acquire_llm a limit m = (m', True)" "llm_only m m'" "llm_wf m'"
    "\<And>b. llm_count m' b = llm_count m b + (if b = a then 1 else 0)" "rm_llm_total m' = rm_llm_total m + 1"
proof -
  let ?m = "m\<lparr>rm_active_llm := insert a (rm_active_llm m),
      rm_llm_counts := dict_set a (llm_count m a + 1) (rm_llm_counts m), rm_llm_total := rm_llm_total m + 1\<rparr>"
  have "acquire_llm a limit m = (?m, True)" using assms by (simp add: acquire_llm_def Let_def)
  moreover have "llm_wf ?m"
    using assms(1) llm_count_nonneg[OF assms(1), of a] by (auto simp: llm_wf_def)
  moreover have "llm_only m ?m" by (auto simp: llm_only_def)
  ultimately show thesis by (intro that) auto
qed

lemma acquire_llm_loop_ok:
  assumes "llm_wf m" "llm_count m a + int n \<le> limit" "rm_llm_total m + int n \<le> rm_llm_max m"
  shows "\<exists>m'. acquire_llm_loop n k a limit m = (m', True) \<and> llm_only m m' \<and> llm_wf m' \<and>
     (\<forall>b. llm_count m' b = llm_count m b + (if b = a then int n else 0)) \<and>
     rm_llm_total m' = rm_llm_total m + int n"
  using assms
proof (induction n arbitrary: k m)
  case 0
  then show ?case by simp
next
  case (Suc n)
  have "llm_count m a < limit" "rm_llm_total m < rm_llm_max m" using Suc.prems by auto
  from acquire_llm_ok[OF Suc.prems(1) this]
  obtain m1 where m1: "acquire_llm a limit m = (m1, True)" "llm_only m m1" "llm_wf m1"
    "\<And>b. llm_count m1 b = llm_count m b + (if b = a then 1 else 0)" "rm_llm_total m1 = rm_llm_total m + 1"
    by metis
  have "llm_count m1 a + int n \<le> limit" "rm_llm_total m1 + int n \<le> rm_llm_max m1"
    using m1 llm_only_frame[OF m1(2)] Suc.prems by auto
  from Suc.IH[OF m1(3) this, of "Suc k"]
  obtain m' where m': "acquire_llm_loop n (Suc k) a limit m1 = (m', True)" "llm_only m1 m'" "llm_wf m'"
     "\<forall>b. llm_count m' b = llm_count m1 b + (if b = a then int n else 0)"
     "rm_llm_total m' = rm_llm_total m1 + int n" by blast
  have "llm_only m m'" using m1(2) m'(2) by (rule llm_only_trans)
  with m1 m' show ?case by simp
qed

lemma release_llm_ok:
  assumes "llm_wf m" "1 \<le> llm_count m a" "1 \<le> rm_llm_total m"
  shows "llm_only m (release_llm a m)" "llm_wf (release_llm a m)"
    "llm_count (release_llm a m) b = llm_count m b - (if b = a then 1 else 0)"
    "rm_llm_total (release_llm a m) = rm_llm_total m - 1"
proof -
  show "llm_only m (release_llm a m)" by (auto simp: release_llm_def llm_only_def Let_def)
  show "llm_wf (release_llm a m)"
    using assms(1,2) by (auto simp: release_llm_def llm_wf_def Let_def split: if_splits)
  show "llm_count (release_llm a m) b = llm_count m b - (if b = a then 1 else 0)"
    using assms(2) by (auto simp: release_llm_def Let_def)
  show "rm_llm_total (release_llm a m) = rm_llm_total m - 1"
    using assms(3) by (simp add: release_llm_def Let_def)
qed

lemma release_llm_times_ok:
  assumes "llm_wf m" "int n \<le> llm_count m a" "int n \<le> rm_llm_total m"
  shows "llm_only m (release_llm_times n a m) \<and> llm_wf (release_llm_times n a m) \<and>
     (\<forall>b. llm_count (release_llm_times n a m) b = llm_count m b - (if b = a then int n else 0)) \<and>
     rm_llm_total (release_llm_times n a m) = rm_llm_total m - int n"
  using assms
proof (induction n)
  case 0
  then show ?case by (simp add: release_llm_times_def)
next
  case (Suc n)
  let ?m = "release_llm_times n a m"
  have ih: "llm_only m ?m" "llm_wf ?m" "\<forall>b. llm_count ?m b = llm_count m b - (if b = a then int n else 0)"
     "rm_llm_total ?m = rm_llm_total m - int n" using Suc by auto
  have "1 \<le> llm_count ?m a" "1 \<le> rm_llm_total ?m" using ih Suc.prems by auto
  note r = release_llm_ok[OF ih(2) this]
  have "release_llm_times (Suc n) a m = release_llm a ?m" by (simp add: release_llm_times_def)
  then show ?case using r ih llm_only_trans by auto
qed

section \<open>Usage\<close>

lemma amount_of_add: "amount_of (usage_add c a u) x = amount_of u x + (if x = c then a else 0)"
  by (simp add: amount_of_def usage_add_def)

lemma amount_of_sub:
  "a \<le> amount_of u c \<Longrightarrow> amount_of (usage_sub c a u) x = amount_of u x - (if x = c then a else 0)"
  by (simp add: amount_of_def usage_sub_def)

lemma amount_of_Nil [simp]: "amount_of [] x = 0"
  by (simp add: amount_of_def dict_get_def)

lemma amount_of_Cons:
  "x \<notin> fst ` set r \<or> x \<noteq> c \<Longrightarrow> amount_of ((c, a) # r) x = (if x = c then a else 0) + amount_of r x"
  by (cases "x = c") (auto simp: amount_of_def, simp_all add: dict_get_def)

lemma amount_of_fold_add:
  "distinct (dict_keys r) \<Longrightarrow>
   amount_of (fold (\<lambda>(c, a). usage_add c a) r u) x = amount_of u x + amount_of r x"
proof (induction r arbitrary: u)
  case (Cons p r)
  obtain c a where p: "p = (c, a)" by (cases p)
  have "x \<notin> fst ` set r \<or> x \<noteq> c" using Cons.prems p by auto
  with Cons show ?case by (simp add: p amount_of_add amount_of_Cons)
qed simp

definition nonneg :: "amounts \<Rightarrow> bool" where
  "nonneg r \<longleftrightarrow> distinct (dict_keys r) \<and> (\<forall>a \<in> snd ` set r. 0 \<le> a)"

lemma nonneg_amount: "nonneg r \<Longrightarrow> 0 \<le> amount_of r c"
  by (force simp: nonneg_def amount_of_def dict_get_def dest: map_of_SomeD split: option.splits)

lemma amount_of_fold_sub:
  "nonneg r \<Longrightarrow> (\<And>c. amount_of r c \<le> amount_of u c) \<Longrightarrow>
   amount_of (fold (\<lambda>(c, a). usage_sub c a) r u) x = amount_of u x - amount_of r x"
proof (induction r arbitrary: u)
  case (Cons p r)
  obtain c a where p: "p = (c, a)" by (cases p)
  have nn: "nonneg r" and cx: "y \<notin> fst ` set r \<or> y \<noteq> c" for y using Cons.prems(1) p by (auto simp: nonneg_def)
  have "c \<notin> fst ` set r" using Cons.prems(1) p by (simp add: nonneg_def)
  then have "amount_of r c = 0" by (simp add: amount_of_def)
  then have a: "a \<le> amount_of u c" using Cons.prems(2)[of c] p amount_of_Cons[OF cx] by simp
  have "amount_of r y \<le> amount_of (usage_sub c a u) y" for y
    using Cons.prems(2)[of y] p amount_of_Cons[OF cx] by (simp add: amount_of_sub[OF a])
  from Cons.IH[OF nn this] show ?case
    by (simp add: p amount_of_sub[OF a] amount_of_Cons[OF cx])
qed simp

section \<open>The accounting invariant\<close>

definition lease_held :: "ResourceClass \<Rightarrow> ResourceLease \<Rightarrow> rat" where
  "lease_held c l = (if ls_status l = ''active'' then amount_of (ls_request l) c else 0)"

definition lease_slots :: "ResourceLease \<Rightarrow> int" where
  "lease_slots l = (if ls_status l = ''active'' then llm_amount (ls_request l) else 0)"

definition agent_slots :: "string \<Rightarrow> ResourceLease \<Rightarrow> int" where
  "agent_slots a l = (if ls_agent_name l = a then lease_slots l else 0)"

definition mon_inv :: "ResourceMonitor \<Rightarrow> bool" where
  "mon_inv m \<longleftrightarrow> llm_wf m \<and> distinct (dict_keys (rm_leases m)) \<and>
     (\<forall>l \<in> snd ` set (rm_leases m). nonneg (ls_request l)) \<and>
     (\<forall>c. amount_of (rm_usage m) c = dict_sum (lease_held c) (rm_leases m)) \<and>
     (\<forall>a. llm_count m a = dict_sum (agent_slots a) (rm_leases m)) \<and>
     rm_llm_total m = dict_sum lease_slots (rm_leases m) \<and> rm_llm_total m \<le> rm_llm_max m \<and>
     (\<forall>c. 0 < amount_of (rm_quota m) c \<longrightarrow> amount_of (rm_usage m) c \<le> amount_of (rm_quota m) c)"

lemma mon_invD:
  assumes "mon_inv m"
  shows "llm_wf m" "distinct (dict_keys (rm_leases m))" "l \<in> snd ` set (rm_leases m) \<Longrightarrow> nonneg (ls_request l)"
    "amount_of (rm_usage m) c = dict_sum (lease_held c) (rm_leases m)"
    "llm_count m a = dict_sum (agent_slots a) (rm_leases m)" "rm_llm_total m = dict_sum lease_slots (rm_leases m)"
    "rm_llm_total m \<le> rm_llm_max m"
    "0 < amount_of (rm_quota m) c \<Longrightarrow> amount_of (rm_usage m) c \<le> amount_of (rm_quota m) c"
  using assms unfolding mon_inv_def by blast+

lemma llm_amount_nonneg: "nonneg r \<Longrightarrow> 0 \<le> llm_amount r"
  using nonneg_amount[of r RC_LLM_CONCURRENCY] by (simp add: llm_amount_def trunc_def)

lemma quota_check_ok:
  "distinct (dict_keys r) \<Longrightarrow> fst (quota_check m r) \<Longrightarrow> c \<in> fst ` set r \<Longrightarrow> 0 < amount_of (rm_quota m) c \<Longrightarrow>
   amount_of (rm_usage m) c + amount_of r c \<le> amount_of (rm_quota m) c"
proof (induction m r rule: quota_check.induct)
  case (2 m c' a rest)
  have ok: "fst (quota_check m rest)" using "2.prems"(2) by (auto simp: Let_def split: if_splits)
  show ?case
  proof (cases "c = c'")
    case True
    have "c' \<notin> fst ` set rest" using "2.prems"(1) by simp
    then have "amount_of ((c', a) # rest) c = a" by (simp add: True amount_of_def dict_get_def)
    with True "2.prems" show ?thesis by (auto simp: Let_def split: if_splits)
  next
    case False
    then have "amount_of ((c', a) # rest) c = amount_of rest c" by (simp add: amount_of_def dict_get_def)
    moreover have "amount_of (rm_usage m) c + amount_of rest c \<le> amount_of (rm_quota m) c"
      using "2.IH"(1)[of "amount_of (rm_quota m) c'"] "2.IH"(2)[of "amount_of (rm_quota m) c'"] ok "2.prems" False
      by (cases "amount_of (rm_quota m) c' \<le> 0") (auto simp: Let_def split: if_splits)
    ultimately show ?thesis by simp
  qed
qed simp

definition granted :: "string \<Rightarrow> ResourceLease \<Rightarrow> ResourceMonitor \<Rightarrow> ResourceMonitor \<Rightarrow> bool" where
  "granted lid l m m' \<longleftrightarrow>
     rm_leases m' = dict_set lid l (rm_leases m) \<and> rm_task_leases m' = dict_set (ls_task_id l) lid (rm_task_leases m) \<and>
     (\<forall>c. amount_of (rm_usage m') c = amount_of (rm_usage m) c + amount_of (ls_request l) c) \<and>
     (\<forall>b. llm_count m' b = llm_count m b + (if b = ls_agent_name l then llm_amount (ls_request l) else 0)) \<and>
     rm_llm_total m' = rm_llm_total m + llm_amount (ls_request l) \<and> rm_llm_total m' \<le> rm_llm_max m \<and> llm_wf m' \<and>
     (\<forall>c. 0 < amount_of (rm_quota m) c \<longrightarrow> amount_of (rm_usage m') c \<le> amount_of (rm_quota m) c) \<and>
     rm_quota m' = rm_quota m \<and> rm_llm_max m' = rm_llm_max m \<and> rm_reclaimed m' = rm_reclaimed m"

lemma lease_of_new [simp]:
  "lease_held c (new_lease t a req now) = amount_of req c"
  "lease_slots (new_lease t a req now) = llm_amount req"
  "agent_slots b (new_lease t a req now) = (if b = a then llm_amount req else 0)"
  "ls_request (new_lease t a req now) = req" "ls_task_id (new_lease t a req now) = t"
  "ls_agent_name (new_lease t a req now) = a" "ls_status (new_lease t a req now) = ''active''"
  by (auto simp: lease_held_def lease_slots_def agent_slots_def new_lease_def)

lemma acquire_cases:
  assumes inv: "mon_inv m" and nn: "nonneg req"
  shows "acquire ld now lid t a req m = (m, None) \<or>
    (\<exists>m'. acquire ld now lid t a req m = (m', Some lid) \<and> granted lid (new_lease t a req now) m m')"
proof (cases "req = []")
  case True
  have "granted lid (new_lease t a req now) m (store_lease lid (new_lease t a req now) m)"
  proof -
    have "llm_amount req = 0" "amount_of req c = 0" for c using True by (simp_all add: llm_amount_def trunc_def)
    moreover have "llm_wf m" using inv by (simp add: mon_inv_def)
    then have "llm_wf (store_lease lid (new_lease t a req now) m)" by (simp add: llm_wf_def store_lease_def)
    ultimately show ?thesis using mon_invD(7,8)[OF inv] unfolding granted_def by (simp add: store_lease_def new_lease_def)
  qed
  with True show ?thesis by (simp add: acquire_def Let_def)
next
  case False
  let ?n = "llm_amount req" and ?l = "new_lease t a req now"
  have n0: "0 \<le> ?n" by (rule llm_amount_nonneg[OF nn])
  show ?thesis
  proof (cases "fst (can_allocate ld req m) \<and> llm_count m a + ?n \<le> max ?n 1 \<and> rm_llm_total m + ?n \<le> rm_llm_max m")
    case refuse: False
    then show ?thesis using False by (auto simp: acquire_def Let_def)
  next
    case True
    have "llm_wf m" using inv by (simp add: mon_inv_def)
    moreover have "llm_count m a + int (nat ?n) \<le> max ?n 1" "rm_llm_total m + int (nat ?n) \<le> rm_llm_max m"
      using True n0 by auto
    ultimately obtain m1 where m1: "acquire_llm_loop (nat ?n) 0 a (max ?n 1) m = (m1, True)" "llm_only m m1" "llm_wf m1"
        "\<forall>b. llm_count m1 b = llm_count m b + (if b = a then int (nat ?n) else 0)"
        "rm_llm_total m1 = rm_llm_total m + int (nat ?n)"
      using acquire_llm_loop_ok by blast
    let ?m2 = "store_lease lid ?l m1"
    let ?m3 = "?m2\<lparr>rm_usage := fold (\<lambda>(c, a). usage_add c a) req (rm_usage ?m2)\<rparr>"
    have acq: "acquire ld now lid t a req m = (?m3, Some lid)"
    proof -
      have "\<not> max ?n 1 < llm_count m a + ?n" "\<not> rm_llm_max m < rm_llm_total m + ?n" "fst (can_allocate ld req m)"
        using True by auto
      then show ?thesis using False m1(1) unfolding acquire_def Let_def by (simp del: max_less_iff_conj)
    qed
    have d: "distinct (dict_keys req)" using nn by (simp add: nonneg_def)
    have us: "amount_of (rm_usage ?m3) c = amount_of (rm_usage m) c + amount_of req c" for c
      using amount_of_fold_add[OF d, of "rm_usage m" c] llm_only_frame[OF m1(2)] by (simp add: store_lease_def)
    have q: "amount_of (rm_usage ?m3) c \<le> amount_of (rm_quota m) c" if "0 < amount_of (rm_quota m) c" for c
    proof (cases "c \<in> fst ` set req")
      case in_req: True
      have "fst (quota_check m req)" using True by (auto simp: can_allocate_def split: if_splits)
      from quota_check_ok[OF d this in_req that] show ?thesis unfolding us .
    next
      case notin: False
      then have "amount_of req c = 0" by (simp add: amount_of_def)
      then show ?thesis using mon_invD(8)[OF inv that] unfolding us by simp
    qed
    have "granted lid ?l m ?m3"
      unfolding granted_def lease_of_new us[symmetric]
      using m1(3-5) llm_only_frame[OF m1(2)] q n0 True
      by (auto simp: store_lease_def new_lease_def llm_wf_def)
    with acq show ?thesis by blast
  qed
qed

lemma inv_granted:
  assumes inv: "mon_inv m" and nn: "nonneg req" and fresh: "map_of (rm_leases m) lid = None"
    and g: "granted lid (new_lease t a req now) m m'"
  shows "mon_inv m'"
proof -
  let ?l = "new_lease t a req now"
  have d: "distinct (dict_keys (rm_leases m))" using inv by (simp add: mon_inv_def)
  have sum: "dict_sum f (dict_set lid ?l (rm_leases m)) = dict_sum f (rm_leases m) + f ?l"
    for f :: "ResourceLease \<Rightarrow> 'b::ab_group_add"
    using dict_sum_set[OF d, of f lid ?l] fresh by simp
  have snd: "snd ` set (dict_set lid ?l (rm_leases m)) \<subseteq> insert ?l (snd ` set (rm_leases m))"
    by (rule dict_set_values)
  have leases: "rm_leases m' = dict_set lid ?l (rm_leases m)" using g by (simp add: granted_def)
  have nnl: "nonneg (ls_request l)" if "l \<in> snd ` set (rm_leases m')" for l
  proof -
    have "l = ?l \<or> l \<in> snd ` set (rm_leases m)" using that snd unfolding leases by blast
    then show ?thesis using nn mon_invD(3)[OF inv, of l] by auto
  qed
  have "amount_of (rm_usage m') c = dict_sum (lease_held c) (rm_leases m')"
    "llm_count m' b = dict_sum (agent_slots b) (rm_leases m')" for c b
    using inv g by (simp_all add: mon_inv_def granted_def sum)
  moreover have "rm_llm_total m' = dict_sum lease_slots (rm_leases m')"
    using inv g by (simp add: mon_inv_def granted_def sum)
  moreover have "distinct (dict_keys (rm_leases m'))" using g d by (simp add: granted_def)
  moreover have "llm_wf m'" "rm_llm_total m' \<le> rm_llm_max m'" using g unfolding granted_def by simp_all
  moreover have "amount_of (rm_usage m') c \<le> amount_of (rm_quota m') c" if "0 < amount_of (rm_quota m') c" for c
    using g that unfolding granted_def by metis
  ultimately show ?thesis unfolding mon_inv_def using nnl by blast
qed

lemma release_eq:
  assumes inv: "mon_inv m" and t: "release_target arg m = Some lid" "map_of (rm_leases m) lid = Some l"
    and act: "ls_status l = ''active''"
  shows "rm_leases (release now arg m) = dict_set lid (lease_release now l) (rm_leases m) \<and>
    rm_task_leases (release now arg m) = dict_pop (ls_task_id l) (rm_task_leases m) \<and>
    (\<forall>c. amount_of (rm_usage (release now arg m)) c = amount_of (rm_usage m) c - amount_of (ls_request l) c) \<and>
    (\<forall>b. llm_count (release now arg m) b = llm_count m b - (if b = ls_agent_name l then llm_amount (ls_request l) else 0)) \<and>
    rm_llm_total (release now arg m) = rm_llm_total m - llm_amount (ls_request l) \<and> llm_wf (release now arg m) \<and>
    rm_quota (release now arg m) = rm_quota m \<and> rm_llm_max (release now arg m) = rm_llm_max m \<and>
    rm_reclaimed (release now arg m) = rm_reclaimed m"
proof -
  have mem: "l \<in> snd ` set (rm_leases m)" using t(2) by (metis map_of_SomeD imageI snd_conv)
  have nn: "nonneg (ls_request l)" by (rule mon_invD(3)[OF inv mem])
  have nnall: "nonneg (ls_request l')" if "l' \<in> snd ` set (rm_leases m)" for l' by (rule mon_invD(3)[OF inv that])
  have held: "0 \<le> lease_held c l'" "0 \<le> lease_slots l'" "0 \<le> agent_slots b l'" if "l' \<in> snd ` set (rm_leases m)" for l' c b
    using nnall[OF that] nonneg_amount llm_amount_nonneg
    by (auto simp: lease_held_def lease_slots_def agent_slots_def)
  have le: "amount_of (ls_request l) c \<le> amount_of (rm_usage m) c" for c
    using dict_sum_member_le[OF t(2), of "lease_held c"] held(1) act by (simp add: mon_invD(4)[OF inv] lease_held_def)
  let ?n = "llm_amount (ls_request l)"
  let ?m1 = "m\<lparr>rm_usage := fold (\<lambda>(c, a). usage_sub c a) (ls_request l) (rm_usage m)\<rparr>"
  let ?m2 = "release_llm_times (nat ?n) (ls_agent_name l) ?m1"
  have n0: "0 \<le> ?n" by (rule llm_amount_nonneg[OF nn])
  have "?n \<le> llm_count m (ls_agent_name l)"
    using dict_sum_member_le[OF t(2), of "agent_slots (ls_agent_name l)"] held(3) act
    by (simp add: mon_invD(5)[OF inv] agent_slots_def lease_slots_def)
  moreover have "?n \<le> rm_llm_total m"
    using dict_sum_member_le[OF t(2), of lease_slots] held(2) act
    by (simp add: mon_invD(6)[OF inv] lease_slots_def)
  moreover have "llm_wf ?m1" using mon_invD(1)[OF inv] by (simp add: llm_wf_def)
  ultimately have r: "llm_only ?m1 ?m2" "llm_wf ?m2"
     "\<forall>b. llm_count ?m2 b = llm_count ?m1 b - (if b = ls_agent_name l then int (nat ?n) else 0)"
     "rm_llm_total ?m2 = rm_llm_total ?m1 - int (nat ?n)"
    using release_llm_times_ok[of ?m1 "nat ?n" "ls_agent_name l"] n0 by auto
  have eq: "release now arg m = ?m2\<lparr>rm_leases := dict_set lid (lease_release now l) (rm_leases ?m2),
      rm_task_leases := dict_pop (ls_task_id l) (rm_task_leases ?m2)\<rparr>"
    using t act by (simp add: release_def Let_def)
  have us: "amount_of (rm_usage ?m1) c = amount_of (rm_usage m) c - amount_of (ls_request l) c" for c
    using amount_of_fold_sub[OF nn le] by simp
  have "llm_wf (release now arg m)" unfolding eq using r(2) by (simp add: llm_wf_def)
  moreover have "amount_of (rm_usage (release now arg m)) c = amount_of (rm_usage m) c - amount_of (ls_request l) c" for c
    unfolding eq using llm_only_frame(1)[OF r(1)] us[of c] by simp
  ultimately show ?thesis
    using r(3,4) llm_only_frame[OF r(1)] n0 by (simp add: eq)
qed

lemma release_idle:
  "(\<And>lid l. release_target arg m = Some lid \<Longrightarrow> map_of (rm_leases m) lid = Some l \<Longrightarrow> ls_status l \<noteq> ''active'') \<Longrightarrow>
   release now arg m = m"
  by (auto simp: release_def split: option.splits)

lemma lease_of_released [simp]:
  "lease_held c (lease_release now l) = 0" "lease_slots (lease_release now l) = 0"
  "agent_slots b (lease_release now l) = 0" "ls_request (lease_release now l) = ls_request l"
  "ls_task_id (lease_release now l) = ls_task_id l"
  by (simp_all add: lease_release_def lease_held_def lease_slots_def agent_slots_def)

lemma inv_release: assumes inv: "mon_inv m" shows "mon_inv (release now arg m)"
proof (cases "\<exists>lid l. release_target arg m = Some lid \<and> map_of (rm_leases m) lid = Some l \<and> ls_status l = ''active''")
  case False
  then have "release now arg m = m" by (intro release_idle) blast
  with inv show ?thesis by simp
next
  case True
  then obtain lid l where t: "release_target arg m = Some lid" "map_of (rm_leases m) lid = Some l" "ls_status l = ''active''"
    by blast
  let ?m = "release now arg m"
  have r: "llm_wf ?m" "rm_leases ?m = dict_set lid (lease_release now l) (rm_leases m)"
    "amount_of (rm_usage ?m) c = amount_of (rm_usage m) c - amount_of (ls_request l) c"
    "llm_count ?m b = llm_count m b - (if b = ls_agent_name l then llm_amount (ls_request l) else 0)"
    "rm_llm_total ?m = rm_llm_total m - llm_amount (ls_request l)" "rm_quota ?m = rm_quota m"
    "rm_llm_max ?m = rm_llm_max m" for c b
    using release_eq[OF inv t, of now] by blast+
  have mem: "l \<in> snd ` set (rm_leases m)" using t(2) by (metis map_of_SomeD imageI snd_conv)
  note leases = r(2)
  have d: "distinct (dict_keys (rm_leases m))" by (rule mon_invD(2)[OF inv])
  have sum: "dict_sum f (rm_leases ?m) = dict_sum f (rm_leases m) - f l + f (lease_release now l)"
    for f :: "ResourceLease \<Rightarrow> 'b::ab_group_add"
    using dict_sum_set[OF d, of f lid "lease_release now l"] t(2) by (simp add: leases)
  have nn: "nonneg (ls_request l')" if "l' \<in> snd ` set (rm_leases ?m)" for l'
  proof -
    have "l' = lease_release now l \<or> l' \<in> snd ` set (rm_leases m)"
      using that dict_set_values[of lid "lease_release now l" "rm_leases m"] unfolding leases by blast
    then show ?thesis using mon_invD(3)[OF inv mem] mon_invD(3)[OF inv, of l'] by auto
  qed
  have act: "lease_held c l = amount_of (ls_request l) c" "lease_slots l = llm_amount (ls_request l)"
    "agent_slots b l = (if b = ls_agent_name l then llm_amount (ls_request l) else 0)" for c b
    using t(3) by (auto simp: lease_held_def lease_slots_def agent_slots_def)
  have n0: "0 \<le> llm_amount (ls_request l)" "0 \<le> amount_of (ls_request l) c" for c
    using mon_invD(3)[OF inv mem] by (auto intro: llm_amount_nonneg nonneg_amount)
  have "distinct (dict_keys (rm_leases ?m))" using d by (simp add: leases)
  moreover have "amount_of (rm_usage ?m) c = dict_sum (lease_held c) (rm_leases ?m)" for c
    unfolding sum r(3) act mon_invD(4)[OF inv] by simp
  moreover have "llm_count ?m b = dict_sum (agent_slots b) (rm_leases ?m)" for b
    unfolding sum r(4) act mon_invD(5)[OF inv] by simp
  moreover have "rm_llm_total ?m = dict_sum lease_slots (rm_leases ?m)"
    unfolding sum r(5) act mon_invD(6)[OF inv] by simp
  moreover have "rm_llm_total ?m \<le> rm_llm_max ?m" using r(5,7) mon_invD(7)[OF inv] n0(1) by linarith
  moreover have "amount_of (rm_usage ?m) c \<le> amount_of (rm_quota ?m) c" if "0 < amount_of (rm_quota ?m) c" for c
  proof -
    have "0 < amount_of (rm_quota m) c" using that r(6) by simp
    from mon_invD(8)[OF inv this] n0(2)[of c] show ?thesis unfolding r(3,6) by linarith
  qed
  ultimately show ?thesis unfolding mon_inv_def using nn r(1) by blast
qed

lemma inv_reclaimer:
  assumes inv: "mon_inv m" and l: "\<And>l. map_of (rm_leases m) lid = Some l \<Longrightarrow> ls_status l \<noteq> ''active''"
  shows "mon_inv (reclaimer_reclaim now lid reason m)"
proof (cases "map_of (rm_leases m) lid")
  case None
  with inv show ?thesis by (simp add: reclaimer_reclaim_def)
next
  case (Some l)
  let ?l = "lease_release now (l\<lparr>ls_reason := reason\<rparr>)"
  let ?m = "reclaimer_reclaim now lid reason m"
  have na: "ls_status l \<noteq> ''active''" by (rule assms(2)[OF Some])
  have mem: "l \<in> snd ` set (rm_leases m)" using Some by (metis map_of_SomeD imageI snd_conv)
  have leases: "rm_leases ?m = dict_set lid ?l (rm_leases m)" using Some by (simp add: reclaimer_reclaim_def)
  have sum: "dict_sum f (rm_leases ?m) = dict_sum f (rm_leases m)" if "f l = 0" "f ?l = 0"
    for f :: "ResourceLease \<Rightarrow> 'b::ab_group_add"
    using dict_sum_set[OF mon_invD(2)[OF inv], of f lid ?l] Some that by (simp add: leases)
  have zero: "lease_held c l = 0" "lease_slots l = 0" "agent_slots b l = 0" for c b
    using na by (simp_all add: lease_held_def lease_slots_def agent_slots_def)
  have nn: "nonneg (ls_request l')" if "l' \<in> snd ` set (rm_leases ?m)" for l'
  proof -
    have "l' = ?l \<or> l' \<in> snd ` set (rm_leases m)"
      using that dict_set_values[of lid ?l "rm_leases m"] unfolding leases by blast
    then show ?thesis using mon_invD(3)[OF inv mem] mon_invD(3)[OF inv, of l'] by auto
  qed
  have frame: "rm_usage ?m = rm_usage m" "rm_llm_counts ?m = rm_llm_counts m" "rm_llm_total ?m = rm_llm_total m"
    "rm_quota ?m = rm_quota m" "rm_llm_max ?m = rm_llm_max m" "rm_active_llm ?m = rm_active_llm m"
    using Some by (simp_all add: reclaimer_reclaim_def)
  have "dict_sum (lease_held c) (rm_leases ?m) = dict_sum (lease_held c) (rm_leases m)"
    "dict_sum (agent_slots b) (rm_leases ?m) = dict_sum (agent_slots b) (rm_leases m)"
    "dict_sum lease_slots (rm_leases ?m) = dict_sum lease_slots (rm_leases m)" for c b
    by (intro sum, simp_all add: zero)+
  moreover have "distinct (dict_keys (rm_leases ?m))" using mon_invD(2)[OF inv] by (simp add: leases)
  moreover have "llm_wf ?m" using mon_invD(1)[OF inv] by (simp add: llm_wf_def frame)
  ultimately show ?thesis
    unfolding mon_inv_def frame using mon_invD[OF inv] nn by metis
qed

lemma release_lookup:
  assumes "mon_inv m" "map_of (rm_leases m) lid = Some l"
  shows "map_of (rm_leases (release now (RelLease lid) m)) lid =
    Some (if ls_status l = ''active'' then lease_release now l else l)"
proof (cases "ls_status l = ''active''")
  case True
  then show ?thesis using release_eq[OF assms(1) _ assms(2) True, of "RelLease lid" now] by (simp add: release_target_def)
next
  case False
  then show ?thesis using assms(2) by (simp add: release_def release_target_def)
qed

lemma inv_reclaim:
  assumes "mon_inv m" shows "mon_inv (reclaim now t reason m)"
proof (cases "map_of (rm_leases m) (dict_get (rm_task_leases m) t [])")
  case (Some l)
  have "mon_inv (release now (RelLease (dict_get (rm_task_leases m) t [])) m)" by (rule inv_release[OF assms])
  then have "mon_inv (reclaimer_reclaim now (dict_get (rm_task_leases m) t []) reason
      (release now (RelLease (dict_get (rm_task_leases m) t [])) m))"
    by (rule inv_reclaimer) (auto simp: release_lookup[OF assms Some] lease_release_def split: if_splits)
  with Some show ?thesis by (simp add: reclaim_def Let_def)
qed (use assms in \<open>simp add: reclaim_def Let_def\<close>)

section \<open>The contract of a lease pool\<close>

text \<open>
  What the daemon relies on: a refused request changes nothing, a granted one adds exactly its
  amounts within the caps, and giving a lease back returns exactly those amounts.
\<close>

locale lease_pool =
  fixes inv :: "'s \<Rightarrow> bool"
    and held :: "'s \<Rightarrow> 'c \<Rightarrow> rat"
    and cap :: "'s \<Rightarrow> 'c \<Rightarrow> rat"
    and need :: "'r \<Rightarrow> 'c \<Rightarrow> rat"
    and usable :: "'k \<Rightarrow> 'r \<Rightarrow> 's \<Rightarrow> bool"
    and take_lease :: "'k \<Rightarrow> 'r \<Rightarrow> 's \<Rightarrow> 's \<times> 'k option"
    and give_back :: "'k \<Rightarrow> 's \<Rightarrow> 's"
  assumes take_refused: "inv s \<Longrightarrow> usable k r s \<Longrightarrow> take_lease k r s = (s', None) \<Longrightarrow> s' = s"
    and take_granted: "inv s \<Longrightarrow> usable k r s \<Longrightarrow> take_lease k r s = (s', Some k') \<Longrightarrow>
      k' = k \<and> inv s' \<and> (\<forall>c. held s' c = held s c + need r c) \<and> (\<forall>c. held (give_back k s') c = held s' c - need r c)"
    and within_cap: "inv s \<Longrightarrow> 0 < cap s c \<Longrightarrow> held s c \<le> cap s c"
    and give_inv: "inv s \<Longrightarrow> inv (give_back k s)"
begin

lemma take_give:
  assumes "inv s" "usable k r s"
  shows "held (give_back k (fst (take_lease k r s))) c = held s c \<or> snd (take_lease k r s) = None \<and> fst (take_lease k r s) = s"
proof (cases "take_lease k r s")
  case (Pair s' res)
  show ?thesis
  proof (cases res)
    case None
    with Pair take_refused[OF assms, of s'] show ?thesis by simp
  next
    case (Some k')
    with Pair take_granted[OF assms, of s' k'] show ?thesis by simp
  qed
qed

lemma take_within_cap:
  assumes "inv s" "usable k r s" "0 < cap (fst (take_lease k r s)) c"
  shows "held (fst (take_lease k r s)) c \<le> cap (fst (take_lease k r s)) c"
proof (cases "take_lease k r s")
  case (Pair s' res)
  show ?thesis
  proof (cases res)
    case None
    with Pair take_refused[OF assms(1,2), of s'] assms within_cap show ?thesis by simp
  next
    case (Some k')
    with Pair take_granted[OF assms(1,2), of s' k'] have "inv s'" by simp
    from within_cap[OF this, of c] assms(3) Pair show ?thesis by simp
  qed
qed

end

definition lease_usable :: "string \<Rightarrow> amounts \<Rightarrow> ResourceMonitor \<Rightarrow> bool" where
  "lease_usable lid req m \<longleftrightarrow> nonneg req \<and> map_of (rm_leases m) lid = None"

interpretation monitor_pool: lease_pool mon_inv "\<lambda>m. amount_of (rm_usage m)" "\<lambda>m. amount_of (rm_quota m)" amount_of
  lease_usable "\<lambda>lid req. acquire ld now lid t a req" "\<lambda>lid. release now (RelLease lid)"
  for ld now t a
proof
  fix s lid r s'
  assume inv: "mon_inv s" and u: "lease_usable lid r s"
  then have nn: "nonneg r" and fr: "map_of (rm_leases s) lid = None" by (auto simp: lease_usable_def)
  show "s' = s" if "acquire ld now lid t a r s = (s', None)"
    using acquire_cases[OF inv nn, of ld now lid t a] that by auto
  show "k' = lid \<and> mon_inv s' \<and> (\<forall>c. amount_of (rm_usage s') c = amount_of (rm_usage s) c + amount_of r c) \<and>
      (\<forall>c. amount_of (rm_usage (release now (RelLease lid) s')) c = amount_of (rm_usage s') c - amount_of r c)"
    if "acquire ld now lid t a r s = (s', Some k')" for k'
  proof -
    have g: "granted lid (new_lease t a r now) s s'" and k: "k' = lid"
      using acquire_cases[OF inv nn, of ld now lid t a] that by auto
    have inv': "mon_inv s'" by (rule inv_granted[OF inv nn fr g])
    have l: "map_of (rm_leases s') lid = Some (new_lease t a r now)" using g by (simp add: granted_def)
    have tgt: "release_target (RelLease lid) s' = Some lid" by (simp add: release_target_def)
    show ?thesis using release_eq[OF inv' tgt l, of now] g k inv' by (simp add: granted_def)
  qed
qed (rule mon_invD(8) inv_release, assumption+)+

section \<open>Sequences of calls\<close>

datatype mon_op =
    MAcquire sysload usec string string string amounts
  | MRelease usec release_arg
  | MReclaim usec string string

fun mon_apply :: "mon_op \<Rightarrow> ResourceMonitor \<Rightarrow> ResourceMonitor" where
  "mon_apply (MAcquire ld now lid t a req) m = fst (acquire ld now lid t a req m)"
| "mon_apply (MRelease now arg) m = release now arg m"
| "mon_apply (MReclaim now t reason) m = reclaim now t reason m"

fun mon_pre :: "mon_op \<Rightarrow> ResourceMonitor \<Rightarrow> bool" where
  "mon_pre (MAcquire ld now lid t a req) m \<longleftrightarrow> lease_usable lid req m"
| "mon_pre _ m \<longleftrightarrow> True"

inductive mon_reach :: "ResourceMonitor \<Rightarrow> bool" where
  init: "0 \<le> mc_llm_max c \<Longrightarrow> mon_reach (monitor_init c)"
| step: "mon_reach m \<Longrightarrow> mon_pre op m \<Longrightarrow> mon_reach (mon_apply op m)"

lemma mon_inv_init: "0 \<le> mc_llm_max c \<Longrightarrow> mon_inv (monitor_init c)"
  by (simp add: mon_inv_def monitor_init_def llm_wf_def dict_sum_def dict_get_def)

lemma mon_inv_apply:
  assumes "mon_inv m" "mon_pre op m"
  shows "mon_inv (mon_apply op m)"
proof (cases op)
  case (MAcquire ld now lid t a req)
  then have "nonneg req" "map_of (rm_leases m) lid = None" using assms(2) by (auto simp: lease_usable_def)
  then show ?thesis
    using acquire_cases[OF assms(1), of req ld now lid t a] inv_granted[OF assms(1)] MAcquire assms(1) by fastforce
qed (use assms inv_release inv_reclaim in auto)

lemma mon_reach_inv: "mon_reach m \<Longrightarrow> mon_inv m"
  by (induction rule: mon_reach.induct) (auto intro: mon_inv_init mon_inv_apply)

definition demo_config :: monitor_config where
  "demo_config = \<lparr>mc_cpu_threshold = 80, mc_mem_threshold = 80, mc_llm_max = 5, mc_memory_quota = 0,
     mc_token_quota = 1000, mc_tool_quota = 0, mc_kv_cache_quota = 0, mc_network_quota = 0\<rparr>"

definition demo_load :: sysload where
  "demo_load = \<lparr>ld_cpu = 10, ld_mem = 10\<rparr>"

definition demo_request :: amounts where
  "demo_request = [(RC_TOKEN, 600), (RC_LLM_CONCURRENCY, 2)]"

definition demo_monitor :: ResourceMonitor where
  "demo_monitor = fst (acquire demo_load 1 ''l1'' ''t1'' ''coder'' demo_request (monitor_init demo_config))"

lemma nonneg_demo: "nonneg demo_request"
  by (simp add: nonneg_def demo_request_def)

lemma mon_reach_demo: "mon_reach demo_monitor"
proof -
  have "mon_reach (monitor_init demo_config)" by (rule mon_reach.init) (simp add: demo_config_def)
  moreover have "mon_pre (MAcquire demo_load 1 ''l1'' ''t1'' ''coder'' demo_request) (monitor_init demo_config)"
    by (simp add: lease_usable_def nonneg_demo monitor_init_def)
  ultimately have "mon_reach (mon_apply (MAcquire demo_load 1 ''l1'' ''t1'' ''coder'' demo_request) (monitor_init demo_config))"
    by (rule mon_reach.step)
  then show ?thesis by (simp add: demo_monitor_def)
qed

section \<open>Properties\<close>





text \<open>
  A refused acquisition leaves the monitor exactly as it was, roll-back of model slots included;
  a granted one followed by the release of its lease restores the usage of every class.
\<close>

theorem resource_acquire_release:
  assumes "mon_reach m" and "nonneg req" and "map_of (rm_leases m) lid = None"
  shows "case acquire ld now lid t a req m of
      (m', None) \<Rightarrow> m' = m
    | (m', Some k) \<Rightarrow> k = lid \<and> amount_of (rm_usage (release now (RelLease lid) m')) c = amount_of (rm_usage m) c"
proof -
  have inv: "mon_inv m" and u: "lease_usable lid req m"
    using mon_reach_inv[OF assms(1)] assms(2,3) by (auto simp: lease_usable_def)
  show ?thesis
    using monitor_pool.take_refused[OF inv u, of ld now t a] monitor_pool.take_granted[OF inv u, of ld now t a]
    by (auto split: prod.splits option.splits)
qed

theorem resource_acquire_release_witness:
  "case acquire demo_load 2 ''l2'' ''t2'' ''tester'' demo_request demo_monitor of
      (m', None) \<Rightarrow> m' = demo_monitor
    | (m', Some k) \<Rightarrow> k = ''l2'' \<and>
        amount_of (rm_usage (release 2 (RelLease ''l2'') m')) RC_TOKEN = amount_of (rm_usage demo_monitor) RC_TOKEN"
proof -
  have "map_of (rm_leases demo_monitor) ''l2'' = None" by code_simp
  then show ?thesis by (rule resource_acquire_release[OF mon_reach_demo nonneg_demo])
qed

text \<open>
  Releasing is idempotent: a second release of the same lease changes nothing, and neither does
  the release of an unknown lease.
\<close>

theorem resource_release_idempotent:
  assumes "mon_reach m"
  shows "release now' (RelLease lid) (release now (RelLease lid) m) = release now (RelLease lid) m"
proof (cases "map_of (rm_leases m) lid")
  case None
  then show ?thesis by (simp add: release_def release_target_def)
next
  case (Some l)
  note inv = mon_reach_inv[OF assms]
  show ?thesis
    by (rule release_idle) (auto simp: release_target_def release_lookup[OF inv Some] lease_release_def split: if_splits)
qed

theorem resource_release_idempotent_witness:
  "release 9 (RelLease ''l1'') (release 8 (RelLease ''l1'') demo_monitor) = release 8 (RelLease ''l1'') demo_monitor"
  by (rule resource_release_idempotent[OF mon_reach_demo])

text \<open>
  The accounting does rely on non-negative requests, which nothing checks: with a token quota of
  1000, a task that asks for minus 5000 tokens lets another one acquire 3000.
\<close>

theorem resource_negative_request_defeats_quota:
  "let m1 = fst (acquire demo_load 1 ''l1'' ''t1'' ''a'' (request_from_dict [(''token'', JInt (- 5000))]) (monitor_init demo_config));
       r = acquire demo_load 2 ''l2'' ''t2'' ''b'' (request_from_dict [(''token'', JInt 3000)]) m1
   in snd r = Some ''l2'' \<and> amount_of (rm_quota (fst r)) RC_TOKEN = 1000"
  by code_simp

end
