(* ===== verification/Fifo_Scheduler.thy ===== *)
theory Fifo_Scheduler
  imports Kernel_Invariants Resource_Monitor
begin

text \<open>
  \<open>aruntime/scheduler/base.py\<close>, \<open>fifo.py\<close> and \<open>resource_aware.py\<close>: the queue interface of the
  schedulers as a locale, the first-in first-out scheduler as its instance, and the wrapper that
  lets a queue hand out only tasks for which the monitor has resources.
\<close>

section \<open>The interface\<close>

text \<open>
  A scheduler that serves tasks in submission order: \<open>abs\<close> is its queue, \<open>ready_for\<close> what it asks of
  a task to be submitted.
\<close>

locale fifo_service =
  fixes abs :: "'s \<Rightarrow> string list"
    and inv :: "'s \<Rightarrow> bool"
    and ready_for :: "TaskSpec \<Rightarrow> 's \<Rightarrow> bool"
    and enq :: "TaskSpec \<Rightarrow> ('s, unit) eff"
    and deq :: "('s, string option) eff"
  assumes enq_ok: "inv s \<Longrightarrow> ready_for t s \<Longrightarrow>
      \<exists>s'. enq t s = (s', Inr ()) \<and> inv s' \<and> abs s' = abs s @ [ts_task_id t]"
    and deq_empty: "inv s \<Longrightarrow> abs s = [] \<Longrightarrow> deq s = (s, Inr None)"
    and deq_head: "inv s \<Longrightarrow> abs s = i # q \<Longrightarrow> \<exists>s'. deq s = (s', Inr (Some i)) \<and> inv s' \<and> abs s' = q"
begin

fun deq_many :: "nat \<Rightarrow> 's \<Rightarrow> string list" where
  "deq_many 0 s = []"
| "deq_many (Suc n) s = (case deq s of (s', Inr (Some i)) \<Rightarrow> i # deq_many n s' | _ \<Rightarrow> [])"

lemma deq_many_take: "inv s \<Longrightarrow> deq_many n s = take n (abs s)"
proof (induction n arbitrary: s)
  case (Suc n)
  show ?case
  proof (cases "abs s")
    case Nil
    with Suc.prems show ?thesis by (simp add: deq_empty)
  next
    case (Cons i q)
    from deq_head[OF Suc.prems Cons] obtain s' where "deq s = (s', Inr (Some i))" "inv s'" "abs s' = q" by blast
    with Cons Suc.IH show ?thesis by simp
  qed
qed simp

end

section \<open>First in, first out\<close>

record fifo =
  ff_task :: "string \<Rightarrow> TaskSpec"
  ff_queue :: "string list"

definition fifo_enqueue :: "usec \<Rightarrow> TaskSpec \<Rightarrow> (fifo, unit) eff" where
  "fifo_enqueue now t s =
     (case transition_to now TS_READY ''fifo_enqueue'' t of
        (t', Inl e) \<Rightarrow> (s\<lparr>ff_task := (ff_task s)(ts_task_id t := t')\<rparr>, Inl e)
      | (t', Inr u) \<Rightarrow> (s\<lparr>ff_task := (ff_task s)(ts_task_id t := t'), ff_queue := ff_queue s @ [ts_task_id t]\<rparr>, Inr ()))"

definition fifo_dequeue :: "usec \<Rightarrow> (fifo, string option) eff" where
  "fifo_dequeue now s =
     (case ff_queue s of
        [] \<Rightarrow> (s, Inr None)
      | i # rest \<Rightarrow>
          (case transition_to now TS_RUNNING ''fifo_order'' (ff_task s i) of
             (t', Inl e) \<Rightarrow> (s\<lparr>ff_queue := rest, ff_task := (ff_task s)(i := t')\<rparr>, Inl e)
           | (t', Inr u) \<Rightarrow> (s\<lparr>ff_queue := rest, ff_task := (ff_task s)(i := t')\<rparr>, Inr (Some i))))"

definition fifo_complete_task :: "string \<Rightarrow> fifo \<Rightarrow> fifo" where
  "fifo_complete_task task_id s = s"

definition fifo_fail_task :: "string \<Rightarrow> fifo \<Rightarrow> fifo" where
  "fifo_fail_task task_id s = s"

definition fifo_pending_count :: "fifo \<Rightarrow> nat" where
  "fifo_pending_count s = length (ff_queue s)"

definition fifo_inv :: "fifo \<Rightarrow> bool" where
  "fifo_inv s \<longleftrightarrow> distinct (ff_queue s) \<and>
     (\<forall>i \<in> set (ff_queue s). coherent (ff_task s i) \<and> ts_status (ff_task s i) = TS_READY)"

definition fifo_ready_for :: "TaskSpec \<Rightarrow> fifo \<Rightarrow> bool" where
  "fifo_ready_for t s \<longleftrightarrow> coherent t \<and> tcb_may (ts_status t) TS_READY \<and> ts_task_id t \<notin> set (ff_queue s)"

interpretation fifo_q: fifo_service ff_queue fifo_inv fifo_ready_for "fifo_enqueue now" "fifo_dequeue now"
  for now
proof
  fix s t assume inv: "fifo_inv s" and r: "fifo_ready_for t s"
  then have co: "coherent t" and may: "tcb_may (ts_status t) TS_READY" by (auto simp: fifo_ready_for_def)
  then obtain t' where "transition_to now TS_READY ''fifo_enqueue'' t = (t', Inr ())" "coherent t'" "ts_status t' = TS_READY"
    using transition_to_ok[OF co may, of now "''fifo_enqueue''"] by blast
  with inv r show "\<exists>s'. fifo_enqueue now t s = (s', Inr ()) \<and> fifo_inv s' \<and> ff_queue s' = ff_queue s @ [ts_task_id t]"
    by (auto simp: fifo_enqueue_def fifo_inv_def fifo_ready_for_def)
next
  fix s :: fifo assume "ff_queue s = []"
  then show "fifo_dequeue now s = (s, Inr None)" by (simp add: fifo_dequeue_def)
next
  fix s :: fifo and i q assume inv: "fifo_inv s" and q: "ff_queue s = i # q"
  have co: "coherent (ff_task s i)" and st: "ts_status (ff_task s i) = TS_READY" using inv q by (auto simp: fifo_inv_def)
  have "tcb_may (ts_status (ff_task s i)) TS_RUNNING" by (simp add: st tcb_may_def)
  then obtain t' where "transition_to now TS_RUNNING ''fifo_order'' (ff_task s i) = (t', Inr ())"
    using transition_to_ok[OF co] by blast
  with inv q show "\<exists>s'. fifo_dequeue now s = (s', Inr (Some i)) \<and> fifo_inv s' \<and> ff_queue s' = q"
    by (auto simp: fifo_dequeue_def fifo_inv_def)
qed

section \<open>The resource-aware wrapper\<close>

text \<open>
  \<open>inner_ready\<close> is the readiness check of an inner scheduler that has \<open>nodes\<close>; for one without it
  is constantly true. The queue and the tasks belong to the inner scheduler.
\<close>

fun first_index :: "('a \<Rightarrow> bool) \<Rightarrow> 'a list \<Rightarrow> nat option" where
  "first_index P [] = None"
| "first_index P (x # xs) = (if P x then Some 0 else map_option Suc (first_index P xs))"

definition resource_aware_pick ::
    "sysload \<Rightarrow> ResourceMonitor \<Rightarrow> AgentSpec dict \<Rightarrow> (string \<Rightarrow> bool) \<Rightarrow> (string \<Rightarrow> TaskSpec) \<Rightarrow> string \<Rightarrow> bool" where
  "resource_aware_pick ld m agents inner_ready task i \<longleftrightarrow>
     (case ts_agent_name (task i) of
        None \<Rightarrow> False
      | Some a \<Rightarrow> map_of agents a \<noteq> None) \<and> inner_ready i \<and> has_enough ld m"

definition resource_aware_dequeue ::
    "sysload \<Rightarrow> ResourceMonitor \<Rightarrow> AgentSpec dict \<Rightarrow> (string \<Rightarrow> bool) \<Rightarrow> usec \<Rightarrow> (fifo, string option) eff" where
  "resource_aware_dequeue ld m agents inner_ready now s =
     (case first_index (resource_aware_pick ld m agents inner_ready (ff_task s)) (ff_queue s) of
        None \<Rightarrow> (s, Inr None)
      | Some n \<Rightarrow>
          (let i = ff_queue s ! n; rest = take n (ff_queue s) @ drop (Suc n) (ff_queue s)
           in case transition_to now TS_RUNNING ''resource_available'' (ff_task s i) of
                (t', Inl e) \<Rightarrow> (s\<lparr>ff_queue := rest, ff_task := (ff_task s)(i := t')\<rparr>, Inl e)
              | (t', Inr u) \<Rightarrow> (s\<lparr>ff_queue := rest, ff_task := (ff_task s)(i := t')\<rparr>, Inr (Some i))))"

lemma first_index_Some:
  "first_index P xs = Some n \<Longrightarrow> n < length xs \<and> P (xs ! n) \<and> (\<forall>m < n. \<not> P (xs ! m))"
  by (induction xs arbitrary: n) (auto split: if_splits simp: less_Suc_eq_0_disj)

lemma first_index_None: "first_index P xs = None \<longleftrightarrow> (\<forall>x \<in> set xs. \<not> P x)"
  by (induction xs) auto

section \<open>Properties\<close>

text \<open>
  The first-in first-out scheduler serves tasks in the order of their submission: from any
  consistent state, submitting a list of fresh tasks succeeds, and the following calls of
  \<open>dequeue\<close> return the tasks that were waiting and then the new ones, in order.
\<close>

theorem fifo_serves_in_order:
  assumes "fifo_inv s" and "distinct (map ts_task_id ts)"
    and "\<forall>t \<in> set ts. fifo_ready_for t s"
  shows "\<exists>s'. eff_for ts (fifo_enqueue now) s = (s', Inr ()) \<and>
     fifo_q.deq_many now n s' = take n (ff_queue s @ map ts_task_id ts)"
proof -
  have "\<exists>s'. eff_for ts (fifo_enqueue now) s = (s', Inr ()) \<and> fifo_inv s' \<and> ff_queue s' = ff_queue s @ map ts_task_id ts"
    using assms
  proof (induction ts arbitrary: s)
    case (Cons t ts)
    obtain s1 where s1: "fifo_enqueue now t s = (s1, Inr ())" "fifo_inv s1" "ff_queue s1 = ff_queue s @ [ts_task_id t]"
      using fifo_q.enq_ok[of s t now] Cons.prems by auto
    have "\<forall>u \<in> set ts. fifo_ready_for u s1"
      using Cons.prems s1(3) by (auto simp: fifo_ready_for_def) (metis imageI)
    then obtain s' where "eff_for ts (fifo_enqueue now) s1 = (s', Inr ())" "fifo_inv s'"
        "ff_queue s' = ff_queue s1 @ map ts_task_id ts"
      using Cons.IH[OF s1(2)] Cons.prems(2) by auto
    with s1 show ?case by (simp add: eff_simps)
  qed (simp add: eff_simps)
  then show ?thesis using fifo_q.deq_many_take by metis
qed

theorem fifo_serves_in_order_witness:
  "\<exists>s'. eff_for [new_task ''a'' None [] [] ''tr'' 0, new_task ''b'' None [] [] ''tr'' 0] (fifo_enqueue 1)
        \<lparr>ff_task = (\<lambda>i. new_task i None [] [] ''tr'' 0), ff_queue = []\<rparr> = (s', Inr ()) \<and>
     fifo_q.deq_many 1 2 s' = [''a'', ''b'']"
proof -
  have "coherent (new_task i None [] [] ''tr'' 0)" for i by (simp add: synced_coherent synced_new_task)
  then show ?thesis
    using fifo_serves_in_order[of "\<lparr>ff_task = (\<lambda>i. new_task i None [] [] ''tr'' 0), ff_queue = []\<rparr>"
        "[new_task ''a'' None [] [] ''tr'' 0, new_task ''b'' None [] [] ''tr'' 0]" 1 2]
    by (simp add: fifo_inv_def fifo_ready_for_def tcb_may_def)
qed

text \<open>
  The resource-aware wrapper returns the first task of the inner queue whose agent is
  registered and that is ready, provided the monitor has resources; otherwise it returns nothing
  and leaves the queue alone. The other tasks keep their order.
\<close>

theorem resource_aware_dequeue_first:
  assumes "fifo_inv s"
  shows "case resource_aware_dequeue ld m agents ready now s of
      (s', Inr None) \<Rightarrow> s' = s \<and> (\<forall>i \<in> set (ff_queue s). \<not> resource_aware_pick ld m agents ready (ff_task s) i)
    | (s', Inr (Some i)) \<Rightarrow> has_enough ld m \<and> ready i \<and> ts_status (ff_task s' i) = TS_RUNNING \<and>
        (\<exists>xs ys. ff_queue s = xs @ i # ys \<and> ff_queue s' = xs @ ys \<and>
           (\<forall>j \<in> set xs. \<not> resource_aware_pick ld m agents ready (ff_task s) j))
    | (s', Inl e) \<Rightarrow> False"
proof (cases "first_index (resource_aware_pick ld m agents ready (ff_task s)) (ff_queue s)")
  case None
  then have "resource_aware_dequeue ld m agents ready now s = (s, Inr None)"
    by (simp add: resource_aware_dequeue_def)
  with None show ?thesis by (simp add: first_index_None)
next
  case (Some n)
  note fi = first_index_Some[OF Some]
  let ?i = "ff_queue s ! n"
  have co: "coherent (ff_task s ?i)" and st: "ts_status (ff_task s ?i) = TS_READY"
    using assms fi by (auto simp: fifo_inv_def)
  have "tcb_may (ts_status (ff_task s ?i)) TS_RUNNING" by (simp add: st tcb_may_def)
  then obtain t' where t': "transition_to now TS_RUNNING ''resource_available'' (ff_task s ?i) = (t', Inr ())"
      "ts_status t' = TS_RUNNING"
    using transition_to_ok[OF co] by blast
  have split: "ff_queue s = take n (ff_queue s) @ ?i # drop (Suc n) (ff_queue s)"
    using fi by (simp add: id_take_nth_drop)
  have "\<forall>j \<in> set (take n (ff_queue s)). \<not> resource_aware_pick ld m agents ready (ff_task s) j"
    using fi by (auto simp: in_set_conv_nth)
  then have "\<exists>xs ys. ff_queue s = xs @ ?i # ys \<and> take n (ff_queue s) @ drop (Suc n) (ff_queue s) = xs @ ys \<and>
      (\<forall>j \<in> set xs. \<not> resource_aware_pick ld m agents ready (ff_task s) j)"
    using split by blast
  moreover have "has_enough ld m" "ready ?i" using fi by (auto simp: resource_aware_pick_def)
  ultimately show ?thesis using Some t' by (simp add: resource_aware_dequeue_def Let_def)
qed

definition demo_fifo :: fifo where
  "demo_fifo = fst (fifo_enqueue 1 (new_task ''a'' (Some ''x'') [] [] ''tr'' 0)
     \<lparr>ff_task = (\<lambda>i. new_task i None [] [] ''tr'' 0), ff_queue = []\<rparr>)"

definition demo_monitor_config :: monitor_config where
  "demo_monitor_config = \<lparr>mc_cpu_threshold = 80, mc_mem_threshold = 80, mc_llm_max = 5, mc_memory_quota = 0,
     mc_token_quota = 0, mc_tool_quota = 0, mc_kv_cache_quota = 0, mc_network_quota = 0\<rparr>"

theorem resource_aware_dequeue_first_witness:
  "ts_status (ff_task (fst (resource_aware_dequeue \<lparr>ld_cpu = 1, ld_mem = 1\<rparr> (monitor_init demo_monitor_config)
      [(''x'', new_agent ''x'' ''dev'' 0)] (\<lambda>_. True) 3 demo_fifo)) ''a'') = TS_RUNNING"
proof -
  let ?r = "resource_aware_dequeue \<lparr>ld_cpu = 1, ld_mem = 1\<rparr> (monitor_init demo_monitor_config)
      [(''x'', new_agent ''x'' ''dev'' 0)] (\<lambda>_. True) 3 demo_fifo"
  have "coherent (new_task ''a'' (Some ''x'') [] [] ''tr'' 0)" by (simp add: synced_coherent synced_new_task)
  then have "fifo_inv demo_fifo"
    using fifo_q.enq_ok[of "\<lparr>ff_task = (\<lambda>i. new_task i None [] [] ''tr'' 0), ff_queue = []\<rparr>"
        "new_task ''a'' (Some ''x'') [] [] ''tr'' 0" 1]
    by (auto simp: demo_fifo_def fifo_inv_def fifo_ready_for_def tcb_may_def)
  moreover have "snd ?r = Inr (Some ''a'')" by code_simp
  then obtain s' where "?r = (s', Inr (Some ''a''))" by (metis prod.collapse)
  ultimately show ?thesis
    using resource_aware_dequeue_first[of demo_fifo "\<lparr>ld_cpu = 1, ld_mem = 1\<rparr>" "monitor_init demo_monitor_config"
        "[(''x'', new_agent ''x'' ''dev'' 0)]" "\<lambda>_. True" 3] by simp
qed

end
