(* ===== verification/Dag_Scheduler.thy ===== *)
theory Dag_Scheduler
  imports Kernel_Invariants
begin

text \<open>
  \<open>aruntime/scheduler/dag.py\<close>: the scheduler with an explicit dependency graph, its recursive
  failure propagation and its topological sort. Task objects are addressed by identifier as in the
  kernel scheduler.
\<close>

section \<open>State and submission\<close>

record dag =
  dg_task :: "string \<Rightarrow> TaskSpec"
  dg_queue :: "string list"
  dg_nodes :: "task_node dict"
  dg_completed :: "string set"
  dg_failed :: "string set"
  dg_waiting :: "string list"

definition dag_init :: "(string \<Rightarrow> TaskSpec) \<Rightarrow> dag" where
  "dag_init store =
     \<lparr>dg_task = store, dg_queue = [], dg_nodes = [], dg_completed = {}, dg_failed = {}, dg_waiting = []\<rparr>"

definition on_dag_task :: "string \<Rightarrow> (TaskSpec, 'a) eff \<Rightarrow> (dag, 'a) eff" where
  "on_dag_task i m = (\<lambda>s. case m (dg_task s i) of (t, r) \<Rightarrow> (s\<lparr>dg_task := (dg_task s)(i := t)\<rparr>, r))"

definition dag_node_ready :: "dag \<Rightarrow> string \<Rightarrow> bool" where
  "dag_node_ready s i \<longleftrightarrow> (case map_of (dg_nodes s) i of None \<Rightarrow> False | Some n \<Rightarrow> node_is_ready n)"

definition dag_link :: "string \<Rightarrow> string list \<Rightarrow> dag \<Rightarrow> dag" where
  "dag_link i deps s =
     fold (\<lambda>d s. let s1 = s\<lparr>dg_nodes := add_dependent d i (dg_nodes s)\<rparr>
                 in if d \<in> dg_completed s1 then s1\<lparr>dg_nodes := discard_dependency i d (dg_nodes s1)\<rparr> else s1)
       deps s"

definition dag_enqueue :: "usec \<Rightarrow> TaskSpec \<Rightarrow> (dag, unit) eff" where
  "dag_enqueue now t =
     (let i = ts_task_id t
      in eff_then (eff_modify (\<lambda>s. dag_link i (ts_dependencies t)
           (s\<lparr>dg_task := (dg_task s)(i := t),
              dg_nodes := dict_set i \<lparr>tn_dependencies = set (ts_dependencies t), tn_dependents = {}\<rparr> (dg_nodes s)\<rparr>)))
         (eff_then (eff_get (\<lambda>s. if dag_node_ready s i
             then on_dag_task i (transition_to now TS_READY ''dependencies_satisfied'')
             else eff_then (on_dag_task i (transition_to now TS_PENDING ''waiting_dependencies''))
                    (eff_modify (\<lambda>s. s\<lparr>dg_waiting := dg_waiting s @ [i]\<rparr>))))
           (eff_modify (\<lambda>s. s\<lparr>dg_queue := dg_queue s @ [i]\<rparr>))))"

definition add_dynamic_task :: "usec \<Rightarrow> TaskSpec \<Rightarrow> string option \<Rightarrow> (dag, unit) eff" where
  "add_dynamic_task now t parent =
     eff_get (\<lambda>s. dag_enqueue now
       (case parent of
          Some p \<Rightarrow> if p \<noteq> [] \<and> map_of (dg_nodes s) p \<noteq> None then t\<lparr>ts_dependencies := ts_dependencies t @ [p]\<rparr> else t
        | None \<Rightarrow> t))"

definition dag_dequeue :: "usec \<Rightarrow> (dag, string option) eff" where
  "dag_dequeue now =
     eff_get (\<lambda>s. case List.find (dag_node_ready s) (dg_queue s) of
         None \<Rightarrow> eff_return None
       | Some i \<Rightarrow>
           eff_then (eff_modify (\<lambda>s. s\<lparr>dg_queue := remove1 i (dg_queue s), dg_waiting := remove1 i (dg_waiting s)\<rparr>))
             (eff_then (on_dag_task i (transition_to now TS_RUNNING ''dag_ready'')) (eff_return (Some i))))"

section \<open>Completion and failure\<close>

definition dag_complete_dependent :: "usec \<Rightarrow> string \<Rightarrow> string \<Rightarrow> (dag, unit) eff" where
  "dag_complete_dependent now i d =
     eff_get (\<lambda>s. case map_of (dg_nodes s) d of
         None \<Rightarrow> eff_return ()
       | Some n \<Rightarrow> eff_when (i \<in> tn_dependencies n)
           (eff_then (eff_modify (\<lambda>s. s\<lparr>dg_nodes := discard_dependency d i (dg_nodes s)\<rparr>))
             (eff_when (tn_dependencies n - {i} = {})
               (eff_then (on_dag_task d (transition_to now TS_READY ''dependencies_satisfied''))
                 (eff_modify (\<lambda>s. s\<lparr>dg_waiting := remove1 d (dg_waiting s)\<rparr>))))))"

definition dag_complete_task :: "(string set \<Rightarrow> string list) \<Rightarrow> usec \<Rightarrow> string \<Rightarrow> (dag, unit) eff" where
  "dag_complete_task it now i =
     eff_get (\<lambda>s. case map_of (dg_nodes s) i of
         None \<Rightarrow> eff_return ()
       | Some n \<Rightarrow>
           eff_then (eff_modify (\<lambda>s. s\<lparr>dg_completed := insert i (dg_completed s)\<rparr>))
             (eff_for (it (tn_dependents n)) (dag_complete_dependent now i)))"

text \<open>
  The recursion of \<open>fail_task\<close> with its stack of pending loops made explicit: an entry holds the
  failed task and the dependents its loop has still to visit.
\<close>

definition dag_release :: "usec \<Rightarrow> string \<Rightarrow> string \<Rightarrow> FailureMode \<Rightarrow> (dag, unit) eff" where
  "dag_release now i d m =
     eff_then (eff_modify (\<lambda>s. s\<lparr>dg_nodes := discard_dependency d i (dg_nodes s)\<rparr>))
       (eff_get (\<lambda>s. eff_when (dag_node_ready s d)
          (on_dag_task d (transition_to now TS_READY (''dependency_'' @ failure_mode_value m)))))"

definition dag_edge_mode :: "string \<Rightarrow> TaskSpec \<Rightarrow> TaskSpec \<Rightarrow> FailureMode option" where
  "dag_edge_mode i failed dep_task =
     (case map_of (ts_dependency_failure_policies dep_task) i of
        Some m \<Rightarrow> Some m
      | None \<Rightarrow> if ts_failure_policy_set failed then Some (fp_mode (ts_failure_policy failed)) else None)"

lemma dag_release_frame:
  "fst ` set (dg_nodes (fst (dag_release now i d m s))) = fst ` set (dg_nodes s)"
  "dg_failed (fst (dag_release now i d m s)) = dg_failed s"
  by (auto simp: dag_release_def eff_simps on_dag_task_def discard_dependency_def node_update_def dom_update
      dest: map_of_SomeD split: prod.splits option.splits)
    (force dest: map_of_SomeD)+

lemma dag_release_measure:
  "(s', r) = dag_release now i d m s \<Longrightarrow>
   card (fst ` set (dg_nodes s') - dg_failed s') = card (fst ` set (dg_nodes s) - dg_failed s)"
  using dag_release_frame[of now i d m s] by (metis fst_conv)

lemma on_dag_task_frame:
  "dg_nodes (fst (on_dag_task i m s)) = dg_nodes s" "dg_failed (fst (on_dag_task i m s)) = dg_failed s"
  "dg_queue (fst (on_dag_task i m s)) = dg_queue s" "dg_completed (fst (on_dag_task i m s)) = dg_completed s"
  "dg_waiting (fst (on_dag_task i m s)) = dg_waiting s"
  "dg_task (fst (on_dag_task i m s)) = (dg_task s)(i := fst (m (dg_task s i)))"
  "snd (on_dag_task i m s) = snd (m (dg_task s i))"
  by (simp_all add: on_dag_task_def split: prod.splits)

lemma dag_closed_measure:
  assumes "(s', r) = on_dag_task d m s" "map_of (dg_nodes s) d = Some n" "d \<notin> dg_failed s"
  shows "card (fst ` set (dg_nodes s') - insert d (dg_failed s')) < card (fst ` set (dg_nodes s) - dg_failed s)"
proof -
  have eq: "dg_nodes s' = dg_nodes s" "dg_failed s' = dg_failed s"
    using on_dag_task_frame[of d m s] assms(1) by (metis fst_conv)+
  have "d \<in> fst ` set (dg_nodes s) - dg_failed s" using assms(2,3) by (force dest: map_of_SomeD)
  then have "card (fst ` set (dg_nodes s) - dg_failed s - {d}) < card (fst ` set (dg_nodes s) - dg_failed s)"
    by (intro card_Diff1_less) auto
  then show ?thesis unfolding eq by (metis Diff_insert2 Diff_insert)
qed

function dag_fail_loop ::
    "(string set \<Rightarrow> string list) \<Rightarrow> usec \<Rightarrow> (string \<times> string list) list \<Rightarrow> (dag, unit) eff" where
  "dag_fail_loop it now [] s = (s, Inr ())"
| "dag_fail_loop it now ((i, []) # stack) s = dag_fail_loop it now stack s"
| "dag_fail_loop it now ((i, d # ds) # stack) s =
     (case map_of (dg_nodes s) d of
        None \<Rightarrow> dag_fail_loop it now ((i, ds) # stack) s
      | Some n \<Rightarrow>
          if d \<in> dg_failed s then dag_fail_loop it now ((i, ds) # stack) s
          else (case dag_edge_mode i (dg_task s i) (dg_task s d) of
                  Some FAIL_CLOSED \<Rightarrow>
                    (case on_dag_task d (transition_to now TS_FAILED ''dependency_fail_closed'') s of
                       (s', Inl e) \<Rightarrow> (s', Inl e)
                     | (s', Inr u) \<Rightarrow>
                         dag_fail_loop it now ((d, it (tn_dependents n)) # (i, ds) # stack)
                           (s'\<lparr>dg_failed := insert d (dg_failed s')\<rparr>))
                | Some RETRY \<Rightarrow> dag_fail_loop it now ((i, ds) # stack) s
                | None \<Rightarrow> dag_fail_loop it now ((i, ds) # stack) s
                | Some m \<Rightarrow>
                    (case dag_release now i d m s of
                       (s', Inl e) \<Rightarrow> (s', Inl e)
                     | (s', Inr u) \<Rightarrow> dag_fail_loop it now ((i, ds) # stack) s')))"
  by pat_completeness auto

termination
proof (relation "measures [\<lambda>(it, now, stack, s). card (fst ` set (dg_nodes s) - dg_failed s),
                           \<lambda>(it, now, stack, s). sum_list (map (\<lambda>(i, ds). Suc (length ds)) stack)]", goal_cases)
qed (auto dest: dag_release_measure intro: dag_closed_measure)

definition dag_fail_task :: "(string set \<Rightarrow> string list) \<Rightarrow> usec \<Rightarrow> string \<Rightarrow> (dag, unit) eff" where
  "dag_fail_task it now i =
     eff_get (\<lambda>s. case map_of (dg_nodes s) i of
         None \<Rightarrow> eff_return ()
       | Some n \<Rightarrow> (\<lambda>s. dag_fail_loop it now [(i, it (tn_dependents n))] (s\<lparr>dg_failed := insert i (dg_failed s)\<rparr>)))"

section \<open>Dependencies\<close>

definition dag_has_dependent_path :: "(string set \<Rightarrow> string list) \<Rightarrow> dag \<Rightarrow> string \<Rightarrow> string \<Rightarrow> bool" where
  "dag_has_dependent_path it s start_id target_id = has_dependent_path it (dg_nodes s) start_id target_id"

fun dag_check_dependencies :: "(string set \<Rightarrow> string list) \<Rightarrow> dag \<Rightarrow> string \<Rightarrow> string list \<Rightarrow> py_error + unit" where
  "dag_check_dependencies it s i [] = Inr ()"
| "dag_check_dependencies it s i (d # ds) =
     (if map_of (dg_nodes s) d = None then Inl (KeyError d)
      else if dag_has_dependent_path it s i d then Inl (ValueError ''cyclic dependency is not allowed'')
      else dag_check_dependencies it s i ds)"

definition dag_insert_dependency :: "string \<Rightarrow> string \<Rightarrow> dag \<Rightarrow> dag" where
  "dag_insert_dependency i d s =
     (case map_of (dg_nodes s) i of
        None \<Rightarrow> s
      | Some n \<Rightarrow>
          if d \<in> tn_dependencies n then s
          else (let t = dg_task s i;
                    t' = (if d \<in> set (ts_dependencies t) then t else t\<lparr>ts_dependencies := ts_dependencies t @ [d]\<rparr>);
                    nodes = add_dependent d i (add_dependency i d (dg_nodes s));
                    nodes' = (if d \<in> dg_completed s then discard_dependency i d nodes else nodes)
                in s\<lparr>dg_task := (dg_task s)(i := t'), dg_nodes := nodes'\<rparr>))"

definition dag_add_dependencies ::
    "(string set \<Rightarrow> string list) \<Rightarrow> usec \<Rightarrow> string \<Rightarrow> string list \<Rightarrow> (dag, unit) eff" where
  "dag_add_dependencies it now i dependency_ids =
     eff_get (\<lambda>s.
       if map_of (dg_nodes s) i = None then eff_raise (KeyError i)
       else if ts_status (dg_task s i) \<in> {TS_RUNNING, TS_SUCCESS, TS_FAILED, TS_CANCELLED}
       then eff_raise (ValueError ''task state does not allow dependency updates'')
       else let unique_ids = dedup dependency_ids
         in if i \<in> set unique_ids then eff_raise (ValueError ''self dependency is not allowed'')
            else eff_then (eff_lift (dag_check_dependencies it s i unique_ids))
              (eff_then (eff_modify (fold (dag_insert_dependency i) unique_ids))
                (eff_get (\<lambda>s. eff_when (i \<in> set (dg_queue s) \<and> \<not> dag_node_ready s i)
                  (eff_then (on_dag_task i (transition_to now TS_PENDING ''waiting_dependencies''))
                    (eff_modify (\<lambda>s. if i \<in> set (dg_waiting s) then s else s\<lparr>dg_waiting := dg_waiting s @ [i]\<rparr>)))))))"

section \<open>Topological sort\<close>

type_synonym degrees = "int dict"

text \<open>The inner loop over the dependents of one task; a missing key raises.\<close>

fun topo_visit :: "string list \<Rightarrow> degrees \<Rightarrow> string list \<Rightarrow> py_error + degrees \<times> string list" where
  "topo_visit [] deg queue = Inr (deg, queue)"
| "topo_visit (d # ds) deg queue =
     (case map_of deg d of
        None \<Rightarrow> Inl (KeyError d)
      | Some n \<Rightarrow> topo_visit ds (dict_set d (n - 1) deg) (if n - 1 = 0 then queue @ [d] else queue))"

definition positive :: "degrees \<Rightarrow> nat" where
  "positive deg = length (filter (\<lambda>p. 0 < snd p) deg)"

lemma positive_decrement:
  "map_of deg d = Some n \<Longrightarrow>
   positive (dict_set d (n - 1) deg) + (if n - 1 = 0 then 1 else 0) \<le> positive deg"
  by (induction deg) (auto simp: positive_def split: if_splits)

lemma topo_visit_measure:
  "topo_visit ds deg queue = Inr (deg', queue') \<Longrightarrow> length queue' + positive deg' \<le> length queue + positive deg"
proof (induction ds deg queue rule: topo_visit.induct)
  case (2 d ds deg queue)
  then obtain n where n: "map_of deg d = Some n" by (auto split: option.splits)
  have "length queue' + positive deg' \<le> length (if n - 1 = 0 then queue @ [d] else queue) + positive (dict_set d (n - 1) deg)"
    using "2.IH"[OF n] "2.prems" n by simp
  also have "\<dots> \<le> length queue + positive deg" using positive_decrement[OF n] by (auto split: if_splits)
  finally show ?case .
qed simp

function topo_loop ::
    "(string set \<Rightarrow> string list) \<Rightarrow> task_node dict \<Rightarrow> degrees \<Rightarrow> string list \<Rightarrow> string list \<Rightarrow> py_error + string list" where
  "topo_loop it nodes deg [] result = Inr result"
| "topo_loop it nodes deg (i # queue) result =
     (case map_of nodes i of
        None \<Rightarrow> topo_loop it nodes deg queue (result @ [i])
      | Some n \<Rightarrow>
          (case topo_visit (it (tn_dependents n)) deg queue of
             Inl e \<Rightarrow> Inl e
           | Inr (deg', queue') \<Rightarrow> topo_loop it nodes deg' queue' (result @ [i])))"
  by pat_completeness auto

termination
  by (relation "measure (\<lambda>(it, nodes, deg, queue, result). length queue + positive deg)")
    (auto dest: topo_visit_measure)

definition initial_degrees :: "task_node dict \<Rightarrow> degrees" where
  "initial_degrees nodes = map (\<lambda>(i, n). (i, int (card (tn_dependencies n)))) nodes"

definition topological_sort :: "(string set \<Rightarrow> string list) \<Rightarrow> dag \<Rightarrow> py_error + string list" where
  "topological_sort it s =
     (let deg = initial_degrees (dg_nodes s);
          queue = map fst (filter (\<lambda>(i, k). k = 0) deg)
      in case topo_loop it (dg_nodes s) deg queue [] of
           Inl e \<Rightarrow> Inl e
         | Inr result \<Rightarrow>
             if length result \<noteq> length (dg_nodes s) then Inl (ValueError ''cycle in the DAG'') else Inr result)"

definition dag_pending_count :: "dag \<Rightarrow> nat" where
  "dag_pending_count s = length (dg_queue s)"

definition dag_ready_count :: "dag \<Rightarrow> nat" where
  "dag_ready_count s = length (filter (dag_node_ready s) (dg_queue s))"

end
