(* ===== verification/Dag_Properties.thy ===== *)
theory Dag_Properties
  imports Dag_Scheduler
begin

text \<open>
  Correctness of the DAG scheduler: its instance of the dependency contract, the correctness of the
  topological sort on a graph whose two edge directions agree, what the sort does once tasks have
  completed, and the cascade of \<open>fail_closed\<close> failures.
\<close>

section \<open>The dependency contract\<close>

lemma dag_insert_edges:
  "graph_edges (dg_nodes (fold (dag_insert_dependency i) ds s)) \<subseteq> graph_edges (dg_nodes s) \<union> set ds \<times> {i}"
proof (induction ds arbitrary: s)
  case (Cons d ds)
  have "graph_edges (dg_nodes (dag_insert_dependency i d s)) \<subseteq> graph_edges (dg_nodes s) \<union> {(d, i)}"
    by (auto simp: dag_insert_dependency_def Let_def graph_edges_add_dependent split: option.splits if_splits)
  with Cons[of "dag_insert_dependency i d s"] show ?case by auto
qed simp

lemma dag_insert_finite:
  "finite_nodes (dg_nodes s) \<Longrightarrow> finite_nodes (dg_nodes (fold (dag_insert_dependency i) ds s))"
proof (induction ds arbitrary: s)
  case (Cons d ds)
  have "finite_nodes (dg_nodes (dag_insert_dependency i d s))"
    using Cons.prems by (auto simp: dag_insert_dependency_def Let_def split: option.splits)
  with Cons.IH show ?case by simp
qed simp

lemma dag_check_ok:
  "dag_check_dependencies it s i ds = Inr () \<longleftrightarrow>
     (\<forall>d \<in> set ds. map_of (dg_nodes s) d \<noteq> None \<and> \<not> has_dependent_path it (dg_nodes s) i d)"
  by (induction ds) (auto simp: dag_has_dependent_path_def)

lemma dag_add_dependencies_nodes:
  "dg_nodes (fst (dag_add_dependencies it now i ds s)) = dg_nodes s \<or>
   dag_check_dependencies it s i (dedup ds) = Inr () \<and>
   dg_nodes (fst (dag_add_dependencies it now i ds s)) = dg_nodes (fold (dag_insert_dependency i) (dedup ds) s)"
proof -
  let ?tail = "eff_get (\<lambda>s. eff_when (i \<in> set (dg_queue s) \<and> \<not> dag_node_ready s i)
      (eff_then (on_dag_task i (transition_to now TS_PENDING ''waiting_dependencies''))
        (eff_modify (\<lambda>s. if i \<in> set (dg_waiting s) then s else s\<lparr>dg_waiting := dg_waiting s @ [i]\<rparr>))))"
  have tail: "dg_nodes (fst (?tail x)) = dg_nodes x" for x
    by (auto simp: eff_simps on_dag_task_def split: prod.splits sum.splits)
  have eq: "dag_add_dependencies it now i ds s =
     (if map_of (dg_nodes s) i = None then (s, Inl (KeyError i))
      else if ts_status (dg_task s i) \<in> {TS_RUNNING, TS_SUCCESS, TS_FAILED, TS_CANCELLED}
      then (s, Inl (ValueError ''task state does not allow dependency updates''))
      else if i \<in> set ds then (s, Inl (ValueError ''self dependency is not allowed''))
      else case dag_check_dependencies it s i (dedup ds) of
             Inl e \<Rightarrow> (s, Inl e) | Inr u \<Rightarrow> ?tail (fold (dag_insert_dependency i) (dedup ds) s))"
    unfolding dag_add_dependencies_def
    by (simp add: eff_get_def eff_raise_def eff_then_def eff_bind_def eff_lift_def eff_modify_def Let_def split: sum.splits)
  show ?thesis
    unfolding eq using tail[of "fold (dag_insert_dependency i) (dedup ds) s"] by (auto split: sum.splits)
qed

interpretation dag_deps: dependency_scheduler "\<lambda>s. graph_edges (dg_nodes s)"
  "\<lambda>s. finite_nodes (dg_nodes s) \<and> iterates it" "dag_add_dependencies it now"
  for it now
proof
  fix s :: dag and t ds assume g: "finite_nodes (dg_nodes s) \<and> iterates it"
  let ?s = "fst (dag_add_dependencies it now t ds s)"
  show "graph_edges (dg_nodes ?s) = graph_edges (dg_nodes s) \<or>
      (\<forall>d \<in> set ds. (t, d) \<notin> (graph_edges (dg_nodes s))\<^sup>*) \<and>
      graph_edges (dg_nodes ?s) \<subseteq> graph_edges (dg_nodes s) \<union> set ds \<times> {t}"
    using dag_add_dependencies_nodes[of it now t ds s]
  proof
    assume *: "dag_check_dependencies it s t (dedup ds) = Inr () \<and>
      dg_nodes ?s = dg_nodes (fold (dag_insert_dependency t) (dedup ds) s)"
    then have "\<forall>d \<in> set ds. (t, d) \<notin> (graph_edges (dg_nodes s))\<^sup>*"
      using g by (simp add: dag_check_ok has_dependent_path_iff)
    then show ?thesis using dag_insert_edges[of t "dedup ds" s] * by simp
  qed simp
  show "finite_nodes (dg_nodes ?s) \<and> iterates it"
    using dag_add_dependencies_nodes[of it now t ds s] g dag_insert_finite by metis
qed

section \<open>Topological sort\<close>

text \<open>Both directions of an edge are recorded, and only between nodes.\<close>

definition linked :: "task_node dict \<Rightarrow> bool" where
  "linked nodes \<longleftrightarrow> distinct (dict_keys nodes) \<and> finite_nodes nodes \<and>
     (\<forall>i n. map_of nodes i = Some n \<longrightarrow>
        (\<forall>d \<in> tn_dependencies n. \<exists>m. map_of nodes d = Some m \<and> i \<in> tn_dependents m) \<and>
        (\<forall>j \<in> tn_dependents n. \<exists>m. map_of nodes j = Some m \<and> i \<in> tn_dependencies m))"

definition node_deps :: "task_node dict \<Rightarrow> string \<Rightarrow> string set" where
  "node_deps nodes i = (case map_of nodes i of Some n \<Rightarrow> tn_dependencies n | None \<Rightarrow> {})"

text \<open>Every element comes after all it depends on.\<close>

definition topological :: "task_node dict \<Rightarrow> string list \<Rightarrow> bool" where
  "topological nodes r \<longleftrightarrow> (\<forall>xs i ys. r = xs @ i # ys \<longrightarrow> node_deps nodes i \<subseteq> set xs)"

lemma topological_snoc:
  "topological nodes r \<Longrightarrow> node_deps nodes i \<subseteq> set r \<Longrightarrow> topological nodes (r @ [i])"
  unfolding topological_def
  by (auto simp: append_eq_append_conv2 append_eq_Cons_conv Cons_eq_append_conv)

definition degrees_ok :: "task_node dict \<Rightarrow> degrees \<Rightarrow> string set \<Rightarrow> bool" where
  "degrees_ok nodes deg done_set \<longleftrightarrow>
     (\<forall>i. map_of deg i = (if map_of nodes i = None then None else Some (int (card (node_deps nodes i - done_set)))))"

lemma topo_visit_ok:
  assumes "distinct ds" "\<forall>d \<in> set ds. map_of deg d \<noteq> None"
  shows "\<exists>deg'. topo_visit ds deg q = Inr (deg', q @ filter (\<lambda>d. map_of deg d = Some 1) ds) \<and>
     (\<forall>i. map_of deg' i = (if i \<in> set ds then map_option (\<lambda>n. n - 1) (map_of deg i) else map_of deg i))"
  using assms
proof (induction ds arbitrary: deg q)
  case (Cons d ds)
  obtain n where n: "map_of deg d = Some n" using Cons.prems by auto
  let ?deg = "dict_set d (n - 1) deg" and ?q = "if n - 1 = 0 then q @ [d] else q"
  have "\<forall>x \<in> set ds. map_of ?deg x \<noteq> None" using Cons.prems by auto
  then obtain deg' where d: "topo_visit ds ?deg ?q = Inr (deg', ?q @ filter (\<lambda>x. map_of ?deg x = Some 1) ds)"
     "\<forall>i. map_of deg' i = (if i \<in> set ds then map_option (\<lambda>n. n - 1) (map_of ?deg i) else map_of ?deg i)"
    using Cons.IH[of ?deg ?q] Cons.prems(1) by auto
  have "filter (\<lambda>x. map_of ?deg x = Some 1) ds = filter (\<lambda>x. map_of deg x = Some 1) ds"
    using Cons.prems(1) by (intro filter_cong) auto
  with d n Cons.prems(1) show ?case by (intro exI[of _ deg']) auto
qed simp

text \<open>
  The state of the loop: \<open>result\<close> is a topological order of what it holds, the queue holds exactly
  the other nodes all of whose dependencies are in \<open>result\<close>.
\<close>

definition topo_state :: "task_node dict \<Rightarrow> degrees \<Rightarrow> string list \<Rightarrow> string list \<Rightarrow> bool" where
  "topo_state nodes deg q r \<longleftrightarrow> degrees_ok nodes deg (set r) \<and> distinct (r @ q) \<and> topological nodes r \<and>
     set (r @ q) = {i. map_of nodes i \<noteq> None \<and> node_deps nodes i \<subseteq> set r}"

lemma linkedD:
  assumes "linked nodes"
  shows "map_of nodes i = Some n \<Longrightarrow> j \<in> tn_dependents n \<longleftrightarrow> map_of nodes j \<noteq> None \<and> i \<in> node_deps nodes j"
    "finite (node_deps nodes j)" "map_of nodes i = Some n \<Longrightarrow> finite (tn_dependents n)"
proof -
  show "j \<in> tn_dependents n \<longleftrightarrow> map_of nodes j \<noteq> None \<and> i \<in> node_deps nodes j" if n: "map_of nodes i = Some n"
  proof
    assume "j \<in> tn_dependents n"
    then show "map_of nodes j \<noteq> None \<and> i \<in> node_deps nodes j"
      using assms n unfolding linked_def node_deps_def by fastforce
  next
    assume *: "map_of nodes j \<noteq> None \<and> i \<in> node_deps nodes j"
    then obtain m where "map_of nodes j = Some m" "i \<in> tn_dependencies m" by (auto simp: node_deps_def)
    with assms n show "j \<in> tn_dependents n" unfolding linked_def by fastforce
  qed
  show "finite (node_deps nodes j)" "map_of nodes i = Some n \<Longrightarrow> finite (tn_dependents n)"
    using assms by (auto simp: linked_def finite_nodes_def node_deps_def split: option.splits)
qed

lemma topo_step:
  assumes l: "linked nodes" and it: "iterates it" and st: "topo_state nodes deg (i # q) r"
  shows "\<exists>n deg' q'. map_of nodes i = Some n \<and> topo_visit (it (tn_dependents n)) deg q = Inr (deg', q') \<and>
     topo_state nodes deg' q' (r @ [i])"
proof -
  let ?D = "node_deps nodes" and ?R = "set r"
  have all: "set (r @ i # q) = {j. map_of nodes j \<noteq> None \<and> ?D j \<subseteq> ?R}" and dist: "distinct (r @ i # q)"
    and dok: "degrees_ok nodes deg ?R" and top: "topological nodes r"
    using st by (simp_all add: topo_state_def)
  have "i \<in> {j. map_of nodes j \<noteq> None \<and> ?D j \<subseteq> ?R}" unfolding all[symmetric] by simp
  then have i: "map_of nodes i \<noteq> None" "?D i \<subseteq> ?R" by auto
  then obtain n where n: "map_of nodes i = Some n" by auto
  have ir: "i \<notin> ?R" using dist by simp
  let ?ds = "it (tn_dependents n)"
  have ds: "distinct ?ds" "set ?ds = tn_dependents n"
    using it linkedD(3)[OF l n] by (auto simp: iterates_def)
  have S: "j \<in> tn_dependents n \<longleftrightarrow> map_of nodes j \<noteq> None \<and> i \<in> ?D j" for j by (rule linkedD(1)[OF l n])
  have deg: "map_of deg j = (if map_of nodes j = None then None else Some (int (card (?D j - ?R))))" for j
    using dok by (simp add: degrees_ok_def)
  have "\<forall>d \<in> set ?ds. map_of deg d \<noteq> None" using ds(2) S by (auto simp: deg)
  from topo_visit_ok[OF ds(1) this, of q] obtain deg' where
    v: "topo_visit ?ds deg q = Inr (deg', q @ filter (\<lambda>d. map_of deg d = Some 1) ?ds)"
      "\<forall>j. map_of deg' j = (if j \<in> set ?ds then map_option (\<lambda>n. n - 1) (map_of deg j) else map_of deg j)" by blast
  let ?q = "q @ filter (\<lambda>d. map_of deg d = Some 1) ?ds"
  have card1: "int (card (?D j - insert i ?R)) = int (card (?D j - ?R)) - 1" if "i \<in> ?D j" for j
  proof -
    have m: "i \<in> ?D j - ?R" using that ir by simp
    have "?D j - insert i ?R = ?D j - ?R - {i}" by auto
    moreover have "card (?D j - ?R) > 0" using m linkedD(2)[OF l, of j] by (metis card_gt_0_iff empty_iff finite_Diff)
    ultimately show ?thesis using m by (simp add: card_Diff_singleton of_nat_diff)
  qed
  have "degrees_ok nodes deg' (set (r @ [i]))"
    unfolding degrees_ok_def
  proof
    fix j
    have "?D j - insert i ?R = ?D j - ?R" if "i \<notin> ?D j" using that by auto
    then show "map_of deg' j = (if map_of nodes j = None then None else Some (int (card (?D j - set (r @ [i])))))"
      using v(2) ds(2) S[of j] card1[of j] by (auto simp: deg)
  qed
  moreover have new: "set (filter (\<lambda>d. map_of deg d = Some 1) ?ds) = {j. map_of nodes j \<noteq> None \<and> i \<in> ?D j \<and> ?D j \<subseteq> insert i ?R}"
  proof -
    have "int (card (?D j - ?R)) = 1 \<longleftrightarrow> ?D j \<subseteq> insert i ?R" if "i \<in> ?D j" for j
    proof -
      have m: "i \<in> ?D j - ?R" using that ir by simp
      have "card (?D j - ?R) = 1 \<longleftrightarrow> ?D j - ?R = {i}"
        using m by (metis card_1_singletonE card_1_singleton_iff singletonD One_nat_def)
      also have "\<dots> \<longleftrightarrow> ?D j \<subseteq> insert i ?R" using m by auto
      finally show ?thesis by simp
    qed
    then show ?thesis using S ds(2) by (auto simp: deg split: if_splits)
  qed
  moreover have "set (r @ [i] @ ?q) = {j. map_of nodes j \<noteq> None \<and> ?D j \<subseteq> set (r @ [i])}"
  proof -
    have "set (r @ [i] @ ?q) = set (r @ i # q) \<union> set (filter (\<lambda>d. map_of deg d = Some 1) ?ds)" by auto
    also have "\<dots> = {j. map_of nodes j \<noteq> None \<and> ?D j \<subseteq> ?R} \<union> {j. map_of nodes j \<noteq> None \<and> i \<in> ?D j \<and> ?D j \<subseteq> insert i ?R}"
      unfolding all new ..
    also have "\<dots> = {j. map_of nodes j \<noteq> None \<and> ?D j \<subseteq> set (r @ [i])}" by auto
    finally show ?thesis .
  qed
  moreover have "distinct (r @ [i] @ ?q)"
  proof -
    have "set (r @ i # q) \<inter> set (filter (\<lambda>d. map_of deg d = Some 1) ?ds) = {}"
      unfolding all new using ir by auto
    then show ?thesis using dist ds(1) by auto
  qed
  ultimately show ?thesis using n v(1) topological_snoc[OF top i(2)] by (simp add: topo_state_def)
qed

lemma topo_loop_ok:
  assumes "linked nodes" "iterates it" "topo_state nodes deg q r"
  shows "\<exists>r'. topo_loop it nodes deg q r = Inr r' \<and> distinct r' \<and> topological nodes r' \<and>
     set r' = {i. map_of nodes i \<noteq> None \<and> node_deps nodes i \<subseteq> set r'}"
  using assms
proof (induction it nodes deg q r rule: topo_loop.induct)
  case (1 it nodes deg r)
  then show ?case by (simp add: topo_state_def)
next
  case (2 it nodes deg i q r)
  from topo_step[OF "2.prems"] obtain n deg' q' where s: "map_of nodes i = Some n"
      "topo_visit (it (tn_dependents n)) deg q = Inr (deg', q')" "topo_state nodes deg' q' (r @ [i])" by blast
  from "2.IH"(2)[OF s(1,2) refl "2.prems"(1,2) s(3)] s(1,2) show ?case by simp
qed

lemma topo_start:
  assumes "linked nodes"
  shows "topo_state nodes (initial_degrees nodes) (map fst (filter (\<lambda>(i, k). k = 0) (initial_degrees nodes))) []"
proof -
  let ?deg = "initial_degrees nodes"
  have keys: "dict_keys ?deg = dict_keys nodes" by (induction nodes) (auto simp: initial_degrees_def)
  have mo: "map_of ?deg i = map_option (\<lambda>n. int (card (tn_dependencies n))) (map_of nodes i)" for i
    by (induction nodes) (auto simp: initial_degrees_def)
  have d: "distinct (dict_keys ?deg)" using assms keys by (simp add: linked_def)
  have fin: "finite (tn_dependencies n)" if "map_of nodes i = Some n" for i n
    using assms that by (auto simp: linked_def finite_nodes_def)
  have mem: "i \<in> set (map fst (filter (\<lambda>(i, k). k = 0) ?deg)) \<longleftrightarrow> map_of ?deg i = Some 0" for i
    using d by (force simp: map_of_eq_Some_iff)
  have q: "set (map fst (filter (\<lambda>(i, k). k = 0) ?deg)) = {i. map_of nodes i \<noteq> None \<and> node_deps nodes i \<subseteq> {}}"
  proof (rule set_eqI)
    fix i
    show "i \<in> set (map fst (filter (\<lambda>(i, k). k = 0) ?deg)) \<longleftrightarrow>
        i \<in> {i. map_of nodes i \<noteq> None \<and> node_deps nodes i \<subseteq> {}}"
      unfolding mem mo using fin[of i] by (auto simp: node_deps_def card_eq_0_iff)
  qed
  have "distinct (map fst (filter (\<lambda>(i, k). k = 0) ?deg))" using d by (simp add: distinct_map_filter)
  moreover have "degrees_ok nodes ?deg {}" by (auto simp: degrees_ok_def mo node_deps_def)
  ultimately show ?thesis using q by (simp add: topo_state_def topological_def)
qed

lemma linked_edges:
  "linked nodes \<Longrightarrow> (a, b) \<in> graph_edges nodes \<longleftrightarrow> map_of nodes a \<noteq> None \<and> map_of nodes b \<noteq> None \<and> a \<in> node_deps nodes b"
  using linkedD(1) by (fastforce simp: graph_edges_def)

lemma linked_deps_nodes: "linked nodes \<Longrightarrow> d \<in> node_deps nodes i \<Longrightarrow> map_of nodes d \<noteq> None"
  by (fastforce simp: linked_def node_deps_def split: option.splits)

lemma linked_finite_edges:
  assumes "linked nodes" shows "finite (graph_edges nodes)"
proof -
  have "graph_edges nodes \<subseteq> fst ` set nodes \<times> fst ` set nodes"
    using linked_edges[OF assms] by (force dest: map_of_SomeD)
  then show ?thesis by (rule finite_subset) simp
qed

lemma topological_acyclic:
  assumes l: "linked nodes" and r: "topological nodes r" "distinct r" "set r = fst ` set nodes"
  shows "acyclic (graph_edges nodes)"
proof -
  have before: "\<forall>xs ys. r = xs @ b # ys \<longrightarrow> a \<in> set xs" if "(a, b) \<in> (graph_edges nodes)\<^sup>+" for a b
    using that
  proof (induction rule: trancl_induct)
    case (base y)
    then have "a \<in> node_deps nodes y" using linked_edges[OF l] by blast
    then show ?case using r(1) unfolding topological_def by blast
  next
    case (step y z)
    show ?case
    proof (intro allI impI)
      fix xs ys assume z: "r = xs @ z # ys"
      have "y \<in> node_deps nodes z" using step(2) linked_edges[OF l] by blast
      then have "y \<in> set xs" using r(1) z unfolding topological_def by blast
      then obtain us vs where us: "xs = us @ y # vs" by (auto simp: in_set_conv_decomp)
      then have "r = us @ y # (vs @ z # ys)" using z by simp
      with step(3) have "a \<in> set us" by blast
      then show "a \<in> set xs" by (simp add: us)
    qed
  qed
  show ?thesis
  proof (rule acyclicI, intro allI notI)
    fix x assume x: "(x, x) \<in> (graph_edges nodes)\<^sup>+"
    then obtain y where "(y, x) \<in> graph_edges nodes" by (meson tranclD2)
    then have "map_of nodes x \<noteq> None" using linked_edges[OF l] by blast
    then have "x \<in> set r" using r(3) by (force dest: map_of_SomeD)
    then obtain xs ys where "r = xs @ x # ys" by (auto simp: in_set_conv_decomp)
    with before[OF x] r(2) show False by auto
  qed
qed

lemma acyclic_closed_is_all:
  assumes l: "linked nodes" and ac: "acyclic (graph_edges nodes)"
    and R: "R = {i. map_of nodes i \<noteq> None \<and> node_deps nodes i \<subseteq> R}"
  shows "R = dom (map_of nodes)"
proof (rule ccontr)
  assume "R \<noteq> dom (map_of nodes)"
  moreover have "R \<subseteq> dom (map_of nodes)" by (subst R) auto
  ultimately obtain x0 where "x0 \<in> dom (map_of nodes) - R" by blast
  moreover have "wf (graph_edges nodes)" by (rule finite_acyclic_wf[OF linked_finite_edges[OF l] ac])
  ultimately obtain x where x: "x \<in> dom (map_of nodes) - R"
      "\<And>y. (y, x) \<in> graph_edges nodes \<Longrightarrow> y \<notin> dom (map_of nodes) - R"
    by (metis wfE_min)
  have "\<not> node_deps nodes x \<subseteq> R"
  proof
    assume "node_deps nodes x \<subseteq> R"
    then have "x \<in> {i. map_of nodes i \<noteq> None \<and> node_deps nodes i \<subseteq> R}" using x(1) by auto
    then have "x \<in> R" by (subst R)
    with x(1) show False by blast
  qed
  then obtain d where d: "d \<in> node_deps nodes x" "d \<notin> R" by blast
  then have "(d, x) \<in> graph_edges nodes" "d \<in> dom (map_of nodes)"
    using linked_edges[OF l] linked_deps_nodes[OF l] x(1) by auto
  with x(2) d(2) show False by blast
qed

section \<open>Properties\<close>

text \<open>
  On a dependency graph whose two edge directions agree, the topological sort succeeds exactly
  when there is no cycle; then the result lists every task once and each task after everything it
  depends on. On a cycle it raises.
\<close>

theorem dag_topological_sort_correct:
  assumes "linked (dg_nodes s)" and "iterates it"
  shows "case topological_sort it s of
      Inr r \<Rightarrow> acyclic (graph_edges (dg_nodes s)) \<and> distinct r \<and> set r = fst ` set (dg_nodes s) \<and>
        topological (dg_nodes s) r
    | Inl e \<Rightarrow> \<not> acyclic (graph_edges (dg_nodes s)) \<and> e = ValueError ''cycle in the DAG''"
proof -
  let ?nodes = "dg_nodes s"
  from topo_loop_ok[OF assms topo_start[OF assms(1)]]
  obtain r where r: "topo_loop it ?nodes (initial_degrees ?nodes)
        (map fst (filter (\<lambda>(i, k). k = 0) (initial_degrees ?nodes))) [] = Inr r"
      "distinct r" "topological ?nodes r" "set r = {i. map_of ?nodes i \<noteq> None \<and> node_deps ?nodes i \<subseteq> set r}"
    by blast
  have dk: "distinct (dict_keys ?nodes)" using assms(1) by (simp add: linked_def)
  have sub: "set r \<subseteq> fst ` set ?nodes" by (subst r(4)) (force dest: map_of_SomeD)
  have "length ?nodes = card (fst ` set ?nodes)" using distinct_card[OF dk] by simp
  then have len: "length r = length ?nodes \<longleftrightarrow> set r = fst ` set ?nodes"
    using sub distinct_card[OF r(2)] by (metis card_subset_eq finite_imageI List.finite_set)
  have sort: "topological_sort it s =
      (if length r \<noteq> length ?nodes then Inl (ValueError ''cycle in the DAG'') else Inr r)"
    using r(1) by (simp add: topological_sort_def Let_def)
  show ?thesis
  proof (cases "length r = length ?nodes")
    case True
    then have "set r = fst ` set ?nodes" using len by simp
    with True r(2,3) topological_acyclic[OF assms(1) r(3,2)] show ?thesis by (simp add: sort)
  next
    case False
    have "\<not> acyclic (graph_edges ?nodes)"
    proof
      assume "acyclic (graph_edges ?nodes)"
      from acyclic_closed_is_all[OF assms(1) this r(4)] have "set r = fst ` set ?nodes"
        by (simp add: dom_map_of_conv_image_fst)
      with False len show False by blast
    qed
    with False show ?thesis by (simp add: sort)
  qed
qed

definition dag_demo :: "(string \<times> string list) list \<Rightarrow> dag" where
  "dag_demo ts = fst (eff_for ts (\<lambda>(i, deps). dag_enqueue 1 (new_task i None [] deps ''tr'' 0))
     (dag_init (\<lambda>i. new_task i None [] [] ''tr'' 0)))"

theorem dag_topological_sort_correct_witness:
  "topological_sort sorted_list_of_set (dag_demo [(''b'', []), (''a'', [''b''])]) = Inr [''b'', ''a''] \<and>
   topological (dg_nodes (dag_demo [(''b'', []), (''a'', [''b''])])) [''b'', ''a'']"
proof -
  have nodes: "dg_nodes (dag_demo [(''b'', []), (''a'', [''b''])]) =
      [(''b'', \<lparr>tn_dependencies = {}, tn_dependents = {''a''}\<rparr>), (''a'', \<lparr>tn_dependencies = {''b''}, tn_dependents = {}\<rparr>)]"
    by code_simp
  have "linked (dg_nodes (dag_demo [(''b'', []), (''a'', [''b''])]))"
    unfolding nodes by (auto simp: linked_def finite_nodes_def split: if_splits)
  moreover have "topological_sort sorted_list_of_set (dag_demo [(''b'', []), (''a'', [''b''])]) = Inr [''b'', ''a'']"
    by code_simp
  ultimately show ?thesis
    using dag_topological_sort_correct[OF _ iterates_sorted, of "dag_demo [(''b'', []), (''a'', [''b''])]"] by simp
qed

text \<open>
  Once a task has completed the sort can be wrong: the in-degrees count only open dependencies
  while the loop also counts down for the completed ones. With \<open>c\<close> depending on \<open>a\<close> and \<open>b\<close>, and \<open>b\<close>
  on \<open>d\<close>, completing \<open>a\<close> makes the result put \<open>c\<close> before \<open>b\<close>, without an error.
\<close>

theorem dag_topological_sort_wrong_after_completion:
  "let s = fst (dag_complete_task sorted_list_of_set 2 ''a''
      (dag_demo [(''a'', []), (''d'', []), (''b'', [''d'']), (''c'', [''a'', ''b''])]))
   in topological_sort sorted_list_of_set s = Inr [''a'', ''d'', ''c'', ''b''] \<and> ''b'' \<in> node_deps (dg_nodes s) ''c''"
  by code_simp

section \<open>The cascade of failures\<close>

lemma transition_to_fields:
  assumes "transition_to now st r t = (t', res)"
  shows "ts_dependency_failure_policies t' = ts_dependency_failure_policies t"
    "ts_failure_policy t' = ts_failure_policy t" "ts_failure_policy_set t' = ts_failure_policy_set t"
    "res = Inr () \<Longrightarrow> ts_status t' = st"
proof -
  have post: "ts_dependency_failure_policies (model_post_init t) = ts_dependency_failure_policies t \<and>
      ts_failure_policy (model_post_init t) = ts_failure_policy t \<and> ts_failure_policy_set (model_post_init t) = ts_failure_policy_set t"
    by (simp add: model_post_init_def sync_from_tcb_def Let_def split: option.splits)
  have ens: "ts_dependency_failure_policies (snd (ensure_tcb t)) = ts_dependency_failure_policies t \<and>
      ts_failure_policy (snd (ensure_tcb t)) = ts_failure_policy t \<and> ts_failure_policy_set (snd (ensure_tcb t)) = ts_failure_policy_set t"
    using post by (simp add: ensure_tcb_def Let_def split: option.splits)
  show "ts_dependency_failure_policies t' = ts_dependency_failure_policies t"
    "ts_failure_policy t' = ts_failure_policy t" "ts_failure_policy_set t' = ts_failure_policy_set t"
    "res = Inr () \<Longrightarrow> ts_status t' = st"
    using assms ens by (auto simp: transition_to_def via_tcb_def tcb_transition_to_eq sync_from_tcb_def
        split: prod.splits if_splits)
qed

text \<open>\<open>closed_edge s x d\<close>: a failure of \<open>x\<close> must fail its dependent \<open>d\<close>.\<close>

definition dependents_of :: "dag \<Rightarrow> string \<Rightarrow> string set option" where
  "dependents_of s i = map_option tn_dependents (map_of (dg_nodes s) i)"

definition closed_edge :: "dag \<Rightarrow> string \<Rightarrow> string \<Rightarrow> bool" where
  "closed_edge s x d \<longleftrightarrow> (\<exists>S. dependents_of s x = Some S \<and> d \<in> S) \<and> dependents_of s d \<noteq> None \<and>
     dag_edge_mode x (dg_task s x) (dg_task s d) = Some FAIL_CLOSED"

text \<open>What no step of the cascade changes: the edges and the policies.\<close>

definition same_policies :: "dag \<Rightarrow> dag \<Rightarrow> bool" where
  "same_policies s s' \<longleftrightarrow> dependents_of s' = dependents_of s \<and>
     (\<forall>i. ts_dependency_failure_policies (dg_task s' i) = ts_dependency_failure_policies (dg_task s i) \<and>
          ts_failure_policy (dg_task s' i) = ts_failure_policy (dg_task s i) \<and>
          ts_failure_policy_set (dg_task s' i) = ts_failure_policy_set (dg_task s i))"

lemma same_policies_closed_edge:
  assumes "same_policies s s'" shows "closed_edge s' = closed_edge s"
proof -
  have "ts_dependency_failure_policies (dg_task s' i) = ts_dependency_failure_policies (dg_task s i)"
    "ts_failure_policy (dg_task s' i) = ts_failure_policy (dg_task s i)"
    "ts_failure_policy_set (dg_task s' i) = ts_failure_policy_set (dg_task s i)" "dependents_of s' = dependents_of s" for i
    using assms by (simp_all add: same_policies_def)
  moreover from this have "dag_edge_mode x (dg_task s' x) (dg_task s' d) = dag_edge_mode x (dg_task s x) (dg_task s d)" for x d
    by (simp add: dag_edge_mode_def split: option.split)
  ultimately show ?thesis by (simp add: closed_edge_def fun_eq_iff)
qed

lemma dependents_of_failed [simp]: "dependents_of (s\<lparr>dg_failed := F\<rparr>) = dependents_of s"
  by (simp add: dependents_of_def fun_eq_iff)

lemma same_policies_on_task: "same_policies s (fst (on_dag_task i (transition_to now st r) s))"
proof -
  obtain t' res where "transition_to now st r (dg_task s i) = (t', res)" by (cases "transition_to now st r (dg_task s i)")
  with transition_to_fields[OF this] show ?thesis
    by (simp add: same_policies_def on_dag_task_frame dependents_of_def fun_eq_iff)
qed

lemma same_policies_trans: "same_policies s s1 \<Longrightarrow> same_policies s1 s2 \<Longrightarrow> same_policies s s2"
  by (simp add: same_policies_def)

lemma same_policies_release: "same_policies s (fst (dag_release now i d m s))"
proof -
  let ?s = "s\<lparr>dg_nodes := discard_dependency d i (dg_nodes s)\<rparr>"
  have "same_policies s ?s" by (simp add: same_policies_def discard_dependency_def dependents_of_def option.map_comp comp_def fun_eq_iff)
  moreover have "same_policies ?s (fst (dag_release now i d m s))"
    using same_policies_on_task[of ?s d now TS_READY] by (simp add: dag_release_def eff_simps same_policies_def)
  ultimately show ?thesis by (rule same_policies_trans)
qed

text \<open>Pending work: a closed edge out of a newly failed task is done or still on the stack.\<close>

fun pending :: "(string \<times> string list) list \<Rightarrow> string \<Rightarrow> string \<Rightarrow> bool" where
  "pending [] x d = False"
| "pending ((i, ds) # stack) x d = (x = i \<and> d \<in> set ds \<or> pending stack x d)"

definition cascade_inv :: "string set \<Rightarrow> string \<Rightarrow> (string \<Rightarrow> string \<Rightarrow> bool) \<Rightarrow> (string \<times> string list) list \<Rightarrow> dag \<Rightarrow> bool" where
  "cascade_inv F0 i0 C stack s \<longleftrightarrow> closed_edge s = C \<and> i0 \<in> dg_failed s \<and>
     (\<forall>x d. x \<in> dg_failed s - F0 \<longrightarrow> C x d \<longrightarrow> d \<in> dg_failed s \<or> pending stack x d)"

lemma cascade_inv_skip:
  assumes "cascade_inv F0 i0 C ((i, d # ds) # stack) s" "same_policies s s'" "dg_failed s' = dg_failed s"
    and "C i d \<Longrightarrow> d \<in> dg_failed s"
  shows "cascade_inv F0 i0 C ((i, ds) # stack) s'"
  using assms same_policies_closed_edge[OF assms(2)] by (auto simp: cascade_inv_def)

lemma cascade_inv_push:
  assumes "cascade_inv F0 i0 C ((i, d # ds) # stack) s" "same_policies s s'" "dg_failed s' = insert d (dg_failed s)"
    and "\<And>y. C d y \<Longrightarrow> y \<in> set ys"
  shows "cascade_inv F0 i0 C ((d, ys) # (i, ds) # stack) s'"
  using assms same_policies_closed_edge[OF assms(2)] by (auto simp: cascade_inv_def)

lemma finite_dependents: "finite_nodes nodes \<longleftrightarrow>
    (\<forall>i n. map_of nodes i = Some n \<longrightarrow> finite (tn_dependents n) \<and> finite (tn_dependencies n))"
  by (simp add: finite_nodes_def)

lemma dag_release_finite: "finite_nodes (dg_nodes s) \<Longrightarrow> finite_nodes (dg_nodes (fst (dag_release now i d m s)))"
  by (simp add: dag_release_def eff_simps on_dag_task_frame)

lemma dag_fail_loop_cascade:
  assumes "cascade_inv F0 i0 C stack s" "iterates it" "finite_nodes (dg_nodes s)"
    and "dag_fail_loop it now stack s = (s', Inr ())"
  shows "cascade_inv F0 i0 C [] s'"
  using assms
proof (induction it now stack s arbitrary: s' rule: dag_fail_loop.induct)
  case (1 it now s)
  then show ?case by simp
next
  case (2 it now i stack s)
  have "cascade_inv F0 i0 C stack s" using "2.prems"(1) by (simp add: cascade_inv_def)
  with 2 show ?case by simp
next
  case (3 it now i d ds stack s)
  note inv = "3.prems"(1) and it = "3.prems"(2) and fin = "3.prems"(3) and run = "3.prems"(4)
  have C: "C = closed_edge s" using inv by (simp add: cascade_inv_def)
  have skip: "cascade_inv F0 i0 C ((i, ds) # stack) s" if "\<not> C i d \<or> d \<in> dg_failed s"
    using that by (intro cascade_inv_skip[OF inv]) (auto simp: same_policies_def)
  show ?case
  proof (cases "map_of (dg_nodes s) d")
    case None
    then have "\<not> C i d" by (simp add: C closed_edge_def dependents_of_def)
    with None run "3.IH"(1)[OF None skip it fin] show ?thesis by simp
  next
    case n: (Some n)
    show ?thesis
    proof (cases "d \<in> dg_failed s")
      case True
      with n run "3.IH"(2)[OF n True skip it fin] show ?thesis by simp
    next
      case nf: False
      let ?mode = "dag_edge_mode i (dg_task s i) (dg_task s d)"
      have nc: "\<not> C i d" if "?mode \<noteq> Some FAIL_CLOSED" using that by (simp add: C closed_edge_def)
      have released: ?thesis
        if m: "?mode = Some m" "m \<in> {FALLBACK, DEGRADE, FAIL_OPEN}"
          and r: "dag_release now i d m s = (s1, Inr u)" "dag_fail_loop it now ((i, ds) # stack) s1 = (s', Inr ())"
          and IH: "cascade_inv F0 i0 C ((i, ds) # stack) s1 \<Longrightarrow> iterates it \<Longrightarrow> finite_nodes (dg_nodes s1) \<Longrightarrow>
            dag_fail_loop it now ((i, ds) # stack) s1 = (s', Inr ()) \<Longrightarrow> cascade_inv F0 i0 C [] s'" for m s1 u
      proof -
        have s1: "s1 = fst (dag_release now i d m s)" using r(1) by simp
        have "cascade_inv F0 i0 C ((i, ds) # stack) s1"
          using nc m by (intro cascade_inv_skip[OF inv]) (auto simp: s1 same_policies_release dag_release_frame)
        then show ?thesis using IH it r(2) dag_release_finite[OF fin] s1 by blast
      qed
      show ?thesis
      proof (cases ?mode)
        case None
        with n nf run "3.IH"(3)[OF n nf None skip it fin] nc show ?thesis by simp
      next
        case (Some m)
        show ?thesis
        proof (cases m)
          case RETRY
          with Some have mode: "?mode = Some RETRY" by simp
          with n nf run "3.IH"(4)[OF n nf Some RETRY skip it fin] nc show ?thesis by simp
        next
          case FAIL_CLOSED
          with Some have mode: "?mode = Some FAIL_CLOSED" by simp
          let ?o = "on_dag_task d (transition_to now TS_FAILED ''dependency_fail_closed'') s"
          from run n nf mode obtain s1 where o: "?o = (s1, Inr ())"
              "dag_fail_loop it now ((d, it (tn_dependents n)) # (i, ds) # stack) (s1\<lparr>dg_failed := insert d (dg_failed s1)\<rparr>) = (s', Inr ())"
            by (auto split: prod.splits sum.splits)
          let ?s1 = "s1\<lparr>dg_failed := insert d (dg_failed s1)\<rparr>"
          have s1: "s1 = fst ?o" using o(1) by simp
          have sp: "same_policies s ?s1"
            using same_policies_on_task[of s d now TS_FAILED "''dependency_fail_closed''"]
            by (simp add: s1 same_policies_def)
          have "y \<in> set (it (tn_dependents n))" if "C d y" for y
            using that n it fin by (auto simp: C closed_edge_def dependents_of_def iterates_def finite_nodes_def)
          then have "cascade_inv F0 i0 C ((d, it (tn_dependents n)) # (i, ds) # stack) ?s1"
            by (intro cascade_inv_push[OF inv sp]) (simp_all add: s1 on_dag_task_frame)
          then show ?thesis
            using "3.IH"(8)[OF n nf Some FAIL_CLOSED o(1)[symmetric] refl] it fin o(2) by (simp add: s1 on_dag_task_frame)
        next
          case FALLBACK
          with run n nf Some obtain s1 where "dag_release now i d FALLBACK s = (s1, Inr ())"
              "dag_fail_loop it now ((i, ds) # stack) s1 = (s', Inr ())" by (auto split: prod.splits sum.splits)
          then show ?thesis using released[of FALLBACK s1] "3.IH"(5)[OF n nf Some FALLBACK] Some FALLBACK by simp
        next
          case DEGRADE
          with run n nf Some obtain s1 where "dag_release now i d DEGRADE s = (s1, Inr ())"
              "dag_fail_loop it now ((i, ds) # stack) s1 = (s', Inr ())" by (auto split: prod.splits sum.splits)
          then show ?thesis using released[of DEGRADE s1] "3.IH"(6)[OF n nf Some DEGRADE] Some DEGRADE by simp
        next
          case FAIL_OPEN
          with run n nf Some obtain s1 where "dag_release now i d FAIL_OPEN s = (s1, Inr ())"
              "dag_fail_loop it now ((i, ds) # stack) s1 = (s', Inr ())" by (auto split: prod.splits sum.splits)
          then show ?thesis using released[of FAIL_OPEN s1] "3.IH"(7)[OF n nf Some FAIL_OPEN] Some FAIL_OPEN by simp
        qed
      qed
    qed
  qed
qed

text \<open>
  \<open>fail_closed\<close> failures cascade completely: when \<open>fail_task\<close> returns, every task that newly
  counts as failed has also failed all the dependents its policy (or the policy of the edge) closes,
  however long the chain, and the failed task itself is among them.
\<close>

theorem dag_fail_closed_cascades:
  assumes "dag_fail_task it now i s = (s', Inr ())" and "iterates it" and "finite_nodes (dg_nodes s)"
    and "map_of (dg_nodes s) i \<noteq> None"
  shows "i \<in> dg_failed s' \<and>
    (\<forall>x d. x \<in> insert i (dg_failed s' - dg_failed s) \<longrightarrow> closed_edge s x d \<longrightarrow> d \<in> dg_failed s')"
proof -
  obtain n where n: "map_of (dg_nodes s) i = Some n" using assms(4) by auto
  let ?s = "s\<lparr>dg_failed := insert i (dg_failed s)\<rparr>"
  have C: "closed_edge ?s = closed_edge s" by (simp add: closed_edge_def fun_eq_iff)
  have "set (it (tn_dependents n)) = tn_dependents n"
    using assms(2,3) n by (simp add: iterates_def finite_nodes_def)
  then have reach: "d \<in> set (it (tn_dependents n))" if "closed_edge s i d" for d
    using n that by (simp add: closed_edge_def dependents_of_def)
  have "cascade_inv (dg_failed s - {i}) i (closed_edge s) [(i, it (tn_dependents n))] ?s"
    unfolding cascade_inv_def C using reach by auto
  moreover have "dag_fail_loop it now [(i, it (tn_dependents n))] ?s = (s', Inr ())"
    using assms(1) n by (simp add: dag_fail_task_def eff_get_def)
  moreover have "finite_nodes (dg_nodes ?s)" using assms(3) by simp
  ultimately have "cascade_inv (dg_failed s - {i}) i (closed_edge s) [] s'"
    using dag_fail_loop_cascade[OF _ assms(2), of _ _ _ _ ?s now s'] by blast
  then show ?thesis by (auto simp: cascade_inv_def)
qed

definition dag_chain :: dag where
  "dag_chain = fst (eff_for [(''a'', []), (''b'', [''a'']), (''c'', [''b''])]
     (\<lambda>(i, deps). dag_enqueue 1 ((new_task i None [] deps ''tr'' 0)
        \<lparr>ts_dependency_failure_policies := map (\<lambda>d. (d, FAIL_CLOSED)) deps\<rparr>))
     (dag_init (\<lambda>i. new_task i None [] [] ''tr'' 0)))"

theorem dag_fail_closed_cascades_witness:
  "''b'' \<in> dg_failed (fst (dag_fail_task sorted_list_of_set 5 ''a'' dag_chain))"
proof -
  let ?r = "dag_fail_task sorted_list_of_set 5 ''a'' dag_chain"
  have "snd ?r = Inr ()" by code_simp
  then have "?r = (fst ?r, Inr ())" by (metis prod.collapse)
  moreover have nodes: "dg_nodes dag_chain = [(''a'', \<lparr>tn_dependencies = {}, tn_dependents = {''b''}\<rparr>),
      (''b'', \<lparr>tn_dependencies = {''a''}, tn_dependents = {''c''}\<rparr>), (''c'', \<lparr>tn_dependencies = {''b''}, tn_dependents = {}\<rparr>)]"
    by code_simp
  moreover have "finite_nodes (dg_nodes dag_chain)" unfolding nodes by (auto simp: finite_nodes_def split: if_splits)
  moreover have "dag_edge_mode ''a'' (dg_task dag_chain ''a'') (dg_task dag_chain ''b'') = Some FAIL_CLOSED" by code_simp
  then have "closed_edge dag_chain ''a'' ''b''" by (simp add: closed_edge_def dependents_of_def nodes)
  ultimately show ?thesis
    using dag_fail_closed_cascades[OF _ iterates_sorted, of 5 "''a''" dag_chain "fst ?r"] by simp
qed

end
