(* ===== verification/Context_Manager.thy ===== *)
theory Context_Manager
  imports Py_Json
begin

text \<open>
  \<open>aruntime/context/types.py\<close> and \<open>aruntime/context/manager.py\<close>: contexts shared by the agents of
  a run, with shared, private and read-only parts, compression to structured summaries,
  roll-back, least-recently-used and time-to-live eviction, and the token accounting of
  \<open>build_agent_context\<close>.

  The \<open>OrderedDict\<close> of contexts is an association list, oldest first; \<open>move_to_end\<close> removes and
  appends. A context object lives in that list only, so its mutation is an update of its entry.
  Clock readings, \<open>hashlib.sha256(..).hexdigest()\<close> and \<open>float.__repr__\<close> are fields of \<open>ctx_env\<close>.
\<close>

section \<open>Data\<close>

datatype ContextPermission = CP_SHARED | CP_PRIVATE | CP_READONLY

fun permission_value :: "ContextPermission \<Rightarrow> string" where
  "permission_value CP_SHARED = ''shared''"
| "permission_value CP_PRIVATE = ''private''"
| "permission_value CP_READONLY = ''readonly''"

record ContextObject =
  co_key :: string
  co_value :: json
  co_owner_agent :: "string option"
  co_permission :: ContextPermission
  co_version :: nat
  co_created_at :: int
  co_updated_at :: int

text \<open>The dictionary pushed on \<open>previous_versions\<close>.\<close>

record context_backup =
  cb_shared :: jdict
  cb_private :: "jdict dict"
  cb_readonly :: jdict
  cb_delta_shared :: jdict
  cb_delta_private :: "jdict dict"
  cb_readonly_versions :: "ContextObject list dict"
  cb_summary :: string
  cb_compressed :: bool

record RuntimeContext =
  rc_context_id :: string
  rc_shared_data :: jdict
  rc_private_data :: "jdict dict"
  rc_readonly_data :: jdict
  rc_delta_shared_data :: jdict
  rc_delta_private_data :: "jdict dict"
  rc_readonly_versions :: "ContextObject list dict"
  rc_context_diff :: jdict
  rc_summary :: string
  rc_compressed :: bool
  rc_version :: nat
  rc_prefix_cache_key :: string
  rc_prefix_block_id :: string
  rc_reuse_count :: nat
  rc_original_tokens :: int
  rc_saved_tokens :: int
  rc_cache_hits :: nat
  rc_build_time_ms_total :: rat
  rc_previous_versions :: "context_backup list"
  rc_updated_at :: rat

record ContextManager =
  cm_compress_threshold_chars :: int
  cm_max_contexts :: int
  cm_ttl_seconds :: int
  cm_contexts :: "RuntimeContext dict"
  cm_reuse_hits :: nat
  cm_compression_count :: nat
  cm_build_hits :: nat
  cm_execution_cache :: "int dict"
  cm_shared_prefix_cache :: "int dict"
  cm_cache_hits :: nat
  cm_shared_prefix_hits :: nat
  cm_original_tokens :: int
  cm_saved_tokens :: int
  cm_input_tokens_after :: int
  cm_build_time_ms_total :: rat

text \<open>
  What a call reads from outside: \<open>time.time()\<close> when the context is touched and again when expired
  contexts are looked for, the two clock readings of each new \<open>ContextObject\<close> by key, the seconds
  between the two \<open>time.perf_counter()\<close> readings, the hash and the float printer.
\<close>

record ctx_env =
  ce_touch :: rat
  ce_evict :: rat
  ce_stamps :: "string \<Rightarrow> int \<times> int"
  ce_perf :: rat
  ce_sha256 :: "string \<Rightarrow> string"
  ce_float_repr :: "rat \<Rightarrow> string"

definition new_context :: "string \<Rightarrow> rat \<Rightarrow> RuntimeContext" where
  "new_context context_id now =
     \<lparr>rc_context_id = context_id, rc_shared_data = [], rc_private_data = [], rc_readonly_data = [],
      rc_delta_shared_data = [], rc_delta_private_data = [], rc_readonly_versions = [],
      rc_context_diff = [], rc_summary = [], rc_compressed = False, rc_version = 0,
      rc_prefix_cache_key = [], rc_prefix_block_id = [], rc_reuse_count = 0, rc_original_tokens = 0,
      rc_saved_tokens = 0, rc_cache_hits = 0, rc_build_time_ms_total = 0, rc_previous_versions = [],
      rc_updated_at = now\<rparr>"

definition context_manager_init :: "int \<Rightarrow> int \<Rightarrow> int \<Rightarrow> ContextManager" where
  "context_manager_init compress_threshold_chars max_contexts ttl_seconds =
     \<lparr>cm_compress_threshold_chars = compress_threshold_chars, cm_max_contexts = max_contexts,
      cm_ttl_seconds = ttl_seconds, cm_contexts = [], cm_reuse_hits = 0, cm_compression_count = 0,
      cm_build_hits = 0, cm_execution_cache = [], cm_shared_prefix_cache = [], cm_cache_hits = 0,
      cm_shared_prefix_hits = 0, cm_original_tokens = 0, cm_saved_tokens = 0,
      cm_input_tokens_after = 0, cm_build_time_ms_total = 0\<rparr>"

definition get_context :: "string \<Rightarrow> ContextManager \<Rightarrow> RuntimeContext option" where
  "get_context context_id m = map_of (cm_contexts m) context_id"

section \<open>Views and keys\<close>

definition merged_shared :: "RuntimeContext \<Rightarrow> jdict" where
  "merged_shared c = dict_update (rc_shared_data c) (rc_delta_shared_data c)"

definition merged_private :: "RuntimeContext \<Rightarrow> jdict dict" where
  "merged_private c =
     fold (\<lambda>(agent, payload) private. dict_set agent (dict_update (dict_get private agent []) payload) private)
       (rc_delta_private_data c) (rc_private_data c)"

text \<open>What \<open>build_agent_context\<close> shows one agent of the private part.\<close>

definition agent_private :: "string \<Rightarrow> RuntimeContext \<Rightarrow> jdict" where
  "agent_private agent_name c =
     dict_update (dict_get (rc_private_data c) agent_name []) (dict_get (rc_delta_private_data c) agent_name [])"

definition private_json :: "jdict dict \<Rightarrow> json" where
  "private_json d = JObj (map (\<lambda>(agent, payload). (agent, JObj payload)) d)"

definition prefix_hash :: "ctx_env \<Rightarrow> string \<Rightarrow> string" where
  "prefix_hash env cache_key = ce_sha256 env cache_key"

definition prefix_block_id :: "ctx_env \<Rightarrow> string \<Rightarrow> string" where
  "prefix_block_id env cache_key =
     (if cache_key \<noteq> [] then ''pblk_'' @ take 16 (prefix_hash env cache_key) else [])"

definition ctx_summary :: "RuntimeContext \<Rightarrow> string" where
  "ctx_summary c =
     ''shared='' @ nat_str (length (merged_shared c)) @
     '', private_agents='' @ nat_str (length (merged_private c)) @
     '', readonly='' @ nat_str (length (rc_readonly_data c)) @
     '', version='' @ nat_str (rc_version c)"

definition cache_key_of :: "ctx_env \<Rightarrow> RuntimeContext \<Rightarrow> string" where
  "cache_key_of env c =
     rc_context_id c @ '':v'' @ nat_str (rc_version c) @ '':'' @
     json_dumps_sorted (ce_float_repr env)
       (JObj [(''shared'', JObj (merged_shared c)), (''readonly'', JObj (rc_readonly_data c)),
              (''summary'', JStr (rc_summary c))])"

definition full_cache_key :: "ctx_env \<Rightarrow> RuntimeContext \<Rightarrow> string \<Rightarrow> jdict \<Rightarrow> string" where
  "full_cache_key env c agent_name private =
     rc_context_id c @ '':v'' @ nat_str (rc_version c) @ '':'' @
     json_dumps_sorted (ce_float_repr env)
       (JObj [(''shared'', JObj (merged_shared c)), (''readonly'', JObj (rc_readonly_data c)),
              (''private_agent'', JStr agent_name), (''private'', JObj private),
              (''summary'', JStr (rc_summary c))])"

definition estimate_tokens :: "ctx_env \<Rightarrow> jdict \<Rightarrow> int" where
  "estimate_tokens env payload =
     max 1 ((int (length (json_dumps_sorted (ce_float_repr env) (JObj payload))) + 3) div 4)"

definition ctx_ratio :: "int \<Rightarrow> int \<Rightarrow> rat" where
  "ctx_ratio numerator denominator =
     (if denominator \<le> 0 then 0 else py_round 4 (of_int numerator / of_int denominator))"

section \<open>Compression and roll-back\<close>

definition important_keys :: "string list" where
  "important_keys = [''goal'', ''task'', ''constraints'', ''tool_results'', ''entities'', ''requirements'']"

definition structured_summary :: "string \<Rightarrow> jdict \<Rightarrow> jdict" where
  "structured_summary label payload =
     (let keys = sort (dict_keys payload);
          important = map (\<lambda>key. (key, dict_get payload key JNull)) (filter (\<lambda>key. key \<in> set important_keys) keys)
      in [(''__structured_summary__'', JBool True), (''label'', JStr label),
          (''keys'', JList (map JStr (take 50 keys))), (''important'', JObj important)])"

definition context_backup_of :: "RuntimeContext \<Rightarrow> context_backup" where
  "context_backup_of c =
     \<lparr>cb_shared = rc_shared_data c, cb_private = rc_private_data c, cb_readonly = rc_readonly_data c,
      cb_delta_shared = rc_delta_shared_data c, cb_delta_private = rc_delta_private_data c,
      cb_readonly_versions = rc_readonly_versions c, cb_summary = rc_summary c,
      cb_compressed = rc_compressed c\<rparr>"

definition content_size :: "ctx_env \<Rightarrow> RuntimeContext \<Rightarrow> int" where
  "content_size env c =
     (let dump = (\<lambda>v. int (length (json_dumps_sorted (ce_float_repr env) v)))
      in dump (JObj (if rc_compressed c then rc_delta_shared_data c else rc_shared_data c)) +
         dump (private_json (if rc_compressed c then rc_delta_private_data c else rc_private_data c)) +
         dump (JObj (if rc_compressed c then [] else rc_readonly_data c)))"

definition raw_context :: "ctx_env \<Rightarrow> RuntimeContext \<Rightarrow> string" where
  "raw_context env c =
     json_dumps_sorted (ce_float_repr env)
       (JObj [(''shared'', JObj (merged_shared c)), (''private'', private_json (merged_private c)),
              (''readonly'', JObj (rc_readonly_data c))])"

definition compress_context :: "ctx_env \<Rightarrow> RuntimeContext \<Rightarrow> RuntimeContext" where
  "compress_context env c =
     c\<lparr>rc_previous_versions := rc_previous_versions c @ [context_backup_of c],
       rc_shared_data := structured_summary ''shared'' (merged_shared c),
       rc_private_data := map (\<lambda>(agent, payload). (agent, structured_summary (''private:'' @ agent) payload))
         (merged_private c),
       rc_delta_shared_data := [],
       rc_delta_private_data := [],
       rc_summary := ''structured_summary chars='' @ nat_str (length (raw_context env c)) @
         '' version='' @ nat_str (rc_version c),
       rc_compressed := True,
       rc_version := rc_version c + 1\<rparr>"

definition needs_compression :: "ctx_env \<Rightarrow> ContextManager \<Rightarrow> RuntimeContext \<Rightarrow> bool" where
  "needs_compression env m c \<longleftrightarrow> \<not> content_size env c \<le> cm_compress_threshold_chars m"

definition compress_if_needed :: "ctx_env \<Rightarrow> RuntimeContext \<Rightarrow> ContextManager \<Rightarrow> ContextManager \<times> RuntimeContext" where
  "compress_if_needed env c m =
     (if \<not> needs_compression env m c then (m, c)
      else (m\<lparr>cm_compression_count := cm_compression_count m + 1\<rparr>, compress_context env c))"

definition with_prefix_key :: "ctx_env \<Rightarrow> RuntimeContext \<Rightarrow> RuntimeContext" where
  "with_prefix_key env c =
     (let key = cache_key_of env c in c\<lparr>rc_prefix_cache_key := key, rc_prefix_block_id := prefix_block_id env key\<rparr>)"

definition restore_backup :: "context_backup \<Rightarrow> RuntimeContext \<Rightarrow> RuntimeContext" where
  "restore_backup b c =
     c\<lparr>rc_shared_data := cb_shared b, rc_private_data := cb_private b, rc_readonly_data := cb_readonly b,
       rc_delta_shared_data := cb_delta_shared b, rc_delta_private_data := cb_delta_private b,
       rc_readonly_versions := cb_readonly_versions b, rc_summary := cb_summary b,
       rc_compressed := cb_compressed b, rc_version := rc_version c + 1,
       rc_context_diff := [(''rollback'', JBool True)]\<rparr>"

definition rollback_context :: "ctx_env \<Rightarrow> string \<Rightarrow> ContextManager \<Rightarrow> ContextManager \<times> bool" where
  "rollback_context env context_id m =
     (case map_of (cm_contexts m) context_id of
        None \<Rightarrow> (m, False)
      | Some c \<Rightarrow>
          if rc_previous_versions c = [] then (m, False)
          else (let previous = last (rc_previous_versions c);
                    c1 = c\<lparr>rc_previous_versions := butlast (rc_previous_versions c)\<rparr>;
                    c2 = with_prefix_key env (restore_backup previous c1)
                in (m\<lparr>cm_contexts := dict_set context_id c2 (cm_contexts m)\<rparr>, True)))"

section \<open>Recording\<close>

definition record_shared :: "jdict \<Rightarrow> RuntimeContext \<Rightarrow> RuntimeContext" where
  "record_shared shared_data c =
     (if shared_data = [] then c
      else (let c1 = (if rc_compressed c
                      then c\<lparr>rc_delta_shared_data := dict_update (rc_delta_shared_data c) shared_data\<rparr>
                      else c\<lparr>rc_shared_data := dict_update (rc_shared_data c) shared_data\<rparr>)
            in c1\<lparr>rc_version := rc_version c1 + 1\<rparr>))"

definition record_private :: "string \<Rightarrow> jdict option \<Rightarrow> RuntimeContext \<Rightarrow> RuntimeContext" where
  "record_private agent_name private_data c =
     (case private_data of
        None \<Rightarrow> c
      | Some pd \<Rightarrow>
          (let put = (\<lambda>target. dict_set agent_name (dict_update (dict_get target agent_name []) pd) target);
               c1 = (if rc_compressed c
                     then c\<lparr>rc_delta_private_data := put (rc_delta_private_data c)\<rparr>
                     else c\<lparr>rc_private_data := put (rc_private_data c)\<rparr>)
           in c1\<lparr>rc_version := rc_version c1 + 1\<rparr>))"

definition readonly_changed :: "string \<Rightarrow> json \<Rightarrow> RuntimeContext \<Rightarrow> bool" where
  "readonly_changed key value c =
     (case map_of (rc_readonly_data c) key of None \<Rightarrow> True | Some old \<Rightarrow> \<not> json_eq old value)"

text \<open>One round of the loop over \<open>readonly_data\<close>: the context and \<open>diff["readonly"]\<close>.\<close>

definition record_readonly_item ::
    "ctx_env \<Rightarrow> string \<Rightarrow> string \<times> json \<Rightarrow> RuntimeContext \<times> jdict \<Rightarrow> RuntimeContext \<times> jdict" where
  "record_readonly_item env agent_name kv cd =
     (case (kv, cd) of ((key, value), (c, diff)) \<Rightarrow>
        (let versions = dict_get (rc_readonly_versions c) key [];
             c1 = c\<lparr>rc_readonly_versions := dict_set key versions (rc_readonly_versions c)\<rparr>
         in if readonly_changed key value c1
            then (let obj = \<lparr>co_key = key, co_value = value, co_owner_agent = Some agent_name,
                             co_permission = CP_READONLY, co_version = length versions + 1,
                             co_created_at = fst (ce_stamps env key), co_updated_at = snd (ce_stamps env key)\<rparr>
                  in (c1\<lparr>rc_readonly_versions := dict_set key (versions @ [obj]) (rc_readonly_versions c1),
                         rc_readonly_data := dict_set key value (rc_readonly_data c1)\<rparr>,
                      dict_set key (if co_version obj = 1 then value
                                    else JObj [(''new_version'', JInt (int (co_version obj)))]) diff))
            else (c1, diff)))"

definition record_readonly ::
    "ctx_env \<Rightarrow> string \<Rightarrow> jdict \<Rightarrow> RuntimeContext \<Rightarrow> RuntimeContext \<times> jdict" where
  "record_readonly env agent_name readonly_data c =
     (if readonly_data = [] then (c, [])
      else (case fold (record_readonly_item env agent_name) readonly_data (c, []) of
              (c1, diff) \<Rightarrow> (c1\<lparr>rc_version := rc_version c1 + 1\<rparr>, diff)))"

text \<open>The three parts, the diff and the summary: everything before \<open>_compress_if_needed\<close>.\<close>

definition apply_record ::
    "ctx_env \<Rightarrow> string \<Rightarrow> jdict \<Rightarrow> jdict option \<Rightarrow> jdict \<Rightarrow> RuntimeContext \<Rightarrow> RuntimeContext" where
  "apply_record env agent_name shared_data private_data readonly_data c =
     (let c1 = record_shared shared_data c;
          c2 = record_private agent_name private_data c1;
          (c3, ro) = record_readonly env agent_name readonly_data c2;
          diff = (if shared_data = [] then [] else [(''shared'', JObj shared_data)]) @
                 (case private_data of None \<Rightarrow> [] | Some pd \<Rightarrow> [(''private'', JObj [(agent_name, JObj pd)])]) @
                 (if ro = [] then [] else [(''readonly'', JObj ro)]);
          c4 = c3\<lparr>rc_context_diff := diff\<rparr>
      in c4\<lparr>rc_summary := ctx_summary c4\<rparr>)"

text \<open>The context to write to, touched; it is the last entry of the ordered dictionary.\<close>

definition touch_context :: "ctx_env \<Rightarrow> string \<Rightarrow> ContextManager \<Rightarrow> ContextManager \<times> RuntimeContext" where
  "touch_context env context_id m =
     (case map_of (cm_contexts m) context_id of
        None \<Rightarrow> (m, new_context context_id (ce_touch env))
      | Some c \<Rightarrow> (m\<lparr>cm_reuse_hits := cm_reuse_hits m + 1\<rparr>,
                   c\<lparr>rc_updated_at := ce_touch env, rc_reuse_count := rc_reuse_count c + 1\<rparr>))"

definition evict_expired :: "ctx_env \<Rightarrow> ContextManager \<Rightarrow> ContextManager" where
  "evict_expired env m =
     (if cm_ttl_seconds m \<le> 0 then m
      else m\<lparr>cm_contexts :=
          filter (\<lambda>(i, c). \<not> ce_evict env - rc_updated_at c > of_int (cm_ttl_seconds m)) (cm_contexts m)\<rparr>)"

fun evict_lru_loop :: "int \<Rightarrow> 'v dict \<Rightarrow> 'v dict \<times> (py_error + unit)" where
  "evict_lru_loop max_contexts [] =
     (if 0 > max_contexts then ([], Inl (KeyError ''dictionary is empty'')) else ([], Inr ()))"
| "evict_lru_loop max_contexts (x # xs) =
     (if int (length (x # xs)) > max_contexts then evict_lru_loop max_contexts xs else (x # xs, Inr ()))"

definition evict_lru :: "(ContextManager, unit) eff" where
  "evict_lru m = (case evict_lru_loop (cm_max_contexts m) (cm_contexts m) of
     (d, r) \<Rightarrow> (m\<lparr>cm_contexts := d\<rparr>, r))"

definition record_task_context ::
    "ctx_env \<Rightarrow> string \<Rightarrow> string \<Rightarrow> jdict \<Rightarrow> jdict option \<Rightarrow> jdict \<Rightarrow> (ContextManager, RuntimeContext) eff" where
  "record_task_context env context_id agent_name shared_data private_data readonly_data m =
     (let (m1, c) = touch_context env context_id m;
          (m2, c2) = compress_if_needed env (apply_record env agent_name shared_data private_data readonly_data c) m1;
          c3 = with_prefix_key env c2;
          m3 = m2\<lparr>cm_contexts := put_last context_id c3 (cm_contexts m2)\<rparr>
      in case evict_lru (evict_expired env m3) of
           (m4, Inl e) \<Rightarrow> (m4, Inl e)
         | (m4, Inr u) \<Rightarrow> (m4, Inr c3))"

text \<open>\<open>patch.get(k) if isinstance(patch.get(k), dict) else None\<close>.\<close>

definition patch_part :: "jdict \<Rightarrow> string \<Rightarrow> jdict option" where
  "patch_part patch k = (case map_of patch k of Some (JObj d) \<Rightarrow> Some d | _ \<Rightarrow> None)"

definition update_context ::
    "ctx_env \<Rightarrow> string \<Rightarrow> string \<Rightarrow> jdict \<Rightarrow> (ContextManager, RuntimeContext) eff" where
  "update_context env context_id agent_name patch =
     record_task_context env context_id agent_name
       (case patch_part patch ''shared'' of Some d \<Rightarrow> d | None \<Rightarrow> [])
       (patch_part patch ''private'')
       (case patch_part patch ''readonly'' of Some d \<Rightarrow> d | None \<Rightarrow> [])"

text \<open>\<open>model_dump(mode="json")\<close> of the versions; \<open>stamp\<close> prints a \<open>datetime\<close>.\<close>

definition context_object_dump :: "(int \<Rightarrow> string) \<Rightarrow> ContextObject \<Rightarrow> jdict" where
  "context_object_dump stamp o1 =
     [(''key'', JStr (co_key o1)), (''value'', co_value o1),
      (''owner_agent'', case co_owner_agent o1 of Some a \<Rightarrow> JStr a | None \<Rightarrow> JNull),
      (''permission'', JStr (permission_value (co_permission o1))),
      (''version'', JInt (int (co_version o1))),
      (''created_at'', JStr (stamp (co_created_at o1))), (''updated_at'', JStr (stamp (co_updated_at o1)))]"

definition readonly_history :: "(int \<Rightarrow> string) \<Rightarrow> string \<Rightarrow> string \<Rightarrow> ContextManager \<Rightarrow> jdict list" where
  "readonly_history stamp context_id key m =
     (case map_of (cm_contexts m) context_id of
        None \<Rightarrow> []
      | Some c \<Rightarrow> map (context_object_dump stamp) (dict_get (rc_readonly_versions c) key []))"

section \<open>Building\<close>

definition missing_context_view :: "string \<Rightarrow> jdict" where
  "missing_context_view context_id =
     [(''context_id'', JStr context_id), (''shared'', JObj []), (''private'', JObj []),
      (''readonly'', JObj []), (''compressed'', JBool False),
      (''semantic'', JObj
        [(''shared_context'', JObj []), (''private_context'', JObj []), (''readonly_context'', JObj []),
         (''context_version'', JInt 0), (''context_diff'', JObj []), (''summary'', JStr []),
         (''version'', JInt 0), (''shared_keys'', JList []), (''private_keys'', JList []),
         (''readonly_keys'', JList [])]),
      (''execution'', JObj
        [(''prefix_cache_key'', JStr []), (''prefix_hash'', JStr []), (''prefix_block_id'', JStr []),
         (''reuse_count'', JInt 0), (''token_count'', JInt 0), (''input_token_before'', JInt 0),
         (''input_token_after'', JInt 0), (''reused_tokens'', JInt 0), (''saved_tokens'', JInt 0),
         (''cache_hit'', JBool False), (''logical_context_reuse_hit'', JBool False),
         (''cache_hit_ratio'', JFloat 0)])]"

text \<open>The quantities one build computes from the context and the two caches.\<close>

record build_figures =
  bf_token_count :: int
  bf_cache_key :: string
  bf_block_id :: string
  bf_full_key :: string
  bf_prefix_tokens :: int
  bf_prefix_hit :: bool
  bf_full_hit :: bool
  bf_reused :: int
  bf_saved :: int
  bf_input_after :: int
  bf_build_time_ms :: rat

definition figures_of :: "ctx_env \<Rightarrow> string \<Rightarrow> RuntimeContext \<Rightarrow> ContextManager \<Rightarrow> build_figures" where
  "figures_of env agent_name c m =
     (let shared = merged_shared c; private = agent_private agent_name c; readonly = rc_readonly_data c;
          token_count = estimate_tokens env
            [(''shared'', JObj shared), (''private'', JObj private), (''readonly'', JObj readonly)];
          key = (if rc_prefix_cache_key c \<noteq> [] then rc_prefix_cache_key c else cache_key_of env c);
          full_key = full_cache_key env c agent_name private;
          previous_prefix_tokens = map_of (cm_shared_prefix_cache m) key;
          previous_tokens = map_of (cm_execution_cache m) full_key;
          reused = (case previous_tokens of Some n \<Rightarrow> n
                    | None \<Rightarrow> (case previous_prefix_tokens of Some n \<Rightarrow> n | None \<Rightarrow> 0));
          saved = min reused token_count
      in \<lparr>bf_token_count = token_count, bf_cache_key = key,
          bf_block_id = (if rc_prefix_block_id c \<noteq> [] then rc_prefix_block_id c else prefix_block_id env key),
          bf_full_key = full_key,
          bf_prefix_tokens = estimate_tokens env
            [(''shared'', JObj shared), (''readonly'', JObj readonly), (''summary'', JStr (rc_summary c))],
          bf_prefix_hit = (previous_prefix_tokens \<noteq> None),
          bf_full_hit = (previous_tokens \<noteq> None),
          bf_reused = reused, bf_saved = saved, bf_input_after = max (token_count - saved) 0,
          bf_build_time_ms = py_round 3 (ce_perf env * 1000)\<rparr>)"

definition account_context :: "build_figures \<Rightarrow> RuntimeContext \<Rightarrow> RuntimeContext" where
  "account_context f c =
     c\<lparr>rc_original_tokens := rc_original_tokens c + bf_token_count f,
       rc_saved_tokens := rc_saved_tokens c + bf_saved f,
       rc_build_time_ms_total := rc_build_time_ms_total c + bf_build_time_ms f,
       rc_cache_hits := rc_cache_hits c + (if bf_full_hit f then 1 else 0)\<rparr>"

definition account_manager :: "build_figures \<Rightarrow> ContextManager \<Rightarrow> ContextManager" where
  "account_manager f m =
     m\<lparr>cm_original_tokens := cm_original_tokens m + bf_token_count f,
       cm_saved_tokens := cm_saved_tokens m + bf_saved f,
       cm_input_tokens_after := cm_input_tokens_after m + bf_input_after f,
       cm_build_time_ms_total := cm_build_time_ms_total m + bf_build_time_ms f,
       cm_shared_prefix_hits := cm_shared_prefix_hits m + (if bf_prefix_hit f then 1 else 0),
       cm_cache_hits := cm_cache_hits m + (if bf_full_hit f then 1 else 0),
       cm_shared_prefix_cache := dict_set (bf_cache_key f) (bf_prefix_tokens f) (cm_shared_prefix_cache m),
       cm_execution_cache := dict_set (bf_full_key f) (bf_token_count f) (cm_execution_cache m)\<rparr>"

definition keys_json :: "jdict \<Rightarrow> json" where
  "keys_json d = JList (map JStr (sort (dict_keys d)))"

definition context_view :: "ctx_env \<Rightarrow> string \<Rightarrow> build_figures \<Rightarrow> RuntimeContext \<Rightarrow> ContextManager \<Rightarrow> jdict" where
  "context_view env agent_name f c m =
     (let shared = merged_shared c; private = agent_private agent_name c; readonly = rc_readonly_data c;
          hash = prefix_hash env (bf_cache_key f);
          hits = JFloat (ctx_ratio (int (cm_cache_hits m)) (int (cm_build_hits m)))
      in [(''context_id'', JStr (rc_context_id c)), (''shared'', JObj shared), (''private'', JObj private),
          (''readonly'', JObj readonly), (''compressed'', JBool (rc_compressed c)),
          (''semantic'', JObj
            [(''shared_context'', JObj shared), (''private_context'', JObj private),
             (''readonly_context'', JObj readonly), (''context_version'', JInt (int (rc_version c))),
             (''context_diff'', JObj (rc_context_diff c)), (''summary'', JStr (rc_summary c)),
             (''version'', JInt (int (rc_version c))), (''shared_keys'', keys_json shared),
             (''private_keys'', keys_json private), (''readonly_keys'', keys_json readonly)]),
          (''execution'', JObj
            [(''prefix_cache_key'', JStr (bf_cache_key f)), (''prefix_hash'', JStr hash),
             (''shared_prefix_hash'', JStr hash),
             (''full_execution_context_hash'', JStr (prefix_hash env (bf_full_key f))),
             (''prefix_block_id'', JStr (bf_block_id f)), (''reuse_count'', JInt (int (rc_reuse_count c))),
             (''token_count'', JInt (bf_token_count f)), (''input_token_before'', JInt (bf_token_count f)),
             (''input_token_after'', JInt (bf_input_after f)), (''reused_tokens'', JInt (bf_reused f)),
             (''saved_tokens'', JInt (bf_saved f)), (''cache_hit'', JBool (bf_full_hit f)),
             (''logical_context_reuse_hit'', JBool (bf_full_hit f)),
             (''prefix_cache_hit'', JBool (bf_prefix_hit f)), (''shared_prefix_hit'', JBool (bf_prefix_hit f)),
             (''full_context_hit'', JBool (bf_full_hit f)), (''cache_hit_ratio'', hits),
             (''logical_context_reuse_hit_ratio'', hits),
             (''shared_prefix_hit_ratio'',
                JFloat (ctx_ratio (int (cm_shared_prefix_hits m)) (int (cm_build_hits m)))),
             (''full_context_hit_ratio'', hits), (''context_build_time_ms'', JFloat (bf_build_time_ms f))])])"

definition build_agent_context ::
    "ctx_env \<Rightarrow> string \<Rightarrow> string \<Rightarrow> ContextManager \<Rightarrow> ContextManager \<times> jdict" where
  "build_agent_context env context_id agent_name m =
     (case map_of (cm_contexts m) context_id of
        None \<Rightarrow> (m, missing_context_view context_id)
      | Some c0 \<Rightarrow>
          (let c = c0\<lparr>rc_updated_at := ce_touch env\<rparr>;
               m1 = m\<lparr>cm_build_hits := cm_build_hits m + 1\<rparr>;
               f = figures_of env agent_name c m1;
               c' = account_context f c;
               m2 = account_manager f m1;
               m3 = m2\<lparr>cm_contexts := put_last context_id c' (cm_contexts m2)\<rparr>
           in (m3, context_view env agent_name f c' m3)))"

definition get_metrics :: "ContextManager \<Rightarrow> jdict" where
  "get_metrics m =
     (let hits = JFloat (ctx_ratio (int (cm_cache_hits m)) (int (cm_build_hits m)));
          prefix = JFloat (ctx_ratio (int (cm_shared_prefix_hits m)) (int (cm_build_hits m)));
          saving = JFloat (ctx_ratio (cm_saved_tokens m) (cm_original_tokens m))
      in [(''total_contexts'', JInt (int (length (cm_contexts m)))),
          (''reuse_hits'', JInt (int (cm_reuse_hits m))),
          (''compression_count'', JInt (int (cm_compression_count m))),
          (''build_hits'', JInt (int (cm_build_hits m))), (''cache_hits'', JInt (int (cm_cache_hits m))),
          (''cache_hit_ratio'', hits), (''shared_prefix_hits'', JInt (int (cm_shared_prefix_hits m))),
          (''shared_prefix_hit_ratio'', prefix), (''full_context_hits'', JInt (int (cm_cache_hits m))),
          (''full_context_hit_ratio'', hits), (''original_tokens'', JInt (cm_original_tokens m)),
          (''saved_tokens'', JInt (cm_saved_tokens m)), (''input_token_before'', JInt (cm_original_tokens m)),
          (''input_token_after'', JInt (cm_input_tokens_after m)), (''token_saved_ratio'', saving),
          (''token_saving_ratio'', saving),
          (''context_build_time_ms'', JFloat (py_round 3 (cm_build_time_ms_total m))),
          (''context_build_time_ms_avg'',
             JFloat (if cm_build_hits m \<noteq> 0
                     then py_round 3 (cm_build_time_ms_total m / of_nat (cm_build_hits m)) else 0)),
          (''prefix_hit_ratio'', prefix), (''logical_context_reuse_hits'', JInt (int (cm_cache_hits m))),
          (''logical_context_reuse_hit_ratio'', hits)])"

end
