(* ===== verification/Context_Properties.thy ===== *)
theory Context_Properties
  imports Context_Manager
begin

text \<open>
  What the context manager promises: it keeps the most recently used contexts (stated once for any
  recency-ordered store, and interpreted on the manager), read-only histories are numbered and
  agree with the current values, one agent's records do not change another agent's private view,
  roll-back undoes a compression, and the token account balances.
\<close>

section \<open>Stores ordered by recency\<close>

definition keep_last :: "nat \<Rightarrow> 'a list \<Rightarrow> 'a list" where
  "keep_last n xs = drop (length xs - n) xs"

definition to_end :: "'a \<Rightarrow> 'a list \<Rightarrow> 'a list" where
  "to_end k xs = remove1 k xs @ [k]"

lemma length_keep_last [simp]: "length (keep_last n xs) = min n (length xs)"
  by (simp add: keep_last_def)

lemma keep_last_short [simp]: "length xs \<le> n \<Longrightarrow> keep_last n xs = xs"
  by (simp add: keep_last_def)

lemma keep_last_append: "n \<le> length b \<Longrightarrow> keep_last n (a @ b) = keep_last n b"
  by (simp add: keep_last_def)

lemma distinct_to_end: "distinct xs \<Longrightarrow> distinct (to_end k xs)"
  by (simp add: to_end_def)

lemma distinct_keep_last: "distinct xs \<Longrightarrow> distinct (keep_last n xs)"
  by (simp add: keep_last_def)

text \<open>The stack property: what a store of capacity \<open>n\<close> holds does not depend on what it dropped.\<close>

lemma keep_last_to_end:
  assumes "0 < n" and d: "distinct xs"
  shows "keep_last n (to_end k (keep_last n xs)) = keep_last n (to_end k xs)"
proof (cases "length xs \<le> n")
  case False
  define a b where "a = take (length xs - n) xs" and "b = keep_last n xs"
  have xs: "xs = a @ b" by (simp add: a_def b_def keep_last_def)
  have lb: "length b = n" using False by (simp add: b_def)
  show ?thesis
  proof (cases "k \<in> set b")
    case True
    then have "k \<notin> set a" using d xs by auto
    then have "to_end k xs = a @ to_end k b" by (simp add: xs to_end_def remove1_append)
    moreover have "length (to_end k b) = n" using True lb assms(1) by (simp add: to_end_def length_remove1)
    ultimately show ?thesis by (simp add: keep_last_append b_def[symmetric])
  next
    case False
    then have "to_end k xs = remove1 k a @ to_end k b" by (simp add: xs to_end_def remove1_append remove1_idem)
    moreover have "n \<le> length (to_end k b)" using False lb by (simp add: to_end_def length_remove1)
    ultimately show ?thesis by (simp add: keep_last_append b_def[symmetric])
  qed
qed simp

text \<open>
  A store that keeps \<open>cap\<close> entries in the order of their last use. \<open>touch\<close> is the whole operation
  that uses an entry, with whatever argument it takes.
\<close>

locale recency_store =
  fixes order :: "'s \<Rightarrow> 'k list"
    and touch :: "'k \<Rightarrow> 'x \<Rightarrow> 's \<Rightarrow> 's"
    and inv :: "'s \<Rightarrow> bool"
    and cap :: nat
  assumes cap_pos: "0 < cap"
    and order_distinct: "inv s \<Longrightarrow> distinct (order s)"
    and touch_inv: "inv s \<Longrightarrow> inv (touch k x s)"
    and touch_order: "inv s \<Longrightarrow> order (touch k x s) = keep_last cap (to_end k (order s))"
begin

lemma fold_inv: "inv s \<Longrightarrow> inv (fold (\<lambda>(k, x). touch k x) ps s)"
  by (induction ps arbitrary: s) (auto simp: touch_inv)

lemma bounded: "inv s \<Longrightarrow> length (order (touch k x s)) \<le> cap"
  by (simp add: touch_order)

lemma last_kept: "inv s \<Longrightarrow> k \<in> set (order (touch k x s))"
proof -
  assume "inv s"
  have "keep_last cap (to_end k (order s)) \<noteq> []" using cap_pos by (simp add: keep_last_def to_end_def)
  moreover have "last (to_end k (order s)) = k" by (simp add: to_end_def)
  ultimately show ?thesis using touch_order[OF \<open>inv s\<close>]
    by (metis keep_last_def last_drop last_in_set drop_eq_Nil not_le)
qed

lemma most_recent:
  "inv s \<Longrightarrow> length (order s) \<le> cap \<Longrightarrow>
   order (fold (\<lambda>(k, x). touch k x) ps s) = keep_last cap (fold (\<lambda>p. to_end (fst p)) ps (order s))"
proof (induction ps rule: rev_induct)
  case (snoc p ps)
  have d: "distinct (fold (\<lambda>p. to_end (fst p)) ps (order s))"
    using order_distinct[OF snoc.prems(1)] by (induction ps rule: rev_induct) (auto simp: distinct_to_end)
  obtain k x where p: "p = (k, x)" by (cases p)
  have "order (touch k x (fold (\<lambda>(k, x). touch k x) ps s)) =
      keep_last cap (to_end k (order (fold (\<lambda>(k, x). touch k x) ps s)))"
    by (rule touch_order) (rule fold_inv[OF snoc.prems(1)])
  also have "\<dots> = keep_last cap (to_end k (fold (\<lambda>p. to_end (fst p)) ps (order s)))"
    using snoc by (simp add: keep_last_to_end[OF cap_pos d])
  finally show ?case by (simp add: p)
qed simp

end

section \<open>The manager as such a store\<close>

lemma dict_keys_put_last: "distinct (dict_keys d) \<Longrightarrow> dict_keys (put_last k v d) = to_end k (dict_keys d)"
  by (simp add: put_last_def to_end_def delete_keys distinct_remove1_removeAll)

lemma evict_lru_loop_keep:
  "0 \<le> n \<Longrightarrow> evict_lru_loop n d = (keep_last (nat n) d, Inr ())"
proof (induction n d rule: evict_lru_loop.induct)
  case (2 n x xs)
  then show ?case by (auto simp: keep_last_def Suc_diff_le not_less)
qed simp

lemma keep_last_map: "keep_last n (map f xs) = map f (keep_last n xs)"
  by (simp add: keep_last_def drop_map)

lemma touch_context_frame:
  "cm_contexts (fst (touch_context env i m)) = cm_contexts m"
  "cm_max_contexts (fst (touch_context env i m)) = cm_max_contexts m"
  "cm_ttl_seconds (fst (touch_context env i m)) = cm_ttl_seconds m"
  "cm_compress_threshold_chars (fst (touch_context env i m)) = cm_compress_threshold_chars m"
  by (simp_all add: touch_context_def split: option.splits)

lemma compress_frame:
  "cm_contexts (fst (compress_if_needed env c m)) = cm_contexts m"
  "cm_max_contexts (fst (compress_if_needed env c m)) = cm_max_contexts m"
  "cm_ttl_seconds (fst (compress_if_needed env c m)) = cm_ttl_seconds m"
  by (simp_all add: compress_if_needed_def)

text \<open>The context a record leaves behind, before eviction.\<close>

definition recorded ::
    "ctx_env \<Rightarrow> string \<Rightarrow> string \<Rightarrow> jdict \<Rightarrow> jdict option \<Rightarrow> jdict \<Rightarrow> ContextManager \<Rightarrow> RuntimeContext" where
  "recorded env i a sd pd rd m =
     with_prefix_key env (snd (compress_if_needed env (apply_record env a sd pd rd (snd (touch_context env i m))) m))"

lemma needs_compression_frame:
  "cm_compress_threshold_chars m' = cm_compress_threshold_chars m \<Longrightarrow>
   snd (compress_if_needed env c m') = snd (compress_if_needed env c m)"
  by (simp add: compress_if_needed_def needs_compression_def)

definition unexpired :: "ctx_env \<Rightarrow> int \<Rightarrow> RuntimeContext dict \<Rightarrow> RuntimeContext dict" where
  "unexpired env ttl d =
     (if ttl \<le> 0 then d else filter (\<lambda>(i, c). \<not> ce_evict env - rc_updated_at c > of_int ttl) d)"

lemma evict_both:
  assumes "0 \<le> cm_max_contexts m"
  shows "evict_lru (evict_expired env m) =
    (m\<lparr>cm_contexts := keep_last (nat (cm_max_contexts m)) (unexpired env (cm_ttl_seconds m) (cm_contexts m))\<rparr>, Inr ())"
  using assms by (simp add: evict_lru_def evict_expired_def unexpired_def evict_lru_loop_keep)

lemma record_contexts:
  assumes "0 \<le> cm_max_contexts m"
  shows "snd (record_task_context env i a sd pd rd m) = Inr (recorded env i a sd pd rd m)"
    and "cm_contexts (fst (record_task_context env i a sd pd rd m)) =
      keep_last (nat (cm_max_contexts m))
        (unexpired env (cm_ttl_seconds m) (put_last i (recorded env i a sd pd rd m) (cm_contexts m)))"
    and "cm_max_contexts (fst (record_task_context env i a sd pd rd m)) = cm_max_contexts m"
    and "cm_ttl_seconds (fst (record_task_context env i a sd pd rd m)) = cm_ttl_seconds m"
    and "cm_compress_threshold_chars (fst (record_task_context env i a sd pd rd m)) = cm_compress_threshold_chars m"
proof -
  obtain m1 c where t: "touch_context env i m = (m1, c)" by (cases "touch_context env i m")
  obtain m2 c2 where k: "compress_if_needed env (apply_record env a sd pd rd c) m1 = (m2, c2)"
    by (cases "compress_if_needed env (apply_record env a sd pd rd c) m1")
  have f1: "cm_contexts m1 = cm_contexts m" "cm_max_contexts m1 = cm_max_contexts m"
      "cm_ttl_seconds m1 = cm_ttl_seconds m" "cm_compress_threshold_chars m1 = cm_compress_threshold_chars m"
    using touch_context_frame[of env i m] t by simp_all
  have f2: "cm_contexts m2 = cm_contexts m" "cm_max_contexts m2 = cm_max_contexts m"
      "cm_ttl_seconds m2 = cm_ttl_seconds m"
    using compress_frame[of env "apply_record env a sd pd rd c" m1] k f1 by simp_all
  have f3: "cm_compress_threshold_chars m2 = cm_compress_threshold_chars m"
    using k f1(4) by (auto simp: compress_if_needed_def split: if_splits)
  have c2: "recorded env i a sd pd rd m = with_prefix_key env c2"
    using needs_compression_frame[OF f1(4), of env "apply_record env a sd pd rd c"] t k by (simp add: recorded_def)
  let ?m3 = "m2\<lparr>cm_contexts := put_last i (with_prefix_key env c2) (cm_contexts m)\<rparr>"
  have max3: "0 \<le> cm_max_contexts ?m3" using assms f2 by simp
  have eq: "record_task_context env i a sd pd rd m =
      (?m3\<lparr>cm_contexts := keep_last (nat (cm_max_contexts m))
         (unexpired env (cm_ttl_seconds m) (put_last i (recorded env i a sd pd rd m) (cm_contexts m)))\<rparr>,
       Inr (recorded env i a sd pd rd m))"
    by (simp add: record_task_context_def Let_def t k c2 f2 evict_both[OF max3])
  show "snd (record_task_context env i a sd pd rd m) = Inr (recorded env i a sd pd rd m)"
    "cm_contexts (fst (record_task_context env i a sd pd rd m)) =
      keep_last (nat (cm_max_contexts m))
        (unexpired env (cm_ttl_seconds m) (put_last i (recorded env i a sd pd rd m) (cm_contexts m)))"
    "cm_max_contexts (fst (record_task_context env i a sd pd rd m)) = cm_max_contexts m"
    "cm_ttl_seconds (fst (record_task_context env i a sd pd rd m)) = cm_ttl_seconds m"
    "cm_compress_threshold_chars (fst (record_task_context env i a sd pd rd m)) = cm_compress_threshold_chars m"
    by (simp_all add: eq f2 f3)
qed


type_synonym record_args = "ctx_env \<times> string \<times> jdict \<times> jdict option \<times> jdict"

definition record_call :: "string \<Rightarrow> record_args \<Rightarrow> ContextManager \<Rightarrow> ContextManager" where
  "record_call i x m = (case x of (env, a, sd, pd, rd) \<Rightarrow> fst (record_task_context env i a sd pd rd m))"

definition lru_inv :: "nat \<Rightarrow> ContextManager \<Rightarrow> bool" where
  "lru_inv n m \<longleftrightarrow> distinct (dict_keys (cm_contexts m)) \<and> cm_max_contexts m = int n \<and> cm_ttl_seconds m \<le> 0"

interpretation ctx_lru: recency_store "\<lambda>m. dict_keys (cm_contexts m)" record_call "lru_inv (Suc n)" "Suc n" for n
proof
  fix m k and x :: record_args
  obtain env a sd pd rd where x: "x = (env, a, sd, pd, rd)" by (cases x)
  assume inv: "lru_inv (Suc n) m"
  then have d: "distinct (dict_keys (cm_contexts m))" and mx: "0 \<le> cm_max_contexts m"
      and cap: "nat (cm_max_contexts m) = Suc n" and ttl: "cm_ttl_seconds m \<le> 0"
    by (simp_all add: lru_inv_def)
  show "distinct (dict_keys (cm_contexts m))" by (rule d)
  show ord: "dict_keys (cm_contexts (record_call k x m)) = keep_last (Suc n) (to_end k (dict_keys (cm_contexts m)))"
    using dict_keys_put_last[OF d, of k] ttl
    by (simp add: record_call_def x record_contexts(2)[OF mx] unexpired_def keep_last_map[symmetric] cap)
  show "lru_inv (Suc n) (record_call k x m)"
    using inv distinct_keep_last[OF distinct_to_end[OF d, of k], of "Suc n"] ord
    by (simp add: lru_inv_def) (simp add: record_call_def x record_contexts(3,4)[OF mx])
qed simp

section \<open>Read-only histories\<close>

text \<open>
  Every history is numbered from one, belongs to its key, has no two equal neighbours, and ends
  with the current value of the key.
\<close>

definition history_ok :: "jdict \<Rightarrow> string \<Rightarrow> ContextObject list \<Rightarrow> bool" where
  "history_ok data key vs \<longleftrightarrow>
     map co_version vs = [1..<Suc (length vs)] \<and>
     (\<forall>v \<in> set vs. co_key v = key \<and> co_permission v = CP_READONLY) \<and>
     successively (\<lambda>v w. \<not> json_eq (co_value v) (co_value w)) vs \<and>
     map_of data key = (if vs = [] then None else Some (co_value (last vs)))"

definition readonly_ok :: "jdict \<Rightarrow> ContextObject list dict \<Rightarrow> bool" where
  "readonly_ok data rv \<longleftrightarrow> (\<forall>key. history_ok data key (dict_get rv key []))"

definition context_ok :: "RuntimeContext \<Rightarrow> bool" where
  "context_ok c \<longleftrightarrow> readonly_ok (rc_readonly_data c) (rc_readonly_versions c) \<and>
     (\<forall>b \<in> set (rc_previous_versions c). readonly_ok (cb_readonly b) (cb_readonly_versions b))"

lemma readonly_ok_setdefault:
  "readonly_ok data (dict_set key (dict_get rv key []) rv) \<longleftrightarrow> readonly_ok data rv"
  by (auto simp: readonly_ok_def)

lemma history_ok_other:
  "k \<noteq> key \<Longrightarrow> history_ok (dict_set key value data) k vs \<longleftrightarrow> history_ok data k vs"
  by (simp add: history_ok_def)

lemma history_ok_push:
  assumes "history_ok data key vs" and "case map_of data key of None \<Rightarrow> True | Some old \<Rightarrow> \<not> json_eq old (co_value obj)"
    and "co_version obj = length vs + 1" "co_key obj = key" "co_permission obj = CP_READONLY"
  shows "history_ok (dict_set key (co_value obj) data) key (vs @ [obj])"
  using assms by (auto simp: history_ok_def successively_append_iff split: if_splits)

lemma record_readonly_item_ok:
  assumes "context_ok c"
  shows "context_ok (fst (record_readonly_item env a kv (c, diff)))"
proof -
  obtain key w where kv: "kv = (key, w)" by (cases kv)
  let ?vs = "dict_get (rc_readonly_versions c) key []"
  let ?c1 = "c\<lparr>rc_readonly_versions := dict_set key ?vs (rc_readonly_versions c)\<rparr>"
  have ok: "readonly_ok (rc_readonly_data c) (rc_readonly_versions c)" using assms by (simp add: context_ok_def)
  show ?thesis
  proof (cases "readonly_changed key w ?c1")
    case False
    then show ?thesis
      using assms by (simp add: record_readonly_item_def kv context_ok_def readonly_ok_setdefault)
  next
    case True
    let ?o = "\<lparr>co_key = key, co_value = w, co_owner_agent = Some a, co_permission = CP_READONLY,
      co_version = length ?vs + 1, co_created_at = fst (ce_stamps env key), co_updated_at = snd (ce_stamps env key)\<rparr>"
    have "history_ok (dict_set key (co_value ?o) (rc_readonly_data c)) key (?vs @ [?o])"
      using ok True by (intro history_ok_push) (simp_all add: readonly_ok_def readonly_changed_def split: option.splits)
    then have "readonly_ok (dict_set key w (rc_readonly_data c))
        (dict_set key (?vs @ [?o]) (dict_set key ?vs (rc_readonly_versions c)))"
      using ok by (simp add: readonly_ok_def history_ok_other)
    then show ?thesis
      using True assms by (simp add: record_readonly_item_def kv context_ok_def Let_def)
  qed
qed

lemma fold_readonly_ok: "context_ok c \<Longrightarrow> context_ok (fst (fold (record_readonly_item env a) rd (c, diff)))"
proof (induction rd arbitrary: c diff)
  case (Cons kv rd)
  obtain c' d' where e: "record_readonly_item env a kv (c, diff) = (c', d')"
    by (cases "record_readonly_item env a kv (c, diff)")
  then have "context_ok c'" using record_readonly_item_ok[OF Cons.prems, of env a kv diff] by simp
  then show ?case using Cons.IH by (simp add: e)
qed simp

lemma context_ok_cong:
  "rc_readonly_data c' = rc_readonly_data c \<Longrightarrow> rc_readonly_versions c' = rc_readonly_versions c \<Longrightarrow>
   rc_previous_versions c' = rc_previous_versions c \<Longrightarrow> context_ok c' = context_ok c"
  by (simp add: context_ok_def)

lemma record_parts_frame:
  "rc_readonly_data (record_shared sd c) = rc_readonly_data c"
  "rc_readonly_versions (record_shared sd c) = rc_readonly_versions c"
  "rc_previous_versions (record_shared sd c) = rc_previous_versions c"
  "rc_readonly_data (record_private a pd c) = rc_readonly_data c"
  "rc_readonly_versions (record_private a pd c) = rc_readonly_versions c"
  "rc_previous_versions (record_private a pd c) = rc_previous_versions c"
  by (simp_all add: record_shared_def record_private_def Let_def split: option.splits)

lemma record_readonly_ok: "context_ok c \<Longrightarrow> context_ok (fst (record_readonly env a rd c))"
  using fold_readonly_ok[of c env a rd "[]"]
  by (auto simp: record_readonly_def context_ok_def split: prod.splits)

lemma apply_record_ok: "context_ok c \<Longrightarrow> context_ok (apply_record env a sd pd rd c)"
proof -
  assume c: "context_ok c"
  then have "context_ok (record_private a pd (record_shared sd c))"
    by (subst context_ok_cong[of _ c]) (simp_all add: record_parts_frame)
  then have "context_ok (fst (record_readonly env a rd (record_private a pd (record_shared sd c))))"
    by (rule record_readonly_ok)
  moreover obtain c3 ro where "record_readonly env a rd (record_private a pd (record_shared sd c)) = (c3, ro)"
    by (cases "record_readonly env a rd (record_private a pd (record_shared sd c))")
  ultimately show ?thesis by (simp add: apply_record_def Let_def context_ok_def)
qed

lemma compress_context_ok: "context_ok c \<Longrightarrow> context_ok (compress_context env c)"
  by (auto simp: compress_context_def context_ok_def context_backup_of_def)

lemma context_ok_prefix: "context_ok (with_prefix_key env c) = context_ok c"
  by (simp add: with_prefix_key_def context_ok_def Let_def)

lemma new_context_ok: "context_ok (new_context i now)"
  by (simp add: new_context_def context_ok_def readonly_ok_def history_ok_def)

lemma touch_context_ok:
  assumes "\<forall>c \<in> snd ` set (cm_contexts m). context_ok c"
  shows "context_ok (snd (touch_context env i m))"
proof (cases "map_of (cm_contexts m) i")
  case None
  then show ?thesis by (simp add: touch_context_def new_context_ok)
next
  case (Some c)
  then have "context_ok c" using assms by (force dest: map_of_SomeD)
  with Some show ?thesis by (simp add: touch_context_def context_ok_def)
qed

section \<open>Reachable managers\<close>

datatype ctx_op =
    CRecord ctx_env string string jdict "jdict option" jdict
  | CUpdate ctx_env string string jdict
  | CBuild ctx_env string string
  | CRollback ctx_env string

fun ctx_apply :: "ctx_op \<Rightarrow> ContextManager \<Rightarrow> ContextManager" where
  "ctx_apply (CRecord env i a sd pd rd) m = fst (record_task_context env i a sd pd rd m)"
| "ctx_apply (CUpdate env i a patch) m = fst (update_context env i a patch m)"
| "ctx_apply (CBuild env i a) m = fst (build_agent_context env i a m)"
| "ctx_apply (CRollback env i) m = fst (rollback_context env i m)"

inductive ctx_reach :: "ContextManager \<Rightarrow> bool" where
  ctx_start: "ctx_reach (context_manager_init threshold max_contexts ttl)"
| ctx_step: "ctx_reach m \<Longrightarrow> ctx_reach (ctx_apply oper m)"

definition private_ok :: "RuntimeContext \<Rightarrow> bool" where
  "private_ok c \<longleftrightarrow> distinct (dict_keys (rc_delta_private_data c)) \<and>
     (\<forall>b \<in> set (rc_previous_versions c). distinct (dict_keys (cb_delta_private b)))"

text \<open>What is true of the stored contexts.\<close>

definition stored_ok :: "string \<times> RuntimeContext \<Rightarrow> bool" where
  "stored_ok p \<longleftrightarrow> rc_context_id (snd p) = fst p \<and> context_ok (snd p) \<and> private_ok (snd p) \<and>
     0 \<le> rc_saved_tokens (snd p) \<and> rc_saved_tokens (snd p) \<le> rc_original_tokens (snd p)"

text \<open>The account of the manager.\<close>

definition account_ok :: "ContextManager \<Rightarrow> bool" where
  "account_ok m \<longleftrightarrow>
     cm_original_tokens m = cm_saved_tokens m + cm_input_tokens_after m \<and>
     0 \<le> cm_saved_tokens m \<and> 0 \<le> cm_input_tokens_after m \<and>
     cm_cache_hits m \<le> cm_build_hits m \<and> cm_shared_prefix_hits m \<le> cm_build_hits m \<and>
     (\<forall>n \<in> snd ` set (cm_execution_cache m). 1 \<le> n) \<and> (\<forall>n \<in> snd ` set (cm_shared_prefix_cache m). 1 \<le> n)"

definition ctx_inv :: "ContextManager \<Rightarrow> bool" where
  "ctx_inv m \<longleftrightarrow> distinct (dict_keys (cm_contexts m)) \<and> (\<forall>p \<in> set (cm_contexts m). stored_ok p) \<and> account_ok m"

lemma account_ok_cong:
  assumes "cm_original_tokens m' = cm_original_tokens m" "cm_saved_tokens m' = cm_saved_tokens m"
    "cm_input_tokens_after m' = cm_input_tokens_after m" "cm_cache_hits m' = cm_cache_hits m"
    "cm_build_hits m' = cm_build_hits m" "cm_shared_prefix_hits m' = cm_shared_prefix_hits m"
    "cm_execution_cache m' = cm_execution_cache m" "cm_shared_prefix_cache m' = cm_shared_prefix_cache m"
  shows "account_ok m' = account_ok m"
  using assms by (simp add: account_ok_def)

lemma evict_lru_loop_drop: "\<exists>j. fst (evict_lru_loop n d) = drop j d"
proof (induction n d rule: evict_lru_loop.induct)
  case (2 n x xs)
  show ?case
  proof (cases "int (length (x # xs)) > n")
    case True
    with 2 obtain j where "fst (evict_lru_loop n xs) = drop j xs" by blast
    with True show ?thesis by (intro exI[of _ "Suc j"]) simp
  next
    case False
    then show ?thesis by (intro exI[of _ 0]) simp
  qed
qed simp

lemma distinct_filter_keys: "distinct (dict_keys d) \<Longrightarrow> distinct (dict_keys (filter P d))"
  by (rule distinct_map_filter)

lemma record_general:
  assumes m'_def: "m' = fst (record_task_context env i a sd pd rd m)"
  shows "set (cm_contexts m') \<subseteq> set (put_last i (recorded env i a sd pd rd m) (cm_contexts m))"
    and "distinct (dict_keys (cm_contexts m)) \<Longrightarrow> distinct (dict_keys (cm_contexts m'))"
    and "account_ok m' = account_ok m"
proof -
  obtain m1 c where t: "touch_context env i m = (m1, c)" by (cases "touch_context env i m")
  obtain m2 c2 where k: "compress_if_needed env (apply_record env a sd pd rd c) m1 = (m2, c2)"
    by (cases "compress_if_needed env (apply_record env a sd pd rd c) m1")
  have f1: "cm_contexts m1 = cm_contexts m" "cm_compress_threshold_chars m1 = cm_compress_threshold_chars m"
    using touch_context_frame[of env i m] t by simp_all
  have f2: "cm_contexts m2 = cm_contexts m"
    using compress_frame[of env "apply_record env a sd pd rd c" m1] k f1 by simp_all
  have c2: "recorded env i a sd pd rd m = with_prefix_key env c2"
    using needs_compression_frame[OF f1(2), of env "apply_record env a sd pd rd c"] t k by (simp add: recorded_def)
  define m3 where "m3 = m2\<lparr>cm_contexts := put_last i (with_prefix_key env c2) (cm_contexts m)\<rparr>"
  have m': "m' = fst (evict_lru (evict_expired env m3))"
    by (simp add: m'_def record_task_context_def Let_def t k f2 m3_def split: prod.splits sum.splits)
  have "account_ok m1 = account_ok m"
    using t by (intro account_ok_cong) (auto simp: touch_context_def split: option.splits)
  moreover have "account_ok m2 = account_ok m1"
    using k by (intro account_ok_cong) (auto simp: compress_if_needed_def split: if_splits)
  moreover have "account_ok m' = account_ok m2"
    by (rule account_ok_cong) (simp_all add: m' evict_lru_def evict_expired_def m3_def split: prod.splits)
  ultimately show "account_ok m' = account_ok m" by simp
  let ?d = "unexpired env (cm_ttl_seconds m3) (cm_contexts m3)"
  have cs: "cm_contexts (evict_expired env m3) = ?d" by (simp add: evict_expired_def unexpired_def)
  obtain j where j: "cm_contexts m' = drop j ?d"
    using evict_lru_loop_drop[of "cm_max_contexts (evict_expired env m3)" ?d]
    by (auto simp: m' evict_lru_def cs split_beta)
  have "set ?d \<subseteq> set (cm_contexts m3)" by (auto simp: unexpired_def)
  then show "set (cm_contexts m') \<subseteq> set (put_last i (recorded env i a sd pd rd m) (cm_contexts m))"
    using set_drop_subset[of j ?d] unfolding j c2 m3_def by auto
  assume "distinct (dict_keys (cm_contexts m))"
  then have "distinct (dict_keys (cm_contexts m3))" by (simp add: m3_def distinct_put_last)
  then have "distinct (dict_keys ?d)" by (simp add: unexpired_def distinct_filter_keys)
  then show "distinct (dict_keys (cm_contexts m'))" unfolding j by (simp add: drop_map[symmetric])
qed

lemma touch_stored_ok:
  assumes "ctx_inv m" shows "stored_ok (i, snd (touch_context env i m))"
proof (cases "map_of (cm_contexts m) i")
  case None
  then show ?thesis using new_context_ok[of i "ce_touch env"]
    by (simp add: touch_context_def stored_ok_def) (simp add: new_context_def private_ok_def)
next
  case (Some c)
  then have "stored_ok (i, c)" using assms by (auto simp: ctx_inv_def dest: map_of_SomeD)
  with Some show ?thesis by (simp add: touch_context_def stored_ok_def context_ok_def private_ok_def)
qed

lemma record_readonly_item_frame:
  "rc_context_id (fst (record_readonly_item env a kv cd)) = rc_context_id (fst cd)"
  "rc_saved_tokens (fst (record_readonly_item env a kv cd)) = rc_saved_tokens (fst cd)"
  "rc_original_tokens (fst (record_readonly_item env a kv cd)) = rc_original_tokens (fst cd)"
  "rc_private_data (fst (record_readonly_item env a kv cd)) = rc_private_data (fst cd)"
  "rc_delta_private_data (fst (record_readonly_item env a kv cd)) = rc_delta_private_data (fst cd)"
  "rc_shared_data (fst (record_readonly_item env a kv cd)) = rc_shared_data (fst cd)"
  "rc_delta_shared_data (fst (record_readonly_item env a kv cd)) = rc_delta_shared_data (fst cd)"
  "rc_compressed (fst (record_readonly_item env a kv cd)) = rc_compressed (fst cd)"
  "rc_previous_versions (fst (record_readonly_item env a kv cd)) = rc_previous_versions (fst cd)"
  by (simp_all add: record_readonly_item_def Let_def split: prod.splits)

lemma fold_readonly_frame:
  "rc_context_id (fst (fold (record_readonly_item env a) rd cd)) = rc_context_id (fst cd)"
  "rc_saved_tokens (fst (fold (record_readonly_item env a) rd cd)) = rc_saved_tokens (fst cd)"
  "rc_original_tokens (fst (fold (record_readonly_item env a) rd cd)) = rc_original_tokens (fst cd)"
  "rc_private_data (fst (fold (record_readonly_item env a) rd cd)) = rc_private_data (fst cd)"
  "rc_delta_private_data (fst (fold (record_readonly_item env a) rd cd)) = rc_delta_private_data (fst cd)"
  "rc_shared_data (fst (fold (record_readonly_item env a) rd cd)) = rc_shared_data (fst cd)"
  "rc_delta_shared_data (fst (fold (record_readonly_item env a) rd cd)) = rc_delta_shared_data (fst cd)"
  "rc_compressed (fst (fold (record_readonly_item env a) rd cd)) = rc_compressed (fst cd)"
  "rc_previous_versions (fst (fold (record_readonly_item env a) rd cd)) = rc_previous_versions (fst cd)"
  by (induction rd arbitrary: cd) (simp_all add: record_readonly_item_frame)

lemma record_readonly_frame:
  "rc_context_id (fst (record_readonly env a rd c)) = rc_context_id c"
  "rc_saved_tokens (fst (record_readonly env a rd c)) = rc_saved_tokens c"
  "rc_original_tokens (fst (record_readonly env a rd c)) = rc_original_tokens c"
  "rc_private_data (fst (record_readonly env a rd c)) = rc_private_data c"
  "rc_delta_private_data (fst (record_readonly env a rd c)) = rc_delta_private_data c"
  "rc_shared_data (fst (record_readonly env a rd c)) = rc_shared_data c"
  "rc_delta_shared_data (fst (record_readonly env a rd c)) = rc_delta_shared_data c"
  "rc_compressed (fst (record_readonly env a rd c)) = rc_compressed c"
  "rc_previous_versions (fst (record_readonly env a rd c)) = rc_previous_versions c"
  by (simp_all add: record_readonly_def split_beta fold_readonly_frame)

lemma apply_record_field:
  assumes "\<And>c d. f (c\<lparr>rc_context_diff := d\<rparr>) = f c" "\<And>c d. f (c\<lparr>rc_summary := d\<rparr>) = f c"
  shows "f (apply_record env a sd pd rd c) = f (fst (record_readonly env a rd (record_private a pd (record_shared sd c))))"
  using assms by (simp add: apply_record_def Let_def split_beta)

lemma record_scalars_frame:
  "rc_context_id (record_private a pd (record_shared sd c)) = rc_context_id c"
  "rc_saved_tokens (record_private a pd (record_shared sd c)) = rc_saved_tokens c"
  "rc_original_tokens (record_private a pd (record_shared sd c)) = rc_original_tokens c"
  by (simp_all add: record_shared_def record_private_def Let_def split: option.splits)

lemma private_ok_apply: "private_ok c \<Longrightarrow> private_ok (apply_record env a sd pd rd c)"
  by (simp add: private_ok_def apply_record_field record_readonly_frame record_parts_frame)
    (simp add: record_private_def record_shared_def Let_def split: option.splits)

lemma recorded_stored_ok:
  assumes "ctx_inv m" shows "stored_ok (i, recorded env i a sd pd rd m)"
proof -
  let ?c = "snd (touch_context env i m)"
  let ?r = "apply_record env a sd pd rd ?c"
  have c: "stored_ok (i, ?c)" using assms by (rule touch_stored_ok)
  then have "context_ok ?r" "private_ok ?r" by (simp_all add: stored_ok_def apply_record_ok private_ok_apply)
  moreover have "rc_context_id ?r = rc_context_id ?c" "rc_saved_tokens ?r = rc_saved_tokens ?c"
    "rc_original_tokens ?r = rc_original_tokens ?c"
    by (simp_all add: apply_record_field record_readonly_frame record_scalars_frame)
  ultimately have r: "stored_ok (i, ?r)" using c by (simp add: stored_ok_def)
  moreover have "stored_ok (i, compress_context env ?r)"
    using r compress_context_ok[of ?r env] by (simp add: stored_ok_def)
      (auto simp: compress_context_def private_ok_def context_backup_of_def)
  ultimately have "stored_ok (i, snd (compress_if_needed env ?r m))"
    by (simp add: compress_if_needed_def)
  then show ?thesis
    by (simp add: recorded_def stored_ok_def context_ok_prefix) (simp add: with_prefix_key_def Let_def private_ok_def)
qed

lemma record_inv:
  assumes "ctx_inv m" shows "ctx_inv (fst (record_task_context env i a sd pd rd m))"
  using assms record_general[OF refl, where env = env and i = i and a = a and sd = sd and pd = pd and rd = rd and m = m]
    recorded_stored_ok[OF assms, of i env a sd pd rd]
    set_put_last[of i "recorded env i a sd pd rd m" "cm_contexts m"]
  unfolding ctx_inv_def by blast

lemma estimate_pos: "1 \<le> estimate_tokens env payload"
  by (simp add: estimate_tokens_def)

lemma figures_bounds:
  assumes "account_ok m"
  shows "1 \<le> bf_token_count (figures_of env a c m)" "1 \<le> bf_prefix_tokens (figures_of env a c m)"
    "0 \<le> bf_saved (figures_of env a c m)" "bf_saved (figures_of env a c m) \<le> bf_token_count (figures_of env a c m)"
    "bf_input_after (figures_of env a c m) = bf_token_count (figures_of env a c m) - bf_saved (figures_of env a c m)"
proof -
  show t: "1 \<le> bf_token_count (figures_of env a c m)" "1 \<le> bf_prefix_tokens (figures_of env a c m)"
    by (simp_all add: figures_of_def Let_def estimate_pos)
  have "0 \<le> bf_reused (figures_of env a c m)"
    using assms by (force simp: figures_of_def Let_def account_ok_def split: option.splits dest: map_of_SomeD)
  moreover have eq: "bf_saved (figures_of env a c m) = min (bf_reused (figures_of env a c m)) (bf_token_count (figures_of env a c m))"
    by (simp add: figures_of_def Let_def)
  ultimately show "0 \<le> bf_saved (figures_of env a c m)" using t by simp
  show le: "bf_saved (figures_of env a c m) \<le> bf_token_count (figures_of env a c m)" using eq by simp
  then show "bf_input_after (figures_of env a c m) = bf_token_count (figures_of env a c m) - bf_saved (figures_of env a c m)"
    by (simp add: figures_of_def Let_def)
qed

text \<open>One build, booked on a balanced account, leaves it balanced.\<close>

lemma account_manager_ok:
  assumes acc: "account_ok m" and room: "cm_cache_hits m < cm_build_hits m" "cm_shared_prefix_hits m < cm_build_hits m"
    and b: "1 \<le> bf_token_count f" "1 \<le> bf_prefix_tokens f" "0 \<le> bf_saved f" "bf_saved f \<le> bf_token_count f"
      "bf_input_after f = bf_token_count f - bf_saved f"
  shows "account_ok (account_manager f m)"
proof -
  have "1 \<le> n" if "n \<in> snd ` set (dict_set (bf_full_key f) (bf_token_count f) (cm_execution_cache m))" for n
    using subsetD[OF dict_set_values that] b(1) acc by (auto simp: account_ok_def)
  moreover have "1 \<le> n" if "n \<in> snd ` set (dict_set (bf_cache_key f) (bf_prefix_tokens f) (cm_shared_prefix_cache m))" for n
    using subsetD[OF dict_set_values that] b(2) acc by (auto simp: account_ok_def)
  moreover have "cm_original_tokens m = cm_saved_tokens m + cm_input_tokens_after m" "0 \<le> cm_saved_tokens m"
      "0 \<le> cm_input_tokens_after m"
    using acc by (simp_all add: account_ok_def)
  ultimately show ?thesis using room b unfolding account_ok_def account_manager_def by simp
qed

lemma build_inv:
  assumes inv: "ctx_inv m" shows "ctx_inv (fst (build_agent_context env i a m))"
proof (cases "map_of (cm_contexts m) i")
  case None
  with inv show ?thesis by (simp add: build_agent_context_def)
next
  case (Some c0)
  let ?c = "c0\<lparr>rc_updated_at := ce_touch env\<rparr>"
  let ?m1 = "m\<lparr>cm_build_hits := cm_build_hits m + 1\<rparr>"
  define f where "f = figures_of env a ?c ?m1"
  let ?m2 = "account_manager f ?m1"
  have acc1: "account_ok ?m1" using inv by (auto simp: ctx_inv_def account_ok_def)
  note b = figures_bounds[OF acc1, of env a ?c, folded f_def]
  have m': "fst (build_agent_context env i a m) =
      ?m2\<lparr>cm_contexts := put_last i (account_context f ?c) (cm_contexts m)\<rparr>"
    using Some by (simp add: build_agent_context_def Let_def f_def account_manager_def)
  have "account_ok ?m2"
    using inv b by (intro account_manager_ok acc1) (simp_all add: ctx_inv_def account_ok_def less_Suc_eq_le)
  then have "account_ok (fst (build_agent_context env i a m))"
    unfolding m' by (rule account_ok_cong[THEN iffD2, rotated -1]) simp_all
  moreover have "stored_ok (i, c0)" using Some inv by (auto simp: ctx_inv_def dest: map_of_SomeD)
  then have "stored_ok (i, account_context f ?c)"
    using b by (simp add: stored_ok_def account_context_def context_ok_def private_ok_def)
  then have "\<forall>p \<in> set (put_last i (account_context f ?c) (cm_contexts m)). stored_ok p"
    using inv set_put_last[of i "account_context f ?c" "cm_contexts m"] unfolding ctx_inv_def by blast
  moreover have "distinct (dict_keys (put_last i (account_context f ?c) (cm_contexts m)))"
    using inv by (simp add: ctx_inv_def distinct_put_last)
  ultimately show ?thesis by (simp add: ctx_inv_def m')
qed

lemma rollback_contexts:
  assumes "map_of (cm_contexts m) i = Some c" "rc_previous_versions c \<noteq> []"
  shows "rollback_context env i m =
    (m\<lparr>cm_contexts := dict_set i (with_prefix_key env (restore_backup (last (rc_previous_versions c))
        (c\<lparr>rc_previous_versions := butlast (rc_previous_versions c)\<rparr>))) (cm_contexts m)\<rparr>, True)"
  using assms by (simp add: rollback_context_def Let_def)

lemma rollback_idle:
  "(case map_of (cm_contexts m) i of None \<Rightarrow> True | Some c \<Rightarrow> rc_previous_versions c = []) \<Longrightarrow>
   rollback_context env i m = (m, False)"
  by (auto simp: rollback_context_def split: option.splits)

lemma restore_stored_ok:
  assumes "stored_ok (i, c)" "rc_previous_versions c \<noteq> []"
  shows "stored_ok (i, with_prefix_key env (restore_backup (last (rc_previous_versions c))
        (c\<lparr>rc_previous_versions := butlast (rc_previous_versions c)\<rparr>)))"
  using assms last_in_set[OF assms(2)]
  by (auto simp: stored_ok_def context_ok_prefix restore_backup_def context_ok_def with_prefix_key_def Let_def
      private_ok_def dest: in_set_butlastD)

lemma rollback_inv:
  assumes inv: "ctx_inv m" shows "ctx_inv (fst (rollback_context env i m))"
proof (cases "case map_of (cm_contexts m) i of None \<Rightarrow> True | Some c \<Rightarrow> rc_previous_versions c = []")
  case True
  then show ?thesis using inv by (simp add: rollback_idle)
next
  case False
  then obtain c where c: "map_of (cm_contexts m) i = Some c" "rc_previous_versions c \<noteq> []"
    by (auto split: option.splits)
  define c' where "c' = with_prefix_key env (restore_backup (last (rc_previous_versions c))
        (c\<lparr>rc_previous_versions := butlast (rc_previous_versions c)\<rparr>))"
  have eq: "fst (rollback_context env i m) = m\<lparr>cm_contexts := dict_set i c' (cm_contexts m)\<rparr>"
    by (simp add: rollback_contexts[OF c] c'_def)
  have "stored_ok (i, c)" using c(1) inv by (auto simp: ctx_inv_def dest: map_of_SomeD)
  then have "stored_ok (i, c')" using c(2) unfolding c'_def by (rule restore_stored_ok)
  then have "\<forall>p \<in> set (dict_set i c' (cm_contexts m)). stored_ok p"
    using inv set_dict_set[of i c' "cm_contexts m"] unfolding ctx_inv_def by blast
  moreover have "account_ok (fst (rollback_context env i m)) = account_ok m"
    unfolding eq by (rule account_ok_cong) simp_all
  ultimately show ?thesis using inv by (simp add: ctx_inv_def eq)
qed

lemma ctx_apply_inv: "ctx_inv m \<Longrightarrow> ctx_inv (ctx_apply oper m)"
  by (cases oper) (simp_all add: record_inv update_context_def build_inv rollback_inv)

lemma ctx_reach_inv: "ctx_reach m \<Longrightarrow> ctx_inv m"
proof (induction rule: ctx_reach.induct)
  case ctx_start
  show ?case by (simp add: context_manager_init_def ctx_inv_def account_ok_def)
qed (rule ctx_apply_inv)

section \<open>Private parts\<close>

lemma merged_private_lookup:
  assumes "private_ok c"
  shows "map_of (merged_private c) b =
    (case map_of (rc_delta_private_data c) b of
       None \<Rightarrow> map_of (rc_private_data c) b
     | Some payload \<Rightarrow> Some (dict_update (dict_get (rc_private_data c) b []) payload))"
proof -
  let ?f = "\<lambda>(agent, payload) private. dict_set agent (dict_update (dict_get private agent []) payload) private"
  have "map_of (fold ?f d pr) b = (case map_of d b of None \<Rightarrow> map_of pr b
      | Some payload \<Rightarrow> Some (dict_update (dict_get pr b []) payload))"
    if "distinct (dict_keys d)" for d pr
    using that
  proof (induction d arbitrary: pr)
    case (Cons p d)
    obtain k v where p: "p = (k, v)" by (cases p)
    have "map_of d k = None" using Cons.prems p by (simp add: map_of_eq_None_iff)
    then show ?case using Cons by (auto simp: p split: option.splits)
  qed simp
  from this[of "rc_delta_private_data c" "rc_private_data c"] show ?thesis
    using assms by (simp add: merged_private_def private_ok_def)
qed

lemma map_of_map_keyed: "map_of (map (\<lambda>(k, v). (k, f k v)) d) b = map_option (f b) (map_of d b)"
  by (induction d) auto

lemma agent_private_compressed:
  assumes "private_ok c"
  shows "agent_private b (compress_context env c) =
    (if map_of (merged_private c) b = None then []
     else structured_summary (''private:'' @ b) (agent_private b c))"
  using merged_private_lookup[OF assms, of b]
  by (auto simp: agent_private_def compress_context_def dict_get_def map_of_map_keyed dict_update_def
      split: option.splits)

lemma agent_private_absent:
  "private_ok c \<Longrightarrow> map_of (merged_private c) b = None \<Longrightarrow> agent_private b c = []"
  by (auto simp: merged_private_lookup agent_private_def dict_get_def dict_update_def split: option.splits)

lemma agent_private_apply:
  assumes "b \<noteq> a"
  shows "agent_private b (apply_record env a sd pd rd c) = agent_private b c"
  using assms
  by (simp add: agent_private_def apply_record_field record_readonly_frame)
    (simp add: record_private_def record_shared_def Let_def split: option.splits)



lemma private_ok_touch: "ctx_inv m \<Longrightarrow> private_ok (snd (touch_context env i m))"
  using touch_stored_ok[of m i env] by (simp add: stored_ok_def)

lemma agent_private_prefix: "agent_private b (with_prefix_key env c) = agent_private b c"
  by (simp add: with_prefix_key_def agent_private_def Let_def)

lemma agent_private_touch:
  "map_of (cm_contexts m) i = Some c \<Longrightarrow> agent_private b (snd (touch_context env i m)) = agent_private b c"
  by (simp add: touch_context_def agent_private_def)

section \<open>Properties\<close>

definition demo_ctx_env :: ctx_env where
  "demo_ctx_env = \<lparr>ce_touch = 0, ce_evict = 0, ce_stamps = (\<lambda>_. (0, 0)), ce_perf = 0,
     ce_sha256 = (\<lambda>s. s), ce_float_repr = (\<lambda>_. ''0.0'')\<rparr>"




definition demo_history :: ContextManager where
  "demo_history = ctx_apply (CRecord demo_ctx_env ''i'' ''x'' [] None [(''k'', JInt 2)])
     (ctx_apply (CRecord demo_ctx_env ''i'' ''x'' [] None [(''k'', JInt 1)]) (context_manager_init 100 2 0))"

lemma demo_history_eval:
  "map_of (cm_contexts demo_history) ''i'' \<noteq> None"
  "map co_version (dict_get (rc_readonly_versions (the (map_of (cm_contexts demo_history) ''i''))) ''k'' []) = [1, 2]"
  by code_simp+


lemma map_of_record_other:
  assumes "ctx_inv m" "map_of (cm_contexts (fst (record_task_context env i a sd pd rd m))) j = Some d"
  shows "if j = i then d = recorded env i a sd pd rd m else map_of (cm_contexts m) j = Some d"
proof -
  have "(j, d) \<in> set (put_last i (recorded env i a sd pd rd m) (cm_contexts m))"
    using record_general(1)[OF refl] map_of_SomeD[OF assms(2)] by (rule subsetD)
  then show ?thesis using assms(1) by (auto simp: put_last_def AList.delete_eq ctx_inv_def)
qed

text \<open>
  C30: Isolation of private parts. When agent \<open>a\<close> records into a context, what the context shows any
  other agent \<open>b\<close> as its private part is what it showed before, or the structured summary of
  exactly that when the record triggered a compression; no other context changes.
\<close>

theorem context_private_isolated:
  assumes "ctx_reach m" and "map_of (cm_contexts m) i = Some c" and "b \<noteq> a"
    and "map_of (cm_contexts (fst (record_task_context env i a sd pd rd m))) i = Some c'"
  shows "map_of (snd (build_agent_context env' i b (fst (record_task_context env i a sd pd rd m)))) ''private''
      \<in> {Some (JObj (agent_private b c)), Some (JObj (structured_summary (''private:'' @ b) (agent_private b c)))}
    \<and> (\<forall>j d. j \<noteq> i \<longrightarrow> map_of (cm_contexts (fst (record_task_context env i a sd pd rd m))) j = Some d
          \<longrightarrow> map_of (cm_contexts m) j = Some d)"
proof
  have inv: "ctx_inv m" using assms(1) by (rule ctx_reach_inv)
  let ?r = "apply_record env a sd pd rd (snd (touch_context env i m))"
  have c': "c' = recorded env i a sd pd rd m" using map_of_record_other[OF inv assms(4)] by simp
  have pr: "private_ok ?r" using private_ok_touch[OF inv] by (rule private_ok_apply)
  have r: "agent_private b ?r = agent_private b c"
    using agent_private_apply[OF assms(3)] agent_private_touch[OF assms(2)] by simp
  have "agent_private b c' \<in> {agent_private b c, structured_summary (''private:'' @ b) (agent_private b c)}"
    using agent_private_compressed[OF pr, of b env] agent_private_absent[OF pr, of b] r
    by (auto simp: c' recorded_def agent_private_prefix compress_if_needed_def)
  moreover have "map_of (snd (build_agent_context env' i b (fst (record_task_context env i a sd pd rd m)))) ''private'' =
      Some (JObj (agent_private b c'))"
    using assms(4) by (simp add: build_agent_context_def Let_def context_view_def account_context_def agent_private_def)
  ultimately show "map_of (snd (build_agent_context env' i b (fst (record_task_context env i a sd pd rd m)))) ''private''
      \<in> {Some (JObj (agent_private b c)), Some (JObj (structured_summary (''private:'' @ b) (agent_private b c)))}"
    by auto
  show "\<forall>j d. j \<noteq> i \<longrightarrow> map_of (cm_contexts (fst (record_task_context env i a sd pd rd m))) j = Some d
      \<longrightarrow> map_of (cm_contexts m) j = Some d"
    using map_of_record_other[OF inv, of env i a sd pd rd] by (auto split: if_splits)
qed

definition demo_private :: ContextManager where
  "demo_private = ctx_apply (CRecord demo_ctx_env ''i'' ''b'' [] (Some [(''k'', JInt 1)]) []) (context_manager_init 100 2 0)"

definition demo_private_after :: ContextManager where
  "demo_private_after = fst (record_task_context demo_ctx_env ''i'' ''a'' [] (Some [(''k'', JInt 2)]) [] demo_private)"

lemma demo_private_eval:
  "map_of (cm_contexts demo_private) ''i'' \<noteq> None" "map_of (cm_contexts demo_private_after) ''i'' \<noteq> None"
  "agent_private ''b'' (the (map_of (cm_contexts demo_private) ''i'')) = [(''k'', JInt 1)]"
  by code_simp+

theorem context_private_isolated_witness:
  "map_of (snd (build_agent_context demo_ctx_env ''i'' ''b'' demo_private_after)) ''private''
     \<in> {Some (JObj [(''k'', JInt 1)]), Some (JObj (structured_summary ''private:b'' [(''k'', JInt 1)]))}"
proof -
  obtain c c' where c: "map_of (cm_contexts demo_private) ''i'' = Some c" "map_of (cm_contexts demo_private_after) ''i'' = Some c'"
    using demo_private_eval(1,2) by auto
  have "ctx_reach demo_private" unfolding demo_private_def by (intro ctx_step ctx_start)
  from context_private_isolated[OF this c(1), of "''b''" "''a''" demo_ctx_env "[]" "Some [(''k'', JInt 2)]" "[]" c'] c(2)
  show ?thesis using demo_private_eval(3) c(1) unfolding demo_private_after_def by auto
qed

text \<open>
  Roll-back undoes compression. When a record compresses its context, a following
  \<open>rollback_context\<close> succeeds and brings back exactly what was recorded: the shared, private and
  read-only parts, their deltas, the histories, the summary, the flag and the older versions.
\<close>

theorem context_rollback_undoes_compression:
  assumes "ctx_reach m" and "r = apply_record env a sd pd rd (snd (touch_context env i m))"
    and "needs_compression env m r" and "m1 = fst (record_task_context env i a sd pd rd m)"
    and "map_of (cm_contexts m1) i = Some c1"
  shows "snd (rollback_context env' i m1) \<and>
    (\<exists>c2. map_of (cm_contexts (fst (rollback_context env' i m1))) i = Some c2 \<and>
       context_backup_of c2 = context_backup_of r \<and> rc_previous_versions c2 = rc_previous_versions r \<and>
       (\<forall>b. agent_private b c2 = agent_private b r) \<and> merged_shared c2 = merged_shared r)"
proof -
  have "c1 = recorded env i a sd pd rd m"
    using map_of_record_other[OF ctx_reach_inv[OF assms(1)], of env i a sd pd rd i c1] assms(4,5) by simp
  then have c1: "c1 = with_prefix_key env (compress_context env r)"
    using assms(2,3) by (simp add: recorded_def compress_if_needed_def)
  have prev: "rc_previous_versions c1 = rc_previous_versions r @ [context_backup_of r]"
    by (simp add: c1 with_prefix_key_def compress_context_def Let_def)
  let ?c2 = "with_prefix_key env' (restore_backup (context_backup_of r) (c1\<lparr>rc_previous_versions := rc_previous_versions r\<rparr>))"
  have "rollback_context env' i m1 = (m1\<lparr>cm_contexts := dict_set i ?c2 (cm_contexts m1)\<rparr>, True)"
    using rollback_contexts[OF assms(5)] prev by simp
  moreover have "context_backup_of ?c2 = context_backup_of r" "rc_previous_versions ?c2 = rc_previous_versions r"
    "agent_private b ?c2 = agent_private b r" "merged_shared ?c2 = merged_shared r" for b
    by (simp_all add: with_prefix_key_def restore_backup_def context_backup_of_def Let_def agent_private_def merged_shared_def)
  ultimately show ?thesis by simp
qed

definition demo_big :: ContextManager where
  "demo_big = context_manager_init 10 2 0"

lemma demo_big_eval:
  "needs_compression demo_ctx_env demo_big
     (apply_record demo_ctx_env ''a'' [(''goal'', JStr ''repair'')] None [] (snd (touch_context demo_ctx_env ''i'' demo_big)))"
  "map_of (cm_contexts (fst (record_task_context demo_ctx_env ''i'' ''a'' [(''goal'', JStr ''repair'')] None [] demo_big))) ''i'' \<noteq> None"
  "merged_shared (apply_record demo_ctx_env ''a'' [(''goal'', JStr ''repair'')] None []
      (snd (touch_context demo_ctx_env ''i'' demo_big))) = [(''goal'', JStr ''repair'')]"
  by code_simp+

theorem context_rollback_undoes_compression_witness:
  "\<exists>c2. map_of (cm_contexts (fst (rollback_context demo_ctx_env ''i''
      (fst (record_task_context demo_ctx_env ''i'' ''a'' [(''goal'', JStr ''repair'')] None [] demo_big))))) ''i'' = Some c2 \<and>
    merged_shared c2 = [(''goal'', JStr ''repair'')]"
proof -
  obtain c1 where c1: "map_of (cm_contexts (fst (record_task_context demo_ctx_env ''i'' ''a''
      [(''goal'', JStr ''repair'')] None [] demo_big))) ''i'' = Some c1"
    using demo_big_eval(2) by auto
  have "ctx_reach demo_big" unfolding demo_big_def by (rule ctx_start)
  from context_rollback_undoes_compression[OF this refl demo_big_eval(1) refl c1] demo_big_eval(3)
  show ?thesis by metis
qed

lemma ctx_ratio_bounds:
  assumes "0 \<le> n" "n \<le> d" shows "0 \<le> ctx_ratio n d" "ctx_ratio n d \<le> 1"
proof -
  have q: "0 \<le> of_int n / (of_int d :: rat)" "of_int n / (of_int d :: rat) \<le> 1"
    using assms by (auto simp: divide_le_eq_1)
  have "py_round 4 0 = 0" "py_round 4 1 = 1"
    using round_half_even_of_int[of 0] round_half_even_of_int[of 10000] by (simp_all add: py_round_def)
  with py_round_mono[OF q(1), of 4] py_round_mono[OF q(2), of 4]
  show "0 \<le> ctx_ratio n d" "ctx_ratio n d \<le> 1" by (simp_all add: ctx_ratio_def)
qed

text \<open>
  The token account balances. In every reachable manager the tokens counted are the tokens
  saved plus the tokens still sent, hits never exceed builds, and the ratios that
  \<open>get_metrics\<close> reports lie between zero and one.
\<close>

theorem context_tokens_balance:
  assumes "ctx_reach m"
  shows "cm_original_tokens m = cm_saved_tokens m + cm_input_tokens_after m \<and>
    cm_cache_hits m \<le> cm_build_hits m \<and> cm_shared_prefix_hits m \<le> cm_build_hits m \<and>
    (\<exists>q. map_of (get_metrics m) ''token_saved_ratio'' = Some (JFloat q) \<and> 0 \<le> q \<and> q \<le> 1) \<and>
    (\<exists>q. map_of (get_metrics m) ''cache_hit_ratio'' = Some (JFloat q) \<and> 0 \<le> q \<and> q \<le> 1) \<and>
    (\<exists>q. map_of (get_metrics m) ''shared_prefix_hit_ratio'' = Some (JFloat q) \<and> 0 \<le> q \<and> q \<le> 1)"
proof -
  have acc: "account_ok m" using ctx_reach_inv[OF assms] by (simp add: ctx_inv_def)
  then have "0 \<le> cm_saved_tokens m" "cm_saved_tokens m \<le> cm_original_tokens m"
    by (simp_all add: account_ok_def)
  note s = ctx_ratio_bounds[OF this]
  have "int (cm_cache_hits m) \<le> int (cm_build_hits m)" "int (cm_shared_prefix_hits m) \<le> int (cm_build_hits m)"
    using acc by (simp_all add: account_ok_def)
  note h = this[THEN ctx_ratio_bounds(1)[rotated]] this[THEN ctx_ratio_bounds(2)[rotated]]
  show ?thesis using acc s h by (simp add: get_metrics_def Let_def account_ok_def)
qed

theorem context_tokens_balance_witness:
  "cm_original_tokens (ctx_apply (CBuild demo_ctx_env ''i'' ''x'') demo_history) =
     cm_saved_tokens (ctx_apply (CBuild demo_ctx_env ''i'' ''x'') demo_history) +
     cm_input_tokens_after (ctx_apply (CBuild demo_ctx_env ''i'' ''x'') demo_history)"
proof -
  have "ctx_reach (ctx_apply (CBuild demo_ctx_env ''i'' ''x'') demo_history)"
    unfolding demo_history_def by (intro ctx_step ctx_start)
  from context_tokens_balance[OF this] show ?thesis by blast
qed

text \<open>A field of the \<open>execution\<close> part of a built context.\<close>

definition execution_field :: "jdict \<Rightarrow> string \<Rightarrow> json option" where
  "execution_field out k = (case map_of out ''execution'' of Some (JObj e) \<Rightarrow> map_of e k | _ \<Rightarrow> None)"

lemma account_manager_contexts: "cm_contexts (account_manager f m) = cm_contexts m"
  by (simp add: account_manager_def)

lemma view_execution:
  "execution_field (context_view env a f c m) ''full_context_hit'' = Some (JBool (bf_full_hit f))"
  "execution_field (context_view env a f c m) ''token_count'' = Some (JInt (bf_token_count f))"
  "execution_field (context_view env a f c m) ''saved_tokens'' = Some (JInt (bf_saved f))"
  "execution_field (context_view env a f c m) ''input_token_after'' = Some (JInt (bf_input_after f))"
  by (simp_all add: context_view_def execution_field_def Let_def)

lemma figures_repeat:
  assumes "ce_float_repr env' = ce_float_repr env"
    and c: "merged_shared c' = merged_shared c" "rc_private_data c' = rc_private_data c"
      "rc_delta_private_data c' = rc_delta_private_data c" "rc_readonly_data c' = rc_readonly_data c"
      "rc_context_id c' = rc_context_id c" "rc_version c' = rc_version c" "rc_summary c' = rc_summary c"
    and "map_of (cm_execution_cache m') (bf_full_key (figures_of env a c m)) = Some (bf_token_count (figures_of env a c m))"
  defines "f \<equiv> figures_of env' a c' m'"
  shows "bf_full_hit f \<and> bf_saved f = bf_token_count f \<and> bf_input_after f = 0 \<and>
    bf_token_count f = bf_token_count (figures_of env a c m)"
proof -
  have ap: "agent_private a c' = agent_private a c" by (simp add: agent_private_def c)
  have key: "full_cache_key env' c' a p = full_cache_key env c a p" for p
    by (simp add: full_cache_key_def c assms(1))
  have est: "estimate_tokens env' p = estimate_tokens env p" for p
    by (simp add: estimate_tokens_def assms(1))
  show ?thesis
    using assms(9) by (simp add: f_def figures_of_def Let_def ap c key est)
qed

text \<open>
  A repeated build is free. Building the same context twice for the same agent with no record
  in between, the second build finds the whole context in the cache: all its tokens are saved and
  none are sent.
\<close>

theorem context_second_build_hits:
  assumes "map_of (cm_contexts m) i = Some c" and "ce_float_repr env' = ce_float_repr env"
  shows "let out = snd (build_agent_context env' i a (fst (build_agent_context env i a m)))
    in execution_field out ''full_context_hit'' = Some (JBool True) \<and>
       execution_field out ''saved_tokens'' = execution_field out ''token_count'' \<and>
       execution_field out ''input_token_after'' = Some (JInt 0) \<and>
       execution_field out ''token_count'' = execution_field (snd (build_agent_context env i a m)) ''token_count''"
proof -
  define cu where "cu = c\<lparr>rc_updated_at := ce_touch env\<rparr>"
  define m1 where "m1 = m\<lparr>cm_build_hits := cm_build_hits m + 1\<rparr>"
  define f where "f = figures_of env a cu m1"
  define c1 where "c1 = account_context f cu"
  define m2 where "m2 = (account_manager f m1)\<lparr>cm_contexts := put_last i c1 (cm_contexts m)\<rparr>"
  have b1: "build_agent_context env i a m = (m2, context_view env a f c1 m2)"
    using assms(1)
    by (simp add: build_agent_context_def Let_def account_manager_contexts cu_def m1_def f_def c1_def m2_def)
  have look: "map_of (cm_contexts m2) i = Some c1" by (simp add: m2_def put_last_def map_add_def)
  define cv where "cv = c1\<lparr>rc_updated_at := ce_touch env'\<rparr>"
  define m3 where "m3 = m2\<lparr>cm_build_hits := cm_build_hits m2 + 1\<rparr>"
  define g where "g = figures_of env' a cv m3"
  obtain mm where b2: "build_agent_context env' i a m2 = (mm, context_view env' a g (account_context g cv) mm)"
    using look by (simp add: build_agent_context_def Let_def cv_def m3_def g_def)
  have "bf_full_hit g \<and> bf_saved g = bf_token_count g \<and> bf_input_after g = 0 \<and> bf_token_count g = bf_token_count f"
    unfolding g_def f_def
    by (rule figures_repeat[OF assms(2)])
      (simp_all add: cv_def c1_def account_context_def m3_def m2_def account_manager_def merged_shared_def f_def[symmetric])
  then show ?thesis by (simp add: b1 b2 view_execution)
qed

theorem context_second_build_hits_witness:
  "execution_field (snd (build_agent_context demo_ctx_env ''i'' ''x''
     (fst (build_agent_context demo_ctx_env ''i'' ''x'' demo_history)))) ''input_token_after'' = Some (JInt 0)"
proof -
  obtain c where "map_of (cm_contexts demo_history) ''i'' = Some c" using demo_history_eval(1) by auto
  from context_second_build_hits[OF this refl, of demo_ctx_env "''x''"] show ?thesis by (simp add: Let_def)
qed

end
