(* ===== verification/Cycle_Check.thy ===== *)
theory Cycle_Check
  imports Py_Prelude
begin

text \<open>
  The recursive search for cycles that \<open>aruntime/planner/validator.py\<close> and
  \<open>applications/incident_repair/routing.py\<close> both contain, its correctness, and what a checked
  dependency graph gives its users: as long as something is left to do, something is ready.

  In the source \<open>visiting\<close> is a set that each call extends on entry and restores on return; here it
  is an argument, so that a return leaves it unchanged. \<open>follow\<close> is the guard in front of the
  recursive call (\<open>True\<close> in the planner, membership in the dictionary in the repair graph) and
  \<open>err\<close> the exception raised on a cycle.
\<close>

section \<open>The search\<close>

type_synonym dep_dict = "string list dict"

lemma card_unvisited_less:
  "node \<notin> visiting \<Longrightarrow> map_of deps node = Some ds \<Longrightarrow>
   card (fst ` set deps - insert node visiting) < card (fst ` set deps - visiting)"
proof (rule psubset_card_mono)
  assume "node \<notin> visiting" and "map_of deps node = Some ds"
  then have "node \<in> fst ` set deps - visiting" by (force dest: map_of_SomeD)
  then show "fst ` set deps - insert node visiting \<subset> fst ` set deps - visiting" by blast
qed simp

function cycle_visit ::
    "py_error \<Rightarrow> (string \<Rightarrow> bool) \<Rightarrow> dep_dict \<Rightarrow> string set \<Rightarrow> string set \<Rightarrow> string \<Rightarrow> py_error + string set"
  and cycle_visit_all ::
    "py_error \<Rightarrow> (string \<Rightarrow> bool) \<Rightarrow> dep_dict \<Rightarrow> string set \<Rightarrow> string set \<Rightarrow> string list \<Rightarrow> py_error + string set"
where
  "cycle_visit err follow deps visiting visited node =
     (if node \<in> visiting then Inl err
      else if node \<in> visited then Inr visited
      else case map_of deps node of
             None \<Rightarrow> Inl (KeyError node)
           | Some ds \<Rightarrow>
               (case cycle_visit_all err follow deps (insert node visiting) visited ds of
                  Inl e \<Rightarrow> Inl e
                | Inr visited' \<Rightarrow> Inr (insert node visited')))"
| "cycle_visit_all err follow deps visiting visited [] = Inr visited"
| "cycle_visit_all err follow deps visiting visited (d # ds) =
     (if \<not> follow d then cycle_visit_all err follow deps visiting visited ds
      else case cycle_visit err follow deps visiting visited d of
             Inl e \<Rightarrow> Inl e
           | Inr visited' \<Rightarrow> cycle_visit_all err follow deps visiting visited' ds)"
  by pat_completeness auto

termination
  by (relation "measures
       [\<lambda>x. case x of Inl (err, follow, deps, visiting, visited, node) \<Rightarrow> card (fst ` set deps - visiting)
                    | Inr (err, follow, deps, visiting, visited, ds) \<Rightarrow> card (fst ` set deps - visiting),
        \<lambda>x. case x of Inl _ \<Rightarrow> 0 | Inr (err, follow, deps, visiting, visited, ds) \<Rightarrow> Suc (length ds)]")
     (auto simp: card_unvisited_less)

declare cycle_visit.simps [simp del]

text \<open>\<open>for node in deps: visit(node)\<close>.\<close>

fun cycle_roots :: "py_error \<Rightarrow> (string \<Rightarrow> bool) \<Rightarrow> dep_dict \<Rightarrow> string set \<Rightarrow> string list \<Rightarrow> py_error + unit" where
  "cycle_roots err follow deps visited [] = Inr ()"
| "cycle_roots err follow deps visited (node # nodes) =
     (case cycle_visit err follow deps {} visited node of
        Inl e \<Rightarrow> Inl e
      | Inr visited' \<Rightarrow> cycle_roots err follow deps visited' nodes)"

definition assert_no_cycle :: "py_error \<Rightarrow> (string \<Rightarrow> bool) \<Rightarrow> dep_dict \<Rightarrow> py_error + unit" where
  "assert_no_cycle err follow deps = cycle_roots err follow deps {} (dict_keys deps)"

section \<open>Correctness\<close>

definition dep_edges :: "(string \<Rightarrow> bool) \<Rightarrow> dep_dict \<Rightarrow> (string \<times> string) set" where
  "dep_edges follow deps = {(a, b). \<exists>ds. map_of deps a = Some ds \<and> b \<in> set ds \<and> follow b}"

definition dep_closed :: "(string \<Rightarrow> bool) \<Rightarrow> dep_dict \<Rightarrow> bool" where
  "dep_closed follow deps \<longleftrightarrow> (\<forall>(a, b) \<in> dep_edges follow deps. map_of deps b \<noteq> None)"

text \<open>What is known of the visited nodes: closed under dependencies, and free of cycles.\<close>

definition settled :: "(string \<times> string) set \<Rightarrow> string set \<Rightarrow> bool" where
  "settled E v \<longleftrightarrow> E `` v \<subseteq> v \<and> acyclic (Restr E v)"

lemma settled_insert:
  assumes "settled E v" "node \<notin> v" "E `` {node} \<subseteq> v"
  shows "settled E (insert node v)"
proof -
  have cl: "E `` v \<subseteq> v" and ac: "acyclic (Restr E v)" using assms(1) by (auto simp: settled_def)
  have no_in: "(x, node) \<notin> Restr E (insert node v)" for x
    using cl assms(2,3) by auto
  have "acyclic (Restr E (insert node v))"
  proof (rule acyclicI, intro allI notI)
    fix x assume x: "(x, x) \<in> (Restr E (insert node v))\<^sup>+"
    have step: "a \<in> v \<longrightarrow> (a, b) \<in> (Restr E v)\<^sup>+" if "(a, b) \<in> (Restr E (insert node v))\<^sup>+" for a b
      using that
    proof (induction rule: trancl_induct)
      case (base b)
      then show ?case using cl by auto
    next
      case (step b c)
      show ?case
      proof
        assume "a \<in> v"
        with step.IH have ab: "(a, b) \<in> (Restr E v)\<^sup>+" by blast
        then have "b \<in> v" by (induction rule: trancl_induct) auto
        then have "(b, c) \<in> Restr E v" using step.hyps(2) cl by auto
        with ab show "(a, c) \<in> (Restr E v)\<^sup>+" by (rule trancl_into_trancl)
      qed
    qed
    have "x \<noteq> node" using x no_in by (metis tranclE)
    moreover have "x \<in> insert node v" using x by (metis (no_types, lifting) IntE mem_Sigma_iff tranclE)
    ultimately have "x \<in> v" by blast
    with step[OF x] have "(x, x) \<in> (Restr E v)\<^sup>+" by blast
    with ac show False by (simp add: acyclic_def)
  qed
  with cl assms(3) show ?thesis by (auto simp: settled_def)
qed

lemma cycle_visit_ok:
  "cycle_visit err follow deps visiting visited node = Inr v \<Longrightarrow>
   settled (dep_edges follow deps) visited \<Longrightarrow> visited \<inter> visiting = {} \<Longrightarrow>
   settled (dep_edges follow deps) v \<and> visited \<subseteq> v \<and> node \<in> v \<and> v \<inter> visiting = {}"
  "cycle_visit_all err follow deps visiting visited ds = Inr v \<Longrightarrow>
   settled (dep_edges follow deps) visited \<Longrightarrow> visited \<inter> visiting = {} \<Longrightarrow>
   settled (dep_edges follow deps) v \<and> visited \<subseteq> v \<and> set (filter follow ds) \<subseteq> v \<and> v \<inter> visiting = {}"
proof (induction err follow deps visiting visited node and err follow deps visiting visited ds
    arbitrary: v and v rule: cycle_visit_cycle_visit_all.induct)
  case (1 err follow deps visiting visited node)
  show ?case
  proof (cases "node \<in> visited")
    case True
    then show ?thesis using 1 by (auto simp: cycle_visit.simps[of err] split: if_splits)
  next
    case False
    obtain ds v' where d: "map_of deps node = Some ds"
        "cycle_visit_all err follow deps (insert node visiting) visited ds = Inr v'" "v = insert node v'" "node \<notin> visiting"
      using 1(2) False by (subst (asm) cycle_visit.simps) (auto split: if_splits option.splits sum.splits)
    have "settled (dep_edges follow deps) v' \<and> visited \<subseteq> v' \<and> set (filter follow ds) \<subseteq> v' \<and> v' \<inter> insert node visiting = {}"
      using 1(1)[OF d(4) False d(1,2)] 1(3,4) False by blast
    moreover have "dep_edges follow deps `` {node} = set (filter follow ds)" using d(1) by (auto simp: dep_edges_def)
    ultimately show ?thesis using settled_insert[of "dep_edges follow deps" v' node] d(3,4) by auto
  qed
next
  case (2 err follow deps visiting visited)
  then show ?case by simp
next
  case (3 err follow deps visiting visited d ds)
  show ?case
  proof (cases "follow d")
    case False
    then show ?thesis using 3(1)[OF False] 3(4-) by simp
  next
    case True
    obtain v' where v': "cycle_visit err follow deps visiting visited d = Inr v'"
        "cycle_visit_all err follow deps visiting v' ds = Inr v"
      using 3(4) True by (auto split: sum.splits)
    have "settled (dep_edges follow deps) v' \<and> visited \<subseteq> v' \<and> d \<in> v' \<and> v' \<inter> visiting = {}"
      using 3(2)[of v'] True v'(1) 3(5,6) by simp
    moreover from this have "settled (dep_edges follow deps) v \<and> v' \<subseteq> v \<and> set (filter follow ds) \<subseteq> v \<and> v \<inter> visiting = {}"
      using 3(3)[of v' v] True v' by simp
    ultimately show ?thesis using True by auto
  qed
qed

lemma cycle_visit_error:
  "cycle_visit err follow deps visiting visited node = Inl e \<Longrightarrow> dep_closed follow deps \<Longrightarrow>
   map_of deps node \<noteq> None \<Longrightarrow> (\<And>x. x \<in> visiting \<Longrightarrow> (x, node) \<in> (dep_edges follow deps)\<^sup>+) \<Longrightarrow>
   e = err \<and> \<not> acyclic (dep_edges follow deps)"
  "cycle_visit_all err follow deps visiting visited ds = Inl e \<Longrightarrow> dep_closed follow deps \<Longrightarrow>
   (\<And>d. d \<in> set ds \<Longrightarrow> follow d \<Longrightarrow> map_of deps d \<noteq> None) \<Longrightarrow>
   (\<And>x d. x \<in> visiting \<Longrightarrow> d \<in> set ds \<Longrightarrow> follow d \<Longrightarrow> (x, d) \<in> (dep_edges follow deps)\<^sup>+) \<Longrightarrow>
   e = err \<and> \<not> acyclic (dep_edges follow deps)"
proof (induction err follow deps visiting visited node and err follow deps visiting visited ds
    rule: cycle_visit_cycle_visit_all.induct)
  case (1 err follow deps visiting visited node)
  obtain ds where ds: "map_of deps node = Some ds" using 1(4) by blast
  show ?case
  proof (cases "node \<in> visiting")
    case True
    then have "e = err" using 1(2) by (subst (asm) cycle_visit.simps) simp
    moreover have "\<not> acyclic (dep_edges follow deps)" using 1(5)[OF True] by (auto simp: acyclic_def)
    ultimately show ?thesis by blast
  next
    case False
    then have nv: "node \<notin> visited"
        and e: "cycle_visit_all err follow deps (insert node visiting) visited ds = Inl e"
      using 1(2) ds by (subst (asm) cycle_visit.simps, auto split: if_splits sum.splits)+
    have edge: "(node, d) \<in> dep_edges follow deps" if "d \<in> set ds" "follow d" for d
      using that ds by (auto simp: dep_edges_def)
    have known: "map_of deps d \<noteq> None" if "d \<in> set ds" "follow d" for d
      using 1(3) edge[OF that] by (auto simp: dep_closed_def)
    have "(x, d) \<in> (dep_edges follow deps)\<^sup>+" if "x \<in> insert node visiting" "d \<in> set ds" "follow d" for x d
      using that(1) 1(5)[of x] edge[OF that(2,3)] by (auto intro: trancl_into_trancl)
    then show ?thesis using 1(1)[OF False nv ds e 1(3)] known by blast
  qed
next
  case (2 err follow deps visiting visited)
  then show ?case by simp
next
  case (3 err follow deps visiting visited d ds)
  show ?case
  proof (cases "follow d")
    case False
    then have "cycle_visit_all err follow deps visiting visited ds = Inl e" using 3(4) by simp
    from 3(1)[OF False this 3(5)] show ?thesis using 3(6,7) by (meson list.set_intros(2))
  next
    case True
    show ?thesis
    proof (cases "cycle_visit err follow deps visiting visited d")
      case (Inl e')
      then have "e' = e" using 3(4) True by simp
      then show ?thesis using 3(2)[of] True Inl 3(5,6,7) by simp
    next
      case (Inr v')
      then have "cycle_visit_all err follow deps visiting v' ds = Inl e" using 3(4) True by simp
      from 3(3)[of v', OF _ Inr this 3(5)] True show ?thesis using 3(6,7) by (meson list.set_intros(2))
    qed
  qed
qed

lemma cycle_roots_ok:
  "cycle_roots err follow deps visited nodes = Inr () \<Longrightarrow> settled (dep_edges follow deps) visited \<Longrightarrow>
   \<exists>v. settled (dep_edges follow deps) v \<and> visited \<subseteq> v \<and> set nodes \<subseteq> v"
proof (induction nodes arbitrary: visited)
  case (Cons n nodes)
  obtain v' where v': "cycle_visit err follow deps {} visited n = Inr v'" "cycle_roots err follow deps v' nodes = Inr ()"
    using Cons.prems(1) by (auto split: sum.splits)
  have "settled (dep_edges follow deps) v' \<and> visited \<subseteq> v' \<and> n \<in> v'"
    using cycle_visit_ok(1)[OF v'(1) Cons.prems(2)] by simp
  with Cons.IH[OF v'(2)] show ?case by auto
qed auto

lemma cycle_roots_error:
  "cycle_roots err follow deps visited nodes = Inl e \<Longrightarrow> dep_closed follow deps \<Longrightarrow>
   (\<And>n. n \<in> set nodes \<Longrightarrow> map_of deps n \<noteq> None) \<Longrightarrow> e = err \<and> \<not> acyclic (dep_edges follow deps)"
proof (induction nodes arbitrary: visited)
  case (Cons n nodes)
  show ?case
  proof (cases "cycle_visit err follow deps {} visited n")
    case (Inl e')
    then show ?thesis using cycle_visit_error(1)[OF Inl Cons.prems(2)] Cons.prems(1,3) by simp
  next
    case (Inr v')
    then show ?thesis using Cons.IH[of v'] Cons.prems by simp
  qed
qed simp

lemma map_of_known: "map_of deps n \<noteq> None \<longleftrightarrow> n \<in> set (dict_keys deps)"
  by (simp add: map_of_eq_None_iff)

text \<open>The search returns exactly on acyclic graphs; otherwise it raises the cycle error.\<close>

lemma assert_no_cycle_iff:
  assumes "dep_closed follow deps"
  shows "assert_no_cycle err follow deps = (if acyclic (dep_edges follow deps) then Inr () else Inl err)"
proof (cases "assert_no_cycle err follow deps")
  case (Inl e)
  then show ?thesis
    using cycle_roots_error[OF _ assms, of err "{}" "dict_keys deps" e] map_of_known[of deps]
    by (simp add: assert_no_cycle_def)
next
  case (Inr u)
  let ?E = "dep_edges follow deps"
  have "settled ?E {}" by (simp add: settled_def acyclic_def)
  with Inr obtain v where v: "settled ?E v" "set (dict_keys deps) \<subseteq> v"
    using cycle_roots_ok[of err follow deps "{}" "dict_keys deps"] by (auto simp: assert_no_cycle_def)
  have dom: "?E \<subseteq> v \<times> v"
    using assms v(2) map_of_known[of deps] by (fastforce simp: dep_closed_def dep_edges_def)
  then have "Restr ?E v = ?E" by blast
  then have "acyclic ?E" using v(1) by (simp add: settled_def)
  then show ?thesis using Inr by simp
qed

section \<open>What a checked graph gives its users\<close>

text \<open>
  A check that accepts only finite, closed and acyclic dependency graphs. Whoever works through
  the items of an accepted graph in dependency order never gets stuck.
\<close>

locale checked_graph =
  fixes check :: "'g \<Rightarrow> bool"
    and items :: "'g \<Rightarrow> string set"
    and deps_of :: "'g \<Rightarrow> string \<Rightarrow> string set"
  assumes items_finite: "check g \<Longrightarrow> finite (items g)"
    and deps_closed: "check g \<Longrightarrow> x \<in> items g \<Longrightarrow> deps_of g x \<subseteq> items g"
    and deps_acyclic: "check g \<Longrightarrow> acyclic {(x, y). x \<in> items g \<and> y \<in> deps_of g x}"
begin

lemma progress:
  assumes g: "check g" and left: "\<not> items g \<subseteq> done"
  shows "\<exists>x \<in> items g - done. deps_of g x \<subseteq> done"
proof -
  let ?E = "{(x, y). x \<in> items g \<and> y \<in> deps_of g x}"
  have "?E \<subseteq> items g \<times> items g" using deps_closed[OF g] by auto
  then have "finite ?E" using items_finite[OF g] finite_subset by blast
  then have wf: "wf (?E\<inverse>)" using deps_acyclic[OF g] by (intro finite_acyclic_wf_converse)
  obtain x where x: "x \<in> items g - done" using left by blast
  have "\<exists>z \<in> items g - done. \<forall>y. (y, z) \<in> ?E\<inverse> \<longrightarrow> y \<notin> items g - done"
    by (rule wf[unfolded wf_eq_minimal, rule_format, OF x])
  then obtain z where z: "z \<in> items g - done" "\<forall>y. (y, z) \<in> ?E\<inverse> \<longrightarrow> y \<notin> items g - done" by (rule bexE)
  have "y \<in> done" if y: "y \<in> deps_of g z" for y
    using z(2)[rule_format, of y] y z(1) subsetD[OF deps_closed[OF g, of z] y] by simp
  with z(1) show ?thesis by blast
qed

end

end
