(* ===== verification/Planner.thy ===== *)
theory Planner
  imports Task_Lifecycle Cycle_Check
begin

text \<open>
  \<open>aruntime/planner/\<close>: the plan a planner agent returns (\<open>models.py\<close>), how its text is unwrapped
  and normalised (\<open>parser.py\<close>), validated (\<open>validator.py\<close>) and turned into tasks
  (\<open>materializer.py\<close>), the prompts (\<open>prompt_builder.py\<close>), and the pipeline of
  \<open>applications/incident_repair/planning/pipeline.py\<close> that asks a model for a plan.

  \<open>json.loads\<close>, the pydantic constructors, the model and the repository inspector are arguments.
\<close>

section \<open>Plans\<close>

datatype plan_role = R_CODER | R_TESTER | R_REVIEWER

fun role_value :: "plan_role \<Rightarrow> string" where
  "role_value R_CODER = ''coder''"
| "role_value R_TESTER = ''tester''"
| "role_value R_REVIEWER = ''reviewer''"

record SearchRequest =
  sr_query :: string
  sr_path :: string

record InspectionRequest =
  ir_files :: "string list"
  ir_searches :: "SearchRequest list"
  ir_summary :: string

record PlanTask =
  pt_local_id :: string
  pt_role :: plan_role
  pt_goal :: string
  pt_dependencies :: "string list"
  pt_required_capability :: jdict
  pt_resource_request :: jdict
  pt_timeout_ms :: int
  pt_failure_policy :: FailurePolicy

record PlanSpec =
  ps_version :: string
  ps_summary :: string
  ps_tasks :: "PlanTask list"

section \<open>Validation\<close>

text \<open>A loop that only checks: the first error ends it.\<close>

fun check_all :: "('a \<Rightarrow> py_error + unit) \<Rightarrow> 'a list \<Rightarrow> py_error + unit" where
  "check_all f [] = Inr ()"
| "check_all f (x # xs) = (case f x of Inl e \<Rightarrow> Inl e | Inr u \<Rightarrow> check_all f xs)"

definition sum_then :: "py_error + unit \<Rightarrow> py_error + 'a \<Rightarrow> py_error + 'a" where
  "sum_then r k = (case r of Inl e \<Rightarrow> Inl e | Inr u \<Rightarrow> k)"

definition assert_acyclic :: "PlanSpec \<Rightarrow> py_error + unit" where
  "assert_acyclic plan =
     assert_no_cycle (ValueError ''plan dependency graph has cycle'') (\<lambda>_. True)
       (fold (\<lambda>t d. dict_set (pt_local_id t) (pt_dependencies t) d) (ps_tasks plan) [])"

definition check_known :: "string set \<Rightarrow> string \<Rightarrow> py_error + unit" where
  "check_known known dep =
     (if dep \<in> known then Inr () else Inl (ValueError (''dependency not found: '' @ dep)))"

text \<open>\<open>next(item for item in plan.tasks if item.local_id == dep)\<close>.\<close>

definition check_not_reviewer :: "PlanSpec \<Rightarrow> string \<Rightarrow> py_error + unit" where
  "check_not_reviewer plan dep =
     (case List.find (\<lambda>t. pt_local_id t = dep) (ps_tasks plan) of
        None \<Rightarrow> Inl (RuntimeError ''StopIteration'')
      | Some t \<Rightarrow> if pt_role t = R_REVIEWER then Inl (ValueError ''tester cannot depend on reviewer'') else Inr ())"

definition forbidden_keys :: "string list" where
  "forbidden_keys = [''agent_name'', ''workspace_path'', ''api_key'', ''env'']"

definition check_forbidden :: "PlanTask \<Rightarrow> string \<Rightarrow> py_error + unit" where
  "check_forbidden t key =
     (if map_of (pt_required_capability t) key \<noteq> None \<or> map_of (pt_resource_request t) key \<noteq> None
      then Inl (ValueError (''planner cannot specify '' @ key)) else Inr ())"

definition validate_task :: "PlanSpec \<Rightarrow> PlanTask \<Rightarrow> py_error + unit" where
  "validate_task plan t =
     sum_then (check_all (check_known (set (map pt_local_id (ps_tasks plan)))) (pt_dependencies t))
     (sum_then (if pt_role t = R_TESTER then check_all (check_not_reviewer plan) (pt_dependencies t) else Inr ())
     (sum_then (if pt_role t = R_REVIEWER \<and>
                   (get_truthy (pt_required_capability t) ''can_code'' \<or> get_truthy (pt_required_capability t) ''can_test'')
                then Inl (ValueError ''reviewer cannot request write/test capability'') else Inr ())
     (check_all (check_forbidden t) forbidden_keys)))"

definition validate_plan :: "PlanSpec \<Rightarrow> py_error + unit" where
  "validate_plan plan =
     (let ids = map pt_local_id (ps_tasks plan); roles = pt_role ` set (ps_tasks plan)
      in if length (ps_tasks plan) < 2 \<or> length (ps_tasks plan) > 12
         then Inl (ValueError ''plan must contain 2 to 12 tasks'')
         else if length ids \<noteq> card (set ids) then Inl (ValueError ''local_id must be unique'')
         else if R_CODER \<notin> roles then Inl (ValueError ''plan must include at least one coder'')
         else if R_TESTER \<notin> roles then Inl (ValueError ''plan must include tester'')
         else if R_REVIEWER \<notin> roles then Inl (ValueError ''plan must include reviewer'')
         else sum_then (check_all (validate_task plan) (ps_tasks plan)) (assert_acyclic plan))"

section \<open>Materialisation\<close>

fun role_backend :: "plan_role \<Rightarrow> AgentBackendType" where
  "role_backend R_CODER = CODEX_CLI"
| "role_backend R_TESTER = DIRECT_TOOL"
| "role_backend R_REVIEWER = CODEX_CLI"

definition role_failure_policy :: "plan_role \<Rightarrow> FailurePolicy \<Rightarrow> FailurePolicy" where
  "role_failure_policy role policy =
     (if fp_mode policy = FAIL_OPEN \<and> role_value role \<in> {''coder'', ''repair'', ''tester''}
      then \<lparr>fp_mode = FAIL_CLOSED, fp_max_retries = fp_max_retries policy,
            fp_fallback_agent = fp_fallback_agent policy, fp_timeout_ms = fp_timeout_ms policy\<rparr>
      else policy)"

definition child_id :: "TaskSpec \<Rightarrow> string \<Rightarrow> string" where
  "child_id parent local_id = ts_task_id parent @ '':'' @ local_id"

definition planner_context :: "TaskSpec \<Rightarrow> jdict" where
  "planner_context parent =
     filter (\<lambda>(key, v). key \<in> {''inspection'', ''plan_summary''})
       (case ts_result parent of Some d \<Rightarrow> d | None \<Rightarrow> [])"

definition plan_task_input :: "jdict \<Rightarrow> PlanTask \<Rightarrow> jdict" where
  "plan_task_input ctx item =
     (''goal'', JStr (pt_goal item)) # (if ctx \<noteq> [] then [(''planner_context'', JObj ctx)] else []) @
     (if pt_role item = R_TESTER
      then [(''__tool'', JObj [(''name'', JStr ''run_pytest''),
              (''arguments'', JObj [(''paths'', JList [JStr ''tests''])])])]
      else [])"

definition root_or_self :: "TaskSpec \<Rightarrow> string" where
  "root_or_self t = (case ts_root_task_id t of Some r \<Rightarrow> if r \<noteq> [] then r else ts_task_id t | None \<Rightarrow> ts_task_id t)"

definition materialize_item :: "usec \<Rightarrow> TaskSpec \<Rightarrow> PlanTask \<Rightarrow> TaskSpec" where
  "materialize_item now parent item =
     model_post_init
       ((raw_task (child_id parent (pt_local_id item)) None (plan_task_input (planner_context parent) item)
           (map (child_id parent) (pt_dependencies item)) (ts_trace_id parent) now)
        \<lparr>ts_context_id := ts_context_id parent,
         ts_parent_task_id := Some (ts_task_id parent),
         ts_root_task_id := Some (root_or_self parent),
         ts_task_role := Some (role_value (pt_role item)),
         ts_required_backend := Some (role_backend (pt_role item)),
         ts_workspace := ts_workspace parent,
         ts_required_capability := pt_required_capability item,
         ts_resource_request := pt_resource_request item,
         ts_timeout_ms := Some (pt_timeout_ms item),
         ts_failure_policy := role_failure_policy (pt_role item) (pt_failure_policy item),
         ts_failure_policy_set := True\<rparr>)"

text \<open>\<open>clock n\<close> is the reading for the \<open>n\<close>-th child.\<close>

definition materialize_plan :: "(nat \<Rightarrow> usec) \<Rightarrow> TaskSpec \<Rightarrow> PlanSpec \<Rightarrow> py_error + TaskSpec list" where
  "materialize_plan clock parent plan =
     (case validate_plan plan of
        Inl e \<Rightarrow> Inl e
      | Inr u \<Rightarrow> Inr (map (\<lambda>(n, item). materialize_item (clock n) parent item)
                        (zip [0..<length (ps_tasks plan)] (ps_tasks plan))))"

section \<open>Parsing\<close>

definition fence :: string where "fence = ''```''"

text \<open>The text before the first fence; \<open>None\<close> when there is none.\<close>

fun before_fence :: "string \<Rightarrow> string option" where
  "before_fence [] = None"
| "before_fence (c # s) =
     (if take 3 (c # s) = fence then Some [] else map_option (Cons c) (before_fence s))"

text \<open>
  The regular expression: an opening fence, an optional \<open>json\<close>, white space, and lazily everything
  up to the next fence. The text starts with a fence, so the leftmost match starts there.
\<close>

definition fenced_body :: "string \<Rightarrow> string option" where
  "fenced_body raw =
     (let rest = drop 3 raw;
          rest1 = (if take 4 rest = ''json'' then drop 4 rest else rest)
      in before_fence (dropWhile is_space rest1))"

definition unwrap_fence :: "string \<Rightarrow> string" where
  "unwrap_fence text =
     (let raw = str_strip text
      in if take 3 raw = fence
         then (case fenced_body raw of Some body \<Rightarrow> str_strip body | None \<Rightarrow> raw)
         else raw)"

definition load_json_object :: "(string \<Rightarrow> py_error + json) \<Rightarrow> string \<Rightarrow> py_error + jdict" where
  "load_json_object loads text =
     (case loads (unwrap_fence text) of
        Inl e \<Rightarrow> Inl e
      | Inr (JObj d) \<Rightarrow> Inr d
      | Inr _ \<Rightarrow> Inl (ValueError ''expected JSON object''))"

definition parse_json_model ::
    "(string \<Rightarrow> py_error + json) \<Rightarrow> (jdict \<Rightarrow> py_error + 'a) \<Rightarrow> string \<Rightarrow> py_error + 'a" where
  "parse_json_model loads mk text = (case load_json_object loads text of Inl e \<Rightarrow> Inl e | Inr d \<Rightarrow> mk d)"

definition normalize_role :: "string \<Rightarrow> jdict \<Rightarrow> jdict" where
  "normalize_role role d =
     (if role \<in> {''code'', ''coder'', ''developer'', ''repair''} then dict_set ''role'' (JStr ''coder'') d
      else if role \<in> {''test'', ''tester'', ''qa''} then dict_set ''role'' (JStr ''tester'') d
      else if role \<in> {''review'', ''reviewer''} then dict_set ''role'' (JStr ''reviewer'') d
      else d)"

definition normalize_plan_item :: "(rat \<Rightarrow> string) \<Rightarrow> jdict \<Rightarrow> jdict" where
  "normalize_plan_item fr item =
     (let d1 = (case (map_of item ''local_id'', map_of item ''id'') of
                  (None, Some v) \<Rightarrow> dict_set ''local_id'' (JStr (py_str fr v)) (dict_pop ''id'' item)
                | _ \<Rightarrow> item);
          d2 = (case map_of d1 ''goal'' of
                  Some _ \<Rightarrow> d1
                | None \<Rightarrow> dict_set ''goal''
                    (JStr (py_str fr (json_or [get_json d1 ''description'', get_json d1 ''task'',
                                               get_json d1 ''summary'', get_json d1 ''local_id''] (JStr [])))) d1);
          d3 = dict_set ''dependencies''
                 (case dict_get d2 ''dependencies'' (JList []) of
                    JList ds \<Rightarrow> JList (map (\<lambda>d. JStr (py_str fr d)) ds)
                  | _ \<Rightarrow> JList []) d2
      in normalize_role (str_lower (py_str fr (json_or [get_json d3 ''role''] (JStr [])))) d3)"

fun dict_items :: "json list \<Rightarrow> jdict list" where
  "dict_items [] = []"
| "dict_items (JObj d # vs) = d # dict_items vs"
| "dict_items (_ # vs) = dict_items vs"

definition normalize_plan_payload :: "(rat \<Rightarrow> string) \<Rightarrow> jdict \<Rightarrow> jdict" where
  "normalize_plan_payload fr payload =
     (if map_of payload ''tasks'' \<noteq> None then payload
      else case map_of payload ''plan'' of
             Some (JList plan) \<Rightarrow>
               [(''version'', JStr (py_str fr (json_or [get_json payload ''version''] (JStr ''1.0'')))),
                (''summary'', JStr (py_str fr (json_or [get_json payload ''summary'', get_json payload ''description'']
                                                 (JStr ''planner generated workflow'')))),
                (''tasks'', JList (map (\<lambda>d. JObj (normalize_plan_item fr d)) (dict_items plan)))]
           | _ \<Rightarrow> payload)"

definition is_filled_str :: "json \<Rightarrow> bool" where
  "is_filled_str v = (case v of JStr s \<Rightarrow> s \<noteq> [] | _ \<Rightarrow> False)"

definition normalize_searches :: "json list \<Rightarrow> json list" where
  "normalize_searches searches =
     List.map_filter (\<lambda>item. case item of
         JObj d \<Rightarrow> Some (JObj d)
       | JStr s \<Rightarrow> if s \<noteq> [] then Some (JObj [(''query'', JStr s), (''path'', JStr ''.'')]) else None
       | _ \<Rightarrow> None) searches"

fun list_of_json :: "json \<Rightarrow> json list option" where
  "list_of_json (JList xs) = Some xs"
| "list_of_json _ = None"

definition extract_file :: "jdict \<Rightarrow> string list \<Rightarrow> string list" where
  "extract_file item extracted =
     (case json_or [get_json item ''file''] (get_json item ''path'') of
        JStr f \<Rightarrow> if f \<noteq> [] \<and> f \<notin> set extracted then extracted @ [f] else extracted
      | _ \<Rightarrow> extracted)"

definition extract_files :: "jdict \<Rightarrow> string list" where
  "extract_files payload =
     fold (\<lambda>key extracted.
             case list_of_json (get_json payload key) of
               None \<Rightarrow> extracted
             | Some vs \<Rightarrow> fold extract_file (dict_items vs) extracted)
       [''tasks'', ''items'', ''plan''] []"

definition normalize_inspection_payload :: "(rat \<Rightarrow> string) \<Rightarrow> jdict \<Rightarrow> jdict" where
  "normalize_inspection_payload fr payload =
     (let files = list_of_json (get_json payload ''files''); searches = list_of_json (get_json payload ''searches'')
      in if files \<noteq> None \<or> searches \<noteq> None
         then (let d1 = (case files of None \<Rightarrow> payload
                         | Some fs \<Rightarrow> dict_set ''files'' (JList (filter is_filled_str fs)) payload)
               in case searches of None \<Rightarrow> d1
                  | Some ss \<Rightarrow> dict_set ''searches'' (JList (normalize_searches ss)) d1)
         else [(''files'', JList (map JStr (extract_files payload))), (''searches'', JList []),
               (''summary'', JStr (py_str fr (json_or [get_json payload ''summary'', get_json payload ''description'']
                                                (JStr []))))])"

section \<open>Prompts\<close>

definition build_inspection_prompt ::
    "(rat \<Rightarrow> string) \<Rightarrow> string \<Rightarrow> string list \<Rightarrow> string \<Rightarrow> string list \<Rightarrow> jdict \<Rightarrow> string" where
  "build_inspection_prompt fr user_goal repo_tree readme_summary roles limits =
     json_dumps fr (JObj
       [(''goal'', JStr user_goal), (''repo_tree'', JList (map JStr repo_tree)),
        (''readme_summary'', JStr readme_summary), (''roles'', JList (map JStr roles)),
        (''limits'', JObj limits), (''output'', JStr ''InspectionRequest JSON only'')])"

definition example_task :: "string \<Rightarrow> string \<Rightarrow> string \<Rightarrow> string list \<Rightarrow> jdict \<Rightarrow> json" where
  "example_task local_id role goal deps cap =
     JObj [(''local_id'', JStr local_id), (''role'', JStr role), (''goal'', JStr goal),
           (''dependencies'', JList (map JStr deps)), (''required_capability'', JObj cap)]"

definition build_plan_prompt :: "(rat \<Rightarrow> string) \<Rightarrow> string \<Rightarrow> jdict \<Rightarrow> string list \<Rightarrow> string" where
  "build_plan_prompt fr user_goal inspection_context roles =
     json_dumps fr (JObj
       [(''goal'', JStr user_goal), (''inspection_context'', JObj inspection_context),
        (''roles'', JList (map JStr roles)),
        (''output'', JObj
          [(''instruction'', JStr ''Return PlanSpec JSON only. Do not wrap it in another object.''),
           (''required_shape'', JObj
             [(''version'', JStr ''1.0''), (''summary'', JStr ''short workflow summary''),
              (''tasks'', JList
                [example_task ''fix_auth'' ''coder'' ''specific code change goal'' []
                   [(''can_code'', JBool True), (''language'', JStr ''python'')],
                 example_task ''regression'' ''tester'' ''run pytest'' [''fix_auth'']
                   [(''can_test'', JBool True), (''tool'', JStr ''run_pytest'')],
                 example_task ''review'' ''reviewer'' ''review patch and test evidence'' [''regression'']
                   [(''can_review'', JBool True)]])])])])"

section \<open>The planning pipeline\<close>

text \<open>
  \<open>_complete_json_model\<close>: at most four calls; \<open>llm n p\<close> is the answer to the \<open>n\<close>-th prompt of the
  run. A \<open>ValueError\<close> (pydantic's \<open>ValidationError\<close> and \<open>JSONDecodeError\<close> are such) asks again with
  the message appended; any other exception leaves. \<open>msg\<close> is \<open>str(exc)\<close>.
\<close>

fun is_value_error :: "py_error \<Rightarrow> bool" where
  "is_value_error (ValueError _) = True"
| "is_value_error (CoderPlanError _) = True"
| "is_value_error _ = False"

definition retry_prompt :: "string \<Rightarrow> string \<Rightarrow> string" where
  "retry_prompt prompt exc =
     prompt @ [CHR 0x0A, CHR 0x0A] @ ''Previous response was invalid JSON: '' @ exc @
     [CHR 0x0A] @ ''Return one complete JSON object only. Do not truncate strings.''"

fun complete_loop ::
    "(py_error \<Rightarrow> string) \<Rightarrow> (nat \<Rightarrow> string \<Rightarrow> string) \<Rightarrow> (string \<Rightarrow> py_error + 'a) \<Rightarrow> string \<Rightarrow>
     nat \<Rightarrow> nat \<Rightarrow> string \<Rightarrow> py_error option \<Rightarrow> nat \<times> (py_error + 'a)" where
  "complete_loop msg llm parse prompt 0 n current last_error =
     (n, Inl (case last_error of Some e \<Rightarrow> e | None \<Rightarrow> ValueError ''empty planner response''))"
| "complete_loop msg llm parse prompt (Suc k) n current last_error =
     (case parse (llm n current) of
        Inr x \<Rightarrow> (Suc n, Inr x)
      | Inl e \<Rightarrow> if is_value_error e
                 then complete_loop msg llm parse prompt k (Suc n) (retry_prompt prompt (msg e)) (Some e)
                 else (Suc n, Inl e))"

definition complete_json_model ::
    "(py_error \<Rightarrow> string) \<Rightarrow> (nat \<Rightarrow> string \<Rightarrow> string) \<Rightarrow> (string \<Rightarrow> py_error + 'a) \<Rightarrow> nat \<Rightarrow> string \<Rightarrow>
     nat \<times> (py_error + 'a)" where
  "complete_json_model msg llm parse n prompt = complete_loop msg llm parse prompt 4 n prompt None"

definition preferred_files :: "string list" where
  "preferred_files = [''app/auth.py'', ''app/orders.py'', ''app/models.py'', ''app/main.py'',
     ''tests/test_auth.py'', ''tests/test_orders.py'']"

definition ends_with :: "string \<Rightarrow> string \<Rightarrow> bool" where
  "ends_with suffix s \<longleftrightarrow> length suffix \<le> length s \<and> drop (length s - length suffix) s = suffix"

definition starts_with :: "string \<Rightarrow> string \<Rightarrow> bool" where
  "starts_with prefix s \<longleftrightarrow> take (length prefix) s = prefix"

fun fallback_loop :: "nat \<Rightarrow> string list \<Rightarrow> string list \<Rightarrow> string list" where
  "fallback_loop max_files files [] = files"
| "fallback_loop max_files files (path # paths) =
     (if length files \<ge> max_files then files
      else if path \<in> set files \<or> \<not> ends_with ''.py'' path then fallback_loop max_files files paths
      else if starts_with ''app/'' path \<or> starts_with ''tests/'' path
      then fallback_loop max_files (files @ [path]) paths
      else fallback_loop max_files files paths)"

definition fallback_inspection_files :: "string list \<Rightarrow> nat \<Rightarrow> string list" where
  "fallback_inspection_files repo_tree max_files =
     take max_files (fallback_loop max_files (filter (\<lambda>p. p \<in> set repo_tree) preferred_files) repo_tree)"

record inspector =
  in_repo_scan :: "string list"
  in_read_file :: "string \<Rightarrow> py_error + string"
  in_search_code :: "string \<Rightarrow> string \<Rightarrow> py_error + jdict list"

record PlannerPipelineResult =
  pr_inspection :: InspectionRequest
  pr_plan :: PlanSpec
  pr_repo_tree :: "string list"

fun read_files :: "inspector \<Rightarrow> string list \<Rightarrow> jdict \<Rightarrow> py_error + jdict" where
  "read_files ins [] acc = Inr acc"
| "read_files ins (rel # rels) acc =
     (case in_read_file ins rel of
        Inl e \<Rightarrow> Inl e
      | Inr text \<Rightarrow> read_files ins rels (dict_set rel (JStr text) acc))"

fun run_searches :: "inspector \<Rightarrow> SearchRequest list \<Rightarrow> json list \<Rightarrow> py_error + json list" where
  "run_searches ins [] acc = Inr acc"
| "run_searches ins (s # ss) acc =
     (case in_search_code ins (sr_query s) (sr_path s) of
        Inl e \<Rightarrow> Inl e
      | Inr matches \<Rightarrow> run_searches ins ss
          (acc @ [JObj [(''query'', JStr (sr_query s)), (''path'', JStr (sr_path s)),
                        (''matches'', JList (map JObj matches))]]))"

definition pipeline_execute ::
    "(rat \<Rightarrow> string) \<Rightarrow> (py_error \<Rightarrow> string) \<Rightarrow> (string \<Rightarrow> py_error + json) \<Rightarrow>
     (jdict \<Rightarrow> py_error + InspectionRequest) \<Rightarrow> (jdict \<Rightarrow> py_error + PlanSpec) \<Rightarrow>
     string \<Rightarrow> inspector \<Rightarrow> (nat \<Rightarrow> string \<Rightarrow> string) \<Rightarrow> string list \<Rightarrow> nat \<Rightarrow> py_error + PlannerPipelineResult" where
  "pipeline_execute fr msg loads mk_inspection mk_plan goal ins llm available_roles max_inspection_files =
     (let repo_tree = in_repo_scan ins;
          prompt1 = build_inspection_prompt fr goal (take 200 repo_tree) [] available_roles
            [(''max_files'', JInt (int max_inspection_files)), (''max_searches'', JInt 4)];
          parse1 = (\<lambda>output. case load_json_object loads output of
                       Inl e \<Rightarrow> Inl e | Inr d \<Rightarrow> mk_inspection (normalize_inspection_payload fr d));
          parse2 = (\<lambda>output. case load_json_object loads output of
                       Inl e \<Rightarrow> Inl e | Inr d \<Rightarrow> mk_plan (normalize_plan_payload fr d))
      in case complete_json_model msg llm parse1 0 prompt1 of
           (n1, Inl e) \<Rightarrow> Inl e
         | (n1, Inr inspection0) \<Rightarrow>
             (let inspection = (if ir_files inspection0 = [] \<and> ir_searches inspection0 = []
                  then \<lparr>ir_files = fallback_inspection_files repo_tree max_inspection_files, ir_searches = [],
                        ir_summary = ''fallback from repo_scan''\<rparr>
                  else inspection0)
              in case read_files ins (take max_inspection_files (ir_files inspection)) [] of
                   Inl e \<Rightarrow> Inl e
                 | Inr files \<Rightarrow>
                     (case run_searches ins (take 4 (ir_searches inspection)) [] of
                        Inl e \<Rightarrow> Inl e
                      | Inr searches \<Rightarrow>
                          (case complete_json_model msg llm parse2 n1
                                  (build_plan_prompt fr goal [(''files'', JObj files), (''searches'', JList searches)]
                                     available_roles) of
                             (n2, Inl e) \<Rightarrow> Inl e
                           | (n2, Inr plan) \<Rightarrow>
                               (case validate_plan plan of
                                  Inl e \<Rightarrow> Inl e
                                | Inr u \<Rightarrow> Inr \<lparr>pr_inspection = inspection, pr_plan = plan,
                                                pr_repo_tree = repo_tree\<rparr>)))))"

end
