(* ===== verification/Planner_Properties.thy ===== *)
theory Planner_Properties
  imports Planner
begin

text \<open>
  The validator accepts exactly the well-formed plans, an accepted plan can always be worked
  through, its tasks form a closed acyclic graph under fresh identifiers, and the pipeline asks
  the model a bounded number of times and returns only validated plans.
\<close>

section \<open>Validation against its specification\<close>

definition plan_ids :: "PlanSpec \<Rightarrow> string set" where
  "plan_ids plan = pt_local_id ` set (ps_tasks plan)"

definition plan_edges :: "PlanSpec \<Rightarrow> (string \<times> string) set" where
  "plan_edges plan = {(pt_local_id t, d) | t d. t \<in> set (ps_tasks plan) \<and> d \<in> set (pt_dependencies t)}"

definition task_wf :: "PlanSpec \<Rightarrow> PlanTask \<Rightarrow> bool" where
  "task_wf plan t \<longleftrightarrow>
     set (pt_dependencies t) \<subseteq> plan_ids plan \<and>
     (pt_role t = R_TESTER \<longrightarrow>
        (\<forall>u \<in> set (ps_tasks plan). pt_local_id u \<in> set (pt_dependencies t) \<longrightarrow> pt_role u \<noteq> R_REVIEWER)) \<and>
     (pt_role t = R_REVIEWER \<longrightarrow>
        \<not> get_truthy (pt_required_capability t) ''can_code'' \<and> \<not> get_truthy (pt_required_capability t) ''can_test'') \<and>
     (\<forall>key \<in> set forbidden_keys. map_of (pt_required_capability t) key = None \<and> map_of (pt_resource_request t) key = None)"

definition plan_wf :: "PlanSpec \<Rightarrow> bool" where
  "plan_wf plan \<longleftrightarrow>
     2 \<le> length (ps_tasks plan) \<and> length (ps_tasks plan) \<le> 12 \<and>
     distinct (map pt_local_id (ps_tasks plan)) \<and>
     pt_role ` set (ps_tasks plan) = {R_CODER, R_TESTER, R_REVIEWER} \<and>
     (\<forall>t \<in> set (ps_tasks plan). task_wf plan t) \<and>
     acyclic (plan_edges plan)"

lemma check_all_ok: "check_all f xs = Inr () \<longleftrightarrow> (\<forall>x \<in> set xs. f x = Inr ())"
  by (induction xs) (auto split: sum.splits)

lemma sum_then_ok: "sum_then r k = Inr x \<longleftrightarrow> r = Inr () \<and> k = Inr x"
  by (auto simp: sum_then_def split: sum.splits)

lemma check_not_reviewer_ok:
  assumes "distinct (map pt_local_id (ps_tasks plan))" "d \<in> plan_ids plan"
  shows "check_not_reviewer plan d = Inr () \<longleftrightarrow>
    (\<forall>u \<in> set (ps_tasks plan). pt_local_id u = d \<longrightarrow> pt_role u \<noteq> R_REVIEWER)"
proof -
  obtain t where t: "t \<in> set (ps_tasks plan)" "pt_local_id t = d" using assms(2) by (auto simp: plan_ids_def)
  have u: "u = t" if "u \<in> set (ps_tasks plan)" "pt_local_id u = d" for u
    using assms(1) t that by (auto simp: distinct_map dest: inj_onD)
  have "List.find (\<lambda>t. pt_local_id t = d) (ps_tasks plan) = Some t"
  proof (cases "List.find (\<lambda>t. pt_local_id t = d) (ps_tasks plan)")
    case None
    then show ?thesis using t by (auto simp: find_None_iff)
  next
    case (Some u')
    then have "u' \<in> set (ps_tasks plan)" "pt_local_id u' = d" by (auto simp: find_Some_iff)
    then show ?thesis using Some u by simp
  qed
  then have "check_not_reviewer plan d = Inr () \<longleftrightarrow> pt_role t \<noteq> R_REVIEWER" by (simp add: check_not_reviewer_def)
  also have "\<dots> \<longleftrightarrow> (\<forall>u \<in> set (ps_tasks plan). pt_local_id u = d \<longrightarrow> pt_role u \<noteq> R_REVIEWER)"
    using t u by metis
  finally show ?thesis .
qed

lemma validate_task_ok:
  assumes "distinct (map pt_local_id (ps_tasks plan))"
  shows "validate_task plan t = Inr () \<longleftrightarrow> task_wf plan t"
proof -
  have known: "check_all (check_known (set (map pt_local_id (ps_tasks plan)))) (pt_dependencies t) = Inr () \<longleftrightarrow>
      set (pt_dependencies t) \<subseteq> plan_ids plan"
    by (auto simp: check_all_ok check_known_def plan_ids_def)
  have forb: "check_all (check_forbidden t) forbidden_keys = Inr () \<longleftrightarrow>
      (\<forall>key \<in> set forbidden_keys. map_of (pt_required_capability t) key = None \<and> map_of (pt_resource_request t) key = None)"
    by (auto simp: check_all_ok check_forbidden_def)
  have rev: "check_all (check_not_reviewer plan) (pt_dependencies t) = Inr () \<longleftrightarrow>
      (\<forall>u \<in> set (ps_tasks plan). pt_local_id u \<in> set (pt_dependencies t) \<longrightarrow> pt_role u \<noteq> R_REVIEWER)"
    if "set (pt_dependencies t) \<subseteq> plan_ids plan"
    using that check_not_reviewer_ok[OF assms] by (auto simp: check_all_ok subset_iff)
  show ?thesis
    unfolding validate_task_def task_wf_def sum_then_ok known forb using rev by auto
qed

lemma map_of_fold_dict:
  "distinct (map k ts) \<Longrightarrow>
   map_of (fold (\<lambda>t d. dict_set (k t) (v t) d) ts acc) x =
     (case map_of (map (\<lambda>t. (k t, v t)) ts) x of Some y \<Rightarrow> Some y | None \<Rightarrow> map_of acc x)"
proof (induction ts arbitrary: acc)
  case (Cons t ts)
  have "map_of (map (\<lambda>t. (k t, v t)) ts) (k t) = None"
    using Cons.prems by (auto simp: map_of_eq_None_iff image_image)
  then show ?case using Cons by (auto split: option.splits)
qed simp

lemma plan_deps_lookup:
  assumes "distinct (map pt_local_id (ps_tasks plan))"
  shows "map_of (fold (\<lambda>t d. dict_set (pt_local_id t) (pt_dependencies t) d) (ps_tasks plan) []) x = Some ds \<longleftrightarrow>
    (\<exists>t \<in> set (ps_tasks plan). pt_local_id t = x \<and> pt_dependencies t = ds)"
proof -
  have "distinct (map fst (map (\<lambda>t. (pt_local_id t, pt_dependencies t)) (ps_tasks plan)))"
    using assms by (simp add: comp_def)
  from map_of_eq_Some_iff[OF this, of x ds] show ?thesis
    by (auto simp: map_of_fold_dict[OF assms] split: option.splits)
qed

lemma assert_acyclic_iff:
  assumes "distinct (map pt_local_id (ps_tasks plan))" "\<forall>t \<in> set (ps_tasks plan). set (pt_dependencies t) \<subseteq> plan_ids plan"
  shows "assert_acyclic plan = (if acyclic (plan_edges plan) then Inr () else Inl (ValueError ''plan dependency graph has cycle''))"
proof -
  let ?d = "fold (\<lambda>t d. dict_set (pt_local_id t) (pt_dependencies t) d) (ps_tasks plan) []"
  have e: "dep_edges (\<lambda>_. True) ?d = plan_edges plan"
    by (auto simp: dep_edges_def plan_edges_def plan_deps_lookup[OF assms(1)])
  have "map_of ?d b \<noteq> None" if ab: "(a, b) \<in> plan_edges plan" for a b
  proof -
    obtain t where "t \<in> set (ps_tasks plan)" "b \<in> set (pt_dependencies t)" using ab by (auto simp: plan_edges_def)
    then obtain u where u: "u \<in> set (ps_tasks plan)" "pt_local_id u = b" using assms(2) by (auto simp: plan_ids_def)
    then have "map_of ?d b = Some (pt_dependencies u)" using plan_deps_lookup[OF assms(1)] by blast
    then show ?thesis by simp
  qed
  then have "dep_closed (\<lambda>_. True) ?d" unfolding dep_closed_def e by auto
  from assert_no_cycle_iff[OF this] show ?thesis by (simp add: assert_acyclic_def e)
qed

lemma roles_all: "R_CODER \<in> S \<and> R_TESTER \<in> S \<and> R_REVIEWER \<in> S \<longleftrightarrow> S = {R_CODER, R_TESTER, R_REVIEWER}"
proof -
  have "x \<in> {R_CODER, R_TESTER, R_REVIEWER}" for x by (cases x) auto
  then show ?thesis by blast
qed

lemma validate_plan_iff: "validate_plan plan = Inr () \<longleftrightarrow> plan_wf plan"
proof (cases "2 \<le> length (ps_tasks plan) \<and> length (ps_tasks plan) \<le> 12 \<and> distinct (map pt_local_id (ps_tasks plan)) \<and>
    pt_role ` set (ps_tasks plan) = {R_CODER, R_TESTER, R_REVIEWER}")
  case False
  then show ?thesis
    unfolding plan_wf_def validate_plan_def Let_def
    using roles_all[of "pt_role ` set (ps_tasks plan)"] card_distinct[of "map pt_local_id (ps_tasks plan)"]
    by (auto simp del: set_map)
next
  case True
  then have d: "distinct (map pt_local_id (ps_tasks plan))" by blast
  have "validate_plan plan = sum_then (check_all (validate_task plan) (ps_tasks plan)) (assert_acyclic plan)"
    using True roles_all[of "pt_role ` set (ps_tasks plan)"] distinct_card[OF d]
    unfolding validate_plan_def Let_def by simp
  also have "\<dots> = Inr () \<longleftrightarrow> (\<forall>t \<in> set (ps_tasks plan). task_wf plan t) \<and> assert_acyclic plan = Inr ()"
    by (simp add: sum_then_ok check_all_ok validate_task_ok[OF d])
  also have "\<dots> \<longleftrightarrow> (\<forall>t \<in> set (ps_tasks plan). task_wf plan t) \<and> acyclic (plan_edges plan)"
    using assert_acyclic_iff[OF d] by (auto simp: task_wf_def split: if_splits)
  finally show ?thesis using True by (simp add: plan_wf_def)
qed

section \<open>Accepted plans can be worked through\<close>

interpretation plan_graph: checked_graph "\<lambda>plan. validate_plan plan = Inr ()" plan_ids
  "\<lambda>plan x. {d. (x, d) \<in> plan_edges plan}"
proof
  fix plan x
  assume ok: "validate_plan plan = Inr ()"
  then have wf: "plan_wf plan" by (simp add: validate_plan_iff)
  show "finite (plan_ids plan)" by (simp add: plan_ids_def)
  show "{d. (x, d) \<in> plan_edges plan} \<subseteq> plan_ids plan"
    using wf by (auto simp: plan_wf_def plan_edges_def task_wf_def)
  have "{(x, y). x \<in> plan_ids plan \<and> y \<in> {d. (x, d) \<in> plan_edges plan}} = plan_edges plan"
    by (auto simp: plan_ids_def plan_edges_def)
  then show "acyclic {(x, y). x \<in> plan_ids plan \<and> y \<in> {d. (x, d) \<in> plan_edges plan}}"
    using wf by (simp add: plan_wf_def)
qed

definition demo_plan_task :: "string \<Rightarrow> plan_role \<Rightarrow> string list \<Rightarrow> PlanTask" where
  "demo_plan_task local_id role deps =
     \<lparr>pt_local_id = local_id, pt_role = role, pt_goal = ''g'', pt_dependencies = deps,
      pt_required_capability = [], pt_resource_request = [], pt_timeout_ms = 300000,
      pt_failure_policy = default_failure_policy\<rparr>"

definition demo_plan :: PlanSpec where
  "demo_plan = \<lparr>ps_version = ''1.0'', ps_summary = ''s'',
     ps_tasks = [demo_plan_task ''c'' R_CODER [], demo_plan_task ''t'' R_TESTER [''c''],
                 demo_plan_task ''r'' R_REVIEWER [''t'']]\<rparr>"

lemma demo_plan_ok: "validate_plan demo_plan = Inr ()"
  by code_simp

text \<open>
  C18: The validator accepts exactly the well-formed plans: two to twelve tasks with different
  names, all three roles, known dependencies, no tester behind a reviewer, no reviewer that may
  write or test, no forbidden key, and no cycle of dependencies.
\<close>

theorem plan_validation_correct:
  "validate_plan plan = Inr () \<longleftrightarrow>
     2 \<le> length (ps_tasks plan) \<and> length (ps_tasks plan) \<le> 12 \<and>
     distinct (map pt_local_id (ps_tasks plan)) \<and>
     pt_role ` set (ps_tasks plan) = {R_CODER, R_TESTER, R_REVIEWER} \<and>
     Ball (set (ps_tasks plan)) (task_wf plan) \<and>
     acyclic (plan_edges plan)"
  by (simp add: validate_plan_iff plan_wf_def)

theorem plan_validation_correct_witness:
  "validate_plan demo_plan = Inr () \<and> task_wf demo_plan (demo_plan_task ''t'' R_TESTER [''c'']) \<and>
   acyclic (plan_edges demo_plan)"
  using plan_validation_correct[of demo_plan] demo_plan_ok by (simp add: demo_plan_def)

text \<open>
  C19: An accepted plan can always be worked through: as long as some task is not done, there is a
  task that is not done and whose dependencies all are.
\<close>

theorem plan_never_stuck:
  assumes "validate_plan plan = Inr ()" and "\<not> plan_ids plan \<subseteq> finished"
  shows "\<exists>t \<in> set (ps_tasks plan). pt_local_id t \<notin> finished \<and> set (pt_dependencies t) \<subseteq> finished"
proof -
  obtain x where x: "x \<in> plan_ids plan - finished" "{d. (x, d) \<in> plan_edges plan} \<subseteq> finished"
    using plan_graph.progress[OF assms] by blast
  then obtain t where t: "t \<in> set (ps_tasks plan)" "pt_local_id t = x" by (auto simp: plan_ids_def)
  then have "set (pt_dependencies t) \<subseteq> finished" using x(2) by (auto simp: plan_edges_def)
  with t x(1) show ?thesis by auto
qed

theorem plan_never_stuck_witness:
  "\<exists>t \<in> set (ps_tasks demo_plan). pt_local_id t \<notin> {''c''} \<and> set (pt_dependencies t) \<subseteq> {''c''}"
proof (rule plan_never_stuck[OF demo_plan_ok])
  show "\<not> plan_ids demo_plan \<subseteq> {''c''}" by (simp add: plan_ids_def demo_plan_def demo_plan_task_def)
qed

section \<open>Materialised tasks\<close>

lemma child_id_inject [simp]: "child_id parent a = child_id parent b \<longleftrightarrow> a = b"
  by (simp add: child_id_def)

lemma materialize_item_fields:
  "ts_task_id (materialize_item now parent item) = child_id parent (pt_local_id item)"
  "ts_dependencies (materialize_item now parent item) = map (child_id parent) (pt_dependencies item)"
  "ts_failure_policy (materialize_item now parent item) = role_failure_policy (pt_role item) (pt_failure_policy item)"
  "ts_failure_policy_set (materialize_item now parent item)"
  "ts_status (materialize_item now parent item) = TS_PENDING"
  "ts_root_task_id (materialize_item now parent item) = Some (root_or_self parent)"
  "ts_task_role (materialize_item now parent item) = Some (role_value (pt_role item))"
  by (simp_all add: materialize_item_def model_post_init_def sync_from_tcb_def tcb_of_task_def raw_task_def Let_def)

lemma role_failure_policy_closed:
  "pt_role item \<noteq> R_REVIEWER \<Longrightarrow> fp_mode (role_failure_policy (pt_role item) p) \<noteq> FAIL_OPEN"
  by (cases "pt_role item") (auto simp: role_failure_policy_def)

lemma materialize_map:
  "materialize_plan clock parent plan = Inr ts \<Longrightarrow>
   validate_plan plan = Inr () \<and> length ts = length (ps_tasks plan) \<and>
   (\<forall>i < length (ps_tasks plan). ts ! i = materialize_item (clock i) parent (ps_tasks plan ! i))"
  by (auto simp: materialize_plan_def split: sum.splits)

lemma acyclic_inj_image:
  assumes "acyclic r" "inj f" shows "acyclic (map_prod f f ` r)"
proof (rule acyclicI, intro allI notI)
  fix x assume "(x, x) \<in> (map_prod f f ` r)\<^sup>+"
  moreover have "\<exists>a b. x = f a \<and> y = f b \<and> (a, b) \<in> r\<^sup>+" if "(x, y) \<in> (map_prod f f ` r)\<^sup>+" for x y
    using that
  proof (induction rule: trancl_induct)
    case (base y)
    then show ?case by auto
  next
    case (step y z)
    then obtain a b where "x = f a" "y = f b" "(a, b) \<in> r\<^sup>+" by blast
    moreover obtain c d where "y = f c" "z = f d" "(c, d) \<in> r" using step.hyps(2) by auto
    ultimately show ?case using injD[OF assms(2)] by (metis trancl_into_trancl)
  qed
  ultimately obtain a b where "x = f a" "x = f b" "(a, b) \<in> r\<^sup>+" by blast
  then show False using assms injD[OF assms(2), of a b] by (auto simp: acyclic_def)
qed

text \<open>
  C20: Materialisation keeps the graph. The tasks made from an accepted plan have different
  identifiers, depend only on each other and without a cycle, start \<open>PENDING\<close> under the root of the
  planner's task, and no coder or tester among them may fail open.
\<close>

theorem plan_materialization_sound:
  assumes "materialize_plan clock parent plan = Inr ts"
  shows "length ts = length (ps_tasks plan) \<and> distinct (map ts_task_id ts) \<and>
    (\<forall>t \<in> set ts. set (ts_dependencies t) \<subseteq> ts_task_id ` set ts \<and> ts_status t = TS_PENDING \<and>
       ts_root_task_id t = Some (root_or_self parent) \<and>
       (ts_task_role t \<noteq> Some ''reviewer'' \<longrightarrow> fp_mode (ts_failure_policy t) \<noteq> FAIL_OPEN)) \<and>
    acyclic {(ts_task_id t, d) | t d. t \<in> set ts \<and> d \<in> set (ts_dependencies t)}"
proof -
  let ?P = "ps_tasks plan"
  have len: "length ts = length ?P" and wf: "plan_wf plan"
      and nth: "\<And>i. i < length ?P \<Longrightarrow> ts ! i = materialize_item (clock i) parent (?P ! i)"
    using materialize_map[OF assms] by (auto simp: validate_plan_iff)
  have ids: "map ts_task_id ts = map (child_id parent \<circ> pt_local_id) ?P"
    by (rule nth_equalityI) (auto simp: len nth materialize_item_fields)
  have mem: "\<exists>p \<in> set ?P. \<exists>now. t = materialize_item now parent p" if "t \<in> set ts" for t
    using that nth len by (metis in_set_conv_nth)
  have "distinct (map (child_id parent \<circ> pt_local_id) ?P)"
    using wf by (auto simp: plan_wf_def distinct_map inj_on_def)
  then have d: "distinct (map ts_task_id ts)" by (simp add: ids)
  have idset: "ts_task_id ` set ts = child_id parent ` plan_ids plan"
    using ids by (metis image_comp image_set plan_ids_def list.set_map)
  have deps: "set (ts_dependencies t) \<subseteq> ts_task_id ` set ts \<and> ts_status t = TS_PENDING \<and>
       ts_root_task_id t = Some (root_or_self parent) \<and>
       (ts_task_role t \<noteq> Some ''reviewer'' \<longrightarrow> fp_mode (ts_failure_policy t) \<noteq> FAIL_OPEN)" if t: "t \<in> set ts" for t
  proof -
    obtain p now where p: "p \<in> set ?P" "t = materialize_item now parent p" using mem[OF t] by blast
    have "set (pt_dependencies p) \<subseteq> plan_ids plan" using wf p(1) by (auto simp: plan_wf_def task_wf_def)
    moreover have "pt_role p = R_REVIEWER \<or> fp_mode (role_failure_policy (pt_role p) (pt_failure_policy p)) \<noteq> FAIL_OPEN"
      using role_failure_policy_closed by blast
    ultimately show ?thesis by (auto simp: p(2) materialize_item_fields idset)
  qed
  have "{(ts_task_id t, d) | t d. t \<in> set ts \<and> d \<in> set (ts_dependencies t)} \<subseteq>
      map_prod (child_id parent) (child_id parent) ` plan_edges plan"
  proof clarify
    fix t d assume "t \<in> set ts" "d \<in> set (ts_dependencies t)"
    moreover obtain p now where "p \<in> set ?P" "t = materialize_item now parent p" using mem[OF calculation(1)] by blast
    ultimately show "(ts_task_id t, d) \<in> map_prod (child_id parent) (child_id parent) ` plan_edges plan"
      by (fastforce simp: materialize_item_fields plan_edges_def)
  qed
  moreover have "acyclic (map_prod (child_id parent) (child_id parent) ` plan_edges plan)"
    using wf by (intro acyclic_inj_image) (auto simp: plan_wf_def intro: injI)
  ultimately have "acyclic {(ts_task_id t, d) | t d. t \<in> set ts \<and> d \<in> set (ts_dependencies t)}"
    by (rule acyclic_subset[rotated])
  with len d deps show ?thesis by blast
qed

definition demo_parent :: TaskSpec where
  "demo_parent = new_task ''p'' (Some ''planner'') [] [] ''tr'' 0"

lemma demo_materialize_ok: "\<exists>ts. materialize_plan (\<lambda>_. 1) demo_parent demo_plan = Inr ts"
  using demo_plan_ok by (simp add: materialize_plan_def)

theorem plan_materialization_sound_witness:
  "\<exists>ts. materialize_plan (\<lambda>_. 1) demo_parent demo_plan = Inr ts \<and> distinct (map ts_task_id ts) \<and> length ts = 3"
proof -
  obtain ts where ts: "materialize_plan (\<lambda>_. 1) demo_parent demo_plan = Inr ts" using demo_materialize_ok by blast
  from plan_materialization_sound[OF this] ts show ?thesis by (auto simp: demo_plan_def)
qed

section \<open>The pipeline\<close>

lemma complete_loop_calls: "fst (complete_loop msg llm parse prompt k n current le) \<le> n + k"
proof (induction k arbitrary: n current le)
  case (Suc k)
  show ?case
    using Suc.IH[of "Suc n"] by (simp split: sum.splits)
qed simp

lemma complete_loop_result:
  "snd (complete_loop msg llm parse prompt k n current le) = Inr x \<Longrightarrow>
   \<exists>j p. n \<le> j \<and> j < n + k \<and> parse (llm j p) = Inr x"
proof (induction k arbitrary: n current le)
  case (Suc k)
  show ?case
  proof (cases "parse (llm n current)")
    case (Inr y)
    then show ?thesis using Suc.prems by (intro exI[of _ n] exI[of _ current]) simp
  next
    case (Inl e)
    then have "is_value_error e" using Suc.prems by (auto split: if_splits)
    then have "snd (complete_loop msg llm parse prompt k (Suc n) (retry_prompt prompt (msg e)) (Some e)) = Inr x"
      using Suc.prems Inl by simp
    from Suc.IH[OF this] show ?thesis by (metis Suc_leD add_Suc_shift)
  qed
qed simp

lemma fallback_loop_files:
  "set (fallback_loop k files tree) \<subseteq> set files \<union> set tree"
  "distinct files \<Longrightarrow> distinct (fallback_loop k files tree)"
  by (induction k files tree rule: fallback_loop.induct) auto

text \<open>
  The planning pipeline returns only validated plans, has read every file it was allowed to read,
  asks the model at most four times per question, and the files it falls back to when the model
  names nothing to inspect are different files of the repository, not more than allowed.
\<close>

theorem pipeline_returns_valid_plan:
  assumes "pipeline_execute fr msg loads mk_i mk_p goal ins llm roles n = Inr r"
  shows "validate_plan (pr_plan r) = Inr () \<and> pr_repo_tree r = in_repo_scan ins \<and>
    (\<forall>rel \<in> set (take n (ir_files (pr_inspection r))). \<exists>text. in_read_file ins rel = Inr text) \<and>
    set (fallback_inspection_files (in_repo_scan ins) n) \<subseteq> set (in_repo_scan ins) \<and>
    length (fallback_inspection_files (in_repo_scan ins) n) \<le> n \<and> distinct (fallback_inspection_files (in_repo_scan ins) n) \<and>
    (\<forall>k p. fst (complete_json_model msg llm (parse_json_model loads mk_p) k p) \<le> k + 4)"
proof -
  have reads: "\<forall>rel \<in> set rels. \<exists>text. in_read_file ins rel = Inr text" if "read_files ins rels acc = Inr d" for rels acc d
    using that by (induction rels arbitrary: acc) (auto split: sum.splits)
  have "validate_plan (pr_plan r) = Inr () \<and> pr_repo_tree r = in_repo_scan ins \<and>
      (\<exists>d. read_files ins (take n (ir_files (pr_inspection r))) [] = Inr d)"
    using assms unfolding pipeline_execute_def Let_def by (auto split: sum.splits prod.splits)
  moreover have "set (fallback_inspection_files (in_repo_scan ins) n) \<subseteq> set (in_repo_scan ins)"
    using fallback_loop_files(1)[of n "filter (\<lambda>p. p \<in> set (in_repo_scan ins)) preferred_files" "in_repo_scan ins"]
    by (auto simp: fallback_inspection_files_def dest: in_set_takeD)
  moreover have "distinct (fallback_inspection_files (in_repo_scan ins) n)"
    unfolding fallback_inspection_files_def
    by (intro distinct_take fallback_loop_files(2) distinct_filter) (simp add: preferred_files_def)
  moreover have "fst (complete_json_model msg llm (parse_json_model loads mk_p) k p) \<le> k + 4" for k p
    unfolding complete_json_model_def by (rule complete_loop_calls)
  ultimately show ?thesis using reads by (auto simp: fallback_inspection_files_def)
qed

text \<open>A run: the model names nothing to inspect, then returns the demonstration plan.\<close>

definition demo_inspector :: inspector where
  "demo_inspector = \<lparr>in_repo_scan = [''app/main.py''], in_read_file = (\<lambda>_. Inr ''x''), in_search_code = (\<lambda>_ _. Inr [])\<rparr>"

lemma demo_pipeline_ok:
  "\<exists>r. pipeline_execute (\<lambda>_. []) (\<lambda>_. []) (\<lambda>_. Inr (JObj []))
     (\<lambda>_. Inr \<lparr>ir_files = [], ir_searches = [], ir_summary = []\<rparr>) (\<lambda>_. Inr demo_plan)
     ''g'' demo_inspector (\<lambda>_ _. ''x'') [] 6 = Inr r"
proof -
  have "read_files demo_inspector rels acc \<noteq> Inl e" for rels acc e
    by (induction rels arbitrary: acc) (simp_all add: demo_inspector_def)
  then show ?thesis
    using demo_plan_ok
    by (simp add: pipeline_execute_def Let_def load_json_object_def
        complete_json_model_def numeral_eq_Suc split: sum.splits)
qed

theorem pipeline_returns_valid_plan_witness:
  "\<exists>r. pipeline_execute (\<lambda>_. []) (\<lambda>_. []) (\<lambda>_. Inr (JObj []))
     (\<lambda>_. Inr \<lparr>ir_files = [], ir_searches = [], ir_summary = []\<rparr>) (\<lambda>_. Inr demo_plan)
     ''g'' demo_inspector (\<lambda>_ _. ''x'') [] 6 = Inr r \<and> validate_plan (pr_plan r) = Inr ()"
proof -
  obtain r where r: "pipeline_execute (\<lambda>_. []) (\<lambda>_. []) (\<lambda>_. Inr (JObj []))
     (\<lambda>_. Inr \<lparr>ir_files = [], ir_searches = [], ir_summary = []\<rparr>) (\<lambda>_. Inr demo_plan)
     ''g'' demo_inspector (\<lambda>_ _. ''x'') [] 6 = Inr r"
    using demo_pipeline_ok by blast
  from pipeline_returns_valid_plan[OF this] r show ?thesis by blast
qed

end
