(* ===== verification/Incident_Graph.thy ===== *)
theory Incident_Graph
  imports Py_Json Cycle_Check
begin

text \<open>
  \<open>applications/incident_repair/\<close>: the repair workflow as a graph of nodes over a shared state
  (\<open>state.py\<close>, \<open>schemas.py\<close>, \<open>routing.py\<close>, \<open>nodes/\<close>, \<open>graph.py\<close>, \<open>runner.py\<close>).

  A node returns a partial update of the state; \<open>merge_update\<close> combines it with the state by the
  reducers declared in \<open>IncidentRepairState\<close>, as LangGraph documents, while \<open>overwrite_update\<close> is the
  plain \<open>dict.update\<close> of the runner. The edges are those of \<open>build_graph\<close>. The execution provider,
  the integration service, the pydantic validators, the prompt files and SHA-256 are fields of
  \<open>graph_env\<close>, indexed by the number of the step that calls them.
\<close>

section \<open>State\<close>

record PlannedTask =
  it_local_id :: string
  it_role :: string
  it_goal :: string
  it_dependencies :: "string list"

record IncidentPlan =
  ip_version :: string
  ip_summary :: string
  ip_tasks :: "PlannedTask list"

record PatchReference =
  pf_task_local_id :: string
  pf_artifact_id :: "string option"
  pf_patch_path :: string
  pf_sha256 :: string
  pf_changed_files :: "string list"

record ExecutionMetrics =
  em_queue_wait_ms :: rat
  em_setup_ms :: rat
  em_backend_ms :: rat
  em_cleanup_ms :: rat
  em_total_ms :: rat
  em_input_tokens :: int
  em_output_tokens :: int
  em_total_tokens :: int
  em_cpu_time_ms :: rat
  em_peak_rss_mb :: rat
  em_tool_calls :: int
  em_file_reads :: int
  em_search_calls :: int

record ExecutionRecord =
  er_node :: string
  er_role :: string
  er_backend :: string
  er_mode :: string
  er_status :: string
  er_runtime_task_id :: "string option"
  er_attempt_ids :: "string list"
  er_metrics :: ExecutionMetrics

record TestSummary =
  su_returncode :: int
  su_passed :: int
  su_failed :: int
  su_failed_tests :: "jdict list"
  su_report_artifact_id :: "string option"

record ReviewSummary =
  rv_approved :: bool
  rv_requirements_covered :: "string list"
  rv_issues :: "string list"
  rv_summary :: string
  rv_artifact_id :: "string option"

record IntegrationResult =
  ig_status :: string
  ig_workspace_path :: string
  ig_base_commit :: string
  ig_integrated_commit :: "string option"
  ig_applied_artifact_ids :: "string list"
  ig_changed_files :: "string list"
  ig_conflict_files :: "string list"
  ig_error :: "string option"

record HistoryEntry =
  hi_task_id :: string
  hi_base_commit :: string
  hi_integrated_commit :: "string option"
  hi_changed_files :: "string list"

record IncidentState =
  is_run_id :: string
  is_thread_id :: string
  is_user_request :: string
  is_source_repo :: string
  is_base_commit :: string
  is_plan :: "IncidentPlan option"
  is_planned_tasks :: "PlannedTask list"
  is_patch_refs :: "PatchReference list"
  is_all_patch_refs :: "PatchReference list"
  is_pending_patch_refs :: "PatchReference list"
  is_integrated_commit :: "string option"
  is_integration_result :: "IntegrationResult option"
  is_test_summary :: "TestSummary option"
  is_review_summary :: "ReviewSummary option"
  is_repair_round :: int
  is_workflow_status :: string
  is_error :: "string option"
  is_runtime_task_ids :: "string list"
  is_execution_records :: "ExecutionRecord list"
  is_event_count :: int
  is_completed_coder_task_ids :: "string list"
  is_active_coder_task :: "PlannedTask option"
  is_coder_step :: int
  is_coder_integration_history :: "HistoryEntry list"

text \<open>The state \<open>IncidentRunService.start_run\<close> hands to the graph.\<close>

definition incident_start :: "string \<Rightarrow> string \<Rightarrow> string \<Rightarrow> string \<Rightarrow> string \<Rightarrow> IncidentState" where
  "incident_start run_id thread_id user_request source_repo base_commit =
     \<lparr>is_run_id = run_id, is_thread_id = thread_id, is_user_request = user_request,
      is_source_repo = source_repo, is_base_commit = base_commit, is_plan = None, is_planned_tasks = [],
      is_patch_refs = [], is_all_patch_refs = [], is_pending_patch_refs = [], is_integrated_commit = None,
      is_integration_result = None, is_test_summary = None, is_review_summary = None, is_repair_round = 0,
      is_workflow_status = ''PENDING'', is_error = None, is_runtime_task_ids = [], is_execution_records = [],
      is_event_count = 0, is_completed_coder_task_ids = [], is_active_coder_task = None, is_coder_step = 0,
      is_coder_integration_history = []\<rparr>"

section \<open>Updates\<close>

datatype state_update =
    UPlan "IncidentPlan option"
  | UPlannedTasks "PlannedTask list"
  | UPatchRefs "PatchReference list"
  | UAllPatchRefs "PatchReference list"
  | UPendingPatchRefs "PatchReference list"
  | UIntegratedCommit "string option"
  | UIntegrationResult "IntegrationResult option"
  | UTestSummary "TestSummary option"
  | UReviewSummary "ReviewSummary option"
  | URepairRound int
  | UWorkflowStatus string
  | UError "string option"
  | URuntimeTaskIds "string list"
  | UExecutionRecords "ExecutionRecord list"
  | UCompletedCoderTaskIds "string list"
  | UActiveCoderTask "PlannedTask option"
  | UCoderStep int
  | UCoderIntegrationHistory "HistoryEntry list"

definition merge_pending_patch_refs :: "PatchReference list \<Rightarrow> PatchReference list \<Rightarrow> PatchReference list" where
  "merge_pending_patch_refs left right = (if right = [] then [] else left @ right)"

fun overwrite_update :: "state_update \<Rightarrow> IncidentState \<Rightarrow> IncidentState" where
  "overwrite_update (UPlan v) s = s\<lparr>is_plan := v\<rparr>"
| "overwrite_update (UPlannedTasks v) s = s\<lparr>is_planned_tasks := v\<rparr>"
| "overwrite_update (UPatchRefs v) s = s\<lparr>is_patch_refs := v\<rparr>"
| "overwrite_update (UAllPatchRefs v) s = s\<lparr>is_all_patch_refs := v\<rparr>"
| "overwrite_update (UPendingPatchRefs v) s = s\<lparr>is_pending_patch_refs := v\<rparr>"
| "overwrite_update (UIntegratedCommit v) s = s\<lparr>is_integrated_commit := v\<rparr>"
| "overwrite_update (UIntegrationResult v) s = s\<lparr>is_integration_result := v\<rparr>"
| "overwrite_update (UTestSummary v) s = s\<lparr>is_test_summary := v\<rparr>"
| "overwrite_update (UReviewSummary v) s = s\<lparr>is_review_summary := v\<rparr>"
| "overwrite_update (URepairRound v) s = s\<lparr>is_repair_round := v\<rparr>"
| "overwrite_update (UWorkflowStatus v) s = s\<lparr>is_workflow_status := v\<rparr>"
| "overwrite_update (UError v) s = s\<lparr>is_error := v\<rparr>"
| "overwrite_update (URuntimeTaskIds v) s = s\<lparr>is_runtime_task_ids := v\<rparr>"
| "overwrite_update (UExecutionRecords v) s = s\<lparr>is_execution_records := v\<rparr>"
| "overwrite_update (UCompletedCoderTaskIds v) s = s\<lparr>is_completed_coder_task_ids := v\<rparr>"
| "overwrite_update (UActiveCoderTask v) s = s\<lparr>is_active_coder_task := v\<rparr>"
| "overwrite_update (UCoderStep v) s = s\<lparr>is_coder_step := v\<rparr>"
| "overwrite_update (UCoderIntegrationHistory v) s = s\<lparr>is_coder_integration_history := v\<rparr>"

text \<open>The annotated channels are combined, every other one is replaced.\<close>

fun merge_update :: "state_update \<Rightarrow> IncidentState \<Rightarrow> IncidentState" where
  "merge_update (UPatchRefs v) s = s\<lparr>is_patch_refs := is_patch_refs s @ v\<rparr>"
| "merge_update (UAllPatchRefs v) s = s\<lparr>is_all_patch_refs := is_all_patch_refs s @ v\<rparr>"
| "merge_update (UPendingPatchRefs v) s =
     s\<lparr>is_pending_patch_refs := merge_pending_patch_refs (is_pending_patch_refs s) v\<rparr>"
| "merge_update (URuntimeTaskIds v) s = s\<lparr>is_runtime_task_ids := is_runtime_task_ids s @ v\<rparr>"
| "merge_update (UExecutionRecords v) s = s\<lparr>is_execution_records := is_execution_records s @ v\<rparr>"
| "merge_update (UCoderIntegrationHistory v) s =
     s\<lparr>is_coder_integration_history := is_coder_integration_history s @ v\<rparr>"
| "merge_update u s = overwrite_update u s"

definition merge_updates :: "state_update list \<Rightarrow> IncidentState \<Rightarrow> IncidentState" where
  "merge_updates us s = fold merge_update us s"

definition overwrite_updates :: "state_update list \<Rightarrow> IncidentState \<Rightarrow> IncidentState" where
  "overwrite_updates us s = fold overwrite_update us s"

section \<open>Requests and results\<close>

record AgentExecutionRequest =
  rq_run_id :: string
  rq_thread_id :: string
  rq_graph_node :: string
  rq_graph_step :: int
  rq_role :: string
  rq_backend :: string
  rq_goal :: string
  rq_system_prompt :: string
  rq_task_input :: jdict
  rq_source_repo :: string
  rq_base_commit :: string
  rq_timeout_s :: int
  rq_idempotency_key :: string
  rq_resource_request :: jdict

record AgentExecutionResult =
  rs_status :: string
  rs_output :: string
  rs_error_message :: "string option"
  rs_runtime_task_id :: "string option"
  rs_attempt_ids :: "string list"
  rs_patch_ref :: "PatchReference option"
  rs_structured_result :: jdict
  rs_metrics :: ExecutionMetrics

text \<open>\<open>provider.execute\<close> returns, times out, or raises something else.\<close>

datatype exec_outcome = Returned AgentExecutionResult | TimedOut string | Raised py_error

record graph_env =
  ge_execute :: "nat \<Rightarrow> AgentExecutionRequest \<Rightarrow> exec_outcome"
  ge_integrate :: "nat \<Rightarrow> IncidentState \<Rightarrow> string \<Rightarrow> PatchReference list \<Rightarrow> py_error + IntegrationResult"
  ge_mode :: string
  ge_prompt :: "string \<Rightarrow> string"
  ge_sha256 :: "string \<Rightarrow> string"
  ge_float_repr :: "rat \<Rightarrow> string"
  ge_plan_model :: "jdict \<Rightarrow> py_error + IncidentPlan"
  ge_test_model :: "jdict \<Rightarrow> py_error + TestSummary"
  ge_review_model :: "jdict \<Rightarrow> py_error + ReviewSummary"
  ge_task_timeout_s :: int
  ge_max_repair_rounds :: int

section \<open>Routing\<close>

definition build_idempotency_key :: "graph_env \<Rightarrow> string \<Rightarrow> string \<Rightarrow> int \<Rightarrow> string \<Rightarrow> string" where
  "build_idempotency_key env thread_id node_name graph_step logical_item_id =
     ge_sha256 env (thread_id @ '':'' @ node_name @ '':'' @ int_str graph_step @ '':'' @ logical_item_id)"

definition coder_tasks :: "IncidentState \<Rightarrow> PlannedTask list" where
  "coder_tasks s = filter (\<lambda>t. it_role t = ''coder'') (is_planned_tasks s)"

text \<open>\<open>{task["local_id"]: .. for task in ..}\<close>: a later task replaces an earlier one.\<close>

definition dict_by_id :: "(PlannedTask \<Rightarrow> 'v) \<Rightarrow> PlannedTask list \<Rightarrow> 'v dict" where
  "dict_by_id f ts = fold (\<lambda>t d. dict_set (it_local_id t) (f t) d) ts []"

fun check_coder_deps :: "PlannedTask dict \<Rightarrow> string \<Rightarrow> string list \<Rightarrow> py_error + unit" where
  "check_coder_deps by_id task_id [] = Inr ()"
| "check_coder_deps by_id task_id (dep # deps) =
     (case map_of by_id dep of
        None \<Rightarrow> Inl (CoderPlanError (''unknown dependency: '' @ task_id @ ''->'' @ dep))
      | Some d \<Rightarrow>
          if it_role d \<noteq> ''coder''
          then Inl (CoderPlanError (''coder task '' @ task_id @ '' depends on non-coder task '' @ dep))
          else check_coder_deps by_id task_id deps)"

fun check_coder_items :: "PlannedTask dict \<Rightarrow> PlannedTask list \<Rightarrow> py_error + unit" where
  "check_coder_items by_id [] = Inr ()"
| "check_coder_items by_id (t # ts) =
     (case check_coder_deps by_id (it_local_id t) (it_dependencies t) of
        Inl e \<Rightarrow> Inl e
      | Inr u \<Rightarrow> check_coder_items by_id ts)"

definition assert_coder_tasks_acyclic :: "PlannedTask list \<Rightarrow> py_error + unit" where
  "assert_coder_tasks_acyclic coder_items =
     (let deps = dict_by_id it_dependencies coder_items
      in assert_no_cycle (CoderPlanError ''coder dependency graph has cycle'') (\<lambda>d. map_of deps d \<noteq> None) deps)"

definition validate_coder_plan :: "PlannedTask list \<Rightarrow> py_error + unit" where
  "validate_coder_plan planned_tasks =
     (let by_id = dict_by_id (\<lambda>t. t) planned_tasks;
          coder_items = filter (\<lambda>t. it_role t = ''coder'') planned_tasks
      in if coder_items = [] then Inl (CoderPlanError ''plan contains no coder tasks'')
         else case check_coder_items by_id coder_items of
                Inl e \<Rightarrow> Inl e
              | Inr u \<Rightarrow> assert_coder_tasks_acyclic coder_items)"

definition remaining_coder_tasks :: "IncidentState \<Rightarrow> PlannedTask list" where
  "remaining_coder_tasks s =
     filter (\<lambda>t. it_role t = ''coder'' \<and> it_local_id t \<notin> set (is_completed_coder_task_ids s)) (is_planned_tasks s)"

definition ready_coder_tasks :: "IncidentState \<Rightarrow> PlannedTask list" where
  "ready_coder_tasks s =
     filter (\<lambda>t. set (it_dependencies t) \<subseteq> set (is_completed_coder_task_ids s)) (remaining_coder_tasks s)"

definition choose_next_coder_task :: "IncidentState \<Rightarrow> PlannedTask option" where
  "choose_next_coder_task s =
     (case sort_key it_local_id (ready_coder_tasks s) of [] \<Rightarrow> None | t # _ \<Rightarrow> Some t)"

definition is_failed :: "IncidentState \<Rightarrow> bool" where
  "is_failed s \<longleftrightarrow> is_workflow_status s = ''FAILED''"

definition route_after_test :: "int \<Rightarrow> IncidentState \<Rightarrow> string" where
  "route_after_test max_repair_rounds s =
     (case is_test_summary s of
        None \<Rightarrow> ''failed''
      | Some t \<Rightarrow> if su_returncode t = 0 then ''reviewer''
                  else if is_repair_round s \<ge> max_repair_rounds then ''failed'' else ''repair'')"

definition route_after_review :: "int \<Rightarrow> IncidentState \<Rightarrow> string" where
  "route_after_review max_repair_rounds s =
     (if is_failed s then ''failed''
      else if (case is_review_summary s of Some r \<Rightarrow> rv_approved r | None \<Rightarrow> False) then ''success''
      else if is_repair_round s \<ge> max_repair_rounds then ''failed'' else ''repair'')"

definition route_after_select :: "IncidentState \<Rightarrow> string" where
  "route_after_select s =
     (if is_failed s then ''failed'' else if is_active_coder_task s \<noteq> None then ''coder'' else ''tester'')"

definition route_after_coder :: "IncidentState \<Rightarrow> string" where
  "route_after_coder s = (if is_failed s then ''failed'' else ''integrate_coder'')"

definition route_after_repair :: "IncidentState \<Rightarrow> string" where
  "route_after_repair s = (if is_failed s then ''failed'' else ''integrate_repair'')"

section \<open>Nodes\<close>

definition execution_record_from_result ::
    "AgentExecutionRequest \<Rightarrow> AgentExecutionResult \<Rightarrow> string \<Rightarrow> ExecutionRecord" where
  "execution_record_from_result rq rs mode =
     \<lparr>er_node = rq_graph_node rq, er_role = rq_role rq, er_backend = rq_backend rq, er_mode = mode,
      er_status = rs_status rs, er_runtime_task_id = rs_runtime_task_id rs,
      er_attempt_ids = rs_attempt_ids rs, er_metrics = rs_metrics rs\<rparr>"

definition filled :: "string option \<Rightarrow> string \<Rightarrow> string" where
  "filled v w = (case v of Some s \<Rightarrow> if s \<noteq> [] then s else w | None \<Rightarrow> w)"

definition task_ids_of :: "AgentExecutionResult \<Rightarrow> string list" where
  "task_ids_of rs = (case rs_runtime_task_id rs of Some i \<Rightarrow> if i \<noteq> [] then [i] else [] | None \<Rightarrow> [])"

text \<open>The two bookkeeping entries almost every update carries.\<close>

definition booked :: "graph_env \<Rightarrow> AgentExecutionRequest \<Rightarrow> AgentExecutionResult \<Rightarrow> state_update list" where
  "booked env rq rs =
     [URuntimeTaskIds (task_ids_of rs), UExecutionRecords [execution_record_from_result rq rs (ge_mode env)]]"

definition base_or_integrated :: "IncidentState \<Rightarrow> string" where
  "base_or_integrated s = filled (is_integrated_commit s) (is_base_commit s)"

definition json_opt :: "('a \<Rightarrow> json) \<Rightarrow> 'a option \<Rightarrow> json" where
  "json_opt f v = (case v of None \<Rightarrow> JNull | Some x \<Rightarrow> f x)"

definition test_summary_json :: "TestSummary \<Rightarrow> json" where
  "test_summary_json t =
     JObj [(''returncode'', JInt (su_returncode t)), (''passed'', JInt (su_passed t)), (''failed'', JInt (su_failed t)),
           (''failed_tests'', JList (map JObj (su_failed_tests t))),
           (''report_artifact_id'', json_opt JStr (su_report_artifact_id t))]"

definition review_summary_json :: "ReviewSummary \<Rightarrow> json" where
  "review_summary_json r =
     JObj [(''approved'', JBool (rv_approved r)), (''requirements_covered'', JList (map JStr (rv_requirements_covered r))),
           (''issues'', JList (map JStr (rv_issues r))), (''summary'', JStr (rv_summary r)),
           (''artifact_id'', json_opt JStr (rv_artifact_id r))]"

definition patch_ref_json :: "PatchReference \<Rightarrow> json" where
  "patch_ref_json p =
     JObj [(''task_local_id'', JStr (pf_task_local_id p)), (''artifact_id'', json_opt JStr (pf_artifact_id p)),
           (''patch_path'', JStr (pf_patch_path p)), (''sha256'', JStr (pf_sha256 p)),
           (''changed_files'', JList (map JStr (pf_changed_files p)))]"

definition coder_resources :: jdict where
  "coder_resources = [(''cpu_cores'', JInt 1), (''memory_mb'', JInt 1024), (''llm_slots'', JInt 1)]"

definition request_of ::
    "IncidentState \<Rightarrow> string \<Rightarrow> int \<Rightarrow> string \<Rightarrow> string \<Rightarrow> string \<Rightarrow> string \<Rightarrow> jdict \<Rightarrow> string \<Rightarrow> int \<Rightarrow> string \<Rightarrow> jdict \<Rightarrow>
     AgentExecutionRequest" where
  "request_of s node step role backend goal prompt task_input base timeout_s key resources =
     \<lparr>rq_run_id = is_run_id s, rq_thread_id = is_thread_id s, rq_graph_node = node, rq_graph_step = step,
      rq_role = role, rq_backend = backend, rq_goal = goal, rq_system_prompt = prompt, rq_task_input = task_input,
      rq_source_repo = is_source_repo s, rq_base_commit = base, rq_timeout_s = timeout_s,
      rq_idempotency_key = key, rq_resource_request = resources\<rparr>"

definition planner_request :: "graph_env \<Rightarrow> IncidentState \<Rightarrow> AgentExecutionRequest" where
  "planner_request env s =
     request_of s ''planner'' 0 ''planner'' ''deepseek'' (is_user_request s) (ge_prompt env ''planner.md'') []
       (is_base_commit s) (ge_task_timeout_s env) (build_idempotency_key env (is_thread_id s) ''planner'' 0 ''root'') []"

definition planner_node :: "graph_env \<Rightarrow> nat \<Rightarrow> IncidentState \<Rightarrow> py_error + state_update list" where
  "planner_node env n s =
     (let rq = planner_request env s
      in case ge_execute env n rq of
           TimedOut m \<Rightarrow> Inl (TimeoutError m)
         | Raised e \<Rightarrow> Inl e
         | Returned rs \<Rightarrow>
             if rs_status rs \<noteq> ''SUCCESS''
             then Inr ([UWorkflowStatus ''FAILED'', UError (Some (filled (rs_error_message rs) ''planner failed''))] @
                       booked env rq rs)
             else (case ge_plan_model env (rs_structured_result rs) of
                     Inl e \<Rightarrow> Inl e
                   | Inr plan \<Rightarrow>
                       (case validate_coder_plan (ip_tasks plan) of
                          Inr u \<Rightarrow> Inr ([UPlan (Some plan), UPlannedTasks (ip_tasks plan)] @ booked env rq rs)
                        | Inl (CoderPlanError m) \<Rightarrow>
                            Inr ([UWorkflowStatus ''FAILED'', UError (Some m), UPlannedTasks (ip_tasks plan)] @
                                 booked env rq rs)
                        | Inl e \<Rightarrow> Inl e)))"

definition select_coder_node :: "IncidentState \<Rightarrow> state_update list" where
  "select_coder_node s =
     (if is_failed s then [UActiveCoderTask None]
      else if remaining_coder_tasks s = [] then [UActiveCoderTask None]
      else case choose_next_coder_task s of
             None \<Rightarrow> [UWorkflowStatus ''FAILED'',
                      UError (Some ''no ready coder task; dependency graph is unresolved''), UActiveCoderTask None]
           | Some t \<Rightarrow> [UActiveCoderTask (Some t), UCoderStep (is_coder_step s + 1)])"

definition coder_request :: "graph_env \<Rightarrow> IncidentState \<Rightarrow> PlannedTask \<Rightarrow> AgentExecutionRequest" where
  "coder_request env s task =
     (let base = base_or_integrated s; step = is_coder_step s
      in request_of s ''coder'' step ''coder'' ''codex_cli'' (it_goal task) (ge_prompt env ''coder.md'')
           [(''local_id'', JStr (it_local_id task)), (''dependencies'', JList (map JStr (it_dependencies task))),
            (''base_commit'', JStr base), (''coder_step'', JInt step)]
           base (ge_task_timeout_s env)
           (build_idempotency_key env (is_thread_id s) ''coder'' step (it_local_id task @ '':'' @ base))
           coder_resources)"

definition with_completed :: "IncidentState \<Rightarrow> string \<Rightarrow> string list" where
  "with_completed s task_id = sorted_list_of_set (insert task_id (set (is_completed_coder_task_ids s)))"

text \<open>\<open>structured.get("completed") is True and not structured.get("remaining_issues")\<close>.\<close>

definition completed_without_patch :: "AgentExecutionResult \<Rightarrow> bool" where
  "completed_without_patch rs \<longleftrightarrow>
     map_of (rs_structured_result rs) ''completed'' = Some (JBool True) \<and>
     \<not> get_truthy (rs_structured_result rs) ''remaining_issues''"

definition coder_node :: "graph_env \<Rightarrow> nat \<Rightarrow> IncidentState \<Rightarrow> py_error + state_update list" where
  "coder_node env n s =
     (case is_active_coder_task s of
        None \<Rightarrow> Inl (TypeError ''NoneType object is not subscriptable'')
      | Some task \<Rightarrow>
          (let rq = coder_request env s task
           in case ge_execute env n rq of
                TimedOut m \<Rightarrow> Inl (TimeoutError m)
              | Raised e \<Rightarrow> Inl e
              | Returned rs \<Rightarrow>
                  if rs_status rs \<noteq> ''SUCCESS''
                  then Inr ([UWorkflowStatus ''FAILED'', UError (Some (filled (rs_error_message rs) ''coder failed''))] @
                            booked env rq rs)
                  else (case rs_patch_ref rs of
                          None \<Rightarrow>
                            if completed_without_patch rs
                            then Inr ([UCompletedCoderTaskIds (with_completed s (it_local_id task)), UActiveCoderTask None] @
                                      booked env rq rs)
                            else Inr ([UWorkflowStatus ''FAILED'', UError (Some ''coder produced no patch'')] @
                                      booked env rq rs)
                        | Some p \<Rightarrow> Inr ([UPatchRefs [p], UAllPatchRefs [p], UPendingPatchRefs [p]] @ booked env rq rs))))"

text \<open>What \<open>_integrate_pending_patches\<close> returns: the update, and the result when it was successful.\<close>

definition integrate_pending_patches ::
    "graph_env \<Rightarrow> nat \<Rightarrow> IncidentState \<Rightarrow> py_error + state_update list \<times> IntegrationResult option" where
  "integrate_pending_patches env n s =
     (if is_pending_patch_refs s = []
      then Inr ([UWorkflowStatus ''FAILED'', UError (Some ''no pending patches to integrate'')], None)
      else case ge_integrate env n s (base_or_integrated s) (is_pending_patch_refs s) of
             Inl e \<Rightarrow> Inl e
           | Inr r \<Rightarrow>
               if ig_status r \<noteq> ''SUCCESS''
               then Inr ([UWorkflowStatus ''FAILED'', UError (ig_error r), UIntegrationResult (Some r)], None)
               else Inr ([UIntegratedCommit (ig_integrated_commit r), UIntegrationResult (Some r), UPendingPatchRefs []],
                         Some r))"

definition private_file :: "string \<Rightarrow> bool" where
  "private_file path \<longleftrightarrow>
     take 11 path = ''.codex-home'' \<or> path = ''.codex-events.jsonl'' \<or> path = ''.codex-final.json''"

definition forbidden_patch_files :: "PatchReference list \<Rightarrow> string list" where
  "forbidden_patch_files refs = concat (map (\<lambda>p. filter private_file (pf_changed_files p)) refs)"

definition integrate_coder_node :: "graph_env \<Rightarrow> nat \<Rightarrow> IncidentState \<Rightarrow> py_error + state_update list" where
  "integrate_coder_node env n s =
     (let forbidden = forbidden_patch_files (is_pending_patch_refs s)
      in if is_failed s then Inr [UActiveCoderTask None]
         else if forbidden \<noteq> []
         then Inr [UWorkflowStatus ''FAILED'',
                   UError (Some (''codex private files leaked into patch: '' @
                                 py_repr (ge_float_repr env) (JList (map JStr forbidden))))]
         else case integrate_pending_patches env n s of
                Inl e \<Rightarrow> Inl e
              | Inr (update, None) \<Rightarrow> Inr update
              | Inr (update, Some r) \<Rightarrow>
                  (case is_active_coder_task s of
                     None \<Rightarrow> Inl (TypeError ''NoneType object is not subscriptable'')
                   | Some task \<Rightarrow>
                       Inr (update @
                            [UCompletedCoderTaskIds (with_completed s (it_local_id task)), UActiveCoderTask None,
                             UCoderIntegrationHistory
                               [\<lparr>hi_task_id = it_local_id task, hi_base_commit = ig_base_commit r,
                                 hi_integrated_commit = ig_integrated_commit r,
                                 hi_changed_files = ig_changed_files r\<rparr>]])))"

definition integrate_repair_node :: "graph_env \<Rightarrow> nat \<Rightarrow> IncidentState \<Rightarrow> py_error + state_update list" where
  "integrate_repair_node env n s = map_sum id fst (integrate_pending_patches env n s)"

definition tester_request :: "graph_env \<Rightarrow> IncidentState \<Rightarrow> AgentExecutionRequest" where
  "tester_request env s =
     (let step = 3 + is_repair_round s
      in request_of s ''tester'' step ''tester'' ''direct_tool'' ''run pytest'' []
           [(''integrated_commit'', json_opt JStr (is_integrated_commit s)),
            (''__tool'', JObj [(''name'', JStr ''run_pytest''),
               (''arguments'', JObj [(''paths'', JList [JStr ''tests'']), (''junit_xml'', JStr ''pytest.xml'')])])]
           (base_or_integrated s) 180 (build_idempotency_key env (is_thread_id s) ''tester'' step ''root'') [])"

definition failing_summary :: "string \<Rightarrow> string \<Rightarrow> TestSummary" where
  "failing_summary name message =
     \<lparr>su_returncode = 1, su_passed = 0, su_failed = 1,
      su_failed_tests = [[(''name'', JStr name), (''message'', JStr message)]], su_report_artifact_id = None\<rparr>"

definition tester_node :: "graph_env \<Rightarrow> nat \<Rightarrow> IncidentState \<Rightarrow> py_error + state_update list" where
  "tester_node env n s =
     (let rq = tester_request env s
      in case ge_execute env n rq of
           TimedOut m \<Rightarrow> Inr [UTestSummary (Some (failing_summary ''runtime_tester_timeout'' m)),
                              URuntimeTaskIds [], UExecutionRecords []]
         | Raised e \<Rightarrow> Inl e
         | Returned rs \<Rightarrow>
             if rs_status rs \<noteq> ''SUCCESS''
             then Inr (UTestSummary (Some (failing_summary ''runtime_tester_failed''
                         (filled (rs_error_message rs) (rs_status rs)))) # booked env rq rs)
             else (case ge_test_model env (rs_structured_result rs) of
                     Inl e \<Rightarrow> Inl e
                   | Inr summary \<Rightarrow> Inr (UTestSummary (Some summary) # booked env rq rs)))"

definition repair_request :: "graph_env \<Rightarrow> IncidentState \<Rightarrow> int \<Rightarrow> AgentExecutionRequest" where
  "repair_request env s repair_round =
     request_of s ''repair'' (10 + repair_round) ''repair'' ''codex_cli'' (is_user_request s) (ge_prompt env ''repair.md'')
       [(''test_summary'', json_opt test_summary_json (is_test_summary s)),
        (''review_summary'', json_opt review_summary_json (is_review_summary s)),
        (''patch_refs'', JList (map patch_ref_json (is_patch_refs s)))]
       (base_or_integrated s) (ge_task_timeout_s env)
       (build_idempotency_key env (is_thread_id s) ''repair'' (10 + repair_round) ''root'') coder_resources"

definition repair_node :: "graph_env \<Rightarrow> nat \<Rightarrow> IncidentState \<Rightarrow> py_error + state_update list" where
  "repair_node env n s =
     (let repair_round = is_repair_round s + 1; rq = repair_request env s repair_round
      in case ge_execute env n rq of
           TimedOut m \<Rightarrow> Inl (TimeoutError m)
         | Raised e \<Rightarrow> Inl e
         | Returned rs \<Rightarrow>
             if rs_status rs \<noteq> ''SUCCESS''
             then Inr [UWorkflowStatus ''FAILED'', UError (Some (filled (rs_error_message rs) ''repair failed'')),
                       URepairRound repair_round]
             else (case rs_patch_ref rs of
                     None \<Rightarrow> Inr [UWorkflowStatus ''FAILED'', UError (Some ''repair produced no patch''), URepairRound repair_round]
                   | Some p \<Rightarrow> Inr ([URepairRound repair_round, UPatchRefs [p], UAllPatchRefs [p], UPendingPatchRefs [p]] @
                                    booked env rq rs)))"

definition reviewer_request :: "graph_env \<Rightarrow> IncidentState \<Rightarrow> AgentExecutionRequest" where
  "reviewer_request env s =
     (let step = 20 + is_repair_round s
      in request_of s ''reviewer'' step ''reviewer'' ''codex_cli'' (is_user_request s) (ge_prompt env ''reviewer.md'')
           [(''test_summary'', json_opt test_summary_json (is_test_summary s)),
            (''patch_refs'', JList (map patch_ref_json (is_patch_refs s)))]
           (base_or_integrated s) (min (ge_task_timeout_s env) 300)
           (build_idempotency_key env (is_thread_id s) ''reviewer'' step ''root'') [])"

definition reviewer_node :: "graph_env \<Rightarrow> nat \<Rightarrow> IncidentState \<Rightarrow> py_error + state_update list" where
  "reviewer_node env n s =
     (let rq = reviewer_request env s
      in case ge_execute env n rq of
           TimedOut m \<Rightarrow> Inl (TimeoutError m)
         | Raised e \<Rightarrow> Inl e
         | Returned rs \<Rightarrow>
             if rs_status rs \<noteq> ''SUCCESS''
             then Inr [UWorkflowStatus ''FAILED'', UError (Some (filled (rs_error_message rs) ''reviewer failed''))]
             else (case ge_review_model env (rs_structured_result rs) of
                     Inl e \<Rightarrow> Inl e
                   | Inr review \<Rightarrow> Inr (UReviewSummary (Some review) # booked env rq rs)))"

definition failed_node :: "IncidentState \<Rightarrow> state_update list" where
  "failed_node s = [UWorkflowStatus ''FAILED'', UError (Some (filled (is_error s) ''workflow failed''))]"

definition success_node :: "IncidentState \<Rightarrow> state_update list" where
  "success_node s = [UWorkflowStatus ''SUCCESS'', UError None]"

section \<open>The graph\<close>

datatype graph_node =
    N_planner | N_select_coder | N_coder | N_integrate_coder | N_integrate_repair | N_tester
  | N_repair | N_reviewer | N_success | N_failed | N_END

fun graph_node_of :: "string \<Rightarrow> graph_node" where
  "graph_node_of name =
     (if name = ''coder'' then N_coder
      else if name = ''tester'' then N_tester
      else if name = ''integrate_coder'' then N_integrate_coder
      else if name = ''integrate_repair'' then N_integrate_repair
      else if name = ''repair'' then N_repair
      else if name = ''reviewer'' then N_reviewer
      else if name = ''success'' then N_success
      else N_failed)"

fun run_node :: "graph_env \<Rightarrow> nat \<Rightarrow> graph_node \<Rightarrow> IncidentState \<Rightarrow> py_error + state_update list" where
  "run_node env n N_planner s = planner_node env n s"
| "run_node env n N_select_coder s = Inr (select_coder_node s)"
| "run_node env n N_coder s = coder_node env n s"
| "run_node env n N_integrate_coder s = integrate_coder_node env n s"
| "run_node env n N_integrate_repair s = integrate_repair_node env n s"
| "run_node env n N_tester s = tester_node env n s"
| "run_node env n N_repair s = repair_node env n s"
| "run_node env n N_reviewer s = reviewer_node env n s"
| "run_node env n N_success s = Inr (success_node s)"
| "run_node env n N_failed s = Inr (failed_node s)"
| "run_node env n N_END s = Inr []"

fun next_node :: "graph_env \<Rightarrow> graph_node \<Rightarrow> IncidentState \<Rightarrow> graph_node" where
  "next_node env N_planner s = N_select_coder"
| "next_node env N_select_coder s = graph_node_of (route_after_select s)"
| "next_node env N_coder s = graph_node_of (route_after_coder s)"
| "next_node env N_integrate_coder s = N_select_coder"
| "next_node env N_tester s = graph_node_of (route_after_test (ge_max_repair_rounds env) s)"
| "next_node env N_repair s = graph_node_of (route_after_repair s)"
| "next_node env N_integrate_repair s = N_tester"
| "next_node env N_reviewer s = graph_node_of (route_after_review (ge_max_repair_rounds env) s)"
| "next_node env N_success s = N_END"
| "next_node env N_failed s = N_END"
| "next_node env N_END s = N_END"

text \<open>
  A point of a run: the number of nodes executed, the next node, the graph's state, and the copy
  the runner keeps from the streamed updates.
\<close>

record graph_run =
  gr_count :: nat
  gr_node :: graph_node
  gr_state :: IncidentState
  gr_streamed :: IncidentState

definition graph_begin :: "IncidentState \<Rightarrow> graph_run" where
  "graph_begin s = \<lparr>gr_count = 0, gr_node = N_planner, gr_state = s, gr_streamed = s\<rparr>"

definition graph_step :: "graph_env \<Rightarrow> graph_run \<Rightarrow> py_error + graph_run" where
  "graph_step env r =
     (case run_node env (gr_count r) (gr_node r) (gr_state r) of
        Inl e \<Rightarrow> Inl e
      | Inr us \<Rightarrow>
          (let s' = merge_updates us (gr_state r)
           in Inr \<lparr>gr_count = Suc (gr_count r), gr_node = next_node env (gr_node r) s', gr_state = s',
                   gr_streamed = overwrite_updates us (gr_streamed r)\<rparr>))"

text \<open>
  \<open>graph.astream\<close> drained by the runner, with fuel: \<open>None\<close> when the fuel runs out, otherwise the
  exception or the final point.
\<close>

fun run_graph :: "nat \<Rightarrow> graph_env \<Rightarrow> graph_run \<Rightarrow> (py_error + graph_run) option" where
  "run_graph fuel env r =
     (if gr_node r = N_END then Some (Inr r)
      else case fuel of
             0 \<Rightarrow> None
           | Suc k \<Rightarrow> (case graph_step env r of Inl e \<Rightarrow> Some (Inl e) | Inr r' \<Rightarrow> run_graph k env r'))"

declare run_graph.simps [simp del]

end
