(* ===== verification/Incident_Properties.thy ===== *)
theory Incident_Properties
  imports Incident_Graph
begin

text \<open>
  Every run of the repair graph ends, within a bound computed from the plan and the configured
  number of repair rounds, whatever the agents and the integration service answer; a successful end
  means what it says; coder tasks run in dependency order and are never stuck. Two defects of the
  source are shown on concrete runs.
\<close>

section \<open>Checked coder plans\<close>

definition coder_ids :: "PlannedTask list \<Rightarrow> string set" where
  "coder_ids ts = it_local_id ` {t \<in> set ts. it_role t = ''coder''}"

definition coder_deps :: "PlannedTask list \<Rightarrow> string \<Rightarrow> string set" where
  "coder_deps ts x =
     (case map_of (dict_by_id it_dependencies (filter (\<lambda>t. it_role t = ''coder'') ts)) x of
        None \<Rightarrow> {} | Some ds \<Rightarrow> set ds)"

lemma dict_by_id_lookup:
  "map_of (fold (\<lambda>t d. dict_set (it_local_id t) (f t) d) ts acc) x =
     (case List.find (\<lambda>t. it_local_id t = x) (rev ts) of Some t \<Rightarrow> Some (f t) | None \<Rightarrow> map_of acc x)"
proof (induction ts rule: rev_induct)
  case (snoc t ts)
  then show ?case by simp
qed simp

lemma dict_by_id_Some:
  "map_of (dict_by_id f ts) x = Some v \<Longrightarrow> \<exists>t \<in> set ts. it_local_id t = x \<and> f t = v"
  unfolding dict_by_id_def dict_by_id_lookup
  by (auto split: option.splits simp: find_Some_iff rev_nth)

lemma dict_by_id_known: "map_of (dict_by_id f ts) x \<noteq> None \<longleftrightarrow> x \<in> it_local_id ` set ts"
  unfolding dict_by_id_def dict_by_id_lookup by (auto split: option.splits simp: find_None_iff find_Some_iff rev_nth)

lemma check_coder_items_ok:
  "check_coder_items by_id ts = Inr () \<longleftrightarrow>
     (\<forall>t \<in> set ts. \<forall>d \<in> set (it_dependencies t). \<exists>u. map_of by_id d = Some u \<and> it_role u = ''coder'')"
proof -
  have deps: "check_coder_deps by_id i ds = Inr () \<longleftrightarrow>
      (\<forall>d \<in> set ds. \<exists>u. map_of by_id d = Some u \<and> it_role u = ''coder'')" for i ds
    by (induction ds) (auto split: option.splits)
  have "check_coder_items by_id ts = Inr () \<longleftrightarrow>
      (\<forall>t \<in> set ts. check_coder_deps by_id (it_local_id t) (it_dependencies t) = Inr ())"
    by (induction ts) (auto split: sum.splits)
  then show ?thesis by (simp add: deps)
qed

lemma coder_deps_member:
  assumes "y \<in> coder_deps ts x"
  shows "\<exists>t \<in> set ts. it_role t = ''coder'' \<and> it_local_id t = x \<and> set (it_dependencies t) = coder_deps ts x"
  using assms dict_by_id_Some[of it_dependencies "filter (\<lambda>t. it_role t = ''coder'') ts" x]
  by (auto simp: coder_deps_def split: option.splits)

lemma validate_coder_plan_ok:
  assumes "validate_coder_plan ts = Inr ()"
  shows "\<And>x. coder_deps ts x \<subseteq> coder_ids ts"
    and "acyclic {(x, y). x \<in> coder_ids ts \<and> y \<in> coder_deps ts x}"
proof -
  let ?items = "filter (\<lambda>t. it_role t = ''coder'') ts"
  let ?deps = "dict_by_id it_dependencies ?items"
  let ?follow = "\<lambda>d. map_of ?deps d \<noteq> None"
  have items: "check_coder_items (dict_by_id (\<lambda>t. t) ts) ?items = Inr ()"
      and acyc: "assert_coder_tasks_acyclic ?items = Inr ()"
    using assms by (auto simp: validate_coder_plan_def Let_def split: if_splits sum.splits)
  show sub: "coder_deps ts x \<subseteq> coder_ids ts" for x
  proof
    fix y assume y: "y \<in> coder_deps ts x"
    obtain t where t: "t \<in> set ts" "it_role t = ''coder''" "set (it_dependencies t) = coder_deps ts x"
      using coder_deps_member[OF y] by blast
    then have "t \<in> set ?items" by simp
    then obtain u where u: "map_of (dict_by_id (\<lambda>t. t) ts) y = Some u" "it_role u = ''coder''"
      using items y t(3) unfolding check_coder_items_ok by blast
    have "\<exists>v \<in> set ts. it_local_id v = y \<and> v = u" by (rule dict_by_id_Some[OF u(1)])
    with u(2) show "y \<in> coder_ids ts" by (auto simp: coder_ids_def)
  qed
  have known: "?follow y" if "y \<in> coder_ids ts" for y
    unfolding dict_by_id_known using that by (auto simp: coder_ids_def)
  have "dep_closed ?follow ?deps" by (auto simp: dep_closed_def dep_edges_def)
  from assert_no_cycle_iff[OF this, of "CoderPlanError ''coder dependency graph has cycle''"] acyc
  have "acyclic (dep_edges ?follow ?deps)"
    unfolding assert_coder_tasks_acyclic_def Let_def by (metis sum.distinct(1))
  moreover have "{(x, y). x \<in> coder_ids ts \<and> y \<in> coder_deps ts x} \<subseteq> dep_edges ?follow ?deps"
  proof clarify
    fix x y assume y: "y \<in> coder_deps ts x"
    then obtain ds where "map_of ?deps x = Some ds" "y \<in> set ds" by (auto simp: coder_deps_def split: option.splits)
    moreover have "?follow y" using known sub[of x] y by blast
    ultimately show "(x, y) \<in> dep_edges ?follow ?deps" by (auto simp: dep_edges_def)
  qed
  ultimately show "acyclic {(x, y). x \<in> coder_ids ts \<and> y \<in> coder_deps ts x}" by (rule acyclic_subset)
qed

interpretation coder_graph: checked_graph "\<lambda>ts. validate_coder_plan ts = Inr ()" coder_ids coder_deps
proof
  fix ts x
  assume ok: "validate_coder_plan ts = Inr ()"
  show "finite (coder_ids ts)" by (simp add: coder_ids_def)
  show "coder_deps ts x \<subseteq> coder_ids ts" by (rule validate_coder_plan_ok(1)[OF ok])
  show "acyclic {(x, y). x \<in> coder_ids ts \<and> y \<in> coder_deps ts x}" by (rule validate_coder_plan_ok(2)[OF ok])
qed

lemma ready_exists:
  assumes ok: "validate_coder_plan (is_planned_tasks s) = Inr ()" and left: "remaining_coder_tasks s \<noteq> []"
  shows "ready_coder_tasks s \<noteq> []"
proof -
  let ?ts = "is_planned_tasks s" and ?done = "set (is_completed_coder_task_ids s)"
  obtain t where "t \<in> set (remaining_coder_tasks s)" using left by (cases "remaining_coder_tasks s") auto
  then have "it_local_id t \<in> coder_ids ?ts - ?done" by (auto simp: remaining_coder_tasks_def coder_ids_def)
  then have "\<not> coder_ids ?ts \<subseteq> ?done" by blast
  from coder_graph.progress[OF ok this]
  obtain x where x: "x \<in> coder_ids ?ts - ?done" "coder_deps ?ts x \<subseteq> ?done" by blast
  let ?items = "filter (\<lambda>t. it_role t = ''coder'') ?ts"
  have "map_of (dict_by_id it_dependencies ?items) x \<noteq> None"
    unfolding dict_by_id_known using x(1) by (auto simp: coder_ids_def)
  then obtain ds where ds: "map_of (dict_by_id it_dependencies ?items) x = Some ds" by blast
  obtain u where u: "u \<in> set ?items" "it_local_id u = x" "it_dependencies u = ds"
    using dict_by_id_Some[OF ds] by blast
  have "set ds \<subseteq> ?done" using x(2) ds by (simp add: coder_deps_def)
  then have "u \<in> set (ready_coder_tasks s)" using u x(1) by (auto simp: ready_coder_tasks_def remaining_coder_tasks_def)
  then show ?thesis by auto
qed

lemma choose_next_None: "choose_next_coder_task s = None \<longleftrightarrow> ready_coder_tasks s = []"
proof -
  have "sort_key it_local_id (ready_coder_tasks s) = [] \<longleftrightarrow> ready_coder_tasks s = []"
    by (metis length_0_conv length_sort)
  then show ?thesis unfolding choose_next_coder_task_def by (cases "sort_key it_local_id (ready_coder_tasks s)") auto
qed

lemma choose_next_member:
  assumes "choose_next_coder_task s = Some t" shows "t \<in> set (ready_coder_tasks s)"
proof -
  obtain ts where "sort_key it_local_id (ready_coder_tasks s) = t # ts"
    using assms by (auto simp: choose_next_coder_task_def split: list.splits)
  then have "t \<in> set (sort_key it_local_id (ready_coder_tasks s))" by simp
  then show ?thesis by simp
qed

section \<open>Where a run can be\<close>

definition tests_pass :: "IncidentState \<Rightarrow> bool" where
  "tests_pass s \<longleftrightarrow> (\<exists>t. is_test_summary s = Some t \<and> su_returncode t = 0)"

definition review_passes :: "IncidentState \<Rightarrow> bool" where
  "review_passes s \<longleftrightarrow> (\<exists>r. is_review_summary s = Some r \<and> rv_approved r)"

text \<open>What holds of the state when a node is about to run.\<close>

fun at_node :: "int \<Rightarrow> graph_node \<Rightarrow> IncidentState \<Rightarrow> bool" where
  "at_node k N_planner s \<longleftrightarrow> True"
| "at_node k N_select_coder s \<longleftrightarrow> is_failed s \<or> validate_coder_plan (is_planned_tasks s) = Inr ()"
| "at_node k N_coder s \<longleftrightarrow> \<not> is_failed s \<and> validate_coder_plan (is_planned_tasks s) = Inr () \<and>
     (\<exists>t. is_active_coder_task s = Some t \<and> t \<in> set (ready_coder_tasks s))"
| "at_node k N_integrate_coder s \<longleftrightarrow> \<not> is_failed s \<and> validate_coder_plan (is_planned_tasks s) = Inr () \<and>
     (\<forall>t. is_active_coder_task s = Some t \<longrightarrow> t \<in> set (ready_coder_tasks s))"
| "at_node k N_tester s \<longleftrightarrow> remaining_coder_tasks s = []"
| "at_node k N_repair s \<longleftrightarrow> remaining_coder_tasks s = [] \<and> is_repair_round s < k"
| "at_node k N_integrate_repair s \<longleftrightarrow> remaining_coder_tasks s = []"
| "at_node k N_reviewer s \<longleftrightarrow> remaining_coder_tasks s = [] \<and> tests_pass s"
| "at_node k N_success s \<longleftrightarrow> remaining_coder_tasks s = [] \<and> tests_pass s \<and> review_passes s \<and> \<not> is_failed s"
| "at_node k N_failed s \<longleftrightarrow> True"
| "at_node k N_END s \<longleftrightarrow>
     is_failed s \<or> (is_workflow_status s = ''SUCCESS'' \<and> remaining_coder_tasks s = [] \<and> tests_pass s \<and> review_passes s)"

definition round_ok :: "int \<Rightarrow> IncidentState \<Rightarrow> bool" where
  "round_ok k s \<longleftrightarrow> is_repair_round s \<le> max k 0"

text \<open>The number of nodes that may still run.\<close>

fun nodes_left :: "int \<Rightarrow> graph_node \<Rightarrow> IncidentState \<Rightarrow> nat" where
  "nodes_left k N_planner s = 0"
| "nodes_left k N_select_coder s =
     (if is_failed s then 2 else 4 + 4 * nat (k - is_repair_round s) + 3 * length (remaining_coder_tasks s))"
| "nodes_left k N_coder s = 3 + 4 * nat (k - is_repair_round s) + 3 * length (remaining_coder_tasks s)"
| "nodes_left k N_integrate_coder s =
     (if is_active_coder_task s = None then 3
      else 2 + 4 * nat (k - is_repair_round s) + 3 * length (remaining_coder_tasks s))"
| "nodes_left k N_tester s = 3 + 4 * nat (k - is_repair_round s)"
| "nodes_left k N_reviewer s = 2 + 4 * nat (k - is_repair_round s)"
| "nodes_left k N_repair s = 1 + 4 * nat (k - is_repair_round s)"
| "nodes_left k N_integrate_repair s = 4 + 4 * nat (k - is_repair_round s)"
| "nodes_left k N_success s = 1"
| "nodes_left k N_failed s = 1"
| "nodes_left k N_END s = 0"

definition good_step :: "int \<Rightarrow> graph_node \<Rightarrow> IncidentState \<Rightarrow> graph_node \<Rightarrow> IncidentState \<Rightarrow> bool" where
  "good_step k n s n' s' \<longleftrightarrow>
     at_node k n' s' \<and> round_ok k s' \<and> n' \<noteq> N_planner \<and> (n \<noteq> N_planner \<longrightarrow> nodes_left k n' s' < nodes_left k n s)"

named_theorems graph_eval \<open>unfolding of one node\<close>

declare merge_updates_def [graph_eval] booked_def [graph_eval] Let_def [graph_eval] good_step_def [graph_eval]
  is_failed_def [graph_eval] remaining_coder_tasks_def [graph_eval] round_ok_def [graph_eval]
  tests_pass_def [graph_eval] review_passes_def [graph_eval]

lemma select_step:
  assumes "at_node k N_select_coder s" "round_ok k s" "ge_max_repair_rounds env = k"
  defines "s' \<equiv> merge_updates (select_coder_node s) s"
  shows "good_step k N_select_coder s (next_node env N_select_coder s') s'"
proof (cases "is_failed s")
  case True
  then have "s' = s\<lparr>is_active_coder_task := None\<rparr>" by (simp add: s'_def select_coder_node_def merge_updates_def)
  then show ?thesis using True assms(2) by (simp add: route_after_select_def is_failed_def good_step_def round_ok_def)
next
  case False
  show ?thesis
  proof (cases "remaining_coder_tasks s = []")
    case True
    then have "s' = s\<lparr>is_active_coder_task := None\<rparr>"
      using False by (simp add: s'_def select_coder_node_def merge_updates_def)
    then show ?thesis
      using True False assms(2) by (simp add: route_after_select_def is_failed_def good_step_def round_ok_def remaining_coder_tasks_def)
  next
    case left: False
    have ok: "validate_coder_plan (is_planned_tasks s) = Inr ()" using assms(1) False by simp
    then obtain t where t: "choose_next_coder_task s = Some t"
      using choose_next_None[of s] ready_exists[OF ok left] by (cases "choose_next_coder_task s") auto
    have "s' = s\<lparr>is_active_coder_task := Some t, is_coder_step := is_coder_step s + 1\<rparr>"
      using False left t by (simp add: s'_def select_coder_node_def merge_updates_def)
    then show ?thesis
      using False ok choose_next_member[OF t] assms(2)
      by (simp add: route_after_select_def is_failed_def good_step_def round_ok_def remaining_coder_tasks_def ready_coder_tasks_def)
  qed
qed

lemma ready_remaining: "t \<in> set (ready_coder_tasks s) \<Longrightarrow> remaining_coder_tasks s \<noteq> []"
  by (auto simp: ready_coder_tasks_def)

lemma coder_step:
  assumes "at_node k N_coder s" "round_ok k s" "ge_max_repair_rounds env = k" and us: "coder_node env n s = Inr us"
  defines "s' \<equiv> merge_updates us s"
  shows "good_step k N_coder s (next_node env N_coder s') s'"
proof -
  obtain t where t: "is_active_coder_task s = Some t" "t \<in> set (ready_coder_tasks s)" using assms(1) by auto
  note left = ready_remaining[OF t(2)]
  obtain rs where rs: "ge_execute env n (coder_request env s t) = Returned rs"
    using us t(1) by (auto simp: coder_node_def Let_def split: exec_outcome.splits)
  show ?thesis
  proof (cases "rs_status rs = ''SUCCESS''")
    case False
    then show ?thesis
      using us t(1) rs assms(2) by (auto simp: coder_node_def s'_def graph_eval route_after_coder_def)
  next
    case True
    show ?thesis
    proof (cases "rs_patch_ref rs")
      case None
      show ?thesis
      proof (cases "completed_without_patch rs")
        case noop: True
        have "us = [UCompletedCoderTaskIds (with_completed s (it_local_id t)), UActiveCoderTask None] @
            booked env (coder_request env s t) rs"
          using us t(1) rs True None noop by (simp add: coder_node_def Let_def)
        then show ?thesis
          using assms(1,2) left by (simp add: s'_def graph_eval route_after_coder_def)
      next
        case False
        then show ?thesis
          using us t(1) rs True None assms(2) by (auto simp: coder_node_def s'_def graph_eval route_after_coder_def)
      qed
    next
      case (Some p)
      have "us = [UPatchRefs [p], UAllPatchRefs [p], UPendingPatchRefs [p]] @ booked env (coder_request env s t) rs"
        using us t(1) rs True Some by (simp add: coder_node_def Let_def)
      then show ?thesis
        using assms(1,2) left t by (simp add: s'_def graph_eval route_after_coder_def ready_coder_tasks_def)
    qed
  qed
qed

lemma set_with_completed: "set (with_completed s i) = insert i (set (is_completed_coder_task_ids s))"
  unfolding with_completed_def by (rule set_sorted_list_of_set) simp

lemma remaining_decreases:
  assumes "t \<in> set (remaining_coder_tasks s)"
    "is_planned_tasks s' = is_planned_tasks s" "is_completed_coder_task_ids s' = with_completed s (it_local_id t)"
  shows "length (remaining_coder_tasks s') < length (remaining_coder_tasks s)"
proof -
  have "remaining_coder_tasks s' = filter (\<lambda>u. it_local_id u \<noteq> it_local_id t) (remaining_coder_tasks s)"
    by (simp add: remaining_coder_tasks_def assms(2,3) set_with_completed conj_commute conj_left_commute cong: filter_cong)
  then show ?thesis using assms(1) by (simp add: length_filter_less)
qed

lemma integrate_cases:
  assumes "integrate_pending_patches env n s = Inr (us, r)"
  obtains (failed) e ig where "r = None" "merge_updates us s = s\<lparr>is_workflow_status := ''FAILED'', is_error := e, is_integration_result := ig\<rparr>"
  | (integrated) x where "r = Some x" "us = [UIntegratedCommit (ig_integrated_commit x), UIntegrationResult (Some x), UPendingPatchRefs []]"
proof (cases "is_pending_patch_refs s = []")
  case True
  then show thesis
    using assms by (intro failed[where ig = "is_integration_result s"]) (auto simp: integrate_pending_patches_def merge_updates_def)
next
  case False
  then obtain x where x: "ge_integrate env n s (base_or_integrated s) (is_pending_patch_refs s) = Inr x"
    using assms by (auto simp: integrate_pending_patches_def split: sum.splits)
  show thesis
  proof (cases "ig_status x = ''SUCCESS''")
    case True
    then show thesis using False x assms by (intro integrated[of x]) (auto simp: integrate_pending_patches_def)
  next
    case bad: False
    then show thesis
      using False x assms by (intro failed[where e = "ig_error x" and ig = "Some x"]) (auto simp: integrate_pending_patches_def merge_updates_def)
  qed
qed

lemma failed_select_step:
  assumes "at_node k N_integrate_coder s" "round_ok k s" "is_workflow_status s' = ''FAILED''" "is_repair_round s' = is_repair_round s"
  shows "good_step k N_integrate_coder s N_select_coder s'"
proof -
  have "remaining_coder_tasks s \<noteq> []" if "is_active_coder_task s = Some t" for t
    using assms(1) that ready_remaining[of t s] by simp
  then have "3 \<le> nodes_left k N_integrate_coder s"
    by (cases "is_active_coder_task s"; cases "remaining_coder_tasks s") auto
  then show ?thesis using assms by (auto simp: good_step_def is_failed_def round_ok_def simp del: nodes_left.simps(4))
qed

lemma integrate_coder_step:
  assumes "at_node k N_integrate_coder s" "round_ok k s" "ge_max_repair_rounds env = k"
    and us: "integrate_coder_node env n s = Inr us"
  defines "s' \<equiv> merge_updates us s"
  shows "good_step k N_integrate_coder s (next_node env N_integrate_coder s') s'"
proof -
  have nf: "\<not> is_failed s" and ok: "validate_coder_plan (is_planned_tasks s) = Inr ()" using assms(1) by auto
  show ?thesis
  proof (cases "forbidden_patch_files (is_pending_patch_refs s) = []")
    case False
    then show ?thesis
      using us nf assms(1,2) by (auto simp: integrate_coder_node_def Let_def s'_def merge_updates_def simp del: at_node.simps intro!: failed_select_step)
  next
    case clean: True
    obtain u r where ur: "integrate_pending_patches env n s = Inr (u, r)"
      using us nf clean by (cases "integrate_pending_patches env n s") (auto simp: integrate_coder_node_def Let_def)
    from ur show ?thesis
    proof (cases rule: integrate_cases)
      case (failed e ig)
      then have "us = u" using us nf clean ur by (simp add: integrate_coder_node_def Let_def)
      then show ?thesis using failed(2) assms(1,2) by (auto simp: s'_def simp del: at_node.simps intro!: failed_select_step)
    next
      case (integrated x)
      then obtain t where t: "is_active_coder_task s = Some t"
        using us nf clean ur by (cases "is_active_coder_task s") (auto simp: integrate_coder_node_def Let_def)
      have s': "is_planned_tasks s' = is_planned_tasks s" "is_completed_coder_task_ids s' = with_completed s (it_local_id t)"
          "is_repair_round s' = is_repair_round s" "is_workflow_status s' = is_workflow_status s"
        using us nf clean ur integrated t by (auto simp: integrate_coder_node_def Let_def s'_def merge_updates_def)
      have "t \<in> set (remaining_coder_tasks s)" using assms(1) t by (auto simp: ready_coder_tasks_def)
      from remaining_decreases[OF this s'(1,2)]
      show ?thesis using s' nf ok t assms(2) by (simp add: good_step_def is_failed_def round_ok_def)
    qed
  qed
qed

lemma integrate_repair_step:
  assumes "at_node k N_integrate_repair s" "round_ok k s" "ge_max_repair_rounds env = k"
    and us: "integrate_repair_node env n s = Inr us"
  defines "s' \<equiv> merge_updates us s"
  shows "good_step k N_integrate_repair s (next_node env N_integrate_repair s') s'"
proof -
  obtain r where "integrate_pending_patches env n s = Inr (us, r)"
    using us by (cases "integrate_pending_patches env n s") (auto simp: integrate_repair_node_def)
  then have "is_planned_tasks s' = is_planned_tasks s \<and> is_completed_coder_task_ids s' = is_completed_coder_task_ids s \<and>
      is_repair_round s' = is_repair_round s"
    by (cases rule: integrate_cases) (auto simp: s'_def merge_updates_def)
  then show ?thesis using assms(1,2) by (simp add: good_step_def round_ok_def remaining_coder_tasks_def)
qed

lemma tester_step:
  assumes "at_node k N_tester s" "round_ok k s" "ge_max_repair_rounds env = k" and us: "tester_node env n s = Inr us"
  defines "s' \<equiv> merge_updates us s"
  shows "good_step k N_tester s (next_node env N_tester s') s'"
proof -
  obtain t where t: "is_test_summary s' = Some t"
    using us by (auto simp: tester_node_def s'_def merge_updates_def booked_def Let_def
        split: exec_outcome.splits if_splits sum.splits)
  have s': "is_planned_tasks s' = is_planned_tasks s" "is_completed_coder_task_ids s' = is_completed_coder_task_ids s"
      "is_repair_round s' = is_repair_round s"
    using us by (auto simp: tester_node_def s'_def merge_updates_def booked_def Let_def
        split: exec_outcome.splits if_splits sum.splits)
  have rem: "remaining_coder_tasks s' = []" using assms(1) s' by (simp add: remaining_coder_tasks_def)
  show ?thesis
    using rem s'(3) t assms(2,3) by (simp add: route_after_test_def good_step_def round_ok_def tests_pass_def)
qed

lemma repair_step:
  assumes "at_node k N_repair s" "round_ok k s" "ge_max_repair_rounds env = k" and us: "repair_node env n s = Inr us"
  defines "s' \<equiv> merge_updates us s"
  shows "good_step k N_repair s (next_node env N_repair s') s'"
proof -
  have s': "is_planned_tasks s' = is_planned_tasks s" "is_completed_coder_task_ids s' = is_completed_coder_task_ids s"
      "is_repair_round s' = is_repair_round s + 1"
    using us by (auto simp: repair_node_def s'_def merge_updates_def booked_def Let_def
        split: exec_outcome.splits if_splits option.splits)
  have rem: "remaining_coder_tasks s' = []" using assms(1) s' by (simp add: remaining_coder_tasks_def)
  have "is_repair_round s < k" using assms(1) by simp
  then have "nat (k - is_repair_round s) = Suc (nat (k - is_repair_round s'))" using s'(3) by simp
  then show ?thesis
    using rem s'(3) \<open>is_repair_round s < k\<close> by (simp add: route_after_repair_def good_step_def round_ok_def)
qed

lemma reviewer_step:
  assumes "at_node k N_reviewer s" "round_ok k s" "ge_max_repair_rounds env = k" and us: "reviewer_node env n s = Inr us"
  defines "s' \<equiv> merge_updates us s"
  shows "good_step k N_reviewer s (next_node env N_reviewer s') s'"
proof -
  have s': "is_planned_tasks s' = is_planned_tasks s" "is_completed_coder_task_ids s' = is_completed_coder_task_ids s"
      "is_repair_round s' = is_repair_round s" "is_test_summary s' = is_test_summary s"
    using us by (auto simp: reviewer_node_def s'_def merge_updates_def booked_def Let_def
        split: exec_outcome.splits if_splits sum.splits)
  have rem: "remaining_coder_tasks s' = []" and "tests_pass s'"
    using assms(1) s' by (simp_all add: remaining_coder_tasks_def tests_pass_def)
  then show ?thesis
    using s'(3) assms(2,3)
    by (simp add: route_after_review_def good_step_def round_ok_def review_passes_def split: option.splits)
qed

lemma planner_step:
  assumes "round_ok k s" "planner_node env n s = Inr us"
  defines "s' \<equiv> merge_updates us s"
  shows "good_step k N_planner s (next_node env N_planner s') s'"
proof -
  have "is_repair_round s' = is_repair_round s \<and> (is_failed s' \<or> validate_coder_plan (is_planned_tasks s') = Inr ())"
    using assms(2) by (auto simp: planner_node_def s'_def merge_updates_def booked_def Let_def is_failed_def
        split: exec_outcome.splits if_splits sum.splits py_error.splits)
  then show ?thesis using assms(1) by (simp add: good_step_def round_ok_def)
qed

lemma end_steps:
  assumes "at_node k N_success s" "round_ok k s"
  shows "good_step k N_success s N_END (merge_updates (success_node s) s)"
  using assms by (simp add: success_node_def graph_eval)

lemma failed_steps: "round_ok k s \<Longrightarrow> good_step k N_failed s N_END (merge_updates (failed_node s) s)"
  by (simp add: failed_node_def merge_updates_def good_step_def is_failed_def round_ok_def)

text \<open>One step of a run, whichever node it is at.\<close>

definition run_ok :: "graph_env \<Rightarrow> graph_run \<Rightarrow> bool" where
  "run_ok env r \<longleftrightarrow> at_node (ge_max_repair_rounds env) (gr_node r) (gr_state r) \<and> round_ok (ge_max_repair_rounds env) (gr_state r)"

lemma graph_step_good:
  assumes "run_ok env r" "gr_node r \<noteq> N_END" "graph_step env r = Inr r'"
  shows "good_step (ge_max_repair_rounds env) (gr_node r) (gr_state r) (gr_node r') (gr_state r')"
proof -
  let ?k = "ge_max_repair_rounds env" and ?n = "gr_count r" and ?s = "gr_state r"
  obtain us where us: "run_node env ?n (gr_node r) ?s = Inr us" and s': "gr_state r' = merge_updates us ?s"
      and n': "gr_node r' = next_node env (gr_node r) (merge_updates us ?s)"
    using assms(3) by (auto simp: graph_step_def Let_def split: sum.splits)
  have at: "at_node ?k (gr_node r) ?s" and rd: "round_ok ?k ?s" using assms(1) by (auto simp: run_ok_def)
  show ?thesis
    using us at rd assms(2) planner_step[OF rd, of env ?n us] select_step[of ?k ?s env] coder_step[of ?k ?s env ?n us]
      integrate_coder_step[of ?k ?s env ?n us] integrate_repair_step[of ?k ?s env ?n us] tester_step[of ?k ?s env ?n us]
      repair_step[of ?k ?s env ?n us] reviewer_step[of ?k ?s env ?n us] end_steps[of ?k ?s] failed_steps[OF rd]
    unfolding s' n' by (cases "gr_node r") (auto simp del: at_node.simps graph_node_of.simps)
qed

section \<open>Reachable points of a run\<close>

inductive graph_reach :: "graph_env \<Rightarrow> IncidentState \<Rightarrow> graph_run \<Rightarrow> bool" for env s where
  graph_start: "graph_reach env s (graph_begin s)"
| graph_next: "graph_reach env s r \<Longrightarrow> gr_node r \<noteq> N_END \<Longrightarrow> graph_step env r = Inr r' \<Longrightarrow> graph_reach env s r'"

abbreviation incident_reach :: "graph_env \<Rightarrow> string \<Rightarrow> string \<Rightarrow> string \<Rightarrow> string \<Rightarrow> string \<Rightarrow> graph_run \<Rightarrow> bool" where
  "incident_reach env run_id thread_id request repo base \<equiv>
     graph_reach env (incident_start run_id thread_id request repo base)"

lemma run_ok_step: "run_ok env r \<Longrightarrow> gr_node r \<noteq> N_END \<Longrightarrow> graph_step env r = Inr r' \<Longrightarrow> run_ok env r'"
  using graph_step_good[of env r r'] by (simp add: run_ok_def good_step_def)

lemma run_ok_begin: "run_ok env (graph_begin (incident_start i t q p b))"
  by (simp add: run_ok_def graph_begin_def incident_start_def round_ok_def)

lemma incident_reach_ok: "incident_reach env i t q p b r \<Longrightarrow> run_ok env r"
  by (induction rule: graph_reach.induct) (auto intro: run_ok_begin run_ok_step)

lemma run_graph_END: "gr_node r = N_END \<Longrightarrow> run_graph fuel env r = Some (Inr r)"
  by (simp add: run_graph.simps)

lemma run_graph_zero: "gr_node r \<noteq> N_END \<Longrightarrow> run_graph 0 env r = None"
  by (simp add: run_graph.simps)

lemma run_graph_Suc:
  "gr_node r \<noteq> N_END \<Longrightarrow>
   run_graph (Suc k) env r = (case graph_step env r of Inl e \<Rightarrow> Some (Inl e) | Inr r' \<Rightarrow> run_graph k env r')"
  by (simp add: run_graph.simps[of "Suc k"])

lemma run_graph_reach:
  "run_graph fuel env r = Some (Inr r') \<Longrightarrow> graph_reach env s r \<Longrightarrow> graph_reach env s r' \<and> gr_node r' = N_END"
proof (induction fuel env r rule: run_graph.induct)
  case (1 fuel env r)
  show ?case
  proof (cases "gr_node r = N_END")
    case True
    then show ?thesis using 1(2,3) by (simp add: run_graph_END)
  next
    case False
    then obtain k where k: "fuel = Suc k" using 1(2) by (cases fuel) (simp_all add: run_graph_zero)
    obtain r1 where r1: "graph_step env r = Inr r1" "run_graph k env r1 = Some (Inr r')"
      using 1(2) False k by (auto simp: run_graph_Suc split: sum.splits)
    show ?thesis using 1(1)[OF False k r1] graph_next[OF 1(3) False r1(1)] by blast
  qed
qed

lemma run_graph_ends:
  "run_ok env r \<Longrightarrow> gr_node r \<noteq> N_planner \<Longrightarrow> nodes_left (ge_max_repair_rounds env) (gr_node r) (gr_state r) \<le> fuel \<Longrightarrow>
   \<exists>res. run_graph fuel env r = Some res"
proof (induction fuel arbitrary: r)
  case 0
  have "gr_node r = N_END"
    using 0(2,3) by (cases "gr_node r") (auto split: if_splits)
  then show ?case by (simp add: run_graph_END)
next
  case (Suc k)
  show ?case
  proof (cases "gr_node r = N_END")
    case True
    then show ?thesis by (simp add: run_graph_END)
  next
    case False
    show ?thesis
    proof (cases "graph_step env r")
      case (Inl e)
      then show ?thesis using False by (simp add: run_graph_Suc)
    next
      case (Inr r')
      note g = graph_step_good[OF Suc.prems(1) False Inr]
      have "\<exists>res. run_graph k env r' = Some res"
        using g Suc.prems(2,3) run_ok_step[OF Suc.prems(1) False Inr] by (intro Suc.IH) (auto simp: good_step_def)
      then show ?thesis using False Inr by (simp add: run_graph_Suc)
    qed
  qed
qed

section \<open>Properties\<close>

text \<open>The number of tasks the planner node puts into the state.\<close>

definition plan_size :: "graph_env \<Rightarrow> graph_run \<Rightarrow> nat" where
  "plan_size env r = (case graph_step env r of Inl e \<Rightarrow> 0 | Inr r' \<Rightarrow> length (is_planned_tasks (gr_state r')))"

text \<open>
  C15: Every repair run ends. Whatever the agents return, however often tests and reviews fail, the
  graph reaches its end or raises after at most \<open>5 + 3 * tasks + 4 * max_repair_rounds\<close> nodes.
\<close>

theorem incident_run_ends:
  fixes env :: graph_env
  shows "\<exists>res. run_graph
      (5 + 3 * plan_size env (graph_begin (incident_start i t q p b)) + 4 * nat (ge_max_repair_rounds env))
      env (graph_begin (incident_start i t q p b)) = Some res"
proof -
  let ?r = "graph_begin (incident_start i t q p b)" and ?k = "ge_max_repair_rounds env"
  have first: "run_graph (5 + 3 * x + 4 * y) env ?r =
      (case graph_step env ?r of Inl e \<Rightarrow> Some (Inl e) | Inr r' \<Rightarrow> run_graph (4 + 3 * x + 4 * y) env r')" for x y
    using run_graph_Suc[of ?r "4 + 3 * x + 4 * y" env] by (simp add: graph_begin_def add.assoc)
  show ?thesis
  proof (cases "graph_step env ?r")
    case (Inl e)
    then show ?thesis by (simp add: first)
  next
    case (Inr r')
    have ok: "run_ok env r'" by (rule run_ok_step[OF run_ok_begin _ Inr]) (simp add: graph_begin_def)
    have node: "gr_node r' = N_select_coder"
      using Inr by (auto simp: graph_step_def graph_begin_def Let_def split: sum.splits)
    have round0: "is_repair_round (gr_state r') = 0"
      using Inr by (auto simp: graph_step_def graph_begin_def Let_def planner_node_def merge_updates_def booked_def incident_start_def
          split: sum.splits exec_outcome.splits if_splits py_error.splits)
    have "length (remaining_coder_tasks (gr_state r')) \<le> plan_size env ?r"
      by (simp add: remaining_coder_tasks_def plan_size_def Inr)
    then have "nodes_left ?k (gr_node r') (gr_state r') \<le> 4 + 3 * plan_size env ?r + 4 * nat ?k"
      by (simp add: node round0)
    then have "\<exists>res. run_graph (4 + 3 * plan_size env ?r + 4 * nat ?k) env r' = Some res"
      using ok node by (intro run_graph_ends) auto
    then show ?thesis using Inr by (simp add: first)
  qed
qed

text \<open>
  C16: A successful run is one. When a run ends with status \<open>SUCCESS\<close>, every coder task of the plan has
  been completed, the last test run returned zero and the review approved; when it ends otherwise
  the status is \<open>FAILED\<close>. At no point does the repair counter exceed the configured rounds.
\<close>

theorem incident_success_sound:
  assumes "run_graph fuel env (graph_begin (incident_start i t q p b)) = Some (Inr r)"
  shows "(is_workflow_status (gr_state r) = ''SUCCESS'' \<longrightarrow>
        remaining_coder_tasks (gr_state r) = [] \<and>
        (\<exists>ts. is_test_summary (gr_state r) = Some ts \<and> su_returncode ts = 0) \<and>
        (\<exists>rv. is_review_summary (gr_state r) = Some rv \<and> rv_approved rv)) \<and>
    is_workflow_status (gr_state r) \<in> {''SUCCESS'', ''FAILED''} \<and>
    is_repair_round (gr_state r) \<le> max (ge_max_repair_rounds env) 0"
proof -
  have "graph_reach env (incident_start i t q p b) r" "gr_node r = N_END"
    using run_graph_reach[OF assms graph_start] by auto
  then have "run_ok env r" "gr_node r = N_END" using incident_reach_ok by auto
  then show ?thesis by (auto simp: run_ok_def is_failed_def tests_pass_def review_passes_def round_ok_def)
qed

text \<open>
  C17: Coder tasks run in dependency order. Whenever the graph is about to run a coder, the task it was
  given belongs to the plan, is not completed and has only completed dependencies; and when tasks
  remain in a run that has not failed, the selection always finds one.
\<close>

theorem incident_coder_order:
  assumes "incident_reach env i t q p b r"
  shows "(gr_node r = N_coder \<longrightarrow>
        (\<exists>task. is_active_coder_task (gr_state r) = Some task \<and> task \<in> set (is_planned_tasks (gr_state r)) \<and>
           it_local_id task \<notin> set (is_completed_coder_task_ids (gr_state r)) \<and>
           set (it_dependencies task) \<subseteq> set (is_completed_coder_task_ids (gr_state r)))) \<and>
    (gr_node r = N_select_coder \<and> is_workflow_status (gr_state r) \<noteq> ''FAILED'' \<and> remaining_coder_tasks (gr_state r) \<noteq> [] \<longrightarrow>
        choose_next_coder_task (gr_state r) \<noteq> None)"
proof -
  have ok: "run_ok env r" using assms by (rule incident_reach_ok)
  have "\<exists>task. is_active_coder_task (gr_state r) = Some task \<and> task \<in> set (is_planned_tasks (gr_state r)) \<and>
           it_local_id task \<notin> set (is_completed_coder_task_ids (gr_state r)) \<and>
           set (it_dependencies task) \<subseteq> set (is_completed_coder_task_ids (gr_state r))" if "gr_node r = N_coder"
    using ok that by (auto simp: run_ok_def ready_coder_tasks_def remaining_coder_tasks_def)
  moreover have "choose_next_coder_task (gr_state r) \<noteq> None"
    if "gr_node r = N_select_coder" "is_workflow_status (gr_state r) \<noteq> ''FAILED''" "remaining_coder_tasks (gr_state r) \<noteq> []"
    using ok that ready_exists[of "gr_state r"] choose_next_None[of "gr_state r"] by (auto simp: run_ok_def is_failed_def)
  ultimately show ?thesis by blast
qed

section \<open>Concrete runs\<close>

definition demo_metrics :: ExecutionMetrics where
  "demo_metrics = \<lparr>em_queue_wait_ms = 0, em_setup_ms = 0, em_backend_ms = 0, em_cleanup_ms = 0, em_total_ms = 0,
     em_input_tokens = 0, em_output_tokens = 0, em_total_tokens = 0, em_cpu_time_ms = 0, em_peak_rss_mb = 0,
     em_tool_calls = 0, em_file_reads = 0, em_search_calls = 0\<rparr>"

definition demo_result :: "PatchReference option \<Rightarrow> AgentExecutionResult" where
  "demo_result patch = \<lparr>rs_status = ''SUCCESS'', rs_output = [], rs_error_message = None, rs_runtime_task_id = Some ''rt'',
     rs_attempt_ids = [], rs_patch_ref = patch, rs_structured_result = [(''completed'', JBool True)], rs_metrics = demo_metrics\<rparr>"

definition demo_patch :: PatchReference where
  "demo_patch = \<lparr>pf_task_local_id = ''c'', pf_artifact_id = None, pf_patch_path = ''x'', pf_sha256 = ''h'', pf_changed_files = [''app/a.py'']\<rparr>"

definition demo_coder_plan :: IncidentPlan where
  "demo_coder_plan = \<lparr>ip_version = ''1.0'', ip_summary = [],
     ip_tasks = [\<lparr>it_local_id = ''c'', it_role = ''coder'', it_goal = ''g'', it_dependencies = []\<rparr>]\<rparr>"

text \<open>Every agent succeeds; coders return the given patch, or say that nothing was left to change.\<close>

definition demo_graph_env :: "PatchReference option \<Rightarrow> graph_env" where
  "demo_graph_env patch =
     \<lparr>ge_execute = (\<lambda>_ rq. Returned (demo_result (if rq_role rq = ''coder'' then patch else None))),
      ge_integrate = (\<lambda>_ s base refs. Inr \<lparr>ig_status = ''SUCCESS'', ig_workspace_path = [], ig_base_commit = base,
        ig_integrated_commit = Some ''c1'', ig_applied_artifact_ids = [], ig_changed_files = [], ig_conflict_files = [],
        ig_error = None\<rparr>),
      ge_mode = ''direct'', ge_prompt = (\<lambda>_. []), ge_sha256 = (\<lambda>s. s), ge_float_repr = (\<lambda>_. []),
      ge_plan_model = (\<lambda>_. Inr demo_coder_plan),
      ge_test_model = (\<lambda>_. Inr \<lparr>su_returncode = 0, su_passed = 1, su_failed = 0, su_failed_tests = [], su_report_artifact_id = None\<rparr>),
      ge_review_model = (\<lambda>_. Inr \<lparr>rv_approved = True, rv_requirements_covered = [], rv_issues = [], rv_summary = [], rv_artifact_id = None\<rparr>),
      ge_task_timeout_s = 300, ge_max_repair_rounds = 2\<rparr>"

definition demo_run :: "PatchReference option \<Rightarrow> (py_error + graph_run) option" where
  "demo_run patch = run_graph 20 (demo_graph_env patch) (graph_begin (incident_start ''r'' ''t'' ''q'' ''p'' ''b''))"

definition final_state :: "(py_error + graph_run) option \<Rightarrow> IncidentState option" where
  "final_state res = (case res of Some (Inr r) \<Rightarrow> Some (gr_state r) | _ \<Rightarrow> None)"

definition final_streamed :: "(py_error + graph_run) option \<Rightarrow> IncidentState option" where
  "final_streamed res = (case res of Some (Inr r) \<Rightarrow> Some (gr_streamed r) | _ \<Rightarrow> None)"

lemma demo_run_eval:
  "map_option is_workflow_status (final_state (demo_run (Some demo_patch))) = Some ''SUCCESS''"
  by code_simp

theorem incident_success_sound_witness:
  "\<exists>r. demo_run (Some demo_patch) = Some (Inr r) \<and> is_workflow_status (gr_state r) = ''SUCCESS'' \<and>
     remaining_coder_tasks (gr_state r) = []"
proof -
  obtain r where r: "demo_run (Some demo_patch) = Some (Inr r)" "is_workflow_status (gr_state r) = ''SUCCESS''"
    using demo_run_eval by (auto simp: final_state_def split: option.splits sum.splits)
  from incident_success_sound[OF r(1)[unfolded demo_run_def]] r show ?thesis by blast
qed

definition demo_point :: graph_run where
  "demo_point = (case graph_step (demo_graph_env None) (graph_begin (incident_start ''r'' ''t'' ''q'' ''p'' ''b'')) of
     Inr r \<Rightarrow> r | Inl e \<Rightarrow> graph_begin (incident_start ''r'' ''t'' ''q'' ''p'' ''b''))"

lemma demo_point_eval:
  "gr_node demo_point = N_select_coder" "is_workflow_status (gr_state demo_point) = ''PENDING''"
  "map it_local_id (remaining_coder_tasks (gr_state demo_point)) = [''c'']"
  by code_simp+

lemma demo_point_reach: "incident_reach (demo_graph_env None) ''r'' ''t'' ''q'' ''p'' ''b'' demo_point"
proof (cases "graph_step (demo_graph_env None) (graph_begin (incident_start ''r'' ''t'' ''q'' ''p'' ''b''))")
  case (Inr r)
  then have "demo_point = r" by (simp add: demo_point_def)
  then show ?thesis using graph_next[OF graph_start _ Inr] by (simp add: graph_begin_def)
qed (simp add: demo_point_def graph_start)

theorem incident_coder_order_witness:
  "gr_node demo_point = N_select_coder \<and> choose_next_coder_task (gr_state demo_point) \<noteq> None"
  using incident_coder_order[OF demo_point_reach] demo_point_eval by auto

text \<open>
  A coder that finishes without changing anything fails the run. The coder node accepts the
  answer and counts the task as completed, but the edge behind it still leads to the integration,
  which refuses to integrate nothing: the run of a one-task plan whose coder reports completion with
  no patch ends \<open>FAILED\<close>, with the task completed.
\<close>

theorem incident_noop_coder_fails:
  "map_option (\<lambda>s. (is_workflow_status s, is_error s, is_completed_coder_task_ids s)) (final_state (demo_run None)) =
     Some (''FAILED'', Some ''no pending patches to integrate'', [''c''])"
  by code_simp

text \<open>
  The state the runner reports is not the state of the graph. The runner replaces every entry a
  node returns, also those the graph accumulates: after a successful run of four agent calls the
  graph holds four execution records and the reported state one.
\<close>

theorem incident_runner_drops_records:
  "map_option (\<lambda>s. length (is_execution_records s)) (final_state (demo_run (Some demo_patch))) = Some 4 \<and>
   map_option (\<lambda>s. length (is_execution_records s)) (final_streamed (demo_run (Some demo_patch))) = Some 1"
  by code_simp

end
