(* ===== verification/State_Store.thy ===== *)
theory State_Store
  imports Task_Lifecycle Resource_Monitor
begin

text \<open>
  \<open>aruntime/comm/message.py\<close>, \<open>aruntime/daemon/store.py\<close> and
  \<open>aruntime/daemon/recovery_service.py\<close>: the tables of the state store and the recovery of tasks
  from them after a restart.

  A table is an association list from primary key to row, in row order: \<open>INSERT OR REPLACE\<close> is
  \<open>put_last\<close>, \<open>UPDATE\<close> works in place, \<open>ORDER BY\<close> is a stable sort. The \<open>data\<close> column holds the object
  itself; reading it back through \<open>json.loads\<close> and the pydantic constructor is the identity except
  for \<open>model_fields_set\<close>: the dump names every field, so after \<open>TaskSpec(**data)\<close> the failure policy
  counts as set (\<open>reload_task\<close>). Clock readings are arguments. The connection, the schema and the
  write-ahead log are SQLite's.
\<close>

section \<open>Rows\<close>

record Message =
  ms_message_id :: string
  ms_from_agent :: string
  ms_to_agent :: string
  ms_type :: string
  ms_payload :: jdict
  ms_trace_id :: string
  ms_task_id :: "string option"
  ms_ack_required :: bool
  ms_topic :: "string option"
  ms_created_at :: usec

record agent_row =
  ga_status :: AgentStatus
  ga_worker_pid :: "int option"
  ga_auth_token :: string
  ga_last_heartbeat :: "usec option"
  ga_data :: AgentSpec
  ga_updated_at :: usec

record task_row =
  gt_agent_name :: "string option"
  gt_state :: TaskStatus
  gt_data :: TaskSpec
  gt_updated_at :: usec

record attempt_row =
  gx_task_id :: string
  gx_data :: TaskAttempt
  gx_updated_at :: usec

record artifact_row =
  gf_root_task_id :: string
  gf_data :: ArtifactReference

record lease_row =
  gl_task_id :: string
  gl_agent_name :: string
  gl_status :: string
  gl_data :: jdict
  gl_updated_at :: usec

record mailbox_row =
  gm_mailbox :: string
  gm_dead_letter :: bool
  gm_data :: Message

record trace_row =
  ge_trace_id :: string
  ge_task_id :: string
  ge_name :: string
  ge_data :: jdict
  ge_created_at :: usec

record processed_row =
  gp_status :: string
  gp_processed_at :: usec
  gp_generated_task_id :: string

type_synonym mailbox_table = "mailbox_row dict"

text \<open>\<open>st_next_trace\<close> is the next value of the \<open>AUTOINCREMENT\<close> column.\<close>

record store =
  st_agents :: "agent_row dict"
  st_tasks :: "task_row dict"
  st_attempts :: "attempt_row dict"
  st_artifacts :: "artifact_row dict"
  st_leases :: "lease_row dict"
  st_mailbox :: mailbox_table
  st_traces :: "(nat \<times> trace_row) list"
  st_next_trace :: nat
  st_processed :: "((string \<times> string) \<times> processed_row) list"

definition empty_store :: store where
  "empty_store = \<lparr>st_agents = [], st_tasks = [], st_attempts = [], st_artifacts = [], st_leases = [],
     st_mailbox = [], st_traces = [], st_next_trace = 1, st_processed = []\<rparr>"

section \<open>Agents, tasks and artifacts\<close>

definition save_agent :: "usec \<Rightarrow> AgentSpec \<Rightarrow> int option \<Rightarrow> string \<Rightarrow> usec option \<Rightarrow> store \<Rightarrow> store" where
  "save_agent now agent worker_pid auth_token last_heartbeat st =
     st\<lparr>st_agents := put_last (ag_agent_name agent)
          \<lparr>ga_status = ag_status agent, ga_worker_pid = worker_pid, ga_auth_token = auth_token,
           ga_last_heartbeat = last_heartbeat, ga_data = agent, ga_updated_at = now\<rparr> (st_agents st)\<rparr>"

definition load_agents :: "store \<Rightarrow> (string \<times> agent_row) list" where
  "load_agents st = st_agents st"

definition save_artifact :: "string \<Rightarrow> ArtifactReference \<Rightarrow> store \<Rightarrow> store" where
  "save_artifact root_task_id artifact st =
     st\<lparr>st_artifacts := put_last (ar_artifact_id artifact)
          \<lparr>gf_root_task_id = root_task_id, gf_data = artifact\<rparr> (st_artifacts st)\<rparr>"

definition save_attempt :: "usec \<Rightarrow> TaskSpec \<Rightarrow> TaskAttempt \<Rightarrow> store \<Rightarrow> store" where
  "save_attempt now task attempt st =
     (let st1 = st\<lparr>st_attempts := put_last (at_attempt_id attempt)
            \<lparr>gx_task_id = ts_task_id task, gx_data = attempt, gx_updated_at = now\<rparr> (st_attempts st)\<rparr>;
          root = (case ts_root_task_id task of Some r \<Rightarrow> if r \<noteq> [] then r else ts_task_id task | None \<Rightarrow> ts_task_id task)
      in fold (save_artifact root) (at_artifacts attempt) st1)"

definition save_task :: "usec \<Rightarrow> TaskSpec \<Rightarrow> store \<Rightarrow> store" where
  "save_task now task st =
     fold (save_attempt now task) (ts_attempts task)
       (st\<lparr>st_tasks := put_last (ts_task_id task)
            \<lparr>gt_agent_name = ts_agent_name task, gt_state = ts_status task, gt_data = task, gt_updated_at = now\<rparr>
            (st_tasks st)\<rparr>)"

definition load_tasks :: "store \<Rightarrow> (string \<times> task_row) list" where
  "load_tasks st = st_tasks st"

definition load_artifact :: "string \<Rightarrow> store \<Rightarrow> ArtifactReference option" where
  "load_artifact artifact_id st = map_option gf_data (map_of (st_artifacts st) artifact_id)"

definition list_artifacts_for_run :: "string \<Rightarrow> store \<Rightarrow> ArtifactReference list" where
  "list_artifacts_for_run root_task_id st =
     sort_key ar_created_at (map gf_data (filter (\<lambda>r. gf_root_task_id r = root_task_id) (map snd (st_artifacts st))))"

text \<open>\<open>json_extract(data, '$.root_task_id') = ? OR task_id = ?\<close>.\<close>

definition row_of_run :: "string \<Rightarrow> string \<times> task_row \<Rightarrow> bool" where
  "row_of_run root_task_id row \<longleftrightarrow>
     ts_root_task_id (gt_data (snd row)) = Some root_task_id \<or> fst row = root_task_id"

definition run_task_ids :: "string \<Rightarrow> store \<Rightarrow> string list" where
  "run_task_ids root_task_id st = map fst (filter (row_of_run root_task_id) (st_tasks st))"

definition list_tasks_for_run :: "string \<Rightarrow> store \<Rightarrow> (string \<times> task_row) list" where
  "list_tasks_for_run root_task_id st =
     sort_key (\<lambda>row. gt_updated_at (snd row)) (filter (row_of_run root_task_id) (st_tasks st))"

definition list_attempts_for_run :: "string \<Rightarrow> store \<Rightarrow> (string \<times> attempt_row) list" where
  "list_attempts_for_run root_task_id st =
     sort_key (\<lambda>row. gx_updated_at (snd row))
       (filter (\<lambda>row. gx_task_id (snd row) \<in> set (run_task_ids root_task_id st)) (st_attempts st))"

definition delete_tasks_for_run :: "string \<Rightarrow> store \<Rightarrow> store \<times> nat" where
  "delete_tasks_for_run root_task_id st =
     (let ids = run_task_ids root_task_id st
      in if ids = [] then (st, 0)
         else (st\<lparr>st_artifacts := filter (\<lambda>(i, r). \<not> (ar_task_id (gf_data r) \<in> set ids \<or> gf_root_task_id r = root_task_id))
                   (st_artifacts st),
                  st_attempts := filter (\<lambda>(i, r). gx_task_id r \<notin> set ids) (st_attempts st),
                  st_traces := filter (\<lambda>(i, r). ge_task_id r \<notin> set ids) (st_traces st),
                  st_leases := filter (\<lambda>(i, r). gl_task_id r \<notin> set ids) (st_leases st),
                  st_tasks := filter (\<lambda>(i, r). i \<notin> set ids) (st_tasks st)\<rparr>, length ids))"

definition list_trace_events_after_id :: "string \<Rightarrow> nat \<Rightarrow> store \<Rightarrow> (nat \<times> trace_row) list" where
  "list_trace_events_after_id root_task_id after_id st =
     (let ids = run_task_ids root_task_id st
      in if ids = [] then []
         else sort_key fst (filter (\<lambda>(i, r). i > after_id \<and> ge_task_id r \<in> set ids) (st_traces st)))"

section \<open>Leases\<close>

definition save_lease :: "usec \<Rightarrow> (usec \<Rightarrow> string) \<Rightarrow> string \<Rightarrow> ResourceLease \<Rightarrow> store \<Rightarrow> store" where
  "save_lease now stamp lease_id lease st =
     st\<lparr>st_leases := put_last lease_id
          \<lparr>gl_task_id = ls_task_id lease, gl_agent_name = ls_agent_name lease, gl_status = ls_status lease,
           gl_data = lease_to_dict stamp lease_id lease, gl_updated_at = now\<rparr> (st_leases st)\<rparr>"

definition release_row :: "usec \<Rightarrow> (usec \<Rightarrow> string) \<Rightarrow> string \<Rightarrow> lease_row \<Rightarrow> lease_row" where
  "release_row now stamp reason r =
     r\<lparr>gl_status := ''released'',
       gl_data := dict_set ''reason'' (JStr reason) (dict_set ''released_at'' (JStr (stamp now))
         (dict_set ''status'' (JStr ''released'') (gl_data r))),
       gl_updated_at := now\<rparr>"

definition release_leases_for_task :: "usec \<Rightarrow> (usec \<Rightarrow> string) \<Rightarrow> string \<Rightarrow> string \<Rightarrow> store \<Rightarrow> store" where
  "release_leases_for_task now stamp task_id reason st =
     st\<lparr>st_leases := map (\<lambda>(i, r). (i, if gl_task_id r = task_id \<and> gl_status r = ''active''
                                        then release_row now stamp reason r else r)) (st_leases st)\<rparr>"

definition release_all_active_leases :: "usec \<Rightarrow> (usec \<Rightarrow> string) \<Rightarrow> string \<Rightarrow> store \<Rightarrow> store" where
  "release_all_active_leases now stamp reason st =
     fold (\<lambda>task_id. release_leases_for_task now stamp task_id reason)
       (map (gl_task_id \<circ> snd) (filter (\<lambda>(i, r). gl_status r = ''active'') (st_leases st))) st"

section \<open>Mailboxes, traces and processed messages\<close>

definition save_mailbox_message :: "Message \<Rightarrow> bool \<Rightarrow> mailbox_table \<Rightarrow> mailbox_table" where
  "save_mailbox_message m dead_letter t =
     put_last (ms_message_id m) \<lparr>gm_mailbox = ms_to_agent m, gm_dead_letter = dead_letter, gm_data = m\<rparr> t"

definition delete_mailbox_messages :: "string list \<Rightarrow> mailbox_table \<Rightarrow> mailbox_table" where
  "delete_mailbox_messages ids t = fold dict_pop ids t"

definition load_mailbox_messages :: "bool \<Rightarrow> mailbox_table \<Rightarrow> Message list" where
  "load_mailbox_messages dead_letter t =
     sort_key ms_created_at (map gm_data (filter (\<lambda>r. gm_dead_letter r = dead_letter) (map snd t)))"

definition save_trace_event :: "usec \<Rightarrow> string \<Rightarrow> string \<Rightarrow> string \<Rightarrow> jdict \<Rightarrow> store \<Rightarrow> store" where
  "save_trace_event now trace_id task_id name detail st =
     st\<lparr>st_traces := st_traces st @ [(st_next_trace st,
          \<lparr>ge_trace_id = trace_id, ge_task_id = task_id, ge_name = name, ge_data = detail, ge_created_at = now\<rparr>)],
        st_next_trace := Suc (st_next_trace st)\<rparr>"

definition save_processed_message :: "usec \<Rightarrow> string \<Rightarrow> string \<Rightarrow> string \<Rightarrow> string \<Rightarrow> store \<Rightarrow> store" where
  "save_processed_message now message_id receiver status generated_task_id st =
     st\<lparr>st_processed := put_last (message_id, receiver)
          \<lparr>gp_status = status, gp_processed_at = now, gp_generated_task_id = generated_task_id\<rparr> (st_processed st)\<rparr>"

definition processed_message_exists :: "string \<Rightarrow> string \<Rightarrow> store \<Rightarrow> bool" where
  "processed_message_exists message_id receiver st \<longleftrightarrow> map_of (st_processed st) (message_id, receiver) \<noteq> None"

definition store_counts :: "store \<Rightarrow> (string \<times> nat) list" where
  "store_counts st =
     [(''agents'', length (st_agents st)), (''tasks'', length (st_tasks st)), (''task_attempts'', length (st_attempts st)),
      (''resource_leases'', length (st_leases st)), (''mailbox_messages'', length (st_mailbox st)),
      (''trace_events'', length (st_traces st)), (''processed_messages'', length (st_processed st)),
      (''dead_letter_messages'', length (filter (\<lambda>(i, r). gm_dead_letter r) (st_mailbox st)))]"

section \<open>Recovery\<close>

text \<open>\<open>TaskSpec(**json.loads(row["data"]))\<close>.\<close>

definition reload_task :: "TaskSpec \<Rightarrow> TaskSpec" where
  "reload_task t = model_post_init (t\<lparr>ts_failure_policy_set := True\<rparr>)"

text \<open>A row of the task table: the new store, the task when it is recovered, and the decision.\<close>

definition recover_row ::
    "usec \<Rightarrow> (usec \<Rightarrow> string) \<Rightarrow> TaskSpec \<Rightarrow> (store, TaskSpec option \<times> string option) eff" where
  "recover_row now stamp stored st =
     (let task = reload_task stored
      in case ts_status task of
           TS_RUNNING \<Rightarrow>
             (case transition_to now TS_ORPHANED ''daemon.recovery.orphaned'' task of
                (t1, Inl e) \<Rightarrow> (st, Inl e)
              | (t1, Inr u) \<Rightarrow>
                  (let st1 = release_leases_for_task now stamp (ts_task_id task) ''daemon.recovery.orphaned'' st
                   in case transition_to now TS_READY ''daemon.recovery.retry'' t1 of
                        (t2, Inl e) \<Rightarrow> (st1, Inl e)
                      | (t2, Inr u) \<Rightarrow> (save_task now t2 st1, Inr (Some t2, Some ''RUNNING->ORPHANED->READY''))))
         | TS_READY \<Rightarrow> (st, Inr (Some task, Some ''READY->READY''))
         | TS_PENDING \<Rightarrow>
             if ts_dependencies task \<noteq> []
             then (save_task now task st, Inr (None, Some ''PENDING->PENDING''))
             else (case transition_to now TS_READY ''daemon.recovery.pending_ready'' task of
                     (t1, Inl e) \<Rightarrow> (st, Inl e)
                   | (t1, Inr u) \<Rightarrow> (save_task now t1 st, Inr (Some t1, Some ''PENDING->READY'')))
         | _ \<Rightarrow> (st, Inr (None, None)))"

definition option_list :: "'a option \<Rightarrow> 'a list" where
  "option_list v = (case v of None \<Rightarrow> [] | Some x \<Rightarrow> [x])"

fun recover_loop ::
    "usec \<Rightarrow> (usec \<Rightarrow> string) \<Rightarrow> (string \<times> task_row) list \<Rightarrow> TaskSpec list \<Rightarrow> string dict \<Rightarrow>
     (store, TaskSpec list \<times> string dict) eff" where
  "recover_loop now stamp [] recovered decisions = eff_return (recovered, decisions)"
| "recover_loop now stamp (row # rows) recovered decisions =
     eff_bind (recover_row now stamp (gt_data (snd row))) (\<lambda>(task, decision).
       recover_loop now stamp rows (recovered @ option_list task)
         (case decision of None \<Rightarrow> decisions | Some d \<Rightarrow> dict_set (ts_task_id (gt_data (snd row))) d decisions))"

definition recover_tasks :: "usec \<Rightarrow> (usec \<Rightarrow> string) \<Rightarrow> (store, TaskSpec list \<times> string dict) eff" where
  "recover_tasks now stamp =
     eff_get (\<lambda>st. eff_bind (recover_loop now stamp (load_tasks st) [] []) (\<lambda>res.
       eff_then (eff_modify (release_all_active_leases now stamp ''daemon.recovery'')) (eff_return res)))"

end
