(* ===== verification/Store_Properties.thy ===== *)
theory Store_Properties
  imports State_Store
begin

text \<open>
  What the state store and the recovery promise: a saved task is read back as last written,
  deleting a run removes that run and nothing else, and after a restart every task that was under
  way is ready again and no lease is left active.
\<close>

section \<open>Tables\<close>

lemma save_artifact_frame [simp]:
  "st_agents (save_artifact r a st) = st_agents st" "st_tasks (save_artifact r a st) = st_tasks st"
  "st_attempts (save_artifact r a st) = st_attempts st" "st_leases (save_artifact r a st) = st_leases st"
  "st_traces (save_artifact r a st) = st_traces st" "st_mailbox (save_artifact r a st) = st_mailbox st"
  by (simp_all add: save_artifact_def)

lemma fold_save_artifact_frame [simp]:
  "st_agents (fold (save_artifact r) as st) = st_agents st"
  "st_tasks (fold (save_artifact r) as st) = st_tasks st"
  "st_attempts (fold (save_artifact r) as st) = st_attempts st"
  "st_leases (fold (save_artifact r) as st) = st_leases st"
  "st_traces (fold (save_artifact r) as st) = st_traces st"
  "st_mailbox (fold (save_artifact r) as st) = st_mailbox st"
  by (induction as arbitrary: st) simp_all

lemma save_attempt_frame [simp]:
  "st_tasks (save_attempt now t a st) = st_tasks st" "st_leases (save_attempt now t a st) = st_leases st"
  "st_attempts (save_attempt now t a st) = put_last (at_attempt_id a)
     \<lparr>gx_task_id = ts_task_id t, gx_data = a, gx_updated_at = now\<rparr> (st_attempts st)"
  by (simp_all add: save_attempt_def Let_def)

lemma fold_save_attempt_frame [simp]:
  "st_tasks (fold (save_attempt now t) as st) = st_tasks st"
  "st_leases (fold (save_attempt now t) as st) = st_leases st"
  by (induction as arbitrary: st) simp_all

text \<open>The row \<open>save_task\<close> writes.\<close>

definition row_of_task :: "usec \<Rightarrow> TaskSpec \<Rightarrow> task_row" where
  "row_of_task now t =
     \<lparr>gt_agent_name = ts_agent_name t, gt_state = ts_status t, gt_data = t, gt_updated_at = now\<rparr>"

lemma row_of_task_simps [simp]:
  "gt_data (row_of_task now t) = t" "gt_state (row_of_task now t) = ts_status t"
  "gt_updated_at (row_of_task now t) = now"
  by (simp_all add: row_of_task_def)

lemma save_task_frame [simp]:
  "st_tasks (save_task now t st) = put_last (ts_task_id t) (row_of_task now t) (st_tasks st)"
  "st_leases (save_task now t st) = st_leases st"
  by (simp_all add: save_task_def row_of_task_def)

lemma attempts_fold_save_attempt:
  "st_attempts (fold (save_attempt now t) as st) = fold (\<lambda>a. put_last (at_attempt_id a)
     \<lparr>gx_task_id = ts_task_id t, gx_data = a, gx_updated_at = now\<rparr>) as (st_attempts st)"
  by (induction as arbitrary: st) simp_all

text \<open>The artifact table after a list of attempts is written.\<close>

lemma artifacts_fold_save_artifact:
  "st_artifacts (fold (save_artifact r) as st) =
     fold (\<lambda>a. put_last (ar_artifact_id a) \<lparr>gf_root_task_id = r, gf_data = a\<rparr>) as (st_artifacts st)"
  by (induction as arbitrary: st) (simp_all add: save_artifact_def)

lemma artifacts_fold_save_attempt:
  assumes "ts_root_task_id t = Some r" "r \<noteq> []"
  shows "st_artifacts (fold (save_attempt now t) as st) =
     fold (\<lambda>a. put_last (ar_artifact_id a) \<lparr>gf_root_task_id = r, gf_data = a\<rparr>)
       (concat (map at_artifacts as)) (st_artifacts st)"
  using assms by (induction as arbitrary: st) (simp_all add: save_attempt_def artifacts_fold_save_artifact)

lemma release_task_frame [simp]:
  "st_tasks (release_leases_for_task now stamp i reason st) = st_tasks st"
  "st_attempts (release_leases_for_task now stamp i reason st) = st_attempts st"
  by (simp_all add: release_leases_for_task_def)

lemma release_all_frame [simp]:
  "st_tasks (release_all_active_leases now stamp reason st) = st_tasks st"
proof -
  have "st_tasks (fold (\<lambda>i. release_leases_for_task now stamp i reason) is st) = st_tasks st" for "is"
    by (induction "is" arbitrary: st) simp_all
  then show ?thesis by (simp add: release_all_active_leases_def)
qed

text \<open>The tasks with an active lease row.\<close>

definition lease_holders :: "store \<Rightarrow> string set" where
  "lease_holders st = {gl_task_id r |i r. (i, r) \<in> set (st_leases st) \<and> gl_status r = ''active''}"

lemma lease_holders_release:
  "lease_holders (release_leases_for_task now stamp i reason st) = lease_holders st - {i}"
  by (force simp: lease_holders_def release_leases_for_task_def release_row_def split: if_splits)

lemma lease_holders_release_all [simp]: "lease_holders (release_all_active_leases now stamp reason st) = {}"
proof -
  have "lease_holders (fold (\<lambda>i. release_leases_for_task now stamp i reason) is st) = lease_holders st - set is" for "is"
    by (induction "is" arbitrary: st) (auto simp: lease_holders_release)
  moreover have "lease_holders st
      \<subseteq> set (map (gl_task_id \<circ> snd) (filter (\<lambda>(i, r). gl_status r = ''active'') (st_leases st)))"
    by (force simp: lease_holders_def)
  ultimately show ?thesis by (auto simp: release_all_active_leases_def)
qed

section \<open>Histories of a store\<close>

text \<open>The rows agree with their keys and with the tasks they hold.\<close>

definition rows_ok :: "store \<Rightarrow> bool" where
  "rows_ok st \<longleftrightarrow> distinct (dict_keys (st_tasks st)) \<and>
     (\<forall>(i, r) \<in> set (st_tasks st). ts_task_id (gt_data r) = i \<and> gt_state r = ts_status (gt_data r) \<and> coherent (gt_data r))"

lemma rows_ok_rowD:
  "rows_ok st \<Longrightarrow> (i, r) \<in> set (st_tasks st) \<Longrightarrow>
     ts_task_id (gt_data r) = i \<and> gt_state r = ts_status (gt_data r) \<and> coherent (gt_data r)"
  by (auto simp: rows_ok_def)

lemma rows_ok_put:
  assumes "rows_ok st" "coherent t" "st_tasks st' = put_last (ts_task_id t) (row_of_task now t) (st_tasks st)"
  shows "rows_ok st'"
  using assms set_put_last[of "ts_task_id t" "row_of_task now t" "st_tasks st"]
  by (auto simp: rows_ok_def)

lemma rows_ok_same: "rows_ok st \<Longrightarrow> st_tasks st' = st_tasks st \<Longrightarrow> rows_ok st'"
  by (simp add: rows_ok_def)

lemma reload_task_facts:
  assumes "coherent t"
  shows "coherent (reload_task t)" "ts_status (reload_task t) = ts_status t"
    "ts_task_id (reload_task t) = ts_task_id t" "ts_dependencies (reload_task t) = ts_dependencies t"
  using assms
  by (auto simp: reload_task_def synced_coherent synced_model_post_init)
     (auto simp: model_post_init_def sync_from_tcb_def coherent_def Let_def split: option.splits)

text \<open>The tasks that the recovery hands back to the scheduler.\<close>

definition recoverable :: "TaskSpec \<Rightarrow> bool" where
  "recoverable t \<longleftrightarrow> ts_status t \<in> {TS_RUNNING, TS_READY} \<or> ts_status t = TS_PENDING \<and> ts_dependencies t = []"

text \<open>What the recovery of one row does.\<close>

lemma recover_row_cases:
  assumes "coherent t"
  obtains (recovered) st' t' d where
      "recover_row now stamp t st = (st', Inr (Some t', Some d))" "recoverable t"
      "coherent t'" "ts_status t' = TS_READY" "same_task (reload_task t) t'"
      "st_tasks st' = put_last (ts_task_id t) (row_of_task now t') (st_tasks st) \<or>
       st_tasks st' = st_tasks st \<and> ts_status t = TS_READY"
  | (kept) st' t' where
      "recover_row now stamp t st = (st', Inr (None, Some ''PENDING->PENDING''))" "\<not> recoverable t"
      "ts_status t = TS_PENDING" "coherent t'" "ts_status t' = TS_PENDING" "ts_task_id t' = ts_task_id t"
      "st_tasks st' = put_last (ts_task_id t) (row_of_task now t') (st_tasks st)"
  | (other) "recover_row now stamp t st = (st, Inr (None, None))" "\<not> recoverable t"
      "ts_status t \<notin> {TS_RUNNING, TS_READY, TS_PENDING}"
proof -
  note rf = reload_task_facts[OF assms]
  consider (run) "ts_status t = TS_RUNNING" | (ready) "ts_status t = TS_READY"
    | (pend) "ts_status t = TS_PENDING" "ts_dependencies t = []"
    | (wait) "ts_status t = TS_PENDING" "ts_dependencies t \<noteq> []"
    | (rest) "ts_status t \<notin> {TS_RUNNING, TS_READY, TS_PENDING}" by auto
  then show thesis
  proof cases
    case run
    obtain t1 where t1: "transition_to now TS_ORPHANED ''daemon.recovery.orphaned'' (reload_task t) = (t1, Inr ())"
        "coherent t1" "ts_status t1 = TS_ORPHANED" "same_task (reload_task t) t1"
      using transition_to_ok[OF rf(1), of TS_ORPHANED] rf(2) run by (auto simp: tcb_may_def)
    obtain t2 where t2: "transition_to now TS_READY ''daemon.recovery.retry'' t1 = (t2, Inr ())"
        "coherent t2" "ts_status t2 = TS_READY" "same_task t1 t2"
      using transition_to_ok[OF t1(2), of TS_READY] t1(3) by (auto simp: tcb_may_def)
    have same: "same_task (reload_task t) t2" using t1(4) t2(4) by (simp add: same_task_def)
    then have "ts_task_id t2 = ts_task_id t" using rf(3) by (simp add: same_task_def)
    then show thesis
      using recovered[of _ t2] t1(1) t2 same run rf
      by (simp add: recover_row_def recoverable_def)
  next
    case ready
    then show thesis using recovered[of st "reload_task t"] rf by (simp add: recover_row_def recoverable_def)
  next
    case pend
    obtain t1 where t1: "transition_to now TS_READY ''daemon.recovery.pending_ready'' (reload_task t) = (t1, Inr ())"
        "coherent t1" "ts_status t1 = TS_READY" "same_task (reload_task t) t1"
      using transition_to_ok[OF rf(1), of TS_READY] rf(2) pend(1) by (auto simp: tcb_may_def)
    then have "ts_task_id t1 = ts_task_id t" using rf(3) by (simp add: same_task_def)
    then show thesis using recovered[of _ t1] t1 pend rf by (simp add: recover_row_def recoverable_def)
  next
    case wait
    then show thesis using kept[of _ "reload_task t"] rf by (simp add: recover_row_def recoverable_def)
  next
    case rest
    then show thesis using rf
      by (intro other) (cases "ts_status t"; simp add: recover_row_def recoverable_def)+
  qed
qed

text \<open>
  The loop over the rows still to be read, \<open>rows\<close>: they are as they were when the loop began, the
  rows already passed are in their final state.
\<close>

definition row_recovered :: "task_row \<Rightarrow> task_row \<Rightarrow> bool" where
  "row_recovered r r' \<longleftrightarrow> gt_state r' = (if recoverable (gt_data r) then TS_READY else gt_state r)"

definition recovery_post ::
    "store \<Rightarrow> (string \<times> task_row) list \<Rightarrow> store \<Rightarrow> TaskSpec list \<Rightarrow> string dict \<Rightarrow> bool" where
  "recovery_post st rows st' ts decided \<longleftrightarrow> rows_ok st' \<and>
     list_all2 (\<lambda>(i, r) t. ts_task_id t = i \<and> ts_status t = TS_READY \<and> same_task (reload_task (gt_data r)) t)
       (filter (\<lambda>(i, r). recoverable (gt_data r)) rows) ts \<and>
     dict_keys decided = map fst (filter (\<lambda>(i, r). gt_state r \<in> {TS_RUNNING, TS_READY, TS_PENDING}) rows) \<and>
     (\<forall>i. i \<notin> set (dict_keys rows) \<longrightarrow> map_of (st_tasks st') i = map_of (st_tasks st) i) \<and>
     (\<forall>(i, r) \<in> set rows. \<exists>r'. map_of (st_tasks st') i = Some r' \<and> row_recovered r r')"

text \<open>The effect of the first row, in the same terms.\<close>

definition row_post :: "store \<Rightarrow> string \<Rightarrow> task_row \<Rightarrow> store \<Rightarrow> TaskSpec option \<Rightarrow> string option \<Rightarrow> bool" where
  "row_post st i r st1 v d \<longleftrightarrow> rows_ok st1 \<and>
     (case v of None \<Rightarrow> \<not> recoverable (gt_data r)
      | Some t' \<Rightarrow> recoverable (gt_data r) \<and> ts_task_id t' = i \<and> ts_status t' = TS_READY \<and>
                  same_task (reload_task (gt_data r)) t') \<and>
     (d \<noteq> None \<longleftrightarrow> gt_state r \<in> {TS_RUNNING, TS_READY, TS_PENDING}) \<and>
     (\<forall>j. j \<noteq> i \<longrightarrow> map_of (st_tasks st1) j = map_of (st_tasks st) j) \<and>
     (\<exists>r'. map_of (st_tasks st1) i = Some r' \<and> row_recovered r r')"

lemma recover_row_post:
  assumes "rows_ok st" "(i, r) \<in> set (st_tasks st)"
  obtains st1 v d where "recover_row now stamp (gt_data r) st = (st1, Inr (v, d))" "row_post st i r st1 v d"
proof -
  have row: "ts_task_id (gt_data r) = i" "gt_state r = ts_status (gt_data r)" "coherent (gt_data r)"
    using rows_ok_rowD[OF assms] by auto
  have i_row: "map_of (st_tasks st) i = Some r" using assms by (simp add: rows_ok_def)
  from row(3) show thesis
  proof (cases rule: recover_row_cases[where now = now and stamp = stamp and st = st])
    case (recovered st1 t' d)
    have id: "ts_task_id t' = i"
      using recovered(5) reload_task_facts(3)[OF row(3)] row(1) by (simp add: same_task_def)
    have "rows_ok st1"
      using recovered(6) rows_ok_put[OF assms(1) recovered(3)] rows_ok_same[OF assms(1)] id row(1) by auto
    then have "row_post st i r st1 (Some t') (Some d)"
      using recovered id row i_row by (auto simp: row_post_def row_recovered_def recoverable_def)
    with recovered(1) show thesis by (rule that)
  next
    case (kept st1 t')
    have "rows_ok st1" using kept rows_ok_put[OF assms(1) kept(4)] by simp
    then have "row_post st i r st1 None (Some ''PENDING->PENDING'')"
      using kept row by (auto simp: row_post_def row_recovered_def)
    with kept(1) show thesis by (rule that)
  next
    case other
    then have "row_post st i r st None None"
      using row i_row assms(1) by (auto simp: row_post_def row_recovered_def)
    with other(1) show thesis by (rule that)
  qed
qed

lemma rows_kept:
  assumes "row_post st i r st1 v d" "rows_ok st" "set rows \<subseteq> set (st_tasks st)" "i \<notin> set (dict_keys rows)"
  shows "set rows \<subseteq> set (st_tasks st1)"
proof
  fix q assume q: "q \<in> set rows"
  obtain j s where js: "q = (j, s)" by (cases q)
  have "map_of (st_tasks st) j = Some s" using assms(2,3) q js by (simp add: rows_ok_def subset_iff)
  moreover have "j \<noteq> i" using assms(4) q js by force
  ultimately have "map_of (st_tasks st1) j = Some s" using assms(1) by (simp add: row_post_def)
  then show "q \<in> set (st_tasks st1)" using js by (simp add: map_of_SomeD)
qed

lemma recovery_post_Cons:
  assumes "row_post st i r st1 v d" "recovery_post st1 rows st' ts decided" "i \<notin> set (dict_keys rows)"
  shows "recovery_post st ((i, r) # rows) st' (option_list v @ ts)
    ((case d of None \<Rightarrow> [] | Some x \<Rightarrow> [(i, x)]) @ decided)"
proof -
  have "map_of (st_tasks st') i = map_of (st_tasks st1) i"
    using assms(2,3) by (simp add: recovery_post_def)
  then have "\<exists>r'. map_of (st_tasks st') i = Some r' \<and> row_recovered r r'"
    using assms(1) by (simp add: row_post_def)
  then show ?thesis
    using assms(1,2) by (auto simp: recovery_post_def row_post_def option_list_def split: option.splits)
qed

lemma recover_loop_result:
  assumes "rows_ok st" "set rows \<subseteq> set (st_tasks st)" "distinct (dict_keys rows)"
    and "set (dict_keys decisions) \<inter> set (dict_keys rows) = {}"
  shows "\<exists>st' ts decided. recover_loop now stamp rows acc decisions st
            = (st', Inr (acc @ ts, decisions @ decided)) \<and> recovery_post st rows st' ts decided"
  using assms
proof (induction rows arbitrary: acc decisions st)
  case Nil
  then show ?case by (auto simp: eff_simps recovery_post_def)
next
  case (Cons p rows)
  obtain i r where p: "p = (i, r)" by (cases p)
  have fresh: "i \<notin> set (dict_keys rows)" "i \<notin> set (dict_keys decisions)"
    using Cons.prems(3,4) p by auto
  have "(i, r) \<in> set (st_tasks st)" using Cons.prems(2) p by simp
  with Cons.prems(1) obtain st1 v d where
    rr: "recover_row now stamp (gt_data r) st = (st1, Inr (v, d))" and post: "row_post st i r st1 v d"
    by (rule recover_row_post)
  have id: "ts_task_id (gt_data r) = i" using rows_ok_rowD[OF Cons.prems(1)] Cons.prems(2) p by auto
  define own where "own = (case d of None \<Rightarrow> [] | Some x \<Rightarrow> [(i, x)])"
  have ds: "(case d of None \<Rightarrow> decisions | Some x \<Rightarrow> dict_set i x decisions) = decisions @ own"
    using fresh(2) by (auto simp: own_def dict_set_fresh split: option.splits)
  have "rows_ok st1" using post by (simp add: row_post_def)
  moreover have "set rows \<subseteq> set (st_tasks st1)"
    using rows_kept[OF post Cons.prems(1)] Cons.prems(2) fresh(1) by simp
  moreover have "set (dict_keys (decisions @ own)) \<subseteq> insert i (set (dict_keys decisions))"
    by (auto simp: own_def split: option.splits)
  then have "distinct (dict_keys rows)" "set (dict_keys (decisions @ own)) \<inter> set (dict_keys rows) = {}"
    using Cons.prems(3,4) fresh(1) p by (simp, simp only: list.map fst_conv list.set) blast
  ultimately obtain st' ts decided where ih:
    "recover_loop now stamp rows (acc @ option_list v) (decisions @ own) st1
       = (st', Inr ((acc @ option_list v) @ ts, (decisions @ own) @ decided))"
    "recovery_post st1 rows st' ts decided"
    using Cons.IH by blast
  have "recover_loop now stamp (p # rows) acc decisions st
      = (st', Inr (acc @ (option_list v @ ts), decisions @ (own @ decided)))"
    using ih(1) by (simp add: p eff_bind_def rr id ds cong: option.case_cong)
  moreover have "recovery_post st (p # rows) st' (option_list v @ ts) (own @ decided)"
    using recovery_post_Cons[OF post ih(2) fresh(1)] by (simp add: p own_def)
  ultimately show ?case by blast
qed

datatype store_op =
    SaveTask usec TaskSpec
  | SaveLease usec string ResourceLease
  | ReleaseTask usec string string
  | DeleteRun string
  | Restart usec

fun store_op_apply :: "(usec \<Rightarrow> string) \<Rightarrow> store_op \<Rightarrow> store \<Rightarrow> store" where
  "store_op_apply stamp (SaveTask now t) st = save_task now t st"
| "store_op_apply stamp (SaveLease now i l) st = save_lease now stamp i l st"
| "store_op_apply stamp (ReleaseTask now i reason) st = release_leases_for_task now stamp i reason st"
| "store_op_apply stamp (DeleteRun rid) st = fst (delete_tasks_for_run rid st)"
| "store_op_apply stamp (Restart now) st = fst (recover_tasks now stamp st)"

definition store_run :: "(usec \<Rightarrow> string) \<Rightarrow> store_op list \<Rightarrow> store" where
  "store_run stamp ops = fold (store_op_apply stamp) ops empty_store"

fun op_ok :: "store_op \<Rightarrow> bool" where
  "op_ok (SaveTask now t) = coherent t"
| "op_ok _ = True"

lemma recovery_post_cong:
  "st_tasks st2 = st_tasks st1 \<Longrightarrow> recovery_post st rows st2 ts d = recovery_post st rows st1 ts d"
  by (simp only: recovery_post_def rows_ok_def)

lemma recover_tasks_result:
  assumes "rows_ok st"
  obtains st' ts decided where "recover_tasks now stamp st = (st', Inr (ts, decided))"
    "recovery_post st (load_tasks st) st' ts decided" "lease_holders st' = {}"
proof -
  have "\<exists>st' ts decided. recover_loop now stamp (load_tasks st) [] [] st = (st', Inr ([] @ ts, [] @ decided)) \<and>
      recovery_post st (load_tasks st) st' ts decided"
    using assms by (intro recover_loop_result) (auto simp: rows_ok_def load_tasks_def)
  then obtain st1 ts decided where l: "recover_loop now stamp (load_tasks st) [] [] st = (st1, Inr (ts, decided))"
    and post: "recovery_post st (load_tasks st) st1 ts decided" by auto
  let ?st' = "release_all_active_leases now stamp ''daemon.recovery'' st1"
  have "recover_tasks now stamp st = (?st', Inr (ts, decided))"
    by (simp add: recover_tasks_def eff_simps l)
  moreover have "recovery_post st (load_tasks st) ?st' ts decided"
    using post recovery_post_cong[of ?st' st1] by simp
  ultimately show thesis by (rule that) simp
qed

lemma rows_ok_op: "rows_ok st \<Longrightarrow> op_ok op \<Longrightarrow> rows_ok (store_op_apply stamp op st)"
proof (cases op)
  case (SaveTask now t)
  assume "rows_ok st" "op_ok op"
  then show ?thesis using SaveTask rows_ok_put[of st t _ now] by simp
next
  case (DeleteRun rid)
  assume "rows_ok st"
  then show ?thesis
    using DeleteRun by (auto simp: delete_tasks_for_run_def Let_def rows_ok_def distinct_map_filter)
next
  case (Restart now)
  assume "rows_ok st"
  then show ?thesis
    by (rule recover_tasks_result[of st now stamp]) (simp add: Restart recovery_post_def)
qed (auto simp: save_lease_def elim: rows_ok_same)

lemma rows_ok_run: "list_all op_ok ops \<Longrightarrow> rows_ok (store_run stamp ops)"
proof -
  have "rows_ok (fold (store_op_apply stamp) ops st)" if "rows_ok st" "list_all op_ok ops" for st
    using that by (induction ops arbitrary: st) (auto simp: rows_ok_op)
  moreover have "rows_ok empty_store" by (simp add: rows_ok_def empty_store_def)
  ultimately show "list_all op_ok ops \<Longrightarrow> rows_ok (store_run stamp ops)" unfolding store_run_def by blast
qed

section \<open>Properties\<close>

text \<open>
  C26: After any history of a store (tasks and leases saved, leases released, runs deleted,
  earlier restarts) the recovery returns without raising. It hands back, in row order, exactly the
  tasks that were running or ready and those that were pending without dependencies, each READY
  with its identity, dependencies and policies as stored; it books a decision for exactly these
  and the pending ones it keeps; the stored states follow; no row appears or disappears; and no
  lease is left active.
\<close>

theorem recovery_after_any_history:
  assumes "list_all op_ok ops"
  shows "\<exists>st' recovered decisions.
    recover_tasks now stamp (store_run stamp ops) = (st', Inr (recovered, decisions)) \<and>
    list_all2 (\<lambda>(i, r) t. ts_task_id t = i \<and> ts_status t = TS_READY \<and> same_task (reload_task (gt_data r)) t)
      (filter (\<lambda>(i, r). recoverable (gt_data r)) (load_tasks (store_run stamp ops))) recovered \<and>
    dict_keys decisions = map fst (filter (\<lambda>(i, r). gt_state r \<in> {TS_RUNNING, TS_READY, TS_PENDING})
      (load_tasks (store_run stamp ops))) \<and>
    (\<forall>i. case map_of (load_tasks (store_run stamp ops)) i of
        None \<Rightarrow> map_of (load_tasks st') i = None
      | Some r \<Rightarrow> \<exists>r'. map_of (load_tasks st') i = Some r' \<and>
          gt_state r' = (if recoverable (gt_data r) then TS_READY else gt_state r) \<and>
          gt_state r' = ts_status (gt_data r')) \<and>
    (\<forall>(i, l) \<in> set (st_leases st'). gl_status l \<noteq> ''active'')"
proof -
  let ?st = "store_run stamp ops"
  have ok: "rows_ok ?st" using assms by (rule rows_ok_run)
  then obtain st' ts decided where r: "recover_tasks now stamp ?st = (st', Inr (ts, decided))"
    and post: "recovery_post ?st (load_tasks ?st) st' ts decided" and free: "lease_holders st' = {}"
    by (rule recover_tasks_result)
  have rows: "case map_of (load_tasks ?st) i of
        None \<Rightarrow> map_of (load_tasks st') i = None
      | Some r \<Rightarrow> \<exists>r'. map_of (load_tasks st') i = Some r' \<and>
          gt_state r' = (if recoverable (gt_data r) then TS_READY else gt_state r) \<and>
          gt_state r' = ts_status (gt_data r')" for i
  proof (cases "map_of (load_tasks ?st) i")
    case None
    then have "i \<notin> set (dict_keys (load_tasks ?st))" by (simp add: map_of_eq_None_iff)
    with None show ?thesis using post by (simp add: recovery_post_def load_tasks_def)
  next
    case (Some r)
    then obtain r' where "map_of (st_tasks st') i = Some r'" "row_recovered r r'"
      using post map_of_SomeD[OF Some] unfolding recovery_post_def by blast
    moreover then have "gt_state r' = ts_status (gt_data r')"
      using post rows_ok_rowD by (auto simp: recovery_post_def dest!: map_of_SomeD)
    ultimately show ?thesis using Some by (auto simp: row_recovered_def load_tasks_def)
  qed
  have leases: "\<forall>(i, l) \<in> set (st_leases st'). gl_status l \<noteq> ''active''"
    using free by (auto simp: lease_holders_def)
  show ?thesis
    using r rows leases post unfolding recovery_post_def by blast
qed

text \<open>A store that lost its daemon while \<open>a\<close> ran with a lease and \<open>b\<close> waited for it.\<close>

definition demo_ops :: "store_op list" where
  "demo_ops =
     (let a = fst (transition_to 2 TS_RUNNING [] (fst (transition_to 1 TS_READY [] (new_task ''a'' (Some ''w'') [] [] ''t'' 0))))
      in [SaveTask 2 a, SaveTask 3 (new_task ''b'' None [] [''a''] ''t'' 0), SaveTask 3 (new_task ''c'' None [] [] ''t'' 0),
          SaveLease 2 ''l'' (new_lease ''a'' ''w'' [] 2)])"

theorem recovery_after_any_history_witness:
  "list_all op_ok demo_ops \<and>
   (\<exists>st' recovered decisions.
      recover_tasks 9 (\<lambda>_. []) (store_run (\<lambda>_. []) demo_ops) = (st', Inr (recovered, decisions)) \<and>
      map ts_task_id recovered = [''a'', ''c''] \<and> dict_keys decisions = [''a'', ''b'', ''c''])"
proof -
  let ?st = "store_run (\<lambda>_. []) demo_ops"
  have ok: "list_all op_ok demo_ops"
    by (simp add: demo_ops_def Let_def transition_coherent synced_coherent synced_new_task)
  from recovery_after_any_history[OF ok, of 9 "\<lambda>_. []"] obtain st' ts ds where
    r: "recover_tasks 9 (\<lambda>_. []) ?st = (st', Inr (ts, ds))"
    "list_all2 (\<lambda>(i, r) t. ts_task_id t = i \<and> ts_status t = TS_READY \<and> same_task (reload_task (gt_data r)) t)
       (filter (\<lambda>(i, r). recoverable (gt_data r)) (load_tasks ?st)) ts"
    "dict_keys ds = map fst (filter (\<lambda>(i, r). gt_state r \<in> {TS_RUNNING, TS_READY, TS_PENDING}) (load_tasks ?st))"
    by blast
  have "map ts_task_id ts = map fst rs" if "list_all2 (\<lambda>(i, r) t. ts_task_id t = i \<and> ts_status t = TS_READY \<and>
      same_task (reload_task (gt_data r)) t) rs ts" for rs :: "(string \<times> task_row) list"
    using that by (induction rule: list_all2_induct) auto
  note this[OF r(2)]
  also have "map fst (filter (\<lambda>(i, r). recoverable (gt_data r)) (load_tasks ?st)) = [''a'', ''c'']"
    by code_simp
  finally have "map ts_task_id ts = [''a'', ''c'']" .
  moreover have "map fst (filter (\<lambda>(i, r). gt_state r \<in> {TS_RUNNING, TS_READY, TS_PENDING}) (load_tasks ?st))
      = [''a'', ''b'', ''c'']"
    by code_simp
  ultimately show ?thesis using ok r(1,3) by auto
qed

lemma reload_mirrored:
  assumes "mirrors c t" "ts_resource_block_reason t = qi_resource_block_reason (tcb_queue_info c)"
    and "ts_root_task_id t = Some root_id" "ts_definition t = Some d"
  shows "reload_task t = t\<lparr>ts_failure_policy_set := True\<rparr>"
  using assms by (cases t) (simp add: reload_task_def model_post_init_def sync_from_tcb_def mirrors_def)


definition demo_attempted :: TaskSpec where
  "demo_attempted = task_op_apply (OpCreate 1 ''w'' None) (new_task ''a'' (Some ''w'') [] [] ''t'' 0)"


lemma run_task_ids_iff: "i \<in> set (run_task_ids rid st) \<longleftrightarrow> (\<exists>r. (i, r) \<in> set (st_tasks st) \<and> row_of_run rid (i, r))"
  by (force simp: run_task_ids_def)

text \<open>The rows of a run once the tasks \<open>ids\<close> are gone.\<close>

lemma run_rows_without:
  assumes "set (run_task_ids rid st) \<inter> ids = {}" "st_tasks st' = filter (\<lambda>(i, r). i \<notin> ids) (st_tasks st)"
  shows "filter (row_of_run rid) (st_tasks st') = filter (row_of_run rid) (st_tasks st)"
    and "run_task_ids rid st' = run_task_ids rid st"
proof -
  have "(i, r) \<in> set (st_tasks st) \<Longrightarrow> row_of_run rid (i, r) \<Longrightarrow> i \<notin> ids" for i r
    using assms(1) run_task_ids_iff[of i rid st] by blast
  then show "filter (row_of_run rid) (st_tasks st') = filter (row_of_run rid) (st_tasks st)"
    by (auto simp: assms(2) intro!: filter_cong)
  then show "run_task_ids rid st' = run_task_ids rid st" by (simp add: run_task_ids_def)
qed

text \<open>
  Deleting a run removes all of its tasks with their attempts, artifacts and traces and
  reports their number; a run that shares no task with it keeps its tasks, attempts and traces.
\<close>

theorem store_delete_run_exact:
  assumes "delete_tasks_for_run rid st = (st', n)"
  shows "n = length (list_tasks_for_run rid st) \<and>
    list_tasks_for_run rid st' = [] \<and> list_attempts_for_run rid st' = [] \<and>
    list_trace_events_after_id rid k st' = [] \<and>
    (n > 0 \<longrightarrow> list_artifacts_for_run rid st' = []) \<and>
    (set (run_task_ids other st) \<inter> set (run_task_ids rid st) = {} \<longrightarrow>
       list_tasks_for_run other st' = list_tasks_for_run other st \<and>
       list_attempts_for_run other st' = list_attempts_for_run other st \<and>
       list_trace_events_after_id other k st' = list_trace_events_after_id other k st)"
proof -
  let ?ids = "set (run_task_ids rid st)"
  have n: "n = length (run_task_ids rid st)"
    using assms by (auto simp: delete_tasks_for_run_def Let_def split: if_splits)
  have tabs: "st_tasks st' = filter (\<lambda>(i, r). i \<notin> ?ids) (st_tasks st)"
    "st_attempts st' = filter (\<lambda>(i, r). gx_task_id r \<notin> ?ids) (st_attempts st)"
    "st_traces st' = filter (\<lambda>(i, r). ge_task_id r \<notin> ?ids) (st_traces st)"
    using assms by (auto simp: delete_tasks_for_run_def Let_def split: if_splits)
  have gone: "filter (row_of_run rid) (st_tasks st') = []"
    using run_task_ids_iff[of _ rid st] by (auto simp: tabs(1) filter_empty_conv)
  then have ids': "run_task_ids rid st' = []" by (simp add: run_task_ids_def)
  have art: "list_artifacts_for_run rid st' = []" if "n > 0"
    using that n assms
    by (auto simp: list_artifacts_for_run_def delete_tasks_for_run_def Let_def filter_empty_conv split: if_splits)
  have keep: "list_tasks_for_run other st' = list_tasks_for_run other st \<and>
      list_attempts_for_run other st' = list_attempts_for_run other st \<and>
      list_trace_events_after_id other k st' = list_trace_events_after_id other k st"
    if dis: "set (run_task_ids other st) \<inter> ?ids = {}"
  proof -
    note w = run_rows_without[OF dis tabs(1)]
    have "filter (\<lambda>row. gx_task_id (snd row) \<in> set (run_task_ids other st)) (st_attempts st') =
        filter (\<lambda>row. gx_task_id (snd row) \<in> set (run_task_ids other st)) (st_attempts st)"
      using dis by (auto simp: tabs(2) intro!: filter_cong)
    moreover have "filter (\<lambda>(i, r). i > k \<and> ge_task_id r \<in> set (run_task_ids other st)) (st_traces st') =
        filter (\<lambda>(i, r). i > k \<and> ge_task_id r \<in> set (run_task_ids other st)) (st_traces st)"
      using dis by (auto simp: tabs(3) intro!: filter_cong)
    ultimately show ?thesis
      by (simp add: list_tasks_for_run_def list_attempts_for_run_def list_trace_events_after_id_def Let_def w)
  qed
  have "length (list_tasks_for_run rid st) = n" by (simp add: n list_tasks_for_run_def run_task_ids_def)
  then show ?thesis
    using art keep by (auto simp: list_tasks_for_run_def gone list_attempts_for_run_def ids' list_trace_events_after_id_def)
qed

theorem store_delete_run_exact_witness:
  "snd (delete_tasks_for_run ''a'' (store_run (\<lambda>_. []) demo_ops)) = length (list_tasks_for_run ''a'' (store_run (\<lambda>_. []) demo_ops)) \<and>
   map fst (list_tasks_for_run ''a'' (store_run (\<lambda>_. []) demo_ops)) = [''a''] \<and>
   list_tasks_for_run ''c'' (fst (delete_tasks_for_run ''a'' (store_run (\<lambda>_. []) demo_ops)))
     = list_tasks_for_run ''c'' (store_run (\<lambda>_. []) demo_ops)"
proof -
  let ?st = "store_run (\<lambda>_. []) demo_ops"
  obtain st' n where d: "delete_tasks_for_run ''a'' ?st = (st', n)" by fastforce
  have "set (run_task_ids ''c'' ?st) \<inter> set (run_task_ids ''a'' ?st) = {}"
    "map fst (list_tasks_for_run ''a'' ?st) = [''a'']"
    by code_simp+
  then show ?thesis using store_delete_run_exact[OF d, where other = "''c''" and k = 0] d by simp
qed

end
