(* ===== verification/Message_Router.thy ===== *)
theory Message_Router
  imports State_Store
begin

text \<open>
  \<open>aruntime/comm/router.py\<close>: mailboxes, dead letters, acknowledgements and the connections of the
  agents.

  Every \<open>async with self._lock\<close> block of the source has no suspension point inside, so it is one
  atomic step on the record \<open>router\<close>. Between such blocks a coroutine waits for the network; what it
  still has to do is a \<open>job\<close>, and \<open>router_step\<close> interleaves the jobs of all coroutines with new calls in
  any order. Whether a write succeeds is the network's choice. A writer is a number; an entry of
  \<open>_conn_locks\<close> always accompanies one of \<open>_connections\<close>. A lookup in a \<open>defaultdict\<close> that adds an
  empty entry is not visible to any operation and is read as the default.
\<close>

section \<open>State\<close>

type_synonym writer = nat

record router =
  ro_mailboxes :: "Message list dict"
  ro_dead_letters :: "Message list dict"
  ro_unacked :: "Message dict"
  ro_processed :: "string list dict"
  ro_retry_count :: "nat dict"
  ro_connections :: "writer dict"
  ro_conn_locks :: "unit dict"
  ro_connected_events :: "bool dict"
  ro_mailbox_max :: int
  ro_store :: "mailbox_table option"

definition router_init :: "int \<Rightarrow> mailbox_table option \<Rightarrow> router" where
  "router_init mailbox_max st =
     \<lparr>ro_mailboxes = [], ro_dead_letters = [], ro_unacked = [], ro_processed = [], ro_retry_count = [],
      ro_connections = [], ro_conn_locks = [], ro_connected_events = [], ro_mailbox_max = mailbox_max,
      ro_store = st\<rparr>"

definition mailbox :: "router \<Rightarrow> string \<Rightarrow> Message list" where
  "mailbox r a = dict_get (ro_mailboxes r) a []"

definition dead_box :: "router \<Rightarrow> string \<Rightarrow> Message list" where
  "dead_box r a = dict_get (ro_dead_letters r) a []"

definition is_processed :: "router \<Rightarrow> string \<Rightarrow> string \<Rightarrow> bool" where
  "is_processed r a message_id \<longleftrightarrow> message_id \<in> set (dict_get (ro_processed r) a [])"

definition set_mailbox :: "string \<Rightarrow> Message list \<Rightarrow> router \<Rightarrow> router" where
  "set_mailbox a ms r = r\<lparr>ro_mailboxes := dict_set a ms (ro_mailboxes r)\<rparr>"

definition on_store :: "(mailbox_table \<Rightarrow> mailbox_table) \<Rightarrow> router \<Rightarrow> router" where
  "on_store f r = r\<lparr>ro_store := map_option f (ro_store r)\<rparr>"

definition add_dead_letter :: "Message \<Rightarrow> router \<Rightarrow> router" where
  "add_dead_letter m r =
     on_store (save_mailbox_message m True)
       (r\<lparr>ro_dead_letters := dict_set (ms_to_agent m) (dead_box r (ms_to_agent m) @ [m]) (ro_dead_letters r)\<rparr>)"

section \<open>Mailboxes\<close>

text \<open>\<open>popleft\<close> of the oldest message when the box is full.\<close>

definition make_room :: "string \<Rightarrow> router \<Rightarrow> router" where
  "make_room a r =
     (if ro_mailbox_max r > 0 \<and> int (length (mailbox r a)) \<ge> ro_mailbox_max r
      then (case mailbox r a of
              [] \<Rightarrow> r
            | dropped # rest \<Rightarrow> add_dead_letter dropped (set_mailbox a rest r))
      else r)"

definition enqueue_locked :: "Message \<Rightarrow> router \<Rightarrow> router" where
  "enqueue_locked m r =
     (if is_processed r (ms_to_agent m) (ms_message_id m) then r
      else (let r1 = make_room (ms_to_agent m) r;
                r2 = on_store (save_mailbox_message m False)
                       (set_mailbox (ms_to_agent m) (mailbox r1 (ms_to_agent m) @ [m]) r1)
            in if ms_ack_required m then r2\<lparr>ro_unacked := dict_set (ms_message_id m) m (ro_unacked r2)\<rparr> else r2))"

definition restore_mailbox :: "Message list \<Rightarrow> router \<Rightarrow> router" where
  "restore_mailbox ms r = fold (\<lambda>m r. set_mailbox (ms_to_agent m) (mailbox r (ms_to_agent m) @ [m]) r) ms r"

definition router_send :: "Message \<Rightarrow> router \<Rightarrow> router" where
  "router_send m r = enqueue_locked m r"

definition router_receive :: "string \<Rightarrow> int \<Rightarrow> router \<Rightarrow> router \<times> Message list" where
  "router_receive a limit r =
     (if limit \<le> 0 \<or> mailbox r a = [] then (r, [])
      else (let n = min (nat limit) (length (mailbox r a));
                messages = filter (\<lambda>m. \<not> is_processed r a (ms_message_id m)) (take n (mailbox r a))
            in (on_store (delete_mailbox_messages (map ms_message_id messages)) (set_mailbox a (drop n (mailbox r a)) r),
                messages)))"

definition router_ack :: "string \<Rightarrow> string \<Rightarrow> router \<Rightarrow> router \<times> bool" where
  "router_ack a message_id r =
     (on_store (delete_mailbox_messages [message_id])
        (r\<lparr>ro_unacked := dict_pop message_id (ro_unacked r),
           ro_processed := dict_set a (List.insert message_id (dict_get (ro_processed r) a [])) (ro_processed r)\<rparr>),
      map_of (ro_unacked r) message_id \<noteq> None)"

section \<open>Replay\<close>

text \<open>The first block of \<open>replay_unacked\<close>, message by message; the second component is \<open>replay\<close>.\<close>

definition replay_one :: "nat \<Rightarrow> Message \<Rightarrow> router \<times> Message list \<Rightarrow> router \<times> Message list" where
  "replay_one max_retries m = (\<lambda>(r, replay).
     let c = Suc (dict_get (ro_retry_count r) (ms_message_id m) 0);
         r1 = r\<lparr>ro_retry_count := dict_set (ms_message_id m) c (ro_retry_count r)\<rparr>
     in if c > max_retries
        then (let r2 = add_dead_letter m r1 in (r2\<lparr>ro_unacked := dict_pop (ms_message_id m) (ro_unacked r2)\<rparr>, replay))
        else (r1, replay @ [m]))"

definition unacked_for :: "router \<Rightarrow> string \<Rightarrow> Message list" where
  "unacked_for r a = filter (\<lambda>m. ms_to_agent m = a) (map snd (ro_unacked r))"

definition replay_collect :: "string \<Rightarrow> nat \<Rightarrow> router \<Rightarrow> router \<times> Message list" where
  "replay_collect a max_retries r = fold (replay_one max_retries) (unacked_for r a) (r, [])"

text \<open>The second block, for one message of \<open>replay\<close>: \<open>appendleft\<close>.\<close>

definition replay_push :: "string \<Rightarrow> Message \<Rightarrow> router \<Rightarrow> router" where
  "replay_push a m r = on_store (save_mailbox_message m False) (set_mailbox a (m # mailbox r a) r)"

text \<open>The call as a whole when no other coroutine runs in between.\<close>

definition replay_unacked :: "string \<Rightarrow> nat \<Rightarrow> router \<Rightarrow> router \<times> nat" where
  "replay_unacked a max_retries r =
     (let (r1, replay) = replay_collect a max_retries r in (fold (replay_push a) replay r1, length replay))"

text \<open>\<open>items[:limit]\<close>: a negative limit counts from the end.\<close>

definition slice_to :: "int \<Rightarrow> 'a list \<Rightarrow> 'a list" where
  "slice_to limit xs = (if limit \<ge> 0 then take (nat limit) xs else take (length xs - nat (- limit)) xs)"

definition router_dead_letters :: "string option \<Rightarrow> int \<Rightarrow> router \<Rightarrow> Message list" where
  "router_dead_letters agent limit r =
     (case agent of
        Some a \<Rightarrow> if a \<noteq> [] then slice_to limit (dead_box r a)
                  else slice_to limit (concat (map snd (ro_dead_letters r)))
      | None \<Rightarrow> slice_to limit (concat (map snd (ro_dead_letters r))))"

section \<open>Connections\<close>

text \<open>The block of \<open>register\<close>, with the messages it will send; then the rows leave the store.\<close>

definition register_begin :: "string \<Rightarrow> writer \<Rightarrow> router \<Rightarrow> router \<times> Message list" where
  "register_begin a w r =
     (let boxed = mailbox r a;
          queued = boxed @ filter (\<lambda>m. ms_message_id m \<notin> ms_message_id ` set boxed) (unacked_for r a);
          r1 = set_mailbox a [] (r\<lparr>ro_connections := dict_set a w (ro_connections r),
                 ro_conn_locks := dict_set a () (ro_conn_locks r),
                 ro_connected_events := dict_set a True (ro_connected_events r)\<rparr>)
      in (on_store (delete_mailbox_messages (map ms_message_id queued)) r1, queued))"

definition router_unregister :: "string \<Rightarrow> writer option \<Rightarrow> router \<Rightarrow> router" where
  "router_unregister a w r =
     (if w \<noteq> None \<and> map_of (ro_connections r) a \<noteq> w then r
      else (let r1 = r\<lparr>ro_connections := dict_pop a (ro_connections r), ro_conn_locks := dict_pop a (ro_conn_locks r)\<rparr>
            in if map_of (ro_connected_events r1) a \<noteq> None
               then r1\<lparr>ro_connected_events := dict_set a False (ro_connected_events r1)\<rparr> else r1))"

text \<open>The block of \<open>route\<close>: the writer to send to, or the message is boxed.\<close>

definition route_begin :: "Message \<Rightarrow> router \<Rightarrow> router \<times> writer option" where
  "route_begin m r =
     (case (map_of (ro_connections r) (ms_to_agent m), map_of (ro_conn_locks r) (ms_to_agent m)) of
        (Some w, Some u) \<Rightarrow> (r, Some w)
      | _ \<Rightarrow> (enqueue_locked m r, None))"

text \<open>The block of \<open>_requeue_after_send_failure\<close>: another writer to try, or the message is boxed.\<close>

definition requeue_begin :: "string \<Rightarrow> Message \<Rightarrow> writer \<Rightarrow> router \<Rightarrow> router \<times> writer option" where
  "requeue_begin a m failed_writer r =
     (case (map_of (ro_connections r) a, map_of (ro_conn_locks r) a) of
        (Some w, Some u) \<Rightarrow> if w \<noteq> failed_writer then (r, Some w) else (enqueue_locked m r, None)
      | _ \<Rightarrow> (enqueue_locked m r, None))"

text \<open>The first block of \<open>wait_connected\<close>: connected already, or an event to wait for.\<close>

definition connected_now :: "string \<Rightarrow> router \<Rightarrow> router \<times> bool" where
  "connected_now a r =
     (if map_of (ro_connections r) a \<noteq> None then (r, True)
      else if map_of (ro_connected_events r) a = None
      then (r\<lparr>ro_connected_events := dict_set a False (ro_connected_events r)\<rparr>, False)
      else (r, False))"

definition send_event_begin :: "string \<Rightarrow> router \<Rightarrow> writer option" where
  "send_event_begin a r =
     (case (map_of (ro_connections r) a, map_of (ro_conn_locks r) a) of (Some w, Some u) \<Rightarrow> Some w | _ \<Rightarrow> None)"

section \<open>Coroutines\<close>

text \<open>
  What a suspended coroutine still has to do: \<open>JSend a m w rest\<close> is writing \<open>m\<close> to \<open>w\<close> and has the
  messages \<open>rest\<close> to send after it (the loop of \<open>register\<close>; \<open>rest\<close> is empty for \<open>route\<close>); \<open>JFailed\<close> has
  seen the write fail and calls \<open>unregister\<close>; \<open>JRequeue\<close> enters \<open>_requeue_after_send_failure\<close>; \<open>JRetry\<close>
  writes to the other writer, \<open>JRetryFailed\<close> and \<open>JBox\<close> follow when that fails too; \<open>JReplay\<close> is the
  second loop of \<open>replay_unacked\<close>; \<open>JEvent\<close> and \<open>JEventFailed\<close> are the write of \<open>send_event\<close>.
\<close>

datatype job =
    JSend string Message writer "Message list"
  | JFailed string Message writer "Message list"
  | JRequeue string Message writer "Message list"
  | JRetry string Message writer writer "Message list"
  | JRetryFailed string Message writer writer "Message list"
  | JBox string Message writer "Message list"
  | JReplay string "Message list"
  | JEvent string writer
  | JEventFailed string writer

fun send_all :: "string \<Rightarrow> writer \<Rightarrow> Message list \<Rightarrow> job list" where
  "send_all a w [] = []"
| "send_all a w (m # ms) = [JSend a m w ms]"

fun replay_jobs :: "string \<Rightarrow> Message list \<Rightarrow> job list" where
  "replay_jobs a [] = []"
| "replay_jobs a (m # ms) = [JReplay a (m # ms)]"

text \<open>
  A job up to its next suspension: the new state, what is left to do, and the messages that reached
  a writer. \<open>ok\<close> says whether a write succeeds.
\<close>

fun run_job :: "bool \<Rightarrow> job \<Rightarrow> router \<Rightarrow> router \<times> job list \<times> Message list" where
  "run_job ok (JSend a m w rest) r =
     (if ok then (r, send_all a w rest, [m]) else (r, [JFailed a m w rest], []))"
| "run_job ok (JFailed a m w rest) r = (router_unregister a (Some w) r, [JRequeue a m w rest], [])"
| "run_job ok (JRequeue a m w rest) r =
     (case requeue_begin a m w r of
        (r1, Some w') \<Rightarrow> (r1, [JRetry a m w w' rest], [])
      | (r1, None) \<Rightarrow> (r1, send_all a w rest, []))"
| "run_job ok (JRetry a m w w' rest) r =
     (if ok then (r, send_all a w rest, [m]) else (r, [JRetryFailed a m w w' rest], []))"
| "run_job ok (JRetryFailed a m w w' rest) r = (router_unregister a (Some w') r, [JBox a m w rest], [])"
| "run_job ok (JBox a m w rest) r = (enqueue_locked m r, send_all a w rest, [])"
| "run_job ok (JReplay a ms) r =
     (case ms of [] \<Rightarrow> (r, [], []) | m # rest \<Rightarrow> (replay_push a m r, replay_jobs a rest, []))"
| "run_job ok (JEvent a w) r = (r, if ok then [] else [JEventFailed a w], [])"
| "run_job ok (JEventFailed a w) r = (router_unregister a (Some w) r, [], [])"

text \<open>The calls of the interface; each runs to its first suspension.\<close>

datatype router_call =
    CallSend Message
  | CallReceive string int
  | CallAck string string
  | CallReplay string nat
  | CallRegister string writer
  | CallUnregister string "writer option"
  | CallRoute Message
  | CallRestore "Message list"
  | CallWait string
  | CallSendEvent string

fun run_call :: "router_call \<Rightarrow> router \<Rightarrow> router \<times> job list \<times> Message list" where
  "run_call (CallSend m) r = (router_send m r, [], [])"
| "run_call (CallReceive a limit) r = (let (r1, ms) = router_receive a limit r in (r1, [], ms))"
| "run_call (CallAck a i) r = (fst (router_ack a i r), [], [])"
| "run_call (CallReplay a k) r = (let (r1, ms) = replay_collect a k r in (r1, replay_jobs a ms, []))"
| "run_call (CallRegister a w) r = (let (r1, ms) = register_begin a w r in (r1, send_all a w ms, []))"
| "run_call (CallUnregister a w) r = (router_unregister a w r, [], [])"
| "run_call (CallRoute m) r =
     (case route_begin m r of (r1, Some w) \<Rightarrow> (r1, [JSend (ms_to_agent m) m w []], []) | (r1, None) \<Rightarrow> (r1, [], []))"
| "run_call (CallRestore ms) r = (restore_mailbox ms r, [], [])"
| "run_call (CallWait a) r = (fst (connected_now a r), [], [])"
| "run_call (CallSendEvent a) r =
     (r, case send_event_begin a r of Some w \<Rightarrow> [JEvent a w] | None \<Rightarrow> [], [])"

text \<open>The router with its suspended coroutines and everything handed over to an agent so far.\<close>

record router_system =
  sy_router :: router
  sy_jobs :: "job list"
  sy_delivered :: "Message list"

definition system_init :: "int \<Rightarrow> mailbox_table option \<Rightarrow> router_system" where
  "system_init mailbox_max st = \<lparr>sy_router = router_init mailbox_max st, sy_jobs = [], sy_delivered = []\<rparr>"

datatype router_event = EvCall router_call | EvJob nat bool

fun system_event :: "router_event \<Rightarrow> router_system \<Rightarrow> router_system" where
  "system_event (EvCall c) s =
     (let (r, js, ms) = run_call c (sy_router s)
      in \<lparr>sy_router = r, sy_jobs = sy_jobs s @ js, sy_delivered = sy_delivered s @ ms\<rparr>)"
| "system_event (EvJob k ok) s =
     (if k < length (sy_jobs s)
      then (let (r, js, ms) = run_job ok (sy_jobs s ! k) (sy_router s)
            in \<lparr>sy_router = r, sy_jobs = take k (sy_jobs s) @ js @ drop (Suc k) (sy_jobs s),
                sy_delivered = sy_delivered s @ ms\<rparr>)
      else s)"

definition system_run :: "router_event list \<Rightarrow> router_system \<Rightarrow> router_system" where
  "system_run es s = fold system_event es s"

end
