(* ===== verification/Router_Properties.thy ===== *)
theory Router_Properties
  imports Message_Router
begin

text \<open>
  What the message router guarantees whatever the network does and however the coroutines
  interleave: no accepted message disappears, mailboxes stay bounded, acknowledged messages are not
  received again, and replay gives up after its retries.
\<close>

section \<open>Mailboxes under the operations\<close>

lemmas router_box_defs = mailbox_def dead_box_def is_processed_def set_mailbox_def on_store_def

lemma box_simps [simp]:
  "mailbox (set_mailbox a ms r) b = (if b = a then ms else mailbox r b)"
  "dead_box (set_mailbox a ms r) b = dead_box r b"
  "is_processed (set_mailbox a ms r) b i = is_processed r b i"
  "mailbox (on_store f r) b = mailbox r b" "dead_box (on_store f r) b = dead_box r b"
  "is_processed (on_store f r) b i = is_processed r b i"
  "mailbox (add_dead_letter m r) b = mailbox r b"
  "is_processed (add_dead_letter m r) b i = is_processed r b i"
  "dead_box (add_dead_letter m r) b = (if b = ms_to_agent m then dead_box r b @ [m] else dead_box r b)"
  by (simp_all add: router_box_defs add_dead_letter_def)

lemma field_simps_router [simp]:
  "ro_unacked (set_mailbox a ms r) = ro_unacked r" "ro_unacked (on_store f r) = ro_unacked r"
  "ro_unacked (add_dead_letter m r) = ro_unacked r"
  "ro_retry_count (set_mailbox a ms r) = ro_retry_count r" "ro_retry_count (on_store f r) = ro_retry_count r"
  "ro_retry_count (add_dead_letter m r) = ro_retry_count r"
  "ro_mailbox_max (set_mailbox a ms r) = ro_mailbox_max r" "ro_mailbox_max (on_store f r) = ro_mailbox_max r"
  "ro_mailbox_max (add_dead_letter m r) = ro_mailbox_max r"
  "ro_store (set_mailbox a ms r) = ro_store r" "ro_store (on_store f r) = map_option f (ro_store r)"
  "ro_store (add_dead_letter m r) = map_option (save_mailbox_message m True) (ro_store r)"
  by (simp_all add: set_mailbox_def on_store_def add_dead_letter_def)

lemma box_updates [simp]:
  "mailbox (r\<lparr>ro_unacked := u\<rparr>) b = mailbox r b" "dead_box (r\<lparr>ro_unacked := u\<rparr>) b = dead_box r b"
  "is_processed (r\<lparr>ro_unacked := u\<rparr>) b i = is_processed r b i"
  "mailbox (r\<lparr>ro_retry_count := c\<rparr>) b = mailbox r b" "dead_box (r\<lparr>ro_retry_count := c\<rparr>) b = dead_box r b"
  "is_processed (r\<lparr>ro_retry_count := c\<rparr>) b i = is_processed r b i"
  by (simp_all add: router_box_defs)

lemma make_room_simps [simp]:
  "is_processed (make_room a r) b i = is_processed r b i"
  "ro_unacked (make_room a r) = ro_unacked r"
  "ro_mailbox_max (make_room a r) = ro_mailbox_max r"
  by (simp_all add: make_room_def split: list.splits)

lemma unregister_frame [simp]:
  "mailbox (router_unregister a w r) b = mailbox r b" "dead_box (router_unregister a w r) b = dead_box r b"
  "is_processed (router_unregister a w r) b i = is_processed r b i"
  "ro_store (router_unregister a w r) = ro_store r" "ro_mailbox_max (router_unregister a w r) = ro_mailbox_max r"
  by (simp_all add: router_unregister_def router_box_defs Let_def)

lemma connected_now_frame [simp]:
  "mailbox (fst (connected_now a r)) b = mailbox r b" "dead_box (fst (connected_now a r)) b = dead_box r b"
  "is_processed (fst (connected_now a r)) b i = is_processed r b i"
  "ro_store (fst (connected_now a r)) = ro_store r" "ro_mailbox_max (fst (connected_now a r)) = ro_mailbox_max r"
  "ro_unacked (fst (connected_now a r)) = ro_unacked r"
  by (simp_all add: connected_now_def router_box_defs)

text \<open>The two boxes a message can be in, together.\<close>

definition boxed :: "router \<Rightarrow> Message \<Rightarrow> bool" where
  "boxed r m \<longleftrightarrow> m \<in> set (mailbox r (ms_to_agent m)) \<or> m \<in> set (dead_box r (ms_to_agent m)) \<or>
     is_processed r (ms_to_agent m) (ms_message_id m)"

lemma boxed_make_room: "boxed r m \<Longrightarrow> boxed (make_room a r) m"
  by (auto simp: boxed_def make_room_def split: list.splits)

lemma boxed_enqueue: "boxed r m \<Longrightarrow> boxed (enqueue_locked m' r) m"
  using boxed_make_room[of r m "ms_to_agent m'"]
  by (auto simp: enqueue_locked_def boxed_def Let_def)

lemma boxed_enqueued: "boxed (enqueue_locked m r) m"
  by (auto simp: enqueue_locked_def boxed_def Let_def)

lemma boxed_unregister [simp]:
  "boxed (router_unregister a w r) m = boxed r m" "boxed (fst (connected_now a r)) m = boxed r m"
  by (simp_all add: boxed_def)

lemma boxed_receive:
  "boxed r m \<Longrightarrow> boxed (fst (router_receive a limit r)) m \<or> m \<in> set (snd (router_receive a limit r))"
proof -
  assume b: "boxed r m"
  let ?n = "min (nat limit) (length (mailbox r a))"
  have split: "set (mailbox r a) = set (take ?n (mailbox r a)) \<union> set (drop ?n (mailbox r a))"
    by (metis append_take_drop_id set_append)
  show ?thesis
  proof (cases "a = ms_to_agent m")
    case True
    then show ?thesis using b split by (auto simp: router_receive_def boxed_def Let_def)
  next
    case False
    then show ?thesis using b by (auto simp: router_receive_def boxed_def Let_def)
  qed
qed

lemma boxed_ack: "boxed r m \<Longrightarrow> boxed (fst (router_ack a i r)) m"
  by (auto simp: router_ack_def boxed_def router_box_defs)

lemma fold_replay_one:
  assumes "fold (replay_one k) ms (r, acc) = (r', acc')"
  shows "boxed r m \<Longrightarrow> boxed r' m" "set acc' \<subseteq> set acc \<union> set ms"
    "mailbox r' = mailbox r" "is_processed r' = is_processed r" "ro_mailbox_max r' = ro_mailbox_max r"
proof -
  have "(boxed r m \<longrightarrow> boxed r' m) \<and> set acc' \<subseteq> set acc \<union> set ms \<and> mailbox r' = mailbox r \<and>
      is_processed r' = is_processed r \<and> ro_mailbox_max r' = ro_mailbox_max r"
    using assms
  proof (induction ms arbitrary: r acc)
    case Nil
    then show ?case by simp
  next
    case (Cons x ms)
    obtain r1 acc1 where s: "replay_one k x (r, acc) = (r1, acc1)" by fastforce
    then have one: "(boxed r m \<longrightarrow> boxed r1 m) \<and> set acc1 \<subseteq> insert x (set acc) \<and> mailbox r1 = mailbox r \<and>
        is_processed r1 = is_processed r \<and> ro_mailbox_max r1 = ro_mailbox_max r"
      by (auto simp: replay_one_def boxed_def Let_def fun_eq_iff split: if_splits)
    from Cons.prems s have "fold (replay_one k) ms (r1, acc1) = (r', acc')" by simp
    from Cons.IH[OF this] one show ?case by auto
  qed
  then show "boxed r m \<Longrightarrow> boxed r' m" "set acc' \<subseteq> set acc \<union> set ms" "mailbox r' = mailbox r"
    "is_processed r' = is_processed r" "ro_mailbox_max r' = ro_mailbox_max r" by blast+
qed

lemma boxed_register:
  assumes "register_begin a w r = (r', queued)" "boxed r m"
  shows "boxed r' m \<or> m \<in> set queued"
proof -
  have "mailbox r' b = (if b = a then [] else mailbox r b)" "dead_box r' b = dead_box r b"
    "is_processed r' b i = is_processed r b i" "set (mailbox r a) \<subseteq> set queued" for b i
    using assms(1) by (auto simp: register_begin_def Let_def router_box_defs)
  with assms(2) show ?thesis by (auto simp: boxed_def)
qed

section \<open>No message is lost\<close>

fun job_messages :: "job \<Rightarrow> Message list" where
  "job_messages (JSend a m w rest) = m # rest"
| "job_messages (JFailed a m w rest) = m # rest"
| "job_messages (JRequeue a m w rest) = m # rest"
| "job_messages (JRetry a m w w' rest) = m # rest"
| "job_messages (JRetryFailed a m w w' rest) = m # rest"
| "job_messages (JBox a m w rest) = m # rest"
| "job_messages (JReplay a ms) = ms"
| "job_messages (JEvent a w) = []"
| "job_messages (JEventFailed a w) = []"

definition in_jobs :: "job list \<Rightarrow> Message set" where
  "in_jobs js = (\<Union>j \<in> set js. set (job_messages j))"

lemma in_jobs_simps [simp]:
  "in_jobs [] = {}" "in_jobs (j # js) = set (job_messages j) \<union> in_jobs js"
  "in_jobs (xs @ ys) = in_jobs xs \<union> in_jobs ys"
  by (auto simp: in_jobs_def)

lemma in_jobs_send_all [simp]: "in_jobs (send_all a w ms) = set ms"
  by (cases ms) simp_all

lemma in_jobs_replay [simp]: "in_jobs (replay_jobs a ms) = set ms"
  by (cases ms) simp_all

fun replay_job_ok :: "job \<Rightarrow> bool" where
  "replay_job_ok (JReplay a ms) = (\<forall>m \<in> set ms. ms_to_agent m = a)"
| "replay_job_ok _ = True"

lemma replay_ok_send_all [simp]: "list_all replay_job_ok (send_all a w ms)"
  by (cases ms) simp_all

text \<open>A message is with the router, under way, handed over, or acknowledged.\<close>

definition located :: "router_system \<Rightarrow> Message \<Rightarrow> bool" where
  "located s m \<longleftrightarrow> boxed (sy_router s) m \<or> m \<in> in_jobs (sy_jobs s) \<or> m \<in> set (sy_delivered s)"

lemma boxed_requeue:
  assumes "requeue_begin a x w r = (r', next_writer)"
  shows "boxed r m \<Longrightarrow> boxed r' m" "next_writer = None \<Longrightarrow> boxed r' x" "next_writer \<noteq> None \<Longrightarrow> r' = r"
  using assms boxed_enqueue[of r m x] boxed_enqueued[of x r]
  by (auto simp: requeue_begin_def split: option.splits if_splits)

lemma boxed_replay_push: "boxed r m \<Longrightarrow> boxed (replay_push a x r) m"
  by (auto simp: replay_push_def boxed_def)

lemma replay_ok_replay_jobs [simp]: "list_all replay_job_ok (replay_jobs a ms) = (\<forall>m \<in> set ms. ms_to_agent m = a)"
  by (cases ms) simp_all

lemma run_job_located:
  assumes run: "run_job ok j r = (r', js, ms)" and ok: "replay_job_ok j"
    and m: "boxed r m \<or> m \<in> set (job_messages j)"
  shows "boxed r' m \<or> m \<in> in_jobs js \<or> m \<in> set ms"
proof (cases j)
  case (JRequeue a x w rest)
  obtain r1 nw where b: "requeue_begin a x w r = (r1, nw)" by fastforce
  then show ?thesis using run m JRequeue boxed_requeue[OF b] by (cases nw) auto
next
  case (JReplay a xs)
  show ?thesis
  proof (cases xs)
    case (Cons y ys)
    have "boxed (replay_push a y r) y" using ok JReplay Cons by (simp add: replay_push_def boxed_def)
    then show ?thesis using run m JReplay Cons boxed_replay_push[of r m a y] by auto
  qed (use run m JReplay in simp)
next
  case (JBox a x w rest)
  then show ?thesis using run m boxed_enqueue[of r m x] boxed_enqueued[of x r] by auto
qed (use run m in \<open>auto split: if_splits\<close>)

lemma run_job_replay_ok:
  "run_job ok j r = (r', js, ms) \<Longrightarrow> replay_job_ok j \<Longrightarrow> list_all replay_job_ok js"
  by (cases j) (auto split: if_splits prod.splits option.splits list.splits)

text \<open>The messages a call hands to the router.\<close>

fun accepted_by :: "router_call \<Rightarrow> Message set" where
  "accepted_by (CallSend m) = {m}"
| "accepted_by (CallRoute m) = {m}"
| "accepted_by (CallRestore ms) = set ms"
| "accepted_by _ = {}"

lemma boxed_restore: "boxed r m \<or> m \<in> set ms \<Longrightarrow> boxed (restore_mailbox ms r) m"
proof -
  let ?f = "\<lambda>m r. set_mailbox (ms_to_agent m) (mailbox r (ms_to_agent m) @ [m]) r"
  have step: "boxed r m \<or> m = x \<Longrightarrow> boxed (?f x r) m" for r x by (auto simp: boxed_def)
  have "boxed (fold ?f ms r) m" if "boxed r m \<or> m \<in> set ms" for r
    using that by (induction ms arbitrary: r) (use step in auto)
  then show "boxed r m \<or> m \<in> set ms \<Longrightarrow> ?thesis" by (simp add: restore_mailbox_def)
qed

lemma run_call_located:
  assumes run: "run_call c r = (r', js, ms)" and m: "boxed r m \<or> m \<in> accepted_by c"
  shows "boxed r' m \<or> m \<in> in_jobs js \<or> m \<in> set ms"
proof (cases c)
  case (CallSend x)
  then show ?thesis
    using run m boxed_enqueue[of r m x] boxed_enqueued[of x r] by (auto simp: router_send_def)
next
  case (CallReceive a limit)
  then show ?thesis using run m boxed_receive[of r m a limit] by (auto split: prod.splits)
next
  case (CallAck a i)
  then show ?thesis using run m boxed_ack[of r m a i] by auto
next
  case (CallReplay a k)
  obtain r1 xs where c: "replay_collect a k r = (r1, xs)" by fastforce
  then show ?thesis
    using run m CallReplay fold_replay_one(1)[of k "unacked_for r a" r "[]" r1 xs m] by (simp add: replay_collect_def)
next
  case (CallRegister a w)
  obtain r1 xs where c: "register_begin a w r = (r1, xs)" by fastforce
  then show ?thesis using run m CallRegister boxed_register[OF c, of m] by auto
next
  case (CallRoute x)
  then show ?thesis
    using run m boxed_enqueue[of r m x] boxed_enqueued[of x r]
    by (auto simp: route_begin_def split: prod.splits option.splits)
next
  case (CallRestore xs)
  then show ?thesis using run m boxed_restore[of r m xs] by auto
qed (use run m in auto)

lemma run_call_replay_ok: "run_call c r = (r', js, ms) \<Longrightarrow> list_all replay_job_ok js"
proof (cases c)
  case (CallReplay a k)
  assume run: "run_call c r = (r', js, ms)"
  obtain r1 xs where c: "replay_collect a k r = (r1, xs)" by fastforce
  then have "set xs \<subseteq> set (unacked_for r a)"
    using fold_replay_one(2)[of k "unacked_for r a" r "[]" r1 xs] by (simp add: replay_collect_def)
  then show ?thesis using run CallReplay c by (auto simp: unacked_for_def)
qed (auto split: prod.splits option.splits)

text \<open>One event, then any sequence of events.\<close>

definition jobs_ok :: "router_system \<Rightarrow> bool" where
  "jobs_ok s \<longleftrightarrow> list_all replay_job_ok (sy_jobs s)"

lemma list_all_replace:
  "list_all P xs \<Longrightarrow> list_all P ys \<Longrightarrow> list_all P (take k xs @ ys @ drop (Suc k) xs)"
  by (auto simp: list_all_iff dest: in_set_takeD in_set_dropD)

lemma in_jobs_nth:
  "k < length js \<Longrightarrow> in_jobs js = in_jobs (take k js) \<union> set (job_messages (js ! k)) \<union> in_jobs (drop (Suc k) js)"
  by (metis Un_assoc id_take_nth_drop in_jobs_simps(2,3))

lemma jobs_ok_event: "jobs_ok s \<Longrightarrow> jobs_ok (system_event e s)"
proof (cases e)
  case (EvCall c)
  assume "jobs_ok s"
  moreover obtain r js ms where "run_call c (sy_router s) = (r, js, ms)" by (metis prod_cases3)
  ultimately show ?thesis using EvCall run_call_replay_ok by (auto simp: jobs_ok_def)
next
  case (EvJob k ok)
  assume s: "jobs_ok s"
  obtain r js ms where run: "run_job ok (sy_jobs s ! k) (sy_router s) = (r, js, ms)" by (metis prod_cases3)
  show ?thesis
  proof (cases "k < length (sy_jobs s)")
    case True
    then have "list_all replay_job_ok js"
      using s run run_job_replay_ok by (auto simp: jobs_ok_def list_all_length)
    then show ?thesis using s EvJob True run list_all_replace by (auto simp: jobs_ok_def)
  qed (use s EvJob in simp)
qed

lemma located_event:
  assumes "jobs_ok s" "located s m \<or> (\<exists>c. e = EvCall c \<and> m \<in> accepted_by c)"
  shows "located (system_event e s) m"
proof (cases e)
  case (EvCall c)
  obtain r js ms where run: "run_call c (sy_router s) = (r, js, ms)" by (metis prod_cases3)
  then show ?thesis
    using assms(2) EvCall run_call_located[OF run, of m] by (auto simp: located_def)
next
  case (EvJob k ok)
  obtain r js ms where run: "run_job ok (sy_jobs s ! k) (sy_router s) = (r, js, ms)" by (metis prod_cases3)
  show ?thesis
  proof (cases "k < length (sy_jobs s)")
    case True
    then have "replay_job_ok (sy_jobs s ! k)" using assms(1) by (simp add: jobs_ok_def list_all_length)
    then show ?thesis
      using assms(2) EvJob True run run_job_located[OF run, of m] in_jobs_nth[OF True]
      by (auto simp: located_def)
  qed (use assms(2) EvJob in simp)
qed

lemma jobs_ok_run: "jobs_ok s \<Longrightarrow> jobs_ok (system_run es s)"
  unfolding system_run_def by (induction es arbitrary: s) (simp_all add: jobs_ok_event)

lemma located_run: "jobs_ok s \<Longrightarrow> located s m \<Longrightarrow> located (system_run es s) m"
  unfolding system_run_def by (induction es arbitrary: s) (simp_all add: jobs_ok_event located_event)

section \<open>Bounded mailboxes\<close>

definition boxes_fit :: "router \<Rightarrow> bool" where
  "boxes_fit r \<longleftrightarrow> ro_mailbox_max r > 0 \<and> (\<forall>a. int (length (mailbox r a)) \<le> ro_mailbox_max r)"

lemma boxes_fit_enqueue:
  assumes "boxes_fit r" shows "boxes_fit (enqueue_locked m r)"
proof -
  let ?a = "ms_to_agent m"
  have r: "int (length (mailbox r ?a)) \<le> ro_mailbox_max r" "ro_mailbox_max r > 0"
    using assms by (simp_all add: boxes_fit_def)
  then have room: "int (length (mailbox (make_room ?a r) ?a)) < ro_mailbox_max r"
    by (cases "mailbox r ?a") (simp_all add: make_room_def)
  have "mailbox (make_room ?a r) b = mailbox r b" if "b \<noteq> ?a" for b
    using that by (simp add: make_room_def split: list.splits)
  with room assms show ?thesis by (auto simp: enqueue_locked_def boxes_fit_def Let_def)
qed

fun pushes_back :: "job \<Rightarrow> bool" where
  "pushes_back (JReplay a ms) = True"
| "pushes_back _ = False"

lemma no_push_send_all [simp]: "list_all (\<lambda>j. \<not> pushes_back j) (send_all a w ms)"
  by (cases ms) simp_all

definition bounded :: "router_system \<Rightarrow> bool" where
  "bounded s \<longleftrightarrow> boxes_fit (sy_router s) \<and> list_all (\<lambda>j. \<not> pushes_back j) (sy_jobs s)"

fun keeps_bound :: "router_event \<Rightarrow> bool" where
  "keeps_bound (EvCall (CallReplay a k)) = False"
| "keeps_bound (EvCall (CallRestore ms)) = False"
| "keeps_bound _ = True"

lemma boxes_fit_unregister [simp]:
  "boxes_fit (router_unregister a w r) = boxes_fit r" "boxes_fit (fst (connected_now a r)) = boxes_fit r"
  by (simp_all add: boxes_fit_def)

lemma boxes_fit_shrink:
  "boxes_fit r \<Longrightarrow> ro_mailbox_max r' = ro_mailbox_max r \<Longrightarrow>
   (\<And>a. length (mailbox r' a) \<le> length (mailbox r a)) \<Longrightarrow> boxes_fit r'"
  unfolding boxes_fit_def by (metis of_nat_le_iff order_trans)

lemma run_job_bounded:
  assumes "run_job ok j r = (r', js, ms)" "\<not> pushes_back j" "boxes_fit r"
  shows "boxes_fit r' \<and> list_all (\<lambda>j. \<not> pushes_back j) js"
proof (cases j)
  case (JRequeue a x w rest)
  then show ?thesis
    using assms boxes_fit_enqueue[of r x]
    by (auto simp: requeue_begin_def split: prod.splits option.splits if_splits)
next
  case (JBox a x w rest)
  then show ?thesis using assms boxes_fit_enqueue[of r x] by auto
qed (use assms in \<open>auto split: if_splits\<close>)

lemma run_call_bounded:
  assumes run: "run_call c r = (r', js, ms)" and ok: "keeps_bound (EvCall c)" and fit: "boxes_fit r"
  shows "boxes_fit r' \<and> list_all (\<lambda>j. \<not> pushes_back j) js"
proof (cases c)
  case (CallSend x)
  then show ?thesis using run boxes_fit_enqueue[OF fit, of x] by (auto simp: router_send_def)
next
  case (CallReceive a limit)
  have "boxes_fit (fst (router_receive a limit r))"
    using fit by (rule boxes_fit_shrink) (simp_all add: router_receive_def Let_def)
  then show ?thesis using run CallReceive by (auto split: prod.splits)
next
  case (CallAck a i)
  have "boxes_fit (fst (router_ack a i r))"
    using fit by (rule boxes_fit_shrink) (simp_all add: router_ack_def mailbox_def on_store_def)
  then show ?thesis using run CallAck by auto
next
  case (CallRegister a w)
  obtain r1 xs where c: "register_begin a w r = (r1, xs)" by fastforce
  have "boxes_fit r1"
    using fit by (rule boxes_fit_shrink) (use c in \<open>auto simp: register_begin_def Let_def router_box_defs\<close>)
  then show ?thesis using run CallRegister c by auto
next
  case (CallRoute x)
  then show ?thesis
    using run fit boxes_fit_enqueue[OF fit, of x] by (auto simp: route_begin_def split: prod.splits option.splits)
qed (use run ok fit in \<open>auto split: option.splits\<close>)

lemma bounded_event:
  assumes "bounded s" "keeps_bound e" shows "bounded (system_event e s)"
proof (cases e)
  case (EvCall c)
  obtain r js ms where run: "run_call c (sy_router s) = (r, js, ms)" by (metis prod_cases3)
  then show ?thesis
    using assms EvCall run_call_bounded[OF run] by (simp add: bounded_def)
next
  case (EvJob k ok)
  obtain r js ms where run: "run_job ok (sy_jobs s ! k) (sy_router s) = (r, js, ms)" by (metis prod_cases3)
  show ?thesis
  proof (cases "k < length (sy_jobs s)")
    case True
    then have "\<not> pushes_back (sy_jobs s ! k)" using assms(1) by (simp add: bounded_def list_all_length)
    then show ?thesis
      using assms(1) EvJob True run run_job_bounded[OF run]
        list_all_replace[of "\<lambda>j. \<not> pushes_back j" "sy_jobs s" js k] by (simp add: bounded_def)
  qed (use assms EvJob in simp)
qed

lemma bounded_run: "bounded s \<Longrightarrow> list_all keeps_bound es \<Longrightarrow> bounded (system_run es s)"
  unfolding system_run_def by (induction es arbitrary: s) (simp_all add: bounded_event)

section \<open>Invariants of the router record\<close>

text \<open>What every call and every coroutine step keeps holds after any sequence of events.\<close>

locale router_invariant =
  fixes I :: "router \<Rightarrow> bool"
  assumes call: "run_call c r = (r', js, ms) \<Longrightarrow> I r \<Longrightarrow> I r'"
    and job: "run_job ok j r = (r', js, ms) \<Longrightarrow> I r \<Longrightarrow> I r'"
begin

lemma event: "I (sy_router s) \<Longrightarrow> I (sy_router (system_event e s))"
  by (cases e) (auto dest: call job split: prod.splits)

lemma run: "I (sy_router s) \<Longrightarrow> I (sy_router (system_run es s))"
  unfolding system_run_def by (induction es arbitrary: s) (simp_all add: event)

end

section \<open>Acknowledgements\<close>

lemma processed_enqueue [simp]: "is_processed (enqueue_locked m r) = is_processed r"
  by (simp add: fun_eq_iff enqueue_locked_def Let_def)

lemma processed_job: "run_job ok j r = (r', js, ms) \<Longrightarrow> is_processed r a i \<Longrightarrow> is_processed r' a i"
  by (cases j) (auto simp: requeue_begin_def replay_push_def split: if_splits prod.splits option.splits list.splits)

lemma processed_call:
  assumes run: "run_call c r = (r', js, ms)" and p: "is_processed r a i"
  shows "is_processed r' a i"
proof (cases c)
  case (CallReplay b k)
  obtain r1 xs where c: "replay_collect b k r = (r1, xs)" by fastforce
  then show ?thesis
    using run p CallReplay fold_replay_one(4)[of k "unacked_for r b" r "[]" r1 xs] by (simp add: replay_collect_def)
next
  case (CallRestore xs)
  have "is_processed (restore_mailbox xs r) = is_processed r" for r
    unfolding restore_mailbox_def by (induction xs arbitrary: r) (simp_all add: fun_eq_iff)
  from this[of r] show ?thesis using run p CallRestore by auto
next
  case (CallReceive b limit)
  then show ?thesis using run p by (auto simp: router_receive_def Let_def split: if_splits)
next
  case (CallAck b j)
  then show ?thesis using run p by (auto simp: router_ack_def router_box_defs)
next
  case (CallRegister b w)
  then show ?thesis using run p by (auto simp: register_begin_def router_box_defs Let_def)
qed (use run p in \<open>auto simp: router_send_def route_begin_def split: prod.splits option.splits\<close>)

interpretation processed: router_invariant "\<lambda>r. is_processed r a i" for a i
  by unfold_locales (auto dest: processed_call processed_job)

lemma receive_unprocessed: "m \<in> set (snd (router_receive a limit r)) \<Longrightarrow> \<not> is_processed r a (ms_message_id m)"
  by (auto simp: router_receive_def Let_def split: if_splits)

section \<open>Replay\<close>

text \<open>The unacknowledged messages are keyed by their identifiers.\<close>

definition unacked_keyed :: "router \<Rightarrow> bool" where
  "unacked_keyed r \<longleftrightarrow> distinct (dict_keys (ro_unacked r)) \<and> (\<forall>(i, m) \<in> set (ro_unacked r). ms_message_id m = i)"

abbreviation retries :: "router \<Rightarrow> Message \<Rightarrow> nat" where
  "retries r m \<equiv> dict_get (ro_retry_count r) (ms_message_id m) 0"

lemma unacked_pop:
  "set (dict_pop i d) = {p \<in> set d. fst p \<noteq> i}"
  by (auto simp: AList.delete_eq)

text \<open>One message of the first block.\<close>

lemma replay_one_effect:
  assumes "replay_one k x (r, acc) = (r1, acc1)"
  shows "retries r1 m = (if ms_message_id m = ms_message_id x then Suc (retries r m) else retries r m)"
    and "set (ro_unacked r1) = {p \<in> set (ro_unacked r). fst p = ms_message_id x \<longrightarrow> Suc (retries r x) \<le> k}"
    and "set (dead_box r1 (ms_to_agent x)) =
           (if Suc (retries r x) > k then {x} else {}) \<union> set (dead_box r (ms_to_agent x))"
    and "unacked_keyed r \<Longrightarrow> unacked_keyed r1"
  using assms
  by (auto simp: replay_one_def Let_def unacked_pop unacked_keyed_def split: if_splits)

text \<open>All of them: every count grows by one, and a message over the limit moves to the dead letters.\<close>

lemma replay_fold:
  assumes "fold (replay_one k) ms (r, acc) = (r', acc')" "distinct (map ms_message_id ms)"
    and "\<forall>m \<in> set ms. ms_to_agent m = a"
  shows "unacked_keyed r \<Longrightarrow> unacked_keyed r'"
    and "m \<in> set ms \<Longrightarrow> retries r' m = Suc (retries r m)"
    and "set (ro_unacked r') = {p \<in> set (ro_unacked r). \<forall>m \<in> set ms. fst p = ms_message_id m \<longrightarrow> Suc (retries r m) \<le> k}"
    and "set (dead_box r' a) = {m \<in> set ms. Suc (retries r m) > k} \<union> set (dead_box r a)"
proof -
  have "(unacked_keyed r \<longrightarrow> unacked_keyed r') \<and>
    (\<forall>m. retries r' m = (if ms_message_id m \<in> ms_message_id ` set ms then Suc (retries r m) else retries r m)) \<and>
    set (ro_unacked r') = {p \<in> set (ro_unacked r). \<forall>m \<in> set ms. fst p = ms_message_id m \<longrightarrow> Suc (retries r m) \<le> k} \<and>
    set (dead_box r' a) = {m \<in> set ms. Suc (retries r m) > k} \<union> set (dead_box r a)"
    using assms
  proof (induction ms arbitrary: r acc)
    case Nil
    then show ?case by simp
  next
    case (Cons x ms)
    obtain r1 acc1 where s: "replay_one k x (r, acc) = (r1, acc1)" by fastforce
    note one = replay_one_effect[OF s]
    have x: "ms_to_agent x = a" "ms_message_id x \<notin> ms_message_id ` set ms" using Cons.prems by auto
    have "fold (replay_one k) ms (r1, acc1) = (r', acc')" using Cons.prems(1) s by simp
    note ih = Cons.IH[OF this]
    have same: "retries r1 m = retries r m" if "m \<in> set ms" for m
      using x(2) that one(1)[of m] by (metis image_eqI)
    have filt: "{m \<in> set ms. Suc (retries r1 m) > k} = {m \<in> set ms. Suc (retries r m) > k}" using same by auto
    have ih: "unacked_keyed r1 \<longrightarrow> unacked_keyed r'"
      "retries r' m = (if ms_message_id m \<in> ms_message_id ` set ms then Suc (retries r1 m) else retries r1 m)"
      "set (ro_unacked r') = {p \<in> set (ro_unacked r1). \<forall>m \<in> set ms. fst p = ms_message_id m \<longrightarrow> Suc (retries r m) \<le> k}"
      "set (dead_box r' a) = {m \<in> set ms. Suc (retries r m) > k} \<union> set (dead_box r1 a)" for m
      using ih Cons.prems(2,3) same filt by auto
    have "retries r' m = (if ms_message_id m \<in> ms_message_id ` set (x # ms) then Suc (retries r m) else retries r m)" for m
      using ih(2)[of m] one(1)[of m] x(2) by auto
    moreover have "set (ro_unacked r') =
        {p \<in> set (ro_unacked r). \<forall>m \<in> set (x # ms). fst p = ms_message_id m \<longrightarrow> Suc (retries r m) \<le> k}"
      using ih(3) one(2) by auto
    moreover have "set (dead_box r' a) = {m \<in> set (x # ms). Suc (retries r m) > k} \<union> set (dead_box r a)"
      using ih(4) one(3) x(1) by auto
    ultimately show ?case using ih(1) one(4) by blast
  qed
  then show "unacked_keyed r \<Longrightarrow> unacked_keyed r'" "m \<in> set ms \<Longrightarrow> retries r' m = Suc (retries r m)"
    "set (ro_unacked r') = {p \<in> set (ro_unacked r). \<forall>m \<in> set ms. fst p = ms_message_id m \<longrightarrow> Suc (retries r m) \<le> k}"
    "set (dead_box r' a) = {m \<in> set ms. Suc (retries r m) > k} \<union> set (dead_box r a)"
    by auto
qed

lemma unacked_for_set: "set (unacked_for r a) = {m. \<exists>i. (i, m) \<in> set (ro_unacked r) \<and> ms_to_agent m = a}"
  by (force simp: unacked_for_def)

lemma unacked_for_distinct:
  assumes "unacked_keyed r" shows "distinct (map ms_message_id (unacked_for r a))"
proof -
  have eq: "map ms_message_id (map snd (ro_unacked r)) = dict_keys (ro_unacked r)"
    using assms by (auto simp: unacked_keyed_def)
  have "distinct (map ms_message_id (map snd (ro_unacked r)))"
    unfolding eq using assms by (simp add: unacked_keyed_def)
  then show ?thesis unfolding unacked_for_def by (rule distinct_map_filter)
qed

lemma replay_push_frame [simp]:
  "ro_unacked (replay_push a m r) = ro_unacked r" "ro_retry_count (replay_push a m r) = ro_retry_count r"
  "dead_box (replay_push a m r) b = dead_box r b"
  by (simp_all add: replay_push_def)

lemma fold_replay_push_frame [simp]:
  "ro_unacked (fold (replay_push a) ms r) = ro_unacked r"
  "ro_retry_count (fold (replay_push a) ms r) = ro_retry_count r"
  "dead_box (fold (replay_push a) ms r) b = dead_box r b"
  by (induction ms arbitrary: r) simp_all

text \<open>One call of \<open>replay_unacked\<close>.\<close>

lemma replay_round:
  assumes "unacked_keyed r" and r': "r' = fst (replay_unacked a k r)"
  shows "unacked_keyed r'"
    and "set (unacked_for r' a) = {m \<in> set (unacked_for r a). Suc (retries r m) \<le> k}"
    and "m \<in> set (unacked_for r a) \<Longrightarrow> retries r' m = Suc (retries r m)"
    and "set (dead_box r' a) = {m \<in> set (unacked_for r a). Suc (retries r m) > k} \<union> set (dead_box r a)"
proof -
  obtain r1 xs where f: "fold (replay_one k) (unacked_for r a) (r, []) = (r1, xs)" by fastforce
  have to_a: "\<forall>m \<in> set (unacked_for r a). ms_to_agent m = a" by (simp add: unacked_for_def)
  note rf = replay_fold[OF f unacked_for_distinct[OF assms(1)] to_a]
  have eq: "r' = fold (replay_push a) xs r1" by (simp add: r' replay_unacked_def replay_collect_def f)
  have key: "(i, m) \<in> set (ro_unacked r) \<Longrightarrow> ms_message_id m = i" for i m
    using assms(1) by (auto simp: unacked_keyed_def)
  show "unacked_keyed r'" using rf(1)[OF assms(1)] by (simp add: eq unacked_keyed_def)
  show "m \<in> set (unacked_for r a) \<Longrightarrow> retries r' m = Suc (retries r m)" using rf(2) by (simp add: eq)
  show "set (dead_box r' a) = {m \<in> set (unacked_for r a). Suc (retries r m) > k} \<union> set (dead_box r a)"
    using rf(4) by (simp add: eq)
  have un: "(i, m) \<in> set (ro_unacked r') \<longleftrightarrow> (i, m) \<in> set (ro_unacked r) \<and>
      (\<forall>m' \<in> set (unacked_for r a). i = ms_message_id m' \<longrightarrow> Suc (retries r m') \<le> k)" for i m
    using rf(3) by (simp add: eq)
  show "set (unacked_for r' a) = {m \<in> set (unacked_for r a). Suc (retries r m) \<le> k}"
  proof (intro set_eqI iffI)
    fix m assume "m \<in> set (unacked_for r' a)"
    then obtain i where i: "(i, m) \<in> set (ro_unacked r')" "ms_to_agent m = a" by (auto simp: unacked_for_set)
    then have "m \<in> set (unacked_for r a)" using un by (auto simp: unacked_for_set)
    moreover have "i = ms_message_id m" using un i(1) key by blast
    ultimately show "m \<in> {m \<in> set (unacked_for r a). Suc (retries r m) \<le> k}" using un i(1) by blast
  next
    fix m assume m: "m \<in> {m \<in> set (unacked_for r a). Suc (retries r m) \<le> k}"
    then obtain i where i: "(i, m) \<in> set (ro_unacked r)" "ms_to_agent m = a" by (auto simp: unacked_for_set)
    have "Suc (retries r m') \<le> k" if "i = ms_message_id m'" for m' using m key[OF i(1)] that by simp
    then have "(i, m) \<in> set (ro_unacked r')" using un i(1) by blast
    then show "m \<in> set (unacked_for r' a)" using i(2) by (auto simp: unacked_for_set)
  qed
qed

text \<open>Several calls in a row with no acknowledgement in between.\<close>

fun replay_rounds :: "nat \<Rightarrow> string \<Rightarrow> nat \<Rightarrow> router \<Rightarrow> router" where
  "replay_rounds 0 a k r = r"
| "replay_rounds (Suc n) a k r = fst (replay_unacked a k (replay_rounds n a k r))"

lemma replay_rounds_effect:
  assumes "unacked_keyed r"
  shows "unacked_keyed (replay_rounds n a k r) \<and>
    (\<forall>m \<in> set (unacked_for (replay_rounds n a k r) a). n \<le> retries (replay_rounds n a k r) m) \<and>
    (\<forall>m \<in> set (unacked_for r a). m \<in> set (unacked_for (replay_rounds n a k r) a) \<or>
       m \<in> set (dead_box (replay_rounds n a k r) a))"
proof (induction n)
  case 0
  show ?case using assms by simp
next
  case (Suc n)
  let ?r = "replay_rounds n a k r"
  note ih = Suc.IH
  have keyed: "unacked_keyed ?r" using ih by blast
  note rr = replay_round[OF keyed refl, where a = a and k = k]
  show ?case using ih rr by auto
qed

lemma replay_rounds_empty:
  assumes "unacked_keyed r" shows "unacked_for (replay_rounds (Suc k) a k r) a = []"
proof -
  let ?r = "replay_rounds k a k r"
  have ih: "unacked_keyed ?r" "\<forall>m \<in> set (unacked_for ?r a). k \<le> retries ?r m"
    using replay_rounds_effect[OF assms, of k a k] by blast+
  have "set (unacked_for (replay_rounds (Suc k) a k r) a) = {}"
    using replay_round(2)[OF ih(1) refl, where a = a and k = k] ih(2) by auto
  then show ?thesis by simp
qed

text \<open>Every reachable router keeps its unacknowledged messages under their identifiers.\<close>

lemma keyed_enqueue: "unacked_keyed r \<Longrightarrow> unacked_keyed (enqueue_locked m r)"
  using set_dict_set[of "ms_message_id m" m "ro_unacked r"]
  by (auto simp: enqueue_locked_def Let_def unacked_keyed_def)

lemma keyed_same: "unacked_keyed r \<Longrightarrow> ro_unacked r' = ro_unacked r \<Longrightarrow> unacked_keyed r'"
  by (simp add: unacked_keyed_def)

lemma unacked_unregister [simp]: "ro_unacked (router_unregister a w r) = ro_unacked r"
  by (simp add: router_unregister_def Let_def)

lemma keyed_job: "run_job ok j r = (r', js, ms) \<Longrightarrow> unacked_keyed r \<Longrightarrow> unacked_keyed r'"
  by (cases j) (auto simp: requeue_begin_def keyed_enqueue split: if_splits prod.splits option.splits list.splits
      elim: keyed_same)

lemma keyed_collect:
  assumes "unacked_keyed r" shows "unacked_keyed (fst (replay_collect a k r))"
proof -
  have "unacked_keyed (fst (fold (replay_one k) ms (r, acc)))" if "unacked_keyed r" for ms r acc
    using that
  proof (induction ms arbitrary: r acc)
    case (Cons x ms)
    obtain r1 acc1 where s: "replay_one k x (r, acc) = (r1, acc1)" by fastforce
    show ?case using Cons.IH[OF replay_one_effect(4)[OF s Cons.prems], of acc1] s by simp
  qed simp
  then show ?thesis using assms by (simp add: replay_collect_def)
qed

lemma keyed_call:
  assumes run: "run_call c r = (r', js, ms)" and k: "unacked_keyed r"
  shows "unacked_keyed r'"
proof (cases c)
  case (CallReplay a n)
  then show ?thesis using run keyed_collect[OF k, of a n] by (auto split: prod.splits)
next
  case (CallAck a i)
  then show ?thesis using run k by (auto simp: router_ack_def unacked_keyed_def unacked_pop)
next
  case (CallRestore xs)
  have "ro_unacked (restore_mailbox xs r) = ro_unacked r" for r
    unfolding restore_mailbox_def by (induction xs arbitrary: r) simp_all
  from this[of r] show ?thesis using run k CallRestore by (auto elim: keyed_same)
next
  case (CallReceive a n)
  then show ?thesis using run k by (auto simp: router_receive_def Let_def elim: keyed_same split: if_splits)
next
  case (CallRegister a w)
  then show ?thesis using run k by (auto simp: register_begin_def Let_def elim: keyed_same)
next
  case (CallRoute m)
  then show ?thesis
    using run k keyed_enqueue by (auto simp: route_begin_def split: prod.splits option.splits)
qed (use run k keyed_enqueue in \<open>auto simp: router_send_def elim: keyed_same\<close>)

interpretation keyed: router_invariant unacked_keyed
  by unfold_locales (auto dest: keyed_call keyed_job)

section \<open>Properties\<close>

text \<open>
  C23: No message the router has accepted disappears. After any interleaving of calls, coroutine
  steps and write failures, a message that was sent, routed or restored is in its mailbox or the
  dead letters of its receiver, in a coroutine that is still delivering it, handed over to the
  agent, or acknowledged by it.
\<close>

theorem router_no_message_lost:
  assumes "m \<in> accepted_by c"
  shows "located (system_run (es @ EvCall c # es') (system_init mx st)) m"
proof -
  let ?s = "system_run es (system_init mx st)"
  have ok: "jobs_ok ?s" by (rule jobs_ok_run) (simp add: jobs_ok_def system_init_def)
  have "located (system_event (EvCall c) ?s) m" using located_event[OF ok] assms by blast
  then have "located (system_run es' (system_event (EvCall c) ?s)) m"
    by (rule located_run[OF jobs_ok_event[OF ok]])
  then show ?thesis by (simp add: system_run_def)
qed

definition demo_message :: "string \<Rightarrow> Message" where
  "demo_message i =
     \<lparr>ms_message_id = i, ms_from_agent = ''p'', ms_to_agent = ''w'', ms_type = ''task'', ms_payload = [],
      ms_trace_id = ''t'', ms_task_id = None, ms_ack_required = True, ms_topic = None, ms_created_at = 0\<rparr>"

text \<open>A message routed to a connection that breaks while a newer one is being registered.\<close>

definition demo_events :: "router_event list" where
  "demo_events = [EvJob 0 False, EvJob 0 True, EvJob 0 True]"

theorem router_no_message_lost_witness:
  "demo_message ''m'' \<in> accepted_by (CallRoute (demo_message ''m'')) \<and>
   located (system_run ([EvCall (CallRegister ''w'' 1)] @ EvCall (CallRoute (demo_message ''m'')) # demo_events)
     (system_init 5 None)) (demo_message ''m'')"
  by (intro conjI router_no_message_lost) simp_all

text \<open>
  C25: Mailboxes are bounded. With a positive limit, no sequence of sends, routes, receives,
  acknowledgements, registrations and failures makes a mailbox longer than the limit.
\<close>

theorem router_mailboxes_bounded:
  assumes "mx > 0" "list_all keeps_bound es"
  shows "int (length (mailbox (sy_router (system_run es (system_init mx st))) a))
    \<le> ro_mailbox_max (sy_router (system_run es (system_init mx st)))"
proof -
  have "bounded (system_init mx st)"
    using assms(1) by (simp add: bounded_def boxes_fit_def system_init_def router_init_def mailbox_def dict_get_def)
  from bounded_run[OF this assms(2)] show ?thesis by (simp add: bounded_def boxes_fit_def)
qed

theorem router_mailboxes_bounded_witness:
  "list_all keeps_bound (map (\<lambda>i. EvCall (CallSend (demo_message i))) [''a'', ''b'', ''c'']) \<and>
   int (length (mailbox (sy_router (system_run (map (\<lambda>i. EvCall (CallSend (demo_message i))) [''a'', ''b'', ''c''])
     (system_init 2 None))) ''w'')) \<le> ro_mailbox_max (sy_router
       (system_run (map (\<lambda>i. EvCall (CallSend (demo_message i))) [''a'', ''b'', ''c'']) (system_init 2 None)))"
  using router_mailboxes_bounded[of 2 "map (\<lambda>i. EvCall (CallSend (demo_message i))) [''a'', ''b'', ''c'']" None "''w''"]
  by simp

text \<open>
  Replaying does not respect the limit, and a message that the agent has acknowledged is sent to it
  again when it reconnects while a replayed copy is in its mailbox.
\<close>

theorem router_replay_overflows_mailbox:
  "(let es = map (\<lambda>i. EvCall (CallSend (demo_message i))) [''a'', ''b''] @
             [EvCall (CallReplay ''w'' 3), EvJob 0 True, EvJob 0 True]
    in length (mailbox (sy_router (system_run es (system_init 2 None))) ''w'')) = 4"
  by code_simp

theorem router_redelivers_acknowledged:
  "(let es = [EvCall (CallSend (demo_message ''a'')), EvCall (CallReceive ''w'' 1), EvCall (CallReplay ''w'' 3),
              EvJob 0 True, EvCall (CallAck ''w'' ''a''), EvCall (CallRegister ''w'' 7), EvJob 0 True]
    in map ms_message_id (sy_delivered (system_run es (system_init 2 None)))) = [''a'', ''a'']"
  by code_simp

text \<open>
  Once an agent has acknowledged a message, no later receive of that agent returns a message
  with this identifier.
\<close>

theorem router_acknowledged_not_received:
  "ms_message_id ` set (snd (router_receive a limit (sy_router
      (system_run (es @ EvCall (CallAck a i) # es') (system_init mx st))))) \<subseteq> - {i}"
proof -
  let ?s = "system_run es (system_init mx st)"
  have "is_processed (sy_router (system_event (EvCall (CallAck a i)) ?s)) a i"
    by (simp add: router_ack_def router_box_defs)
  then have "is_processed (sy_router (system_run es' (system_event (EvCall (CallAck a i)) ?s))) a i"
    by (rule processed.run)
  then have "is_processed (sy_router (system_run (es @ EvCall (CallAck a i) # es') (system_init mx st))) a i"
    by (simp add: system_run_def)
  then show ?thesis using receive_unprocessed by fastforce
qed

text \<open>
  Replay gives up. From any reachable router, \<open>max_retries + 1\<close> replays of an agent without an
  acknowledgement leave it no unacknowledged message, and each of them is among its dead letters.
\<close>

theorem router_replay_gives_up:
  "unacked_for (replay_rounds (Suc k) a k (sy_router (system_run es (system_init mx st)))) a = [] \<and>
   set (unacked_for (sy_router (system_run es (system_init mx st))) a)
     \<subseteq> set (dead_box (replay_rounds (Suc k) a k (sy_router (system_run es (system_init mx st)))) a)"
proof -
  let ?r = "sy_router (system_run es (system_init mx st))"
  have "unacked_keyed ?r"
    by (rule keyed.run) (simp add: unacked_keyed_def system_init_def router_init_def)
  then show ?thesis
    using replay_rounds_empty[of ?r k a] replay_rounds_effect[of ?r "Suc k" a k] by auto
qed

end
