(* ===== verification/Router_Persistence.thy ===== *)
theory Router_Persistence
  imports Router_Properties
begin

text \<open>
  What the message router keeps in the state store: every message that waits in a mailbox has a live
  row there until it is handed over, dead or acknowledged, so a restart finds it again.
\<close>

section \<open>Persistence\<close>

text \<open>
  Messages are told apart by their identifiers: \<open>U\<close> is the set of all messages of a run. The
  messages in \<open>S\<close> have left the router; \<open>safe S r m\<close> says that \<open>m\<close> has left it, is a dead letter, is
  acknowledged, or has a live row in the store.
\<close>

definition live_row :: "router \<Rightarrow> Message \<Rightarrow> bool" where
  "live_row r m \<longleftrightarrow> (case ro_store r of
     None \<Rightarrow> False
   | Some t \<Rightarrow> map_of t (ms_message_id m) = Some \<lparr>gm_mailbox = ms_to_agent m, gm_dead_letter = False, gm_data = m\<rparr>)"

definition safe :: "Message set \<Rightarrow> router \<Rightarrow> Message \<Rightarrow> bool" where
  "safe S r m \<longleftrightarrow> m \<in> S \<or> m \<in> set (dead_box r (ms_to_agent m)) \<or> (\<exists>a. is_processed r a (ms_message_id m)) \<or> live_row r m"

definition all_safe :: "Message set \<Rightarrow> router \<Rightarrow> bool" where
  "all_safe S r \<longleftrightarrow> (\<forall>m. m \<in> set (mailbox r (ms_to_agent m)) \<longrightarrow> safe S r m)"

definition drawn_from :: "Message set \<Rightarrow> router \<Rightarrow> bool" where
  "drawn_from U r \<longleftrightarrow> (\<forall>a m. m \<in> set (mailbox r a) \<longrightarrow> m \<in> U) \<and>
     (\<forall>i m. (i, m) \<in> set (ro_unacked r) \<longrightarrow> m \<in> U) \<and> ro_store r \<noteq> None"

lemma safe_mono: "safe S r m \<Longrightarrow> S \<subseteq> S' \<Longrightarrow> safe S' r m"
  by (auto simp: safe_def)

lemma live_row_save:
  "live_row r m \<Longrightarrow> ms_message_id x \<noteq> ms_message_id m \<Longrightarrow> live_row (on_store (save_mailbox_message x b) r) m"
  by (auto simp: live_row_def save_mailbox_message_def split: option.splits)

lemma live_row_own: "ro_store r \<noteq> None \<Longrightarrow> live_row (on_store (save_mailbox_message m False) r) m"
  by (auto simp: live_row_def save_mailbox_message_def)

lemma map_of_delete_messages:
  "map_of (delete_mailbox_messages is t) i = (if i \<in> set is then None else map_of t i)"
  unfolding delete_mailbox_messages_def by (induction "is" arbitrary: t) auto

lemma live_row_delete:
  "live_row r m \<Longrightarrow> ms_message_id m \<notin> set is \<Longrightarrow> live_row (on_store (delete_mailbox_messages is) r) m"
  by (auto simp: live_row_def map_of_delete_messages split: option.splits)

lemma live_row_cong: "ro_store r' = ro_store r \<Longrightarrow> live_row r' m = live_row r m"
  by (simp add: live_row_def)

lemma safe_dead_letter:
  assumes "safe S r m" "inj_on ms_message_id U" "x \<in> U" "m \<in> U"
  shows "safe S (add_dead_letter x r) m"
proof (cases "x = m")
  case False
  then have "ms_message_id x \<noteq> ms_message_id m" using assms by (auto simp: inj_on_def)
  moreover have "live_row (add_dead_letter x r) m = live_row (on_store (save_mailbox_message x True) r) m"
    by (rule live_row_cong) simp
  ultimately show ?thesis using assms(1) live_row_save[of r m x True] by (auto simp: safe_def)
qed (simp add: safe_def)

lemma drawn_make_room: "drawn_from U r \<Longrightarrow> drawn_from U (make_room a r)"
  by (cases "mailbox r a") (auto simp: drawn_from_def make_room_def, metis list.set_intros(2))

lemma safe_set_mailbox [simp]: "safe S (set_mailbox a ms r) m = safe S r m"
  by (simp add: safe_def live_row_def)

lemma safe_make_room:
  assumes "safe S r m" "inj_on ms_message_id U" "drawn_from U r" "m \<in> U"
  shows "safe S (make_room a r) m"
proof (cases "mailbox r a")
  case (Cons x xs)
  then have "x \<in> U" using assms(3) by (metis list.set_intros(1) drawn_from_def)
  then show ?thesis using assms Cons safe_dead_letter by (auto simp: make_room_def)
qed (use assms in \<open>simp add: make_room_def\<close>)

lemma safe_save:
  assumes "safe S r m" "inj_on ms_message_id U" "x \<in> U" "m \<in> U" "ro_store r \<noteq> None"
  shows "safe S (on_store (save_mailbox_message x False) r) m"
proof (cases "x = m")
  case True
  then show ?thesis using live_row_own[OF assms(5)] by (simp add: safe_def)
next
  case False
  then have "ms_message_id x \<noteq> ms_message_id m" using assms by (auto simp: inj_on_def)
  then show ?thesis using assms(1) live_row_save[of r m x False] by (auto simp: safe_def)
qed

lemma safe_unacked [simp]: "safe S (r\<lparr>ro_unacked := u\<rparr>) m = safe S r m"
  by (simp add: safe_def live_row_def)

lemma safe_enqueue:
  assumes "safe S r m" "inj_on ms_message_id U" "drawn_from U r" "x \<in> U" "m \<in> U"
  shows "safe S (enqueue_locked x r) m"
proof -
  let ?r1 = "make_room (ms_to_agent x) r"
  have "safe S ?r1 m" "ro_store ?r1 \<noteq> None"
    using safe_make_room[OF assms(1,2,3,5)] drawn_make_room[OF assms(3)] by (auto simp: drawn_from_def)
  then show ?thesis
    using assms(1) safe_save[of S "set_mailbox (ms_to_agent x) (mailbox ?r1 (ms_to_agent x) @ [x]) ?r1" m U x] assms
    by (auto simp: enqueue_locked_def Let_def)
qed

lemma safe_enqueued:
  assumes "drawn_from U r" shows "safe S (enqueue_locked x r) x"
proof (cases "is_processed r (ms_to_agent x) (ms_message_id x)")
  case True
  then show ?thesis by (auto simp: enqueue_locked_def safe_def)
next
  case False
  have "ro_store (make_room (ms_to_agent x) r) \<noteq> None" using drawn_make_room[OF assms] by (simp add: drawn_from_def)
  then have "live_row (on_store (save_mailbox_message x False)
      (set_mailbox (ms_to_agent x) (mailbox (make_room (ms_to_agent x) r) (ms_to_agent x) @ [x]) (make_room (ms_to_agent x) r))) x"
    by (intro live_row_own) simp
  then show ?thesis using False by (auto simp: enqueue_locked_def Let_def safe_def live_row_def)
qed

lemma drawn_enqueue:
  assumes "drawn_from U r" "x \<in> U" shows "drawn_from U (enqueue_locked x r)"
proof -
  have "m \<in> U" if "(i, m) \<in> set (dict_set (ms_message_id x) x (ro_unacked r))" for i m
    using set_dict_set[of "ms_message_id x" x "ro_unacked r"] that assms unfolding drawn_from_def by blast
  then show ?thesis
    using drawn_make_room[OF assms(1), of "ms_to_agent x"] assms
    by (auto simp: enqueue_locked_def Let_def drawn_from_def)
qed

lemma mailbox_enqueue: "set (mailbox (enqueue_locked x r) a) \<subseteq> insert x (set (mailbox r a))"
  by (auto simp: enqueue_locked_def Let_def make_room_def split: list.splits if_splits)

lemma all_safe_enqueue:
  assumes "all_safe S r" "inj_on ms_message_id U" "drawn_from U r" "x \<in> U"
  shows "all_safe S (enqueue_locked x r)"
  unfolding all_safe_def
proof (intro allI impI)
  fix m assume "m \<in> set (mailbox (enqueue_locked x r) (ms_to_agent m))"
  then consider "m = x" | "m \<in> set (mailbox r (ms_to_agent m))" using mailbox_enqueue by blast
  then show "safe S (enqueue_locked x r) m"
  proof cases
    case 1
    then show ?thesis using safe_enqueued[OF assms(3)] by simp
  next
    case 2
    then have "m \<in> U" "safe S r m" using assms(1,3) by (auto simp: drawn_from_def all_safe_def)
    then show ?thesis using safe_enqueue assms by blast
  qed
qed

text \<open>Dropping rows of messages that leave the router.\<close>

lemma all_safe_leave:
  assumes "all_safe S r" "inj_on ms_message_id U" "drawn_from U r" "set out \<subseteq> U"
    and "\<And>a. set (mailbox r' a) \<subseteq> set (mailbox r a)" "dead_box r' = dead_box r" "is_processed r' = is_processed r"
    and "ro_store r' = map_option (delete_mailbox_messages (map ms_message_id out)) (ro_store r)"
  shows "all_safe (S \<union> set out) r'"
  unfolding all_safe_def
proof (intro allI impI)
  fix m assume m: "m \<in> set (mailbox r' (ms_to_agent m))"
  then have "m \<in> set (mailbox r (ms_to_agent m))" using assms(5) by blast
  then have m': "m \<in> U" "safe S r m" using assms(1,3) by (auto simp: drawn_from_def all_safe_def)
  have "live_row r' m" if "live_row r m" "m \<notin> set out"
  proof -
    have "ms_message_id m \<notin> set (map ms_message_id out)" using that(2) m'(1) assms(2,4) by (auto simp: inj_on_def)
    then have "live_row (on_store (delete_mailbox_messages (map ms_message_id out)) r) m"
      by (rule live_row_delete[OF that(1)])
    then show ?thesis using assms(8) by (simp add: live_row_def)
  qed
  then show "safe (S \<union> set out) r' m" using m'(2) assms(6,7) by (auto simp: safe_def)
qed

lemma all_safe_mono: "all_safe S r \<Longrightarrow> S \<subseteq> S' \<Longrightarrow> all_safe S' r"
  using safe_mono by (simp add: all_safe_def) blast

text \<open>Collecting the messages to replay: the ones that exceeded their retries become dead letters.\<close>

lemma replay_fold_safe:
  assumes "fold (replay_one k) ms (r, acc) = (r', acc')" "inj_on ms_message_id U" "set ms \<subseteq> U"
    and "drawn_from U r" "all_safe S r"
  shows "all_safe S r' \<and> drawn_from U r'"
  using assms
proof (induction ms arbitrary: r acc)
  case (Cons x ms)
  obtain r1 acc1 where s: "replay_one k x (r, acc) = (r1, acc1)" by fastforce
  have box: "mailbox r1 = mailbox r" using s by (auto simp: replay_one_def Let_def fun_eq_iff split: if_splits)
  have safe1: "safe S r1 m" if "safe S r m" "m \<in> U" for m
  proof (cases "Suc (retries r x) > k")
    case True
    have "safe S (r\<lparr>ro_retry_count := c\<rparr>) m" for c using that(1) by (simp add: safe_def live_row_def)
    then show ?thesis
      using s True that(2) Cons.prems(2,3) safe_dead_letter[of S "r\<lparr>ro_retry_count := _\<rparr>" m U x]
      by (auto simp: replay_one_def Let_def)
  next
    case False
    then show ?thesis using s that(1) by (auto simp: replay_one_def Let_def safe_def live_row_def)
  qed
  have "drawn_from U r1"
    using Cons.prems(4) s by (auto simp: replay_one_def drawn_from_def Let_def unacked_pop split: if_splits)
  moreover have "all_safe S r1"
    using Cons.prems(4,5) safe1 by (auto simp: all_safe_def box drawn_from_def subset_iff)
  ultimately show ?case using Cons.IH[of r1 acc1] Cons.prems s by simp
qed simp

fun not_restore :: "router_event \<Rightarrow> bool" where
  "not_restore (EvCall (CallRestore ms)) = False"
| "not_restore _ = True"

lemma unacked_for_drawn: "drawn_from U r \<Longrightarrow> set (unacked_for r a) \<subseteq> U"
  by (auto simp: unacked_for_set drawn_from_def)

lemma run_call_safe:
  assumes run: "run_call c r = (r', js, ms)" and inj: "inj_on ms_message_id U" and dr: "drawn_from U r"
    and sf: "all_safe S r" and acc: "accepted_by c \<subseteq> U" and nr: "not_restore (EvCall c)"
  shows "all_safe (S \<union> in_jobs js \<union> set ms) r' \<and> drawn_from U r' \<and> in_jobs js \<subseteq> U"
proof (cases c)
  case (CallSend x)
  then show ?thesis
    using run acc all_safe_enqueue[OF sf inj dr] drawn_enqueue[OF dr] by (auto simp: router_send_def)
next
  case (CallReceive a limit)
  obtain r1 out where e: "router_receive a limit r = (r1, out)" by fastforce
  show ?thesis
  proof (cases "limit \<le> 0 \<or> mailbox r a = []")
    case True
    then show ?thesis using run CallReceive sf dr by (auto simp: router_receive_def)
  next
    case False
    have out: "set out \<subseteq> set (mailbox r a)" using e False by (auto simp: router_receive_def Let_def dest: in_set_takeD)
    have "all_safe (S \<union> set out) r1"
      using sf inj dr
    proof (rule all_safe_leave)
      show "set out \<subseteq> U" using out dr by (auto simp: drawn_from_def)
      show "set (mailbox r1 b) \<subseteq> set (mailbox r b)" for b
        using e False by (auto simp: router_receive_def Let_def dest: in_set_dropD split: if_splits)
    qed (use e False in \<open>auto simp: router_receive_def Let_def fun_eq_iff\<close>)
    moreover have "drawn_from U r1"
      using e False dr by (auto simp: router_receive_def Let_def drawn_from_def split: if_splits)
        (metis in_set_dropD)
    ultimately show ?thesis using run CallReceive e by auto
  qed
next
  case (CallAck a i)
  have "drawn_from U (fst (router_ack a i r))"
    using dr by (auto simp: router_ack_def drawn_from_def router_box_defs unacked_pop)
  moreover have "safe S (fst (router_ack a i r)) m" if "safe S r m" for m
  proof (cases "ms_message_id m = i")
    case True
    then have "is_processed (fst (router_ack a i r)) a (ms_message_id m)"
      by (simp add: router_ack_def router_box_defs)
    then show ?thesis by (auto simp: safe_def)
  next
    case False
    then show ?thesis
      using that by (auto simp: safe_def router_ack_def router_box_defs live_row_def map_of_delete_messages split: option.splits)
  qed
  ultimately show ?thesis
    using run CallAck sf by (auto simp: all_safe_def router_ack_def router_box_defs)
next
  case (CallReplay a k)
  obtain r1 xs where e: "replay_collect a k r = (r1, xs)" by fastforce
  then have f: "fold (replay_one k) (unacked_for r a) (r, []) = (r1, xs)" by (simp add: replay_collect_def)
  have "set xs \<subseteq> U" using fold_replay_one(2)[OF f] unacked_for_drawn[OF dr] by auto
  then show ?thesis
    using run CallReplay e replay_fold_safe[OF f inj unacked_for_drawn[OF dr] dr sf] all_safe_mono by auto
next
  case (CallRegister a w)
  obtain r1 out where e: "register_begin a w r = (r1, out)" by fastforce
  have out: "set out \<subseteq> U"
    using e dr unacked_for_drawn[OF dr, of a] by (auto simp: register_begin_def Let_def drawn_from_def)
  have "all_safe (S \<union> set out) r1"
    using sf inj dr out
    by (rule all_safe_leave) (use e in \<open>auto simp: register_begin_def Let_def router_box_defs fun_eq_iff split: if_splits\<close>)
  moreover have "drawn_from U r1"
    using e dr by (auto simp: register_begin_def Let_def drawn_from_def router_box_defs split: if_splits)
  ultimately show ?thesis using run CallRegister e out by auto
next
  case (CallUnregister a w)
  then show ?thesis using run sf dr by (auto simp: all_safe_def safe_def live_row_def drawn_from_def)
next
  case (CallWait a)
  then show ?thesis using run sf dr by (auto simp: all_safe_def safe_def live_row_def drawn_from_def)
next
  case (CallSendEvent a)
  then show ?thesis using run sf dr by (auto split: option.splits)
next
  case (CallRoute x)
  then show ?thesis
    using run acc dr sf all_safe_enqueue[OF sf inj dr] drawn_enqueue[OF dr] all_safe_mono[OF sf]
    by (auto simp: route_begin_def split: prod.splits option.splits)
next
  case (CallRestore xs)
  then show ?thesis using nr by simp
qed

text \<open>A message that a coroutine lets go of is handed over, boxed again, or acknowledged.\<close>

lemma all_safe_let_go:
  assumes "all_safe (insert x S) r" "safe S r x" shows "all_safe S r"
  using assms by (auto simp: all_safe_def safe_def)

lemma run_job_safe:
  assumes run: "run_job ok j r = (r', js, ms)" and inj: "inj_on ms_message_id U" and dr: "drawn_from U r"
    and sf: "all_safe (S \<union> set (job_messages j)) r" and jU: "set (job_messages j) \<subseteq> U"
  shows "all_safe (S \<union> in_jobs js \<union> set ms) r' \<and> drawn_from U r' \<and> in_jobs js \<subseteq> U"
proof -
  have box: "all_safe (S \<union> set rest) (enqueue_locked x r) \<and> drawn_from U (enqueue_locked x r)"
    if "job_messages j = x # rest" for x rest
    using all_safe_let_go[of x "S \<union> set rest" "enqueue_locked x r"] safe_enqueued[OF dr]
      all_safe_enqueue[OF sf inj dr, of x] drawn_enqueue[OF dr, of x] jU that by simp
  have unreg: "all_safe T (router_unregister a w r) = all_safe T r" "drawn_from U (router_unregister a w r) = drawn_from U r"
    for T a w by (simp_all add: all_safe_def safe_def live_row_def drawn_from_def)
  show ?thesis
  proof (cases j)
    case (JReplay a xs)
    show ?thesis
    proof (cases xs)
      case (Cons y ys)
      let ?r = "replay_push a y r"
      have y: "y \<in> U" "set ys \<subseteq> U" using jU JReplay Cons by auto
      have st: "ro_store (set_mailbox a (y # mailbox r a) r) \<noteq> None" using dr by (simp add: drawn_from_def)
      have "safe T ?r y" for T using live_row_own[OF st] by (simp add: safe_def replay_push_def)
      moreover have "safe (S \<union> set xs) ?r m" if "m \<in> set (mailbox r (ms_to_agent m))" for m
        using that sf dr JReplay y(1) st inj safe_save[of "S \<union> set xs" "set_mailbox a (y # mailbox r a) r" m U y]
        by (auto simp: all_safe_def replay_push_def drawn_from_def)
      ultimately have "all_safe (S \<union> set xs) ?r"
        by (auto simp: all_safe_def) (simp add: replay_push_def split: if_splits, blast)
      then have "all_safe (S \<union> set ys) ?r"
        using all_safe_let_go[of y "S \<union> set ys" ?r] \<open>\<And>T. safe T ?r y\<close> Cons by simp
      moreover have "drawn_from U ?r" using dr y(1) by (auto simp: drawn_from_def replay_push_def)
      ultimately show ?thesis using run JReplay Cons y(2) by auto
    qed (use run JReplay sf dr in auto)
  next
    case (JRequeue a x w rest)
    then show ?thesis
      using run sf dr jU box[of x rest]
      by (auto simp: requeue_begin_def split: prod.splits option.splits if_splits)
  next
    case (JBox a x w rest)
    then show ?thesis using run jU box[of x rest] by auto
  qed (use run sf dr jU unreg in \<open>auto split: if_splits simp: insert_commute\<close>)
qed

definition persisted :: "Message set \<Rightarrow> router_system \<Rightarrow> bool" where
  "persisted U s \<longleftrightarrow> drawn_from U (sy_router s) \<and> in_jobs (sy_jobs s) \<subseteq> U \<and>
     all_safe (in_jobs (sy_jobs s) \<union> set (sy_delivered s)) (sy_router s)"

definition accepts_only :: "Message set \<Rightarrow> router_event \<Rightarrow> bool" where
  "accepts_only U e \<longleftrightarrow> not_restore e \<and> (\<forall>c. e = EvCall c \<longrightarrow> accepted_by c \<subseteq> U)"

lemma persisted_event:
  assumes "persisted U s" "inj_on ms_message_id U" "accepts_only U e"
  shows "persisted U (system_event e s)"
proof (cases e)
  case (EvCall c)
  obtain r js ms where run: "run_call c (sy_router s) = (r, js, ms)" by (metis prod_cases3)
  let ?S = "in_jobs (sy_jobs s) \<union> set (sy_delivered s)"
  have "all_safe (?S \<union> in_jobs js \<union> set ms) r \<and> drawn_from U r \<and> in_jobs js \<subseteq> U"
    using run_call_safe[OF run assms(2)] assms(1,3) EvCall by (auto simp: persisted_def accepts_only_def)
  then show ?thesis
    using assms(1) EvCall run by (auto simp: persisted_def ac_simps elim: all_safe_mono)
next
  case (EvJob k ok)
  obtain r js ms where run: "run_job ok (sy_jobs s ! k) (sy_router s) = (r, js, ms)" by (metis prod_cases3)
  show ?thesis
  proof (cases "k < length (sy_jobs s)")
    case True
    let ?rest = "in_jobs (take k (sy_jobs s)) \<union> in_jobs (drop (Suc k) (sy_jobs s))"
    note parts = in_jobs_nth[OF True]
    have "all_safe (?rest \<union> set (sy_delivered s) \<union> set (job_messages (sy_jobs s ! k))) (sy_router s)"
      using assms(1) parts by (auto simp: persisted_def elim: all_safe_mono)
    then have "all_safe (?rest \<union> set (sy_delivered s) \<union> in_jobs js \<union> set ms) r \<and> drawn_from U r \<and> in_jobs js \<subseteq> U"
      using run_job_safe[OF run assms(2)] assms(1) parts by (auto simp: persisted_def)
    then show ?thesis
      using assms(1) EvJob True run parts by (auto simp: persisted_def elim: all_safe_mono)
  qed (use assms(1) EvJob in simp)
qed

lemma persisted_run:
  "persisted U s \<Longrightarrow> inj_on ms_message_id U \<Longrightarrow> list_all (accepts_only U) es \<Longrightarrow> persisted U (system_run es s)"
  unfolding system_run_def by (induction es arbitrary: s) (simp_all add: persisted_event)

text \<open>The start of the daemon: the live rows of the store go back to the mailboxes.\<close>

definition system_boot :: "int \<Rightarrow> mailbox_table \<Rightarrow> router_system" where
  "system_boot mailbox_max t =
     \<lparr>sy_router = restore_mailbox (load_mailbox_messages False t) (router_init mailbox_max (Some t)),
      sy_jobs = [], sy_delivered = []\<rparr>"

definition table_ok :: "Message set \<Rightarrow> mailbox_table \<Rightarrow> bool" where
  "table_ok U t \<longleftrightarrow> distinct (dict_keys t) \<and> (\<forall>(i, row) \<in> set t.
     i = ms_message_id (gm_data row) \<and> gm_mailbox row = ms_to_agent (gm_data row) \<and> gm_data row \<in> U)"

lemma restore_mailbox_frame:
  "mailbox (restore_mailbox ms r) a = mailbox r a @ filter (\<lambda>m. ms_to_agent m = a) ms"
  "ro_store (restore_mailbox ms r) = ro_store r" "ro_unacked (restore_mailbox ms r) = ro_unacked r"
  unfolding restore_mailbox_def by (induction ms arbitrary: r) auto

lemma load_mailbox_set: "set (load_mailbox_messages b t) = {gm_data row |i row. (i, row) \<in> set t \<and> gm_dead_letter row = b}"
  by (force simp: load_mailbox_messages_def)

lemma persisted_boot:
  assumes "table_ok U t" shows "persisted U (system_boot mx t)"
proof -
  have init: "mailbox (router_init mx (Some t)) a = []" "ro_store (router_init mx (Some t)) = Some t"
    "ro_unacked (router_init mx (Some t)) = []" for a
    by (simp_all add: router_init_def mailbox_def dict_get_def)
  have "live_row (restore_mailbox ms (router_init mx (Some t))) m" if m: "m \<in> set (load_mailbox_messages False t)" for m ms
  proof -
    obtain i row where r: "(i, row) \<in> set t" "\<not> gm_dead_letter row" "m = gm_data row"
      using m by (auto simp: load_mailbox_set)
    then have "map_of t (ms_message_id m) = Some row" using assms by (auto simp: table_ok_def)
    moreover have "row = \<lparr>gm_mailbox = ms_to_agent m, gm_dead_letter = False, gm_data = m\<rparr>"
      using r assms by (auto simp: table_ok_def)
    ultimately show ?thesis by (simp add: live_row_def restore_mailbox_frame init)
  qed
  then show ?thesis
    using assms
    by (auto simp: persisted_def system_boot_def drawn_from_def restore_mailbox_frame init all_safe_def safe_def
        load_mailbox_set table_ok_def)
qed

section \<open>Properties\<close>



text \<open>
  The messages under way are the gap: registering an agent deletes the rows of its mailbox before the
  first of them is written.
\<close>

theorem router_register_forgets_before_sending:
  "(let s = system_run [EvCall (CallSend (demo_message ''a'')), EvCall (CallRegister ''w'' 7)] (system_boot 2 [])
    in (sy_delivered s, ro_store (sy_router s))) = ([], Some [])"
  by code_simp

end
