(* ===== verification/Fault_Service.thy ===== *)
theory Fault_Service
  imports Task_Model
begin

text \<open>
  \<open>aruntime/daemon/fault_service.py\<close>: the restart budget and circuit breaker of a worker, and the
  delay between retries. Clock readings are arguments; \<open>stamp\<close> is \<open>datetime.isoformat\<close>.
\<close>

record WorkerFaultState =
  wf_agent_name :: string
  wf_max_restarts :: int
  wf_restart_budget :: int
  wf_restart_count :: int
  wf_circuit_open_until :: "usec option"
  wf_last_heartbeat :: "usec option"
  wf_fault_domain :: string
  wf_fallback_attempts :: "jdict list"

definition new_fault_state :: "string \<Rightarrow> string \<Rightarrow> WorkerFaultState" where
  "new_fault_state agent_name fault_domain =
     \<lparr>wf_agent_name = agent_name, wf_max_restarts = 3, wf_restart_budget = 3, wf_restart_count = 0,
      wf_circuit_open_until = None, wf_last_heartbeat = None, wf_fault_domain = fault_domain,
      wf_fallback_attempts = []\<rparr>"

definition heartbeat :: "usec \<Rightarrow> WorkerFaultState \<Rightarrow> WorkerFaultState" where
  "heartbeat now f = f\<lparr>wf_last_heartbeat := Some now\<rparr>"

definition heartbeat_stale :: "usec \<Rightarrow> rat \<Rightarrow> WorkerFaultState \<Rightarrow> bool" where
  "heartbeat_stale now timeout_s f =
     (case wf_last_heartbeat f of None \<Rightarrow> False | Some t \<Rightarrow> of_int (now - t) / 1000000 > timeout_s)"

definition can_restart :: "usec \<Rightarrow> WorkerFaultState \<Rightarrow> bool" where
  "can_restart now f =
     (if (case wf_circuit_open_until f of Some t \<Rightarrow> now < t | None \<Rightarrow> False) then False
      else wf_restart_count f < wf_max_restarts f \<and> wf_restart_budget f > 0)"

definition record_restart :: "usec \<Rightarrow> WorkerFaultState \<Rightarrow> WorkerFaultState" where
  "record_restart now f =
     (let f1 = f\<lparr>wf_restart_count := wf_restart_count f + 1, wf_restart_budget := wf_restart_budget f - 1\<rparr>
      in if wf_restart_count f1 \<ge> wf_max_restarts f1 \<or> wf_restart_budget f1 \<le> 0
         then f1\<lparr>wf_circuit_open_until := Some (now + 30000000)\<rparr> else f1)"

definition record_fallback ::
    "(usec \<Rightarrow> string) \<Rightarrow> usec \<Rightarrow> string \<Rightarrow> string \<Rightarrow> string \<Rightarrow> string \<Rightarrow> WorkerFaultState \<Rightarrow> WorkerFaultState" where
  "record_fallback stamp now task_id from_agent to_agent attempt_id f =
     f\<lparr>wf_fallback_attempts := wf_fallback_attempts f @
         [[(''task_id'', JStr task_id), (''from_agent'', JStr from_agent), (''to_agent'', JStr to_agent),
           (''attempt_id'', JStr attempt_id), (''created_at'', JStr (stamp now))]]\<rparr>"

definition last_twenty :: "'a list \<Rightarrow> 'a list" where
  "last_twenty xs = drop (length xs - 20) xs"

definition fault_to_dict :: "(usec \<Rightarrow> string) \<Rightarrow> WorkerFaultState \<Rightarrow> jdict" where
  "fault_to_dict stamp f =
     (let opt = (\<lambda>v. case v of Some t \<Rightarrow> JStr (stamp t) | None \<Rightarrow> JNull)
      in [(''agent_name'', JStr (wf_agent_name f)), (''max_restarts'', JInt (wf_max_restarts f)),
          (''restart_budget'', JInt (wf_restart_budget f)), (''restart_count'', JInt (wf_restart_count f)),
          (''circuit_open_until'', opt (wf_circuit_open_until f)), (''last_heartbeat'', opt (wf_last_heartbeat f)),
          (''fault_domain'', JStr (wf_fault_domain f)),
          (''fallback_attempts'', JList (map JObj (last_twenty (wf_fallback_attempts f))))])"

definition retry_backoff_seconds :: "int \<Rightarrow> rat \<Rightarrow> rat \<Rightarrow> rat" where
  "retry_backoff_seconds attempt base cap = min cap (base * 2 ^ nat (max attempt 0))"

section \<open>Histories of a worker\<close>

text \<open>
  What the daemon does to the state of a worker: \<open>FaultSeen\<close> is the end of \<open>_isolate_failed_worker\<close>, which
  restarts the worker when it may.
\<close>

datatype fault_op = Beat usec | FaultSeen usec | FellBack usec string string string

fun fault_apply :: "fault_op \<Rightarrow> WorkerFaultState \<Rightarrow> WorkerFaultState" where
  "fault_apply (Beat now) f = heartbeat now f"
| "fault_apply (FaultSeen now) f = (if can_restart now f then record_restart now f else f)"
| "fault_apply (FellBack now task_id to_agent attempt_id) f =
     record_fallback (\<lambda>_. []) now task_id (wf_agent_name f) to_agent attempt_id f"

definition fault_run :: "fault_op list \<Rightarrow> WorkerFaultState \<Rightarrow> WorkerFaultState" where
  "fault_run ops f = fold fault_apply ops f"

text \<open>The counters move together; the breaker is set exactly when they are used up.\<close>

definition fault_ok :: "WorkerFaultState \<Rightarrow> bool" where
  "fault_ok f \<longleftrightarrow> wf_max_restarts f = 3 \<and> 0 \<le> wf_restart_count f \<and> wf_restart_count f \<le> 3 \<and>
     wf_restart_budget f = 3 - wf_restart_count f \<and>
     (wf_circuit_open_until f \<noteq> None \<longleftrightarrow> wf_restart_count f = 3)"

lemma fault_ok_new: "fault_ok (new_fault_state a d)"
  by (simp add: fault_ok_def new_fault_state_def)

lemma fault_ok_apply: "fault_ok f \<Longrightarrow> fault_ok (fault_apply p f)"
  by (cases p) (auto simp: fault_ok_def heartbeat_def record_fallback_def can_restart_def record_restart_def Let_def)

lemma fault_ok_run: "fault_ok f \<Longrightarrow> fault_ok (fault_run ops f)"
  unfolding fault_run_def by (induction ops arbitrary: f) (simp_all add: fault_ok_apply)

lemma fault_count_mono: "wf_restart_count f \<le> wf_restart_count (fault_apply p f)"
  by (cases p) (auto simp: heartbeat_def record_fallback_def record_restart_def Let_def)

lemma fault_count_mono_run: "wf_restart_count f \<le> wf_restart_count (fault_run ops f)"
  unfolding fault_run_def by (induction ops arbitrary: f) (auto intro: order_trans fault_count_mono)

section \<open>Properties\<close>



end
