(* ===== verification/Trace_Recorder.thy ===== *)
theory Trace_Recorder
  imports Task_Model "HOL-Library.Multiset"
begin

text \<open>
  \<open>aruntime/observability/trace.py\<close>: the traces of tasks, with their spans and events. Clock
  readings are arguments; \<open>stamp\<close> is \<open>datetime.isoformat\<close>.
\<close>

section \<open>Model\<close>

record TraceEvent =
  te_name :: string
  te_timestamp :: usec
  te_detail :: jdict

definition trace_event_to_dict :: "(usec \<Rightarrow> string) \<Rightarrow> TraceEvent \<Rightarrow> jdict" where
  "trace_event_to_dict stamp e =
     [(''name'', JStr (te_name e)), (''timestamp'', JStr (stamp (te_timestamp e))), (''detail'', JObj (te_detail e))]"

record TraceSpan =
  tp_span_id :: string
  tp_name :: string
  tp_agent_name :: string
  tp_started_at :: usec
  tp_ended_at :: "usec option"
  tp_status :: string
  tp_events :: "TraceEvent list"

definition span_finish :: "usec \<Rightarrow> string \<Rightarrow> TraceSpan \<Rightarrow> TraceSpan" where
  "span_finish now status s = s\<lparr>tp_status := status, tp_ended_at := Some now\<rparr>"

definition duration_ms :: "usec \<Rightarrow> TraceSpan \<Rightarrow> rat" where
  "duration_ms now s =
     of_int ((case tp_ended_at s of Some t \<Rightarrow> t | None \<Rightarrow> now) - tp_started_at s) / 1000"

definition span_to_dict :: "(usec \<Rightarrow> string) \<Rightarrow> usec \<Rightarrow> TraceSpan \<Rightarrow> jdict" where
  "span_to_dict stamp now s =
     [(''span_id'', JStr (tp_span_id s)), (''name'', JStr (tp_name s)), (''agent_name'', JStr (tp_agent_name s)),
      (''started_at'', JStr (stamp (tp_started_at s))),
      (''ended_at'', case tp_ended_at s of Some t \<Rightarrow> JStr (stamp t) | None \<Rightarrow> JNull),
      (''duration_ms'', JFloat (duration_ms now s)), (''status'', JStr (tp_status s)),
      (''events'', JList (map (\<lambda>e. JObj (trace_event_to_dict stamp e)) (tp_events s)))]"

record TaskTrace =
  tt_trace_id :: string
  tt_task_id :: string
  tt_spans :: "TraceSpan list"
  tt_events :: "TraceEvent list"
  tt_retry_count :: int

record TraceRecorder =
  tr_traces :: "TaskTrace dict"
  tr_span_seq :: nat

definition recorder_init :: TraceRecorder where
  "recorder_init = \<lparr>tr_traces = [], tr_span_seq = 0\<rparr>"

definition ensure_trace :: "string \<Rightarrow> string \<Rightarrow> TraceRecorder \<Rightarrow> TraceRecorder \<times> TaskTrace" where
  "ensure_trace trace_id task_id r =
     (case map_of (tr_traces r) task_id of
        Some t \<Rightarrow> (r, t)
      | None \<Rightarrow>
          (let t = \<lparr>tt_trace_id = trace_id, tt_task_id = task_id, tt_spans = [], tt_events = [], tt_retry_count = 0\<rparr>
           in (r\<lparr>tr_traces := dict_set task_id t (tr_traces r)\<rparr>, t)))"

definition put_trace :: "string \<Rightarrow> TaskTrace \<Rightarrow> TraceRecorder \<Rightarrow> TraceRecorder" where
  "put_trace task_id t r = r\<lparr>tr_traces := dict_set task_id t (tr_traces r)\<rparr>"

definition trace_event :: "usec \<Rightarrow> string \<Rightarrow> string \<Rightarrow> string \<Rightarrow> jdict \<Rightarrow> TraceRecorder \<Rightarrow> TraceRecorder" where
  "trace_event now trace_id task_id name detail r =
     (let (r1, t) = ensure_trace trace_id task_id r
      in put_trace task_id
           (t\<lparr>tt_events := tt_events t @ [\<lparr>te_name = name, te_timestamp = now, te_detail = detail\<rparr>]\<rparr>) r1)"

definition span_id_of :: "nat \<Rightarrow> string" where
  "span_id_of n = ''span_'' @ nat_str n"

definition start_span :: "usec \<Rightarrow> string \<Rightarrow> string \<Rightarrow> string \<Rightarrow> string \<Rightarrow> TraceRecorder \<Rightarrow> TraceRecorder \<times> string" where
  "start_span now trace_id task_id name agent_name r =
     (let (r1, t) = ensure_trace trace_id task_id r;
          r2 = r1\<lparr>tr_span_seq := Suc (tr_span_seq r1)\<rparr>;
          span_id = span_id_of (tr_span_seq r2)
      in (put_trace task_id
            (t\<lparr>tt_spans := tt_spans t @
               [\<lparr>tp_span_id = span_id, tp_name = name, tp_agent_name = agent_name, tp_started_at = now,
                 tp_ended_at = None, tp_status = ''running'', tp_events = []\<rparr>]\<rparr>) r2, span_id))"

text \<open>\<open>_find_span\<close> followed by a change of the span found: the first one with the identifier.\<close>

fun find_span :: "string \<Rightarrow> TraceSpan list \<Rightarrow> TraceSpan option" where
  "find_span span_id [] = None"
| "find_span span_id (s # ss) = (if tp_span_id s = span_id then Some s else find_span span_id ss)"

fun change_span :: "string \<Rightarrow> (TraceSpan \<Rightarrow> TraceSpan) \<Rightarrow> TraceSpan list \<Rightarrow> TraceSpan list" where
  "change_span span_id f [] = []"
| "change_span span_id f (s # ss) = (if tp_span_id s = span_id then f s # ss else s # change_span span_id f ss)"

definition on_span :: "string \<Rightarrow> string \<Rightarrow> (TraceSpan \<Rightarrow> TraceSpan) \<Rightarrow> TraceRecorder \<Rightarrow> TraceRecorder" where
  "on_span task_id span_id f r =
     (case map_of (tr_traces r) task_id of
        None \<Rightarrow> r
      | Some t \<Rightarrow> put_trace task_id (t\<lparr>tt_spans := change_span span_id f (tt_spans t)\<rparr>) r)"

definition span_event :: "usec \<Rightarrow> string \<Rightarrow> string \<Rightarrow> string \<Rightarrow> jdict \<Rightarrow> TraceRecorder \<Rightarrow> TraceRecorder" where
  "span_event now task_id span_id name detail =
     on_span task_id span_id
       (\<lambda>s. s\<lparr>tp_events := tp_events s @ [\<lparr>te_name = name, te_timestamp = now, te_detail = detail\<rparr>]\<rparr>)"

definition finish_span :: "usec \<Rightarrow> string \<Rightarrow> string \<Rightarrow> string \<Rightarrow> TraceRecorder \<Rightarrow> TraceRecorder" where
  "finish_span now task_id span_id status = on_span task_id span_id (span_finish now status)"

definition increment_retry :: "string \<Rightarrow> TraceRecorder \<Rightarrow> TraceRecorder" where
  "increment_retry task_id r =
     (case map_of (tr_traces r) task_id of
        None \<Rightarrow> r
      | Some t \<Rightarrow> put_trace task_id (t\<lparr>tt_retry_count := tt_retry_count t + 1\<rparr>) r)"

definition event_count :: "string \<Rightarrow> string \<Rightarrow> TraceRecorder \<Rightarrow> nat" where
  "event_count task_id name r =
     (case map_of (tr_traces r) task_id of
        None \<Rightarrow> 0
      | Some t \<Rightarrow> length (filter (\<lambda>e. te_name e = name) (tt_events t)))"

text \<open>
  \<open>int(v)\<close> of a value of a detail: a float is truncated towards zero, a string read by \<open>int_of_str\<close>
  (\<open>int(str)\<close>, which may raise), a container is a \<open>TypeError\<close>.
\<close>

definition truncate :: "rat \<Rightarrow> int" where
  "truncate x = (if x < 0 then - \<lfloor>- x\<rfloor> else \<lfloor>x\<rfloor>)"

fun py_int :: "(string \<Rightarrow> py_error + int) \<Rightarrow> json \<Rightarrow> py_error + int" where
  "py_int int_of_str (JBool b) = Inr (if b then 1 else 0)"
| "py_int int_of_str (JInt i) = Inr i"
| "py_int int_of_str (JFloat x) = Inr (truncate x)"
| "py_int int_of_str (JStr s) = int_of_str s"
| "py_int int_of_str _ = Inl (TypeError ''int() argument must be a string or a number'')"

fun sum_details :: "(string \<Rightarrow> py_error + int) \<Rightarrow> string \<Rightarrow> string \<Rightarrow> TraceEvent list \<Rightarrow> int \<Rightarrow> py_error + int" where
  "sum_details int_of_str name key [] acc = Inr acc"
| "sum_details int_of_str name key (e # es) acc =
     (if te_name e \<noteq> name then sum_details int_of_str name key es acc
      else case py_int int_of_str (json_or [get_json (te_detail e) key] (JInt 0)) of
             Inl x \<Rightarrow> Inl x
           | Inr n \<Rightarrow> sum_details int_of_str name key es (acc + n))"

definition event_detail_sum ::
    "(string \<Rightarrow> py_error + int) \<Rightarrow> string \<Rightarrow> string \<Rightarrow> string \<Rightarrow> TraceRecorder \<Rightarrow> py_error + int" where
  "event_detail_sum int_of_str task_id name key r =
     (case map_of (tr_traces r) task_id of
        None \<Rightarrow> Inr 0
      | Some t \<Rightarrow> sum_details int_of_str name key (tt_events t) 0)"

text \<open>\<open>sorted(spans, key=duration, reverse=True)\<close> is stable: equal durations keep their order.\<close>

definition critical_path :: "usec \<Rightarrow> TaskTrace \<Rightarrow> string list" where
  "critical_path now t = map tp_name (sort_key (\<lambda>s. - duration_ms now s) (tt_spans t))"

definition trace_to_json ::
    "(usec \<Rightarrow> string) \<Rightarrow> usec \<Rightarrow> string \<Rightarrow> rat option \<Rightarrow> int \<Rightarrow> int \<Rightarrow> rat \<Rightarrow> TraceRecorder \<Rightarrow> jdict" where
  "trace_to_json stamp now task_id queue_wait_ms llm_calls token_used context_hit_ratio r =
     (case map_of (tr_traces r) task_id of
        None \<Rightarrow> []
      | Some t \<Rightarrow>
          [(''trace_id'', JStr (tt_trace_id t)), (''task_id'', JStr (tt_task_id t)),
           (''critical_path'', JList (map JStr (critical_path now t))),
           (''queue_wait_ms'', case queue_wait_ms of Some q \<Rightarrow> if q \<noteq> 0 then JFloat q else JInt 0 | None \<Rightarrow> JInt 0),
           (''llm_calls'', JInt llm_calls), (''token_used'', JInt token_used),
           (''context_hit_ratio'', JFloat context_hit_ratio), (''retry_count'', JInt (tt_retry_count t)),
           (''spans'', JList (map (\<lambda>s. JObj (span_to_dict stamp now s)) (tt_spans t))),
           (''events'', JList (map (\<lambda>e. JObj (trace_event_to_dict stamp e)) (tt_events t)))])"

section \<open>Histories of a recorder\<close>

datatype trace_op =
    OpEnsure string string
  | OpEvent usec string string string jdict
  | OpStart usec string string string string
  | OpSpanEvent usec string string string jdict
  | OpFinishSpan usec string string string
  | OpRetry string

fun trace_apply :: "trace_op \<Rightarrow> TraceRecorder \<Rightarrow> TraceRecorder" where
  "trace_apply (OpEnsure tr i) r = fst (ensure_trace tr i r)"
| "trace_apply (OpEvent now tr i n d) r = trace_event now tr i n d r"
| "trace_apply (OpStart now tr i n a) r = fst (start_span now tr i n a r)"
| "trace_apply (OpSpanEvent now i s n d) r = span_event now i s n d r"
| "trace_apply (OpFinishSpan now i s st) r = finish_span now i s st r"
| "trace_apply (OpRetry i) r = increment_retry i r"

definition trace_run :: "trace_op list \<Rightarrow> TraceRecorder" where
  "trace_run ops = fold trace_apply ops recorder_init"

definition spans_of :: "TraceRecorder \<Rightarrow> string \<Rightarrow> TraceSpan list" where
  "spans_of r i = (case map_of (tr_traces r) i of None \<Rightarrow> [] | Some t \<Rightarrow> tt_spans t)"

text \<open>Every span carries a number handed out once, over all tasks.\<close>

definition spans_numbered :: "TraceRecorder \<Rightarrow> bool" where
  "spans_numbered r \<longleftrightarrow>
     (\<forall>i. \<forall>s \<in> set (spans_of r i). \<exists>n. 0 < n \<and> n \<le> tr_span_seq r \<and> tp_span_id s = span_id_of n) \<and>
     (\<forall>i. distinct (map tp_span_id (spans_of r i))) \<and>
     (\<forall>i j. i \<noteq> j \<longrightarrow> tp_span_id ` set (spans_of r i) \<inter> tp_span_id ` set (spans_of r j) = {})"

lemma span_id_of_inject [simp]: "span_id_of m = span_id_of n \<longleftrightarrow> m = n"
  by (simp add: span_id_of_def)

lemma change_span_ids [simp]:
  "(\<And>s. tp_span_id (f s) = tp_span_id s) \<Longrightarrow> map tp_span_id (change_span i f ss) = map tp_span_id ss"
  by (induction ss) auto

lemma spans_of_put [simp]: "spans_of (put_trace i t r) j = (if j = i then tt_spans t else spans_of r j)"
  by (simp add: spans_of_def put_trace_def)

lemma span_seq_put [simp]: "tr_span_seq (put_trace i t r) = tr_span_seq r"
  by (simp add: put_trace_def)

lemma spans_of_seq [simp]: "spans_of (r\<lparr>tr_span_seq := n\<rparr>) j = spans_of r j"
  by (simp add: spans_of_def)

lemma ensure_trace_spans:
  assumes "ensure_trace tr i r = (r1, t)"
  shows "spans_of r1 j = spans_of r j" "tt_spans t = spans_of r i" "tr_span_seq r1 = tr_span_seq r"
  using assms by (auto simp: ensure_trace_def spans_of_def Let_def split: option.splits if_splits)

text \<open>Only the identifiers and the counter matter to the numbering.\<close>

lemma spans_numbered_cong:
  assumes "spans_numbered r" "tr_span_seq r' = tr_span_seq r"
    and "\<And>i. map tp_span_id (spans_of r' i) = map tp_span_id (spans_of r i)"
  shows "spans_numbered r'"
proof -
  have ids: "tp_span_id ` set (spans_of r' i) = tp_span_id ` set (spans_of r i)" for i
    using assms(3)[of i] by (metis set_map)
  have "\<exists>n. 0 < n \<and> n \<le> tr_span_seq r' \<and> tp_span_id s = span_id_of n" if s: "s \<in> set (spans_of r' i)" for i s
  proof -
    have "tp_span_id s \<in> tp_span_id ` set (spans_of r i)" using s ids[of i] by blast
    then obtain s' where s': "s' \<in> set (spans_of r i)" "tp_span_id s' = tp_span_id s" by auto
    then have "\<exists>n. 0 < n \<and> n \<le> tr_span_seq r \<and> tp_span_id s' = span_id_of n"
      using assms(1) unfolding spans_numbered_def by blast
    then show ?thesis using assms(2) s'(2) by simp
  qed
  moreover have "distinct (map tp_span_id (spans_of r' i))" for i
    using assms(1,3) by (simp add: spans_numbered_def)
  moreover have "i \<noteq> j \<Longrightarrow> tp_span_id ` set (spans_of r' i) \<inter> tp_span_id ` set (spans_of r' j) = {}" for i j
    unfolding ids using assms(1) by (simp add: spans_numbered_def)
  ultimately show ?thesis unfolding spans_numbered_def by blast
qed

lemma on_span_ids:
  assumes "\<And>s. tp_span_id (f s) = tp_span_id s"
  shows "map tp_span_id (spans_of (on_span i k f r) j) = map tp_span_id (spans_of r j)"
    and "tr_span_seq (on_span i k f r) = tr_span_seq r"
  using assms by (auto simp: on_span_def spans_of_def put_trace_def split: option.splits if_splits)

lemma disjoint_parts:
  "A \<subseteq> X \<union> P \<Longrightarrow> B \<subseteq> Y \<union> Q \<Longrightarrow> X \<inter> Y = {} \<Longrightarrow> X \<inter> Q = {} \<Longrightarrow> P \<inter> Y = {} \<Longrightarrow> P \<inter> Q = {} \<Longrightarrow> A \<inter> B = {}"
  by blast

lemma spans_numbered_start:
  assumes "spans_numbered r" shows "spans_numbered (fst (start_span now tr i name a r))"
proof -
  obtain r1 t where e: "ensure_trace tr i r = (r1, t)" by fastforce
  note es = ensure_trace_spans[OF e]
  let ?n = "Suc (tr_span_seq r)" and ?r = "fst (start_span now tr i name a r)"
  define s where "s = \<lparr>tp_span_id = span_id_of ?n, tp_name = name, tp_agent_name = a, tp_started_at = now,
      tp_ended_at = None, tp_status = ''running'', tp_events = []\<rparr>"
  have s: "spans_of ?r j = (if j = i then spans_of r i @ [s] else spans_of r j)"
      "tp_span_id s = span_id_of ?n" "tr_span_seq ?r = ?n" for j
    using es by (simp_all add: start_span_def e s_def Let_def)
  have old: "tp_span_id x \<noteq> span_id_of ?n" if "x \<in> set (spans_of r j)" for x j
    using assms that by (fastforce simp: spans_numbered_def)
  have num: "\<exists>n. 0 < n \<and> n \<le> ?n \<and> tp_span_id x = span_id_of n" if "x \<in> set (spans_of r j)" for x j
    using assms that by (force simp: spans_numbered_def)
  have ids: "tp_span_id ` set (spans_of ?r j) \<subseteq> tp_span_id ` set (spans_of r j) \<union> (if j = i then {span_id_of ?n} else {})" for j
    using s by auto
  have "tp_span_id ` set (spans_of ?r j) \<inter> tp_span_id ` set (spans_of ?r k) = {}" if "j \<noteq> k" for j k
  proof -
    have "tp_span_id ` set (spans_of r j) \<inter> tp_span_id ` set (spans_of r k) = {}"
      using assms that by (simp add: spans_numbered_def)
    moreover have "span_id_of ?n \<notin> tp_span_id ` set (spans_of r l)" for l using old by force
    ultimately show ?thesis
      using that by (intro disjoint_parts[OF ids[of j] ids[of k]]) auto
  qed
  moreover have "distinct (map tp_span_id (spans_of ?r j))" for j
  proof -
    have "span_id_of ?n \<notin> tp_span_id ` set (spans_of r i)" using old by force
    moreover have "distinct (map tp_span_id (spans_of r j))" for j using assms by (simp add: spans_numbered_def)
    ultimately show ?thesis by (simp add: s)
  qed
  moreover have "\<exists>n. 0 < n \<and> n \<le> ?n \<and> tp_span_id x = span_id_of n" if "x \<in> set (spans_of ?r j)" for x j
    using that num s by (cases "j = i") auto
  ultimately show ?thesis using s(3) by (simp add: spans_numbered_def)
qed

lemma spans_numbered_apply: "spans_numbered r \<Longrightarrow> spans_numbered (trace_apply p r)"
proof (cases p)
  case (OpEnsure tr i)
  assume n: "spans_numbered r"
  obtain r1 t where "ensure_trace tr i r = (r1, t)" by fastforce
  then show ?thesis using n OpEnsure ensure_trace_spans by (auto elim!: spans_numbered_cong)
next
  case (OpEvent now tr i nm d)
  assume n: "spans_numbered r"
  obtain r1 t where e: "ensure_trace tr i r = (r1, t)" by fastforce
  note es = ensure_trace_spans[OF e]
  show ?thesis
    using n
  proof (rule spans_numbered_cong)
    show "tr_span_seq (trace_apply p r) = tr_span_seq r"
      using OpEvent es by (simp add: trace_event_def e put_trace_def)
    show "map tp_span_id (spans_of (trace_apply p r) j) = map tp_span_id (spans_of r j)" for j
      using OpEvent es by (simp add: trace_event_def e)
  qed
next
  case (OpStart now tr i nm a)
  then show "spans_numbered r \<Longrightarrow> ?thesis" by (simp add: spans_numbered_start)
next
  case (OpSpanEvent now i s nm d)
  then show "spans_numbered r \<Longrightarrow> ?thesis"
    by (simp add: span_event_def) (erule spans_numbered_cong; simp add: on_span_ids)
next
  case (OpFinishSpan now i s st)
  then show "spans_numbered r \<Longrightarrow> ?thesis"
    by (simp add: finish_span_def) (erule spans_numbered_cong; simp add: on_span_ids span_finish_def)
next
  case (OpRetry i)
  assume n: "spans_numbered r"
  show ?thesis
    using n
    by (rule spans_numbered_cong) (auto simp: OpRetry increment_retry_def put_trace_def spans_of_def split: option.splits)
qed

lemma spans_numbered_run: "spans_numbered (trace_run ops)"
proof -
  have "spans_numbered recorder_init" by (simp add: spans_numbered_def recorder_init_def spans_of_def)
  then have "spans_numbered (fold trace_apply ops r)" if "spans_numbered r" for r
    using that by (induction ops arbitrary: r) (simp_all add: spans_numbered_apply)
  then show ?thesis using \<open>spans_numbered recorder_init\<close> by (simp add: trace_run_def)
qed

lemma change_span_unique:
  "distinct (map tp_span_id ss) \<Longrightarrow> change_span k f ss = map (\<lambda>s. if tp_span_id s = k then f s else s) ss"
proof (induction ss)
  case (Cons s ss)
  show ?case
  proof (cases "tp_span_id s = k")
    case True
    then have "map (\<lambda>s. if tp_span_id s = k then f s else s) ss = ss"
      using Cons.prems by (intro map_idI) (auto simp: image_iff)
    with True show ?thesis by simp
  next
    case False
    with Cons show ?thesis by simp
  qed
qed simp

section \<open>Properties\<close>

text \<open>
  Spans are identified without ambiguity. In every recorder each span of every task has its own
  identifier; finishing one therefore ends that span and leaves every other span of every task
  unchanged. The critical path is a rearrangement of the names of the task's spans.
\<close>

theorem trace_spans_unique:
  "distinct (map tp_span_id (spans_of (trace_run ops) i)) \<and>
   spans_of (finish_span now i k st (trace_run ops)) i =
     map (\<lambda>s. if tp_span_id s = k then s\<lparr>tp_status := st, tp_ended_at := Some now\<rparr> else s) (spans_of (trace_run ops) i) \<and>
   (i = j \<or> spans_of (finish_span now i k st (trace_run ops)) j = spans_of (trace_run ops) j \<and>
      tp_span_id ` set (spans_of (trace_run ops) i) \<inter> tp_span_id ` set (spans_of (trace_run ops) j) = {}) \<and>
   mset (critical_path now t) = mset (map tp_name (tt_spans t))"
proof -
  have num: "spans_numbered (trace_run ops)" by (rule spans_numbered_run)
  then have dis: "distinct (map tp_span_id (spans_of (trace_run ops) i))" by (simp add: spans_numbered_def)
  have "spans_of (finish_span now i k st (trace_run ops)) i = change_span k (span_finish now st) (spans_of (trace_run ops) i)"
    by (simp add: finish_span_def on_span_def spans_of_def put_trace_def split: option.splits)
  moreover have "spans_of (finish_span now i k st (trace_run ops)) j = spans_of (trace_run ops) j" if "i \<noteq> j"
    using that by (auto simp: finish_span_def on_span_def spans_of_def put_trace_def split: option.splits)
  moreover have "i = j \<or> tp_span_id ` set (spans_of (trace_run ops) i) \<inter> tp_span_id ` set (spans_of (trace_run ops) j) = {}"
    using num unfolding spans_numbered_def by blast
  moreover have "mset (critical_path now t) = mset (map tp_name (tt_spans t))"
    by (simp add: critical_path_def)
  ultimately show ?thesis
    using dis by (simp only: change_span_unique span_finish_def) blast
qed

end
