(* ===== verification/Workflow_Service.thy ===== *)
theory Workflow_Service
  imports Kernel_Scheduler Planner State_Store Trace_Recorder
begin

text \<open>
  \<open>aruntime/workflow/service.py\<close>: what happens when a task of a workflow succeeds or fails. A planner's
  success materialises its plan into the scheduler, a coder's success integrates the patches of its
  run, a tester's failure creates a repair and a new test run.

  The service holds references to objects of the daemon, so its state contains them: the task
  objects (those of the kernel scheduler, \<open>k_task\<close>, listed in \<open>tasks\<close>), the store and the trace recorder.
  The callbacks are the daemon's: \<open>enqueue_task\<close> is \<open>scheduler.enqueue\<close>, \<open>persist_task\<close> is
  \<open>state_store.save_task\<close>, \<open>record_trace\<close> writes to the recorder and to the store. \<open>git\<close>, the workspace
  manager, \<open>json.loads\<close>, pydantic and the generation of task identifiers are fields of \<open>workflow_env\<close>.
\<close>

section \<open>State\<close>

record workflow =
  wk_kernel :: kernel
  wk_tasks :: "string list"
  wk_store :: store
  wk_traces :: TraceRecorder
  wk_integration_commits :: "string dict"
  wk_integration_workspaces :: "string dict"
  wk_applied_artifacts :: "string list dict"
  wk_repair_rounds :: "nat dict"

record workflow_env =
  we_kernel :: kenv
  we_now :: usec
  we_agents :: "AgentSpec dict"
  we_max_repair_rounds :: nat
  we_cwd :: string
  we_task_id :: "workflow \<Rightarrow> string \<Rightarrow> string"
  we_loads :: "string \<Rightarrow> py_error + json"
  we_plan_model :: "jdict \<Rightarrow> py_error + PlanSpec"
  we_error_text :: "py_error \<Rightarrow> string"
  we_rev_parse :: "string \<Rightarrow> string \<Rightarrow> py_error + string"
  we_create_workspace :: "string \<Rightarrow> string \<Rightarrow> string \<Rightarrow> string \<Rightarrow> py_error + string"
  we_apply :: "string \<Rightarrow> string list \<Rightarrow> ArtifactReference \<Rightarrow> string option"
  we_commit :: "string \<Rightarrow> string list \<Rightarrow> py_error + string option"

definition wk_task :: "workflow \<Rightarrow> string \<Rightarrow> TaskSpec" where
  "wk_task w i = k_task (wk_kernel w) i"

definition set_wk_task :: "string \<Rightarrow> (TaskSpec \<Rightarrow> TaskSpec) \<Rightarrow> workflow \<Rightarrow> workflow" where
  "set_wk_task i f w =
     w\<lparr>wk_kernel := (wk_kernel w)\<lparr>k_task := (k_task (wk_kernel w))(i := f (wk_task w i))\<rparr>\<rparr>"

text \<open>\<open>self.tasks[task_id] = item\<close>: a new key goes to the end of the dict.\<close>

definition note_task :: "string \<Rightarrow> workflow \<Rightarrow> workflow" where
  "note_task i w = w\<lparr>wk_tasks := (if i \<in> set (wk_tasks w) then wk_tasks w else wk_tasks w @ [i])\<rparr>"

section \<open>The daemon's callbacks\<close>

definition enqueue_task :: "workflow_env \<Rightarrow> TaskSpec \<Rightarrow> (workflow, unit) eff" where
  "enqueue_task env t = (\<lambda>w.
     case kernel_enqueue (we_kernel env) t (wk_kernel w) of (k, r) \<Rightarrow> (w\<lparr>wk_kernel := k\<rparr>, r))"

definition persist_task :: "workflow_env \<Rightarrow> string \<Rightarrow> workflow \<Rightarrow> workflow" where
  "persist_task env i w = w\<lparr>wk_store := save_task (we_now env) (wk_task w i) (wk_store w)\<rparr>"

definition record_trace :: "workflow_env \<Rightarrow> string \<Rightarrow> string \<Rightarrow> jdict \<Rightarrow> workflow \<Rightarrow> workflow" where
  "record_trace env i name detail w =
     (let t = wk_task w i
      in w\<lparr>wk_traces := trace_event (we_now env) (ts_trace_id t) i name detail (wk_traces w),
           wk_store := save_trace_event (we_now env) (ts_trace_id t) i name detail (wk_store w)\<rparr>)"

text \<open>\<open>self.tasks[item.task_id] = item; self.enqueue_task(item); self.persist_task(item)\<close>.\<close>

definition submit :: "workflow_env \<Rightarrow> TaskSpec \<Rightarrow> (workflow, unit) eff" where
  "submit env t =
     eff_then (eff_modify (note_task (ts_task_id t)))
       (eff_then (enqueue_task env t) (eff_modify (persist_task env (ts_task_id t))))"

section \<open>Failures\<close>

definition role_of :: "TaskSpec \<Rightarrow> string" where
  "role_of t = str_lower (case ts_task_role t of Some r \<Rightarrow> r | None \<Rightarrow> [])"

fun first_agent :: "(string \<Rightarrow> AgentCapability \<Rightarrow> bool) \<Rightarrow> AgentSpec dict \<Rightarrow> string option" where
  "first_agent P [] = None"
| "first_agent P ((name, agent) # rest) = (if P name (ag_capability agent) then Some name else first_agent P rest)"

definition filled_or :: "string option \<Rightarrow> string option \<Rightarrow> string option" where
  "filled_or a b = (case a of Some s \<Rightarrow> if s \<noteq> [] then a else b | None \<Rightarrow> b)"

definition opt_or :: "string option \<Rightarrow> string \<Rightarrow> string" where
  "opt_or a d = (case a of Some s \<Rightarrow> if s \<noteq> [] then s else d | None \<Rightarrow> d)"

definition workspace_repo :: "workflow_env \<Rightarrow> TaskSpec \<Rightarrow> string" where
  "workspace_repo env t = (case ts_workspace t of Some ws \<Rightarrow> ws_source_repo ws | None \<Rightarrow> we_cwd env)"

definition new_workspace :: "string \<Rightarrow> string \<Rightarrow> bool \<Rightarrow> WorkspaceSpec" where
  "new_workspace source_repo base_ref read_only =
     \<lparr>ws_source_repo = source_repo, ws_base_ref = base_ref, ws_base_commit = None, ws_workspace_id = None,
      ws_workspace_path = None, ws_read_only = read_only, ws_retain_on_failure = True\<rparr>"

text \<open>\<open>self.integration_commits.get(root) or (task.workspace.base_commit if task.workspace else "HEAD") or "HEAD"\<close>.\<close>

definition repair_base :: "workflow \<Rightarrow> string \<Rightarrow> TaskSpec \<Rightarrow> string" where
  "repair_base w root_id t =
     opt_or (filled_or (map_of (wk_integration_commits w) root_id)
       (case ts_workspace t of Some ws \<Rightarrow> ws_base_commit ws | None \<Rightarrow> Some ''HEAD'')) ''HEAD''"

definition failed_output :: "TaskSpec \<Rightarrow> json" where
  "failed_output t =
     (case ts_error t of
        Some e \<Rightarrow> if e \<noteq> [] then JStr e else dict_get (case ts_result t of Some d \<Rightarrow> d | None \<Rightarrow> []) ''output'' (JStr [])
      | None \<Rightarrow> dict_get (case ts_result t of Some d \<Rightarrow> d | None \<Rightarrow> []) ''output'' (JStr []))"

definition repair_task :: "workflow_env \<Rightarrow> workflow \<Rightarrow> string \<Rightarrow> TaskSpec \<Rightarrow> string \<Rightarrow> string \<Rightarrow> TaskSpec" where
  "repair_task env w root_id t repair_agent i =
     model_post_init
       ((raw_task i (Some repair_agent)
           [(''request'', JStr ''Repair failing tests without precomputed patch.''),
            (''failed_tester_task'', JStr (ts_task_id t)), (''failed_output'', failed_output t),
            (''integration_commit'', JStr (dict_get (wk_integration_commits w) root_id []))]
           [] (ts_trace_id t) (we_now env))
        \<lparr>ts_context_id := ts_context_id t,
         ts_parent_task_id := Some (opt_or (ts_parent_task_id t) (ts_task_id t)),
         ts_root_task_id := Some root_id, ts_task_role := Some ''repair'',
         ts_required_backend := Some CODEX_CLI,
         ts_workspace := Some (new_workspace (workspace_repo env t) (repair_base w root_id t) False),
         ts_required_capability := [(''can_code'', JBool True), (''language'', JStr ''python'')],
         ts_failure_policy := \<lparr>fp_mode = FAIL_CLOSED, fp_max_retries = 0, fp_fallback_agent = None, fp_timeout_ms = 120000\<rparr>,
         ts_failure_policy_set := True\<rparr>)"

definition retest_task :: "workflow_env \<Rightarrow> workflow \<Rightarrow> string \<Rightarrow> TaskSpec \<Rightarrow> string \<Rightarrow> string \<Rightarrow> TaskSpec" where
  "retest_task env w root_id t repair_id i =
     model_post_init
       ((raw_task i None (ts_task_input t) [repair_id] (ts_trace_id t) (we_now env))
        \<lparr>ts_context_id := ts_context_id t, ts_parent_task_id := Some repair_id,
         ts_root_task_id := Some root_id, ts_task_role := Some ''tester'',
         ts_required_backend := Some DIRECT_TOOL,
         ts_workspace := Some (new_workspace (workspace_repo env t) (repair_base w root_id t) True),
         ts_required_capability := [(''can_test'', JBool True), (''tool'', JStr ''run_pytest'')]\<rparr>)"

definition repair_agent_of :: "workflow_env \<Rightarrow> string option" where
  "repair_agent_of env =
     first_agent (\<lambda>name c. cap_can_code c \<and> (cap_can_test c \<or> name = ''repair'')) (we_agents env)"

definition create_repair :: "workflow_env \<Rightarrow> string \<Rightarrow> string \<Rightarrow> string \<Rightarrow> (workflow, string list) eff" where
  "create_repair env i root_id repair_agent =
     eff_get (\<lambda>w.
       let t = wk_task w i; round_id = dict_get (wk_repair_rounds w) root_id 0;
           rid = we_task_id env w ''repair''; tid = we_task_id env w ''tester'';
           tester = retest_task env w root_id t rid tid;
           repair = (repair_task env w root_id t repair_agent rid)\<lparr>ts_children := [tid]\<rparr>
       in eff_then (eff_modify (\<lambda>w. w\<lparr>wk_repair_rounds := dict_set root_id (Suc round_id) (wk_repair_rounds w)\<rparr>))
            (eff_then (submit env repair)
              (eff_then (submit env tester)
                (eff_then (eff_modify (record_trace env rid ''workflow.repair.created''
                    [(''failed_tester_task'', JStr i), (''round'', JInt (int (Suc round_id)))]))
                  (eff_return [rid, tid])))))"

definition handle_task_failure :: "workflow_env \<Rightarrow> string \<Rightarrow> (workflow, string list) eff" where
  "handle_task_failure env i =
     eff_get (\<lambda>w.
       let t = wk_task w i; root_id = root_or_self t
       in if role_of t \<noteq> ''tester'' then eff_return []
          else if dict_get (wk_repair_rounds w) root_id 0 \<ge> we_max_repair_rounds env then eff_return []
          else case repair_agent_of env of
                 None \<Rightarrow> eff_return []
               | Some a \<Rightarrow> create_repair env i root_id a)"

section \<open>Plans\<close>

definition select_agent_for_child :: "workflow_env \<Rightarrow> TaskSpec \<Rightarrow> string option" where
  "select_agent_for_child env t =
     (if ts_task_role t = Some ''tester'' then first_agent (\<lambda>n c. cap_can_test c) (we_agents env)
      else if ts_task_role t = Some ''reviewer'' then first_agent (\<lambda>n c. cap_can_review c) (we_agents env)
      else if ts_task_role t \<in> {Some ''coder'', Some ''repair''} then first_agent (\<lambda>n c. cap_can_code c) (we_agents env)
      else None)"

text \<open>The body of the \<open>try\<close>: the payload's plan, the inspection and the summary.\<close>

definition read_planner_output :: "workflow_env \<Rightarrow> TaskSpec \<Rightarrow> py_error + PlanSpec \<times> json \<times> json" where
  "read_planner_output env t =
     (let output = json_or [get_json (case ts_result t of Some d \<Rightarrow> d | None \<Rightarrow> []) ''output''] (JStr [])
      in case output of
           JStr s \<Rightarrow>
             (case we_loads env s of
                Inl e \<Rightarrow> Inl e
              | Inr (JObj payload) \<Rightarrow>
                  (case map_of payload ''plan'' of
                     None \<Rightarrow> Inl (KeyError ''plan'')
                   | Some (JObj p) \<Rightarrow>
                       (case we_plan_model env p of
                          Inl e \<Rightarrow> Inl e
                        | Inr plan \<Rightarrow> Inr (plan, json_or [get_json payload ''inspection''] (JObj []),
                                           dict_get p ''summary'' (JStr [])))
                   | Some v \<Rightarrow> Inl (TypeError ''argument after ** must be a mapping''))
              | Inr v \<Rightarrow> Inl (TypeError ''indices must be integers''))
         | v \<Rightarrow> Inl (TypeError ''the JSON object must be str, bytes or bytearray''))"

definition submit_child :: "workflow_env \<Rightarrow> string \<Rightarrow> TaskSpec \<Rightarrow> (workflow, unit) eff" where
  "submit_child env parent_id child =
     (let c = child\<lparr>ts_agent_name := select_agent_for_child env child\<rparr>; cid = ts_task_id child
      in eff_then (eff_modify (\<lambda>w. set_wk_task parent_id (\<lambda>t. t\<lparr>ts_children := ts_children t @ [cid]\<rparr>)
                                     (note_task cid w)))
           (eff_then (enqueue_task env c)
             (eff_then (eff_modify (persist_task env cid))
               (eff_modify (record_trace env cid ''workflow.task.materialized''
                 [(''parent_task_id'', JStr parent_id),
                  (''role'', case ts_task_role child of Some r \<Rightarrow> JStr r | None \<Rightarrow> JNull)])))))"

definition materialize_planner :: "workflow_env \<Rightarrow> string \<Rightarrow> (workflow, string list) eff" where
  "materialize_planner env i =
     eff_get (\<lambda>w. case read_planner_output env (wk_task w i) of
         Inl e \<Rightarrow>
           eff_then (eff_modify (set_wk_task i (\<lambda>t. t\<lparr>ts_error :=
               Some (''planner output materialization failed: '' @ we_error_text env e)\<rparr>)))
             (eff_return [])
       | Inr (plan, inspection, plan_summary) \<Rightarrow>
           eff_then (eff_modify (set_wk_task i (\<lambda>t. t\<lparr>ts_result := map_option
               (\<lambda>d. dict_set ''plan_summary'' plan_summary (dict_set ''inspection'' inspection d)) (ts_result t)\<rparr>)))
             (eff_get (\<lambda>w. eff_bind (eff_lift (materialize_plan (\<lambda>_. we_now env) (wk_task w i) plan)) (\<lambda>children.
               eff_then (eff_for children (submit_child env i))
                 (eff_then (eff_modify (persist_task env i)) (eff_return (map ts_task_id children)))))))"

section \<open>Integration\<close>

definition code_tasks :: "string \<Rightarrow> workflow \<Rightarrow> TaskSpec list" where
  "code_tasks root_id w =
     filter (\<lambda>t. root_or_self t = root_id \<and> role_of t \<in> {''coder'', ''repair''} \<and> ts_status t = TS_SUCCESS)
       (map (wk_task w) (wk_tasks w))"

definition patches_of :: "TaskSpec \<Rightarrow> ArtifactReference list" where
  "patches_of t = filter (\<lambda>a. ar_artifact_type a = ''patch'') (concat (map at_artifacts (ts_attempts t)))"

definition run_patches :: "string \<Rightarrow> workflow \<Rightarrow> ArtifactReference list" where
  "run_patches root_id w = concat (map patches_of (sort_key ts_task_id (code_tasks root_id w)))"

text \<open>The loop over the patches: the identifiers applied, or the one in conflict with its message.\<close>

fun apply_patches ::
    "workflow_env \<Rightarrow> string \<Rightarrow> string list \<Rightarrow> string list \<Rightarrow> ArtifactReference list \<Rightarrow> string \<times> string + string list" where
  "apply_patches env path old applied [] = Inr applied"
| "apply_patches env path old applied (a # as) =
     (if ar_artifact_id a \<in> set old then apply_patches env path old applied as
      else case we_apply env path applied a of
             Some msg \<Rightarrow> Inl (ar_artifact_id a, msg)
           | None \<Rightarrow> apply_patches env path old (applied @ [ar_artifact_id a]) as)"

definition commit_patches ::
    "workflow_env \<Rightarrow> string \<Rightarrow> string \<Rightarrow> string \<Rightarrow> string list \<Rightarrow> (workflow, unit) eff" where
  "commit_patches env i root_id path applied =
     eff_bind (eff_lift (we_commit env path applied)) (\<lambda>c. case c of
         None \<Rightarrow> eff_return ()
       | Some commit \<Rightarrow>
           eff_modify (\<lambda>w. record_trace env i ''workflow.integration.commit''
              [(''commit'', JStr commit), (''artifacts'', JList (map JStr applied))]
              (w\<lparr>wk_integration_commits := dict_set root_id commit (wk_integration_commits w),
                 wk_integration_workspaces := dict_set root_id path (wk_integration_workspaces w),
                 wk_applied_artifacts := dict_set root_id
                   (remdups (dict_get (wk_applied_artifacts w) root_id [] @ applied)) (wk_applied_artifacts w)\<rparr>)))"

definition integrate_root_patches :: "workflow_env \<Rightarrow> string \<Rightarrow> (workflow, unit) eff" where
  "integrate_root_patches env i =
     eff_get (\<lambda>w.
       let t = wk_task w i; root_id = root_or_self t; artifacts = run_patches root_id w;
           source_repo = workspace_repo env t;
           base_ref = opt_or (filled_or (map_of (wk_integration_commits w) root_id)
             (case ts_workspace t of Some ws \<Rightarrow> ws_base_commit ws | None \<Rightarrow> None)) ''HEAD''
       in if artifacts = [] then eff_return ()
          else eff_bind (eff_lift (we_rev_parse env source_repo base_ref)) (\<lambda>commit.
            eff_bind (eff_lift (we_create_workspace env source_repo root_id
                (root_id @ '':integration:'' @ nat_str (length artifacts)) (str_strip commit))) (\<lambda>path.
              case apply_patches env path (dict_get (wk_applied_artifacts w) root_id []) [] artifacts of
                Inl (a, msg) \<Rightarrow> eff_modify (record_trace env i ''workflow.integration.conflict''
                                  [(''artifact_id'', JStr a), (''error'', JStr msg)])
              | Inr applied \<Rightarrow> if applied = [] then eff_return () else commit_patches env i root_id path applied)))"

definition handle_task_success :: "workflow_env \<Rightarrow> string \<Rightarrow> (workflow, string list) eff" where
  "handle_task_success env i =
     eff_get (\<lambda>w.
       eff_bind (if ts_required_backend (wk_task w i) = Some NATIVE_PLANNER \<and>
                    \<not> get_truthy (ts_task_input (wk_task w i)) ''graph_managed''
                 then materialize_planner env i else eff_return []) (\<lambda>created.
         eff_get (\<lambda>w. if role_of (wk_task w i) \<in> {''coder'', ''repair''}
                      then eff_then (integrate_root_patches env i) (eff_return created)
                      else eff_return created)))"

text \<open>The workspace a task of a run works in.\<close>

definition workspace_for_task :: "workflow_env \<Rightarrow> workflow \<Rightarrow> TaskSpec \<Rightarrow> WorkspaceSpec option" where
  "workspace_for_task env w t =
     (let root_id = root_or_self t
      in case (role_of t \<in> {''tester'', ''reviewer''}, map_of (wk_integration_commits w) root_id) of
           (True, Some c) \<Rightarrow>
             if c \<noteq> []
             then Some ((new_workspace (workspace_repo env t) c True)\<lparr>ws_base_commit := Some c\<rparr>)
             else ts_workspace t
         | _ \<Rightarrow> ts_workspace t)"

end
