(* ===== verification/Kernel_Admission.thy ===== *)
theory Kernel_Admission
  imports Kernel_Invariants
begin

text \<open>
  What \<open>KernelScheduler.enqueue\<close> does with a task the scheduler has not seen: it never raises, and the
  new task's node, queue and dependents are known. The workflow service and the daemon rest on it.
\<close>

section \<open>Submitting a fresh task\<close>

definition dependents_of :: "kernel \<Rightarrow> string \<Rightarrow> string set" where
  "dependents_of k i = (case map_of (k_nodes k) i of Some n \<Rightarrow> tn_dependents n | None \<Rightarrow> {})"

lemma link_dependencies_nodes:
  "map_of (k_nodes (link_dependencies i ds k)) j =
     map_option (\<lambda>n. n\<lparr>tn_dependencies := tn_dependencies n - (if j = i then set ds \<inter> k_completed_tasks k else {}),
                       tn_dependents := tn_dependents n \<union> (if j \<in> set ds then {i} else {})\<rparr>) (map_of (k_nodes k) j) \<and>
   k_task (link_dependencies i ds k) = k_task k \<and> k_ready (link_dependencies i ds k) = k_ready k \<and>
   k_waiting (link_dependencies i ds k) = k_waiting k \<and> k_running (link_dependencies i ds k) = k_running k \<and>
   k_completed_tasks (link_dependencies i ds k) = k_completed_tasks k"
proof (induction ds arbitrary: k)
  case Nil
  show ?case by (simp add: link_dependencies_def option.map_ident)
next
  case (Cons d ds)
  define k' where "k' = (let k1 = k\<lparr>k_nodes := add_dependent d i (k_nodes k)\<rparr>
     in if d \<in> k_completed_tasks k1 then k1\<lparr>k_nodes := discard_dependency i d (k_nodes k1)\<rparr> else k1)"
  have e: "link_dependencies i (d # ds) k = link_dependencies i ds k'"
    by (simp add: link_dependencies_def k'_def)
  show ?case unfolding e
    using Cons.IH[of k']
    by (cases "map_of (k_nodes k) j")
      (auto simp: k'_def Let_def add_dependent_def discard_dependency_def intro!: task_node.equality)
qed

text \<open>What \<open>enqueue\<close> does with a task the scheduler has not seen.\<close>

definition enqueued :: "TaskSpec \<Rightarrow> kernel \<Rightarrow> kernel \<Rightarrow> bool" where
  "enqueued t k k' \<longleftrightarrow>
     (let i = ts_task_id t; ds = set (ts_dependencies t) - k_completed_tasks k
      in known k' i \<and> open_deps k' i = ds \<and> dependents_of k' i = (if i \<in> set (ts_dependencies t) then {i} else {}) \<and>
         same_task t (k_task k' i) \<and> k_completed_tasks k' = k_completed_tasks k \<and> k_running k' = k_running k \<and>
         set (k_ready k') = set (k_ready k) \<union> (if ds = {} then {i} else {}) \<and>
         set (k_waiting k') = set (k_waiting k) \<union> (if ds = {} then {} else {i}) \<and>
         (\<forall>j. j \<noteq> i \<longrightarrow> known k' j = known k j \<and> open_deps k' j = open_deps k j \<and> k_task k' j = k_task k j \<and>
            dependents_of k' j = dependents_of k j \<union> (if known k j \<and> j \<in> set (ts_dependencies t) then {i} else {})))"

lemma enqueue_fresh:
  assumes co: "coherent t" and st: "ts_status t = TS_PENDING" and fresh: "\<not> known k (ts_task_id t)"
  shows "\<exists>k'. kernel_enqueue env t k = (k', Inr ()) \<and> enqueued t k k'"
proof -
  let ?i = "ts_task_id t"
  let ?k1 = "k\<lparr>k_task := (k_task k)(?i := t),
      k_nodes := dict_set ?i \<lparr>tn_dependencies = set (ts_dependencies t), tn_dependents = {}\<rparr> (k_nodes k)\<rparr>"
  let ?k2 = "link_dependencies ?i (ts_dependencies t) ?k1"
  define k3 where "k3 = ?k2\<lparr>k_agent_queues := dict_set (ts_agent_name t)
      (dict_get (k_agent_queues ?k2) (ts_agent_name t) [] @ [?i]) (k_agent_queues ?k2)\<rparr>"
  note l = link_dependencies_nodes[of ?i "ts_dependencies t" ?k1]
  have eq: "kernel_enqueue env t k = place_task env ?i k3"
    by (simp add: kernel_enqueue_def eff_simps Let_def k3_def)
  have own: "known k3 ?i" "open_deps k3 ?i = set (ts_dependencies t) - k_completed_tasks k"
      "dependents_of k3 ?i = (if ?i \<in> set (ts_dependencies t) then {?i} else {})" "k_task k3 ?i = t"
    using l by (auto simp: k3_def known_def open_deps_def dependents_of_def)
  have other: "known k3 j = known k j \<and> open_deps k3 j = open_deps k j \<and> k_task k3 j = k_task k j \<and>
      dependents_of k3 j = dependents_of k j \<union> (if known k j \<and> j \<in> set (ts_dependencies t) then {?i} else {})"
    if "j \<noteq> ?i" for j
    using l[of j] that by (cases "map_of (k_nodes k) j") (auto simp: k3_def known_def open_deps_def dependents_of_def)
  have frame: "k_ready k3 = k_ready k" "k_waiting k3 = k_waiting k" "k_running k3 = k_running k"
      "k_completed_tasks k3 = k_completed_tasks k"
    using l by (simp_all add: k3_def)
  define st' where "st' = (if open_deps k3 ?i = {} then TS_READY else TS_PENDING)"
  define r where "r = (if open_deps k3 ?i = {} then ''dependencies_satisfied'' else ''waiting_dependencies'')"
  have "tcb_may (ts_status t) st'" by (simp add: st st'_def tcb_may_def)
  then obtain t' where t': "transition_to (ke_now env) st' r t = (t', Inr ())" "same_task t t'"
    using transition_to_ok[OF co] by blast
  define k4 where "k4 = k3\<lparr>k_task := (k_task k3)(?i := t')\<rparr>"
  define k' where "k' = (if open_deps k3 ?i = {} then append_ready env ?i k4
      else k4\<lparr>k_waiting := k_waiting k4 @ [?i]\<rparr>)"
  have "place_task env ?i k3 = (k', Inr ())"
    using t'(1) by (cases "open_deps k3 ?i = {}") (simp_all add: place_task_eq own(4) k'_def k4_def st'_def r_def)
  moreover have "k_nodes k' = k_nodes k3" "k_task k' = (k_task k3)(?i := t')" "k_running k' = k_running k3"
      "k_completed_tasks k' = k_completed_tasks k3"
      "set (k_ready k') = set (k_ready k) \<union> (if open_deps k3 ?i = {} then {?i} else {})"
      "set (k_waiting k') = set (k_waiting k) \<union> (if open_deps k3 ?i = {} then {} else {?i})"
    using frame by (simp_all add: k'_def k4_def)
  ultimately have "enqueued t k k'"
    using own other frame t'(2)
    by (simp add: enqueued_def Let_def known_def open_deps_def dependents_of_def)
  then show ?thesis using \<open>place_task env ?i k3 = (k', Inr ())\<close> eq by auto
qed

lemma enqueued_inv:
  assumes "kernel_inv k" "coherent t" "\<not> known k (ts_task_id t)" "kernel_enqueue env t k = (k', r)"
  shows "kernel_inv k'"
  using inv_enqueue[OF assms(1,3,2), of env] assms(4) by simp

end
