(* ===== verification/Workflow_Properties.thy ===== *)
theory Workflow_Properties
  imports Workflow_Service Kernel_Admission Kernel_Properties Planner_Properties Store_Properties
begin

text \<open>
  The workflow service over every history of calls: the number of repairs a run may start is
  bounded, and an accepted plan arrives in the scheduler, the task table and the store as it was
  written. The last section shows which dependents a dependency can wake.
\<close>

section \<open>Repair rounds\<close>

datatype workflow_call = TaskSucceeded string | TaskFailed string

fun call_task :: "workflow_call \<Rightarrow> string" where
  "call_task (TaskSucceeded i) = i"
| "call_task (TaskFailed i) = i"

fun workflow_handle :: "workflow_env \<Rightarrow> workflow_call \<Rightarrow> (workflow, string list) eff" where
  "workflow_handle env (TaskSucceeded i) = handle_task_success env i"
| "workflow_handle env (TaskFailed i) = handle_task_failure env i"

text \<open>The history has, for every call, the root of its task and what the call returned or raised.\<close>

fun workflow_run ::
    "workflow_env \<Rightarrow> workflow_call list \<Rightarrow> workflow \<Rightarrow> workflow \<times> (workflow_call \<times> string \<times> (py_error + string list)) list" where
  "workflow_run env [] w = (w, [])"
| "workflow_run env (c # cs) w =
     (case workflow_handle env c w of (w1, r) \<Rightarrow>
        case workflow_run env cs w1 of (w2, hist) \<Rightarrow>
          (w2, (c, root_or_self (wk_task w (call_task c)), r) # hist))"

fun is_repair :: "string \<Rightarrow> workflow_call \<times> string \<times> (py_error + string list) \<Rightarrow> bool" where
  "is_repair root_id (TaskFailed i, rt, Inr ids) = (rt = root_id \<and> ids \<noteq> [])"
| "is_repair root_id _ = False"

lemma keeps_rounds_submit: "keeps (\<lambda>w. wk_repair_rounds w = R) (submit env t)"
  unfolding submit_def enqueue_task_def
  by (intro triple_intros) (auto simp: keeps_def note_task_def persist_task_def split: prod.splits)

lemma keeps_rounds_trace:
  "wk_repair_rounds (record_trace env i name detail w) = wk_repair_rounds w"
  "wk_repair_rounds (persist_task env i w) = wk_repair_rounds w"
  "wk_repair_rounds (set_wk_task i f w) = wk_repair_rounds w"
  "wk_repair_rounds (note_task i w) = wk_repair_rounds w"
  by (simp_all add: record_trace_def persist_task_def set_wk_task_def note_task_def Let_def)

lemma keeps_rounds_child: "keeps (\<lambda>w. wk_repair_rounds w = R) (submit_child env p c)"
  unfolding submit_child_def Let_def enqueue_task_def
  by (intro triple_intros) (auto simp: keeps_def keeps_rounds_trace split: prod.splits)

lemma keeps_rounds_success: "keeps (\<lambda>w. wk_repair_rounds w = R) (handle_task_success env i)"
proof -
  have m: "keeps (\<lambda>w. wk_repair_rounds w = R) (materialize_planner env i)"
  proof (unfold materialize_planner_def, rule keeps_get', goal_cases)
    case (1 w)
    show ?case
    proof (cases "read_planner_output env (wk_task w i)")
      case (Inl e)
      then show ?thesis by (auto intro!: triple_intros simp: keeps_rounds_trace)
    next
      case (Inr x)
      obtain plan inspection plan_summary where x: "x = (plan, inspection, plan_summary)" by (cases x) auto
      show ?thesis unfolding Inr x sum.case prod.case
        by (intro triple_intros keeps_get' keeps_rounds_child) (simp_all add: keeps_rounds_trace)
    qed
  qed
  have "keeps (\<lambda>w. wk_repair_rounds w = R) (commit_patches env i root_id path applied)" for root_id path applied
    unfolding commit_patches_def
    by (intro triple_intros) (auto intro!: triple_intros simp: keeps_rounds_trace split: option.splits)
  then have n: "keeps (\<lambda>w. wk_repair_rounds w = R) (integrate_root_patches env i)"
    unfolding integrate_root_patches_def Let_def
    by (intro keeps_get') (auto intro!: triple_intros simp: keeps_rounds_trace split: sum.splits prod.splits)
  show ?thesis
    unfolding handle_task_success_def
    by (intro keeps_get') (auto intro!: triple_intros keeps_get' m n)
qed

lemma rounds_create_repair:
  "wk_repair_rounds (fst (create_repair env i root_id a w)) =
     dict_set root_id (Suc (dict_get (wk_repair_rounds w) root_id 0)) (wk_repair_rounds w)"
proof -
  let ?R = "dict_set root_id (Suc (dict_get (wk_repair_rounds w) root_id 0)) (wk_repair_rounds w)"
  have "keeps (\<lambda>w. wk_repair_rounds w = ?R) (eff_then (submit env r) (eff_then (submit env t)
      (eff_then (eff_modify (record_trace env j n d)) (eff_return ids))))" for r t j n d ids
    by (intro triple_intros keeps_rounds_submit) (simp add: keeps_rounds_trace)
  note keepsD[OF this, of "w\<lparr>wk_repair_rounds := ?R\<rparr>"]
  then show ?thesis
    by (simp add: create_repair_def eff_get_def Let_def eff_then_modify)
qed

text \<open>One call: the rounds left of a run go down by one with every repair, and never below zero.\<close>

lemma rounds_step:
  assumes "workflow_handle env c w = (w1, r)"
  shows "(if is_repair root_id (c, root_or_self (wk_task w (call_task c)), r) then 1 else 0) +
      (we_max_repair_rounds env - dict_get (wk_repair_rounds w1) root_id 0)
    \<le> we_max_repair_rounds env - dict_get (wk_repair_rounds w) root_id 0"
proof (cases c)
  case (TaskSucceeded i)
  then show ?thesis using keepsD[OF keeps_rounds_success, of w "wk_repair_rounds w" env i] assms by simp
next
  case (TaskFailed i)
  let ?t = "wk_task w i" and ?rt = "root_or_self (wk_task w i)"
  show ?thesis
  proof (cases "role_of ?t = ''tester'' \<and> dict_get (wk_repair_rounds w) ?rt 0 < we_max_repair_rounds env \<and>
      repair_agent_of env \<noteq> None")
    case True
    then obtain a where "repair_agent_of env = Some a" by blast
    with True assms TaskFailed have "create_repair env i ?rt a w = (w1, r)"
      by (simp add: handle_task_failure_def eff_get_def Let_def)
    then have "wk_repair_rounds w1 = dict_set ?rt (Suc (dict_get (wk_repair_rounds w) ?rt 0)) (wk_repair_rounds w)"
      using rounds_create_repair[of env i ?rt a w] by simp
    then have "dict_get (wk_repair_rounds w1) root_id 0 =
        (if root_id = ?rt then Suc (dict_get (wk_repair_rounds w) ?rt 0) else dict_get (wk_repair_rounds w) root_id 0)"
      by (simp add: dict_get_def)
    then show ?thesis using True TaskFailed by (cases r) auto
  next
    case False
    then have "w1 = w \<and> r = Inr []"
      using assms TaskFailed
      by (auto simp: handle_task_failure_def eff_get_def eff_return_def Let_def split: if_splits option.splits)
    then show ?thesis using TaskFailed by simp
  qed
qed

text \<open>
  C22: Repairs end. Whatever tasks succeed and fail, in whatever order, the number of repairs the
  service starts for one run is at most what is left of \<open>max_repair_rounds\<close>, so a run whose tests
  keep failing is repaired at most \<open>max_repair_rounds\<close> times. A call that raises counts as a round.
\<close>

theorem workflow_repairs_bounded:
  "length (filter (is_repair root_id) (snd (workflow_run env calls w)))
     \<le> we_max_repair_rounds env - dict_get (wk_repair_rounds w) root_id 0"
proof (induction calls arbitrary: w)
  case Nil
  show ?case by simp
next
  case (Cons c cs)
  obtain w1 r where h: "workflow_handle env c w = (w1, r)" by fastforce
  obtain w2 hist where l: "workflow_run env cs w1 = (w2, hist)" by fastforce
  show ?case using Cons[of w1] rounds_step[OF h, of root_id] l h by (simp split: if_splits)
qed

section \<open>Plans in the scheduler\<close>

lemma inv_set_wk_task:
  assumes "kernel_inv (wk_kernel w)" "known (wk_kernel w) i"
    and "\<And>t. coherent (f t) = coherent t" "\<And>t. ts_task_id (f t) = ts_task_id t" "\<And>t. ts_status (f t) = ts_status t"
  shows "kernel_inv (wk_kernel (set_wk_task i f w))"
  using inv_same_status[OF assms(1), of i "f (wk_task w i)"] inv_knownD[OF assms(1)] assms
  by (simp add: set_wk_task_def wk_task_def)

text \<open>One child: the parent lists it, the scheduler has it, the table names it and the store has its row.\<close>

definition child_placed :: "string \<Rightarrow> TaskSpec \<Rightarrow> workflow \<Rightarrow> workflow \<Rightarrow> bool" where
  "child_placed p c w w' \<longleftrightarrow>
     (\<exists>a. enqueued (c\<lparr>ts_agent_name := a\<rparr>)
        (wk_kernel (set_wk_task p (\<lambda>t. t\<lparr>ts_children := ts_children t @ [ts_task_id c]\<rparr>) w)) (wk_kernel w')) \<and>
     kernel_inv (wk_kernel w') \<and> set (wk_tasks w') = insert (ts_task_id c) (set (wk_tasks w)) \<and>
     (\<exists>now. st_tasks (wk_store w') =
        put_last (ts_task_id c) (row_of_task now (wk_task w' (ts_task_id c))) (st_tasks (wk_store w)))"

lemma child_ready_fields:
  "coherent (c\<lparr>ts_agent_name := a\<rparr>) = coherent c" "coherent (c\<lparr>ts_children := b\<rparr>) = coherent c"
  "coherent (c\<lparr>ts_result := r\<rparr>) = coherent c"
  by (simp_all add: coherent_def)

lemma submit_child_placed:
  assumes inv: "kernel_inv (wk_kernel w)" and p: "known (wk_kernel w) p"
    and c: "coherent c" "ts_status c = TS_PENDING" "\<not> known (wk_kernel w) (ts_task_id c)"
  shows "\<exists>w'. submit_child env p c w = (w', Inr ()) \<and> child_placed p c w w'"
proof -
  let ?i = "ts_task_id c" and ?c = "c\<lparr>ts_agent_name := select_agent_for_child env c\<rparr>"
  define w1 where "w1 = set_wk_task p (\<lambda>t. t\<lparr>ts_children := ts_children t @ [?i]\<rparr>) (note_task ?i w)"
  have k1: "wk_kernel w1 = wk_kernel (set_wk_task p (\<lambda>t. t\<lparr>ts_children := ts_children t @ [?i]\<rparr>) w)"
    by (simp add: w1_def set_wk_task_def note_task_def wk_task_def)
  have inv1: "kernel_inv (wk_kernel w1)"
    unfolding k1 by (rule inv_set_wk_task[OF inv p]) (simp_all add: child_ready_fields)
  have fresh: "\<not> known (wk_kernel w1) ?i" using c(3) by (simp add: k1 set_wk_task_def)
  obtain k' where k': "kernel_enqueue (we_kernel env) ?c (wk_kernel w1) = (k', Inr ())" "enqueued ?c (wk_kernel w1) k'"
    using enqueue_fresh[of ?c "wk_kernel w1" "we_kernel env"] c fresh by (auto simp: child_ready_fields)
  have inv': "kernel_inv k'" using enqueued_inv[OF inv1 _ _ k'(1)] c fresh by (simp add: child_ready_fields)
  have id: "ts_task_id (k_task k' ?i) = ?i" using inv_knownD[OF inv'] k'(2) by (simp add: enqueued_def Let_def)
  define w' where "w' = record_trace env ?i ''workflow.task.materialized''
      [(''parent_task_id'', JStr p), (''role'', case ts_task_role c of Some r \<Rightarrow> JStr r | None \<Rightarrow> JNull)]
      (persist_task env ?i (w1\<lparr>wk_kernel := k'\<rparr>))"
  have "submit_child env p c w = (w', Inr ())"
    by (simp add: submit_child_def Let_def eff_then_modify enqueue_task_def eff_then_def eff_bind_def
        eff_modify_def k'(1) w'_def flip: w1_def)
  moreover have "child_placed p c w w'"
    unfolding child_placed_def
  proof (intro conjI exI)
    show "enqueued ?c (wk_kernel (set_wk_task p (\<lambda>t. t\<lparr>ts_children := ts_children t @ [?i]\<rparr>) w)) (wk_kernel w')"
      using k'(2) by (simp add: w'_def record_trace_def persist_task_def Let_def k1)
    show "kernel_inv (wk_kernel w')" using inv' by (simp add: w'_def record_trace_def persist_task_def Let_def)
    show "set (wk_tasks w') = insert ?i (set (wk_tasks w))"
      by (auto simp: w'_def record_trace_def persist_task_def Let_def w1_def set_wk_task_def note_task_def)
    show "st_tasks (wk_store w') = put_last ?i (row_of_task (we_now env) (wk_task w' ?i)) (st_tasks (wk_store w))"
      by (simp add: w'_def record_trace_def persist_task_def Let_def w1_def set_wk_task_def note_task_def
          save_trace_event_def wk_task_def id)
  qed
  ultimately show ?thesis by blast
qed

text \<open>
  The loop. Every child has its open dependencies, sits in the queue they ask for, and knows as its
  dependents the children submitted after it: an earlier child finds no node to register with.
\<close>

fun placed :: "TaskSpec list \<Rightarrow> workflow \<Rightarrow> bool" where
  "placed [] w = True"
| "placed (c # cs) w =
     (let i = ts_task_id c; k = wk_kernel w
      in known k i \<and> open_deps k i = set (ts_dependencies c) - k_completed_tasks k \<and>
         dependents_of k i = ts_task_id ` {c' \<in> set cs. i \<in> set (ts_dependencies c')} \<and>
         (if open_deps k i = {} then i \<in> set (k_ready k) else i \<in> set (k_waiting k)) \<and>
         i \<in> set (wk_tasks w) \<and> map_option gt_data (map_of (st_tasks (wk_store w)) i) = Some (wk_task w i) \<and>
         placed cs w)"

definition children_frame :: "string \<Rightarrow> TaskSpec list \<Rightarrow> workflow \<Rightarrow> workflow \<Rightarrow> bool" where
  "children_frame p cs w w' \<longleftrightarrow>
     (\<forall>j. j \<notin> ts_task_id ` set cs \<longrightarrow>
        known (wk_kernel w') j = known (wk_kernel w) j \<and> open_deps (wk_kernel w') j = open_deps (wk_kernel w) j \<and>
        (j \<noteq> p \<longrightarrow> wk_task w' j = wk_task w j) \<and>
        (known (wk_kernel w) j \<longrightarrow> dependents_of (wk_kernel w') j =
           dependents_of (wk_kernel w) j \<union> ts_task_id ` {c \<in> set cs. j \<in> set (ts_dependencies c)}) \<and>
        map_of (st_tasks (wk_store w')) j = map_of (st_tasks (wk_store w)) j) \<and>
     k_completed_tasks (wk_kernel w') = k_completed_tasks (wk_kernel w) \<and>
     set (k_ready (wk_kernel w)) \<subseteq> set (k_ready (wk_kernel w')) \<and>
     set (k_waiting (wk_kernel w)) \<subseteq> set (k_waiting (wk_kernel w')) \<and>
     set (wk_tasks w) \<subseteq> set (wk_tasks w') \<and>
     ts_children (wk_task w' p) = ts_children (wk_task w p) @ map ts_task_id cs"

lemma child_placed_frame:
  assumes "child_placed p c w w'" "known (wk_kernel w) p" "\<not> known (wk_kernel w) (ts_task_id c)"
    "ts_task_id c \<notin> set (ts_dependencies c)"
  shows "children_frame p [c] w w'" "placed [c] w'"
proof -
  have "ts_task_id c \<noteq> p" using assms(2,3) by auto
  then show "children_frame p [c] w w'"
    using assms
    by (auto simp: children_frame_def child_placed_def enqueued_def Let_def set_wk_task_def wk_task_def
        known_def open_deps_def dependents_of_def)
  show "placed [c] w'"
    using assms by (auto simp: child_placed_def enqueued_def Let_def set_wk_task_def)
qed

lemma children_frame_trans:
  assumes f: "children_frame p [c] w w1" and g: "children_frame p cs w1 w'"
    and d: "ts_task_id c \<notin> ts_task_id ` set cs" and n: "\<not> known (wk_kernel w) (ts_task_id c)"
  shows "children_frame p (c # cs) w w'"
proof -
  have "dependents_of (wk_kernel w') j =
      dependents_of (wk_kernel w) j \<union> ts_task_id ` {x \<in> set (c # cs). j \<in> set (ts_dependencies x)}"
    if "j \<notin> ts_task_id ` set (c # cs)" "known (wk_kernel w) j" for j
    using f g that by (auto simp: children_frame_def)
  with f g show ?thesis by (auto simp: children_frame_def)
qed

lemma placed_mono:
  assumes "placed [c] w1" "children_frame p cs w1 w'" "placed cs w'" "ts_task_id c \<notin> ts_task_id ` set cs" "ts_task_id c \<noteq> p"
  shows "placed (c # cs) w'"
  using assms by (auto simp: children_frame_def Let_def split: if_splits)

lemma submit_children_placed:
  assumes "kernel_inv (wk_kernel w)" "known (wk_kernel w) p" "distinct (map ts_task_id cs)"
    and "\<forall>c \<in> set cs. coherent c \<and> ts_status c = TS_PENDING \<and> \<not> known (wk_kernel w) (ts_task_id c) \<and>
      ts_task_id c \<notin> set (ts_dependencies c)"
  shows "\<exists>w'. eff_for cs (submit_child env p) w = (w', Inr ()) \<and> kernel_inv (wk_kernel w') \<and>
    children_frame p cs w w' \<and> placed cs w'"
  using assms
proof (induction cs arbitrary: w)
  case Nil
  then show ?case by (simp add: eff_return_def children_frame_def)
next
  case (Cons c cs)
  have c: "coherent c" "ts_status c = TS_PENDING" "\<not> known (wk_kernel w) (ts_task_id c)"
      "ts_task_id c \<notin> set (ts_dependencies c)" using Cons.prems(4) by auto
  obtain w1 where w1: "submit_child env p c w = (w1, Inr ())" "child_placed p c w w1"
    using submit_child_placed[OF Cons.prems(1,2) c(1-3)] by blast
  note f = child_placed_frame[OF w1(2) Cons.prems(2) c(3,4)]
  have p: "ts_task_id c \<noteq> p" using c(3) Cons.prems(2) by auto
  have d: "ts_task_id c \<notin> ts_task_id ` set cs" using Cons.prems(3) by simp
  have "kernel_inv (wk_kernel w1)" using w1(2) by (simp add: child_placed_def)
  moreover have "known (wk_kernel w1) p" using f(1) Cons.prems(2) p by (simp add: children_frame_def)
  moreover have "\<not> known (wk_kernel w1) (ts_task_id x)" if "x \<in> set cs" for x
  proof -
    have "ts_task_id x \<in> ts_task_id ` set cs" using that by (rule imageI)
    then have "ts_task_id x \<notin> ts_task_id ` set [c]" using d by (metis image_empty image_insert list.set(1,2) singletonD)
    moreover have "\<not> known (wk_kernel w) (ts_task_id x)" using that Cons.prems(4) by simp
    ultimately show ?thesis using f(1) unfolding children_frame_def by blast
  qed
  ultimately obtain w' where w': "eff_for cs (submit_child env p) w1 = (w', Inr ())" "kernel_inv (wk_kernel w')"
      "children_frame p cs w1 w'" "placed cs w'"
    using Cons.IH[of w1] Cons.prems(3,4) by auto
  have "eff_for (c # cs) (submit_child env p) w = (w', Inr ())"
    by (simp add: eff_then_def eff_bind_def w1(1) w'(1))
  then show ?case
    using w' children_frame_trans[OF f(1) w'(3) d c(3)] placed_mono[OF f(2) w'(3,4) d p] by blast
qed

lemma placed_split: "placed (as @ c # bs) w \<Longrightarrow> placed (c # bs) w"
  by (induction as) (simp_all add: Let_def)

lemma map_zip_snd: "length ns = length xs \<Longrightarrow> map (\<lambda>(n, x). f x) (zip ns xs) = map f xs"
  by (induction ns xs rule: list_induct2) simp_all

lemma materialize_const:
  "validate_plan plan = Inr () \<Longrightarrow>
   materialize_plan (\<lambda>_. now) parent plan = Inr (map (materialize_item now parent) (ps_tasks plan))"
  by (simp add: materialize_plan_def map_zip_snd)

lemma materialized_children:
  assumes "validate_plan plan = Inr ()"
  shows "distinct (map ts_task_id (map (materialize_item now parent) (ps_tasks plan)))"
    and "\<forall>c \<in> set (map (materialize_item now parent) (ps_tasks plan)).
      coherent c \<and> ts_status c = TS_PENDING \<and> ts_task_id c \<notin> set (ts_dependencies c)"
proof -
  have wf: "plan_wf plan" using assms by (simp add: validate_plan_iff)
  then have "distinct (map pt_local_id (ps_tasks plan))" by (simp add: plan_wf_def)
  then show "distinct (map ts_task_id (map (materialize_item now parent) (ps_tasks plan)))"
    by (simp add: distinct_map inj_on_def materialize_item_fields)
  have "pt_local_id q \<notin> set (pt_dependencies q)" if "q \<in> set (ps_tasks plan)" for q
  proof
    assume "pt_local_id q \<in> set (pt_dependencies q)"
    then have "(pt_local_id q, pt_local_id q) \<in> plan_edges plan" using that by (auto simp: plan_edges_def)
    then show False using wf by (auto simp: plan_wf_def acyclic_def)
  qed
  moreover have "coherent (materialize_item now parent q)" for q
    unfolding materialize_item_def by (rule synced_coherent[OF synced_model_post_init])
  ultimately show "\<forall>c \<in> set (map (materialize_item now parent) (ps_tasks plan)).
      coherent c \<and> ts_status c = TS_PENDING \<and> ts_task_id c \<notin> set (ts_dependencies c)"
    by (auto simp: materialize_item_fields)
qed

text \<open>
  C21: An accepted plan is scheduled whole. When a planner's task carries an accepted plan whose
  children are new, the service returns one task per entry in the order of the plan, the planner lists them
  as children and is saved with them, the scheduler's invariant is kept, and every child is in the
  task table, in the store, in the ready queue exactly when nothing it depends on is still open and
  otherwise in the waiting queue. As its dependents it has exactly those tasks that name it \<^emph>\<open>and come
  after it\<close> in the plan.
\<close>

theorem workflow_plan_scheduled:
  assumes inv: "kernel_inv (wk_kernel w)" and i: "known (wk_kernel w) i"
    and out: "read_planner_output env (wk_task w i) = Inr (plan, inspection, plan_summary)"
    and ok: "validate_plan plan = Inr ()"
    and fresh: "\<forall>l \<in> plan_ids plan. \<not> known (wk_kernel w) (i @ '':'' @ l)"
  shows "\<exists>w' ids. materialize_planner env i w = (w', Inr ids) \<and>
    ids = map (\<lambda>p. i @ '':'' @ pt_local_id p) (ps_tasks plan) \<and> kernel_inv (wk_kernel w') \<and>
    ts_children (wk_task w' i) = ts_children (wk_task w i) @ ids \<and>
    map_option gt_data (map_of (st_tasks (wk_store w')) i) = Some (wk_task w' i) \<and>
    (\<forall>xs p ys. ps_tasks plan = xs @ p # ys \<longrightarrow>
       (let j = i @ '':'' @ pt_local_id p; k = wk_kernel w'
        in open_deps k j = (\<lambda>l. i @ '':'' @ l) ` set (pt_dependencies p) - k_completed_tasks (wk_kernel w) \<and>
           dependents_of k j = (\<lambda>q. i @ '':'' @ pt_local_id q) ` {q \<in> set ys. pt_local_id p \<in> set (pt_dependencies q)} \<and>
           (if open_deps k j = {} then j \<in> set (k_ready k) else j \<in> set (k_waiting k)) \<and>
           j \<in> set (wk_tasks w') \<and>
           map_option gt_data (map_of (st_tasks (wk_store w')) j) = Some (wk_task w' j)))"
proof -
  define g where "g = (\<lambda>t :: TaskSpec. t\<lparr>ts_result := map_option
     (\<lambda>d. dict_set ''plan_summary'' plan_summary (dict_set ''inspection'' inspection d)) (ts_result t)\<rparr>)"
  define w1 where "w1 = set_wk_task i g w"
  define P where "P = wk_task w1 i"
  define cs where "cs = map (materialize_item (we_now env) P) (ps_tasks plan)"
  have inv1: "kernel_inv (wk_kernel w1)"
    unfolding w1_def by (rule inv_set_wk_task[OF inv i]) (simp_all add: g_def child_ready_fields)
  have kn: "known (wk_kernel w1) = known (wk_kernel w)" by (simp add: w1_def set_wk_task_def)
  have Pid: "ts_task_id P = i" using inv_knownD[OF inv1] i by (simp add: P_def wk_task_def kn)
  have cid: "child_id P l = i @ '':'' @ l" for l by (simp add: child_id_def Pid)
  have ids: "map ts_task_id cs = map (\<lambda>p. i @ '':'' @ pt_local_id p) (ps_tasks plan)"
    by (simp add: cs_def materialize_item_fields cid)
  have "\<forall>c \<in> set cs. \<not> known (wk_kernel w1) (ts_task_id c)"
    using fresh by (auto simp: cs_def materialize_item_fields cid kn plan_ids_def)
  then obtain w2 where w2: "eff_for cs (submit_child env i) w1 = (w2, Inr ())" "kernel_inv (wk_kernel w2)"
      "children_frame i cs w1 w2" "placed cs w2"
    using submit_children_placed[OF inv1, of i cs env] materialized_children[OF ok, of "we_now env" P] i
    by (auto simp: kn simp flip: cs_def)
  define w' where "w' = persist_task env i w2"
  have run: "materialize_planner env i w = (w', Inr (map ts_task_id cs))"
    by (simp add: materialize_planner_def eff_get_def out eff_then_modify
        materialize_const[OF ok] eff_lift_def eff_bind_def w'_def eff_return_def
        flip: g_def w1_def P_def cs_def)
      (simp add: eff_then_def eff_bind_def w2(1) eff_modify_def, simp add: cs_def)
  have same: "wk_kernel w' = wk_kernel w2" "wk_task w' = wk_task w2" "wk_tasks w' = wk_tasks w2"
    by (simp_all add: w'_def persist_task_def wk_task_def fun_eq_iff)
  have "i \<notin> ts_task_id ` set cs" by (auto simp: cs_def materialize_item_fields cid)
  then have "known (wk_kernel w2) i" using w2(3) i unfolding children_frame_def kn by blast
  then have iw: "ts_task_id (wk_task w2 i) = i" using inv_knownD[OF w2(2)] by (simp add: wk_task_def)
  have store: "map_of (st_tasks (wk_store w')) j =
      (if j = i then Some (row_of_task (we_now env) (wk_task w2 i)) else map_of (st_tasks (wk_store w2)) j)" for j
    by (simp add: w'_def persist_task_def iw)
  have each: "let j = i @ '':'' @ pt_local_id p; k = wk_kernel w'
      in open_deps k j = (\<lambda>l. i @ '':'' @ l) ` set (pt_dependencies p) - k_completed_tasks (wk_kernel w) \<and>
         dependents_of k j = (\<lambda>q. i @ '':'' @ pt_local_id q) ` {q \<in> set ys. pt_local_id p \<in> set (pt_dependencies q)} \<and>
         (if open_deps k j = {} then j \<in> set (k_ready k) else j \<in> set (k_waiting k)) \<and>
         j \<in> set (wk_tasks w') \<and> map_option gt_data (map_of (st_tasks (wk_store w')) j) = Some (wk_task w' j)"
    if e: "ps_tasks plan = xs @ p # ys" for xs p ys
  proof -
    let ?m = "materialize_item (we_now env) P"
    have pl: "placed (?m p # map ?m ys) w2"
      using placed_split[of "map ?m xs" "?m p" "map ?m ys" w2] w2(4) by (simp add: cs_def e)
    have "k_completed_tasks (wk_kernel w2) = k_completed_tasks (wk_kernel w)"
      using w2(3) by (simp add: children_frame_def w1_def set_wk_task_def)
    moreover have "{c' \<in> set (map ?m ys). i @ '':'' @ pt_local_id p \<in> set (ts_dependencies c')} =
        ?m ` {q \<in> set ys. pt_local_id p \<in> set (pt_dependencies q)}"
      by (auto simp: materialize_item_fields cid)
    then have "ts_task_id ` {c' \<in> set (map ?m ys). i @ '':'' @ pt_local_id p \<in> set (ts_dependencies c')} =
        (\<lambda>q. i @ '':'' @ pt_local_id q) ` {q \<in> set ys. pt_local_id p \<in> set (pt_dependencies q)}"
      by (simp only: image_image materialize_item_fields cid)
    moreover have "i @ '':'' @ pt_local_id p \<noteq> i" by simp
    ultimately show ?thesis
      using pl by (simp add: same store Let_def materialize_item_fields cid)
  qed
  have "ts_children (wk_task w1 i) = ts_children (wk_task w i)" by (simp add: w1_def set_wk_task_def wk_task_def g_def)
  then have "ts_children (wk_task w' i) = ts_children (wk_task w i) @ map ts_task_id cs"
    using w2(3) by (simp add: same children_frame_def)
  then show ?thesis using run ids w2(2) each store[of i] by (auto simp: same)
qed

definition demo_planner :: TaskSpec where
  "demo_planner = (new_task ''p'' (Some ''planner'') [] [] ''tr'' 0)\<lparr>ts_result := Some [(''output'', JStr ''{}'')]\<rparr>"

definition demo_workflow :: workflow where
  "demo_workflow =
     \<lparr>wk_kernel = kernel_apply demo_env (KEnqueue demo_planner) (kernel_init ''priority'' (\<lambda>i. demo_task i [])),
      wk_tasks = [''p''], wk_store = empty_store, wk_traces = recorder_init, wk_integration_commits = [],
      wk_integration_workspaces = [], wk_applied_artifacts = [], wk_repair_rounds = []\<rparr>"

definition demo_workflow_env :: "PlanSpec \<Rightarrow> workflow_env" where
  "demo_workflow_env plan =
     \<lparr>we_kernel = demo_env, we_now = 5, we_agents = [], we_max_repair_rounds = 2, we_cwd = ''/'',
      we_task_id = (\<lambda>w role. role), we_loads = (\<lambda>_. Inr (JObj [(''plan'', JObj [])])),
      we_plan_model = (\<lambda>_. Inr plan), we_error_text = (\<lambda>_. []), we_rev_parse = (\<lambda>_ _. Inr []),
      we_create_workspace = (\<lambda>_ _ _ _. Inr []), we_apply = (\<lambda>_ _ _. None), we_commit = (\<lambda>_ _. Inr None)\<rparr>"

lemma demo_workflow_inv: "kernel_inv (wk_kernel demo_workflow)"
proof -
  have "coherent demo_planner" by (simp add: demo_planner_def child_ready_fields synced_coherent synced_new_task)
  moreover have "\<not> known (kernel_init q st) j" for q st j by (simp add: known_def kernel_init_def)
  ultimately show ?thesis by (simp add: demo_workflow_def inv_enqueue kernel_inv_init)
qed

lemma demo_planner_output:
  "read_planner_output (demo_workflow_env plan) (wk_task demo_workflow ''p'') = Inr (plan, JObj [], JStr [])"
proof -
  have "ts_result (wk_task demo_workflow ''p'') = Some [(''output'', JStr ''{}'')]" by code_simp
  then show ?thesis by (simp add: read_planner_output_def demo_workflow_env_def get_json_def dict_get_def)
qed

theorem workflow_plan_scheduled_witness:
  "\<exists>w'. materialize_planner (demo_workflow_env demo_plan) ''p'' demo_workflow = (w', Inr [''p:c'', ''p:t'', ''p:r'']) \<and>
     ts_children (wk_task w' ''p'') = [''p:c'', ''p:t'', ''p:r'']"
proof -
  have "known (wk_kernel demo_workflow) ''p''" "ts_children (wk_task demo_workflow ''p'') = []" by code_simp+
  moreover have "\<forall>l \<in> plan_ids demo_plan. \<not> known (wk_kernel demo_workflow) (''p'' @ '':'' @ l)" by code_simp
  ultimately show ?thesis
    using workflow_plan_scheduled[OF demo_workflow_inv _ demo_planner_output demo_plan_ok]
    by (fastforce simp: demo_plan_def demo_plan_task_def)
qed

section \<open>A dependency listed after its dependent\<close>

text \<open>
  The validator does not ask for the tasks of a plan to be listed in the order of their
  dependencies, but the service submits them in the order of the list. A tester listed before its
  coder does not become a dependent of the coder, and the coder's completion does not wake it: it
  keeps waiting for a task that is completed.
\<close>

definition late_plan :: PlanSpec where
  "late_plan = \<lparr>ps_version = ''1.0'', ps_summary = ''s'',
     ps_tasks = [demo_plan_task ''t'' R_TESTER [''c''], demo_plan_task ''c'' R_CODER [],
                 demo_plan_task ''r'' R_REVIEWER [''t'']]\<rparr>"

lemma late_plan_accepted:
  "validate_plan late_plan = Inr () \<and>
   map (\<lambda>q. (pt_local_id q, pt_dependencies q)) (take 2 (ps_tasks late_plan)) = [(''t'', [''c'']), (''c'', [])]"
  by code_simp

text \<open>The first two entries submitted in this order are the scheduler \<open>late_kernel\<close>.\<close>

lemma workflow_forward_dependency_waits_forever:
  "''c'' \<in> k_completed_tasks late_kernel \<and> ''t'' \<in> set (k_waiting late_kernel) \<and> open_deps late_kernel ''t'' = {''c''}"
  by (simp add: late_kernel_state)

end
