(* ===== verification/Daemon_State.thy ===== *)
theory Daemon_State
  imports Workflow_Service Agent_Lifecycle Context_Manager Fault_Service Resource_Monitor
begin

text \<open>
  \<open>aruntime/daemon/main.py\<close>, the state of the daemon and the helpers its handlers and its execution
  loop share.

  The module's dictionaries and service objects are one record. The scheduler is the kernel
  scheduler, with \<open>_kernel_resource_checker\<close> and the agents of this state; together with the task
  table, the store and the trace recorder it is what the workflow service holds, the field \<open>dn_wf\<close>.

  Coroutines interleave only where they await: there \<open>de_world\<close> says what the others made of the
  state, and \<open>dn_tick\<close> counts the awaits. Everything outside the daemon answers as a function of that
  count: the clock (read once between two awaits), the load, worker processes, cgroups, sockets, git.
  Texts outside Latin-1 are fields of the environment too. Cancellation of a coroutine by the event
  loop, which happens only when the process ends, is not modelled.
\<close>

section \<open>State and environment\<close>

record usage_totals =
  ut_input_tokens :: int
  ut_output_tokens :: int
  ut_total_tokens :: int
  ut_latency_ms :: rat
  ut_calls :: nat
  ut_prefix_hits :: nat
  ut_reuse_hits :: nat

record daemon =
  dn_tick :: nat
  dn_wf :: workflow
  dn_agents :: "AgentSpec dict"
  dn_acbs :: "AgentControlBlock dict"
  dn_monitor :: ResourceMonitor
  dn_faults :: "WorkerFaultState dict"
  dn_workers :: "int dict"
  dn_tokens :: "string dict"
  dn_cgroups :: "bool dict"
  dn_inflight :: "(string option \<times> int) list"
  dn_contexts :: ContextManager
  dn_pending :: "(string \<times> jdict option) dict"
  dn_usage :: usage_totals
  dn_sent :: "(string \<times> jdict) list"

record daemon_env =
  de_now :: "nat \<Rightarrow> usec"
  de_stamp :: "usec \<Rightarrow> string"
  de_load :: "nat \<Rightarrow> sysload"
  de_ctx :: "nat \<Rightarrow> ctx_env"
  de_workflow :: "nat \<Rightarrow> workflow_env"
  de_world :: "nat \<Rightarrow> daemon \<Rightarrow> daemon"
  de_connected :: "nat \<Rightarrow> string \<Rightarrow> bool"
  de_exited :: "nat \<Rightarrow> string \<Rightarrow> bool"
  de_sent :: "nat \<Rightarrow> string \<Rightarrow> bool"
  de_spawn :: "nat \<Rightarrow> string \<Rightarrow> py_error + int"
  de_bind :: "nat \<Rightarrow> string \<Rightarrow> bool \<times> string"
  de_workspace :: "nat \<Rightarrow> string \<Rightarrow> string \<Rightarrow> WorkspaceSpec \<Rightarrow> bool \<Rightarrow> py_error + WorkspaceSpec"
  de_patch :: "nat \<Rightarrow> WorkspaceSpec \<Rightarrow> string \<Rightarrow> string \<Rightarrow> py_error + ArtifactReference option"
  de_artifact :: "jdict \<Rightarrow> py_error + ArtifactReference"
  de_dump_artifact :: "ArtifactReference \<Rightarrow> json"
  de_dump_workspace :: "WorkspaceSpec \<Rightarrow> json"
  de_fresh :: "nat \<Rightarrow> string"
  de_str :: "py_error \<Rightarrow> string"
  de_int_of_str :: "string \<Rightarrow> py_error + int"
  de_float_of_str :: "string \<Rightarrow> py_error + rat"
  de_strict :: bool
  de_uds_path :: string
  de_legacy_workspace :: string
  de_role_prompt :: "string \<Rightarrow> string"
  de_degraded_label :: string
  de_error_label :: string

definition dnow :: "daemon_env \<Rightarrow> daemon \<Rightarrow> usec" where
  "dnow env d = de_now env (dn_tick d)"

definition await :: "daemon_env \<Rightarrow> (daemon, unit) eff" where
  "await env = eff_modify (\<lambda>d. (de_world env (dn_tick d) d)\<lparr>dn_tick := Suc (dn_tick d)\<rparr>)"

section \<open>Tasks\<close>

definition dn_task :: "daemon \<Rightarrow> string \<Rightarrow> TaskSpec" where
  "dn_task d i = wk_task (dn_wf d) i"

definition put_task :: "string \<Rightarrow> (TaskSpec \<Rightarrow> TaskSpec) \<Rightarrow> daemon \<Rightarrow> daemon" where
  "put_task i f d = d\<lparr>dn_wf := set_wk_task i f (dn_wf d)\<rparr>"

definition put_store :: "(store \<Rightarrow> store) \<Rightarrow> daemon \<Rightarrow> daemon" where
  "put_store f d = d\<lparr>dn_wf := (dn_wf d)\<lparr>wk_store := f (wk_store (dn_wf d))\<rparr>\<rparr>"

definition put_traces :: "(TraceRecorder \<Rightarrow> TraceRecorder) \<Rightarrow> daemon \<Rightarrow> daemon" where
  "put_traces f d = d\<lparr>dn_wf := (dn_wf d)\<lparr>wk_traces := f (wk_traces (dn_wf d))\<rparr>\<rparr>"

definition put_monitor :: "(ResourceMonitor \<Rightarrow> ResourceMonitor) \<Rightarrow> daemon \<Rightarrow> daemon" where
  "put_monitor f d = d\<lparr>dn_monitor := f (dn_monitor d)\<rparr>"

definition put_attempt :: "string \<Rightarrow> string \<Rightarrow> (TaskAttempt \<Rightarrow> TaskAttempt) \<Rightarrow> daemon \<Rightarrow> daemon" where
  "put_attempt i aid f = put_task i (\<lambda>t. t\<lparr>ts_attempts := map (\<lambda>a. if at_attempt_id a = aid then f a else a) (ts_attempts t)\<rparr>)"

definition attempt_of :: "daemon \<Rightarrow> string \<Rightarrow> string \<Rightarrow> TaskAttempt option" where
  "attempt_of d i aid = List.find (\<lambda>a. at_attempt_id a = aid) (ts_attempts (dn_task d i))"

definition attempt_open :: "daemon \<Rightarrow> string \<Rightarrow> string \<Rightarrow> bool" where
  "attempt_open d i aid = (case attempt_of d i aid of Some a \<Rightarrow> at_completed_at a = None | None \<Rightarrow> False)"

definition agent_of :: "daemon \<Rightarrow> string option \<Rightarrow> AgentSpec option" where
  "agent_of d name = (case name of Some a \<Rightarrow> map_of (dn_agents d) a | None \<Rightarrow> None)"

text \<open>An agent name where the source formats or indexes with it: \<open>None\<close> prints as such.\<close>

definition name_str :: "string option \<Rightarrow> string" where
  "name_str name = (case name of Some a \<Rightarrow> a | None \<Rightarrow> ''None'')"

section \<open>Resources\<close>

definition resource_request_for_task :: "TaskSpec \<Rightarrow> AgentSpec \<Rightarrow> amounts" where
  "resource_request_for_task task agent =
     (let raw = ts_resource_request task;
          setdefault = (\<lambda>k v d. case map_of d k of None \<Rightarrow> dict_set k v d | Some _ \<Rightarrow> d);
          raw1 = (case ag_memory_max_bytes agent of
                    Some b \<Rightarrow> if b \<noteq> 0 then setdefault (resource_class_value RC_MEMORY) (JFloat (of_int b)) raw else raw
                  | None \<Rightarrow> raw);
          raw2 = (case ts_token_budget task of
                    Some b \<Rightarrow> if b \<noteq> 0 then setdefault (resource_class_value RC_TOKEN) (JFloat (of_int b)) raw1 else raw1
                  | None \<Rightarrow> raw1)
      in request_from_dict raw2)"

definition cgroup_ready :: "daemon_env \<Rightarrow> string option \<Rightarrow> daemon \<Rightarrow> bool \<times> string" where
  "cgroup_ready env name d =
     (if \<not> de_strict env then (True, ''cgroup_not_strict'')
      else if (case name of Some a \<Rightarrow> map_of (dn_cgroups d) a = Some True | None \<Rightarrow> False) then (True, ''cgroup_ready'')
      else (False, ''cgroup_bind_failed''))"

definition kernel_resource_checker :: "daemon_env \<Rightarrow> daemon \<Rightarrow> TaskSpec \<Rightarrow> bool \<times> string" where
  "kernel_resource_checker env d task =
     (case agent_of d (ts_agent_name task) of
        None \<Rightarrow> (False, ''agent_missing'')
      | Some agent \<Rightarrow>
          (case cgroup_ready env (ts_agent_name task) d of (ok, reason) \<Rightarrow>
             if \<not> ok then (ok, reason)
             else can_allocate (de_load env (dn_tick d)) (resource_request_for_task task agent) (dn_monitor d)))"

text \<open>The scheduler's and the workflow service's view of the daemon.\<close>

definition kernel_env :: "daemon_env \<Rightarrow> daemon \<Rightarrow> kenv" where
  "kernel_env env d =
     (we_kernel (de_workflow env (dn_tick d)))
       \<lparr>ke_now := dnow env d, ke_checker := Some (kernel_resource_checker env d),
        ke_agents := Some (map snd (dn_agents d))\<rparr>"

definition workflow_env_of :: "daemon_env \<Rightarrow> daemon \<Rightarrow> workflow_env" where
  "workflow_env_of env d =
     (de_workflow env (dn_tick d))
       \<lparr>we_kernel := kernel_env env d, we_now := dnow env d, we_agents := dn_agents d\<rparr>"

definition on_workflow :: "(workflow, 'a) eff \<Rightarrow> (daemon, 'a) eff" where
  "on_workflow m = (\<lambda>d. case m (dn_wf d) of (w, r) \<Rightarrow> (d\<lparr>dn_wf := w\<rparr>, r))"

definition on_kernel :: "(kernel, 'a) eff \<Rightarrow> (daemon, 'a) eff" where
  "on_kernel m = on_workflow (\<lambda>w. case m (wk_kernel w) of (k, r) \<Rightarrow> (w\<lparr>wk_kernel := k\<rparr>, r))"

definition task_transition :: "daemon_env \<Rightarrow> string \<Rightarrow> TaskStatus \<Rightarrow> string \<Rightarrow> (daemon, unit) eff" where
  "task_transition env i st reason = eff_get (\<lambda>d. on_kernel (on_task i (transition_to (dnow env d) st reason)))"

definition set_task_error :: "string \<Rightarrow> string \<Rightarrow> (daemon, unit) eff" where
  "set_task_error i e = eff_modify (put_task i (\<lambda>t. t\<lparr>ts_error := Some e\<rparr>))"

section \<open>Persistence and traces\<close>

definition persist_agent :: "daemon_env \<Rightarrow> string \<Rightarrow> daemon \<Rightarrow> daemon" where
  "persist_agent env name d =
     (case map_of (dn_agents d) name of
        None \<Rightarrow> d
      | Some agent \<Rightarrow>
          put_store (save_agent (dnow env d) agent (map_of (dn_workers d) name) (dict_get (dn_tokens d) name [])
            (Option.bind (map_of (dn_faults d) name) wf_last_heartbeat)) d)"

definition persist :: "daemon_env \<Rightarrow> string \<Rightarrow> (daemon, unit) eff" where
  "persist env i = eff_modify (\<lambda>d. put_store (save_task (dnow env d) (dn_task d i)) d)"

definition record_trace_event :: "daemon_env \<Rightarrow> string \<Rightarrow> string \<Rightarrow> jdict \<Rightarrow> (daemon, unit) eff" where
  "record_trace_event env i name detail =
     eff_modify (\<lambda>d. d\<lparr>dn_wf := record_trace (workflow_env_of env d) i name detail (dn_wf d)\<rparr>)"

section \<open>Agents\<close>

definition put_agent :: "string \<Rightarrow> (AgentSpec \<Rightarrow> AgentSpec) \<Rightarrow> daemon \<Rightarrow> daemon" where
  "put_agent name f d =
     (case map_of (dn_agents d) name of
        None \<Rightarrow> d
      | Some agent \<Rightarrow> d\<lparr>dn_agents := dict_set name (f agent) (dn_agents d)\<rparr>)"

definition put_acb :: "string \<Rightarrow> (AgentControlBlock \<Rightarrow> AgentControlBlock) \<Rightarrow> daemon \<Rightarrow> daemon" where
  "put_acb name f d =
     (case map_of (dn_acbs d) name of
        None \<Rightarrow> d
      | Some acb \<Rightarrow> d\<lparr>dn_acbs := dict_set name (f acb) (dn_acbs d)\<rparr>)"

definition sync_agent_from_acb :: "string \<Rightarrow> daemon \<Rightarrow> daemon" where
  "sync_agent_from_acb name d =
     (case map_of (dn_acbs d) name of
        None \<Rightarrow> d
      | Some acb \<Rightarrow> put_agent name (\<lambda>a. a\<lparr>ag_status := acb_status acb, ag_current_task_id := acb_current_task_id acb,
                                         ag_updated_at := acb_updated_at acb\<rparr>) d)"

definition transition_agent ::
    "daemon_env \<Rightarrow> string \<Rightarrow> AgentStatus \<Rightarrow> string option \<Rightarrow> string \<Rightarrow> (daemon, unit) eff" where
  "transition_agent env name new_status task_id reason =
     eff_get (\<lambda>d. case map_of (dn_acbs d) name of
         Some acb \<Rightarrow>
           (case lifecycle_transition_acb (dnow env d) new_status task_id reason [] acb of
              (acb', Inl e) \<Rightarrow> eff_then (eff_modify (put_acb name (\<lambda>_. acb'))) (eff_raise e)
            | (acb', Inr u) \<Rightarrow> eff_modify (persist_agent env name \<circ> sync_agent_from_acb name \<circ> put_acb name (\<lambda>_. acb')))
       | None \<Rightarrow>
           (case map_of (dn_agents d) name of
              None \<Rightarrow> eff_raise (KeyError name)
            | Some agent \<Rightarrow>
                (case lifecycle_transition_agent (dnow env d) new_status agent of
                   (agent', Inl e) \<Rightarrow> eff_then (eff_modify (put_agent name (\<lambda>_. agent'))) (eff_raise e)
                 | (agent', Inr u) \<Rightarrow> eff_modify (persist_agent env name \<circ> put_agent name (\<lambda>_. agent')))))"

text \<open>\<open>agents.get(name)\<close> with a status in the set.\<close>

definition agent_in :: "AgentStatus set \<Rightarrow> string option \<Rightarrow> daemon \<Rightarrow> bool" where
  "agent_in S name d = (case agent_of d name of Some a \<Rightarrow> ag_status a \<in> S | None \<Rightarrow> False)"

definition recover_agent :: "daemon_env \<Rightarrow> string \<Rightarrow> string option \<Rightarrow> string \<Rightarrow> (daemon, unit) eff" where
  "recover_agent env name task_id reason =
     eff_get (\<lambda>d. eff_when (agent_in {AS_FAILED} (Some name) d)
       (eff_then (transition_agent env name AS_RECOVERING task_id (reason @ ''.start''))
         (transition_agent env name AS_READY task_id (reason @ ''.ready''))))"

definition mark_agent_ready_for_reuse :: "daemon_env \<Rightarrow> string \<Rightarrow> string option \<Rightarrow> string \<Rightarrow> (daemon, unit) eff" where
  "mark_agent_ready_for_reuse env name task_id reason =
     eff_get (\<lambda>d. eff_when (map_of (dn_agents d) name \<noteq> None)
       (eff_modify (\<lambda>d.
          let d1 = put_agent name (\<lambda>a. a\<lparr>ag_status := AS_READY, ag_current_task_id := None\<rparr>) d;
              d2 = put_acb name (\<lambda>acb. record_event (dnow env d) ''agent.reused'' task_id reason []
                     (acb\<lparr>acb_status := AS_READY, acb_current_task_id := None\<rparr>)) d1
          in persist_agent env name (sync_agent_from_acb name d2))))"

definition set_agent_task :: "daemon_env \<Rightarrow> string option \<Rightarrow> string option \<Rightarrow> (daemon, unit) eff" where
  "set_agent_task env name task_id =
     (case name of
        None \<Rightarrow> eff_return ()
      | Some a \<Rightarrow> eff_modify (\<lambda>d.
          let d1 = put_acb a (set_current_task (dnow env d) task_id) d
          in if map_of (dn_agents d1) a = None then d1
             else persist_agent env a (put_agent a (\<lambda>g. g\<lparr>ag_current_task_id := task_id\<rparr>) d1)))"

definition set_context_handle :: "daemon_env \<Rightarrow> string \<Rightarrow> string option \<Rightarrow> (daemon, unit) eff" where
  "set_context_handle env name context_id = eff_modify (\<lambda>d. put_acb name (set_context (dnow env d) context_id) d)"

definition prepare_agent_for_task :: "daemon_env \<Rightarrow> string \<Rightarrow> string \<Rightarrow> (daemon, unit) eff" where
  "prepare_agent_for_task env i reason =
     eff_get (\<lambda>d. case ts_agent_name (dn_task d i) of
         None \<Rightarrow> eff_return ()
       | Some name \<Rightarrow> if map_of (dn_agents d) name = None then eff_return ()
           else eff_seq
             [if agent_in {AS_FAILED} (Some name) d then recover_agent env name (Some i) (reason @ ''.recover'')
              else eff_when (agent_in {AS_COMPLETED} (Some name) d) (mark_agent_ready_for_reuse env name (Some i) reason),
              set_context_handle env name (filled_or (ts_context_id (dn_task d i)) None),
              transition_agent env name AS_RUNNING (Some i) reason,
              set_agent_task env (Some name) (Some i)])"

section \<open>Workers\<close>

definition put_fault :: "string \<Rightarrow> (WorkerFaultState \<Rightarrow> WorkerFaultState) \<Rightarrow> daemon \<Rightarrow> daemon" where
  "put_fault name f d =
     d\<lparr>dn_faults := dict_set name (f (dict_get (dn_faults d) name (new_fault_state name name))) (dn_faults d)\<rparr>"

definition stop_worker :: "daemon_env \<Rightarrow> string \<Rightarrow> bool \<Rightarrow> (daemon, unit) eff" where
  "stop_worker env name cleanup_cgroup =
     eff_modify (\<lambda>d. persist_agent env name
       (d\<lparr>dn_workers := dict_pop name (dn_workers d),
          dn_cgroups := (if cleanup_cgroup then dict_pop name (dn_cgroups d) else dn_cgroups d)\<rparr>))"

definition start_worker :: "daemon_env \<Rightarrow> string \<Rightarrow> (daemon, unit) eff" where
  "start_worker env name =
     eff_seq
       [eff_modify (\<lambda>d. if map_of (dn_tokens d) name = None
                        then d\<lparr>dn_tokens := dict_set name (de_fresh env (dn_tick d)) (dn_tokens d)\<rparr> else d),
        eff_get (\<lambda>d. if map_of (dn_agents d) name = None then eff_raise (KeyError name)
          else eff_bind (eff_lift (de_spawn env (dn_tick d) name)) (\<lambda>pid.
            eff_seq
              [eff_modify (\<lambda>d.
                 let d1 = put_fault name (heartbeat (dnow env d)) (d\<lparr>dn_workers := dict_set name pid (dn_workers d)\<rparr>)
                 in put_acb name (\<lambda>acb. record_event (dnow env d) ''worker.started'' None [] [(''pid'', JInt pid)]
                      (acb\<lparr>acb_ipc_endpoint := Some (de_uds_path env), acb_mailbox := Some name\<rparr>)) d1),
               eff_get (\<lambda>d. case de_bind env (dn_tick d) name of (ok, err) \<Rightarrow>
                 eff_then (eff_modify (\<lambda>d. d\<lparr>dn_cgroups := dict_set name ok (dn_cgroups d)\<rparr>))
                   (if \<not> ok \<and> de_strict env
                    then eff_then (stop_worker env name False)
                           (eff_raise (RuntimeError (''cgroup bind failed: '' @ or_default err ''unknown'')))
                    else eff_modify (persist_agent env name)))]))]"

text \<open>\<open>proc is None or proc.poll() is not None\<close>.\<close>

definition worker_gone :: "daemon_env \<Rightarrow> string \<Rightarrow> daemon \<Rightarrow> bool" where
  "worker_gone env name d \<longleftrightarrow> map_of (dn_workers d) name = None \<or> de_exited env (dn_tick d) name"

definition ensure_worker_started :: "daemon_env \<Rightarrow> string \<Rightarrow> (daemon, unit) eff" where
  "ensure_worker_started env name =
     eff_get (\<lambda>d. eff_when (worker_gone env name d) (eff_then (stop_worker env name True) (start_worker env name)))"

text \<open>\<open>except InvalidTransitionError: agent.status = ..\<close>.\<close>

definition or_force_status :: "string \<Rightarrow> AgentStatus \<Rightarrow> (daemon, unit) eff \<Rightarrow> (daemon, unit) eff" where
  "or_force_status name st m =
     eff_try m (\<lambda>e. case e of
         InvalidTransitionError x \<Rightarrow> eff_modify (put_agent name (\<lambda>a. a\<lparr>ag_status := st\<rparr>))
       | _ \<Rightarrow> eff_raise e)"

definition isolate_failed_worker :: "daemon_env \<Rightarrow> string \<Rightarrow> string \<Rightarrow> string \<Rightarrow> (daemon, unit) eff" where
  "isolate_failed_worker env name i error =
     eff_get (\<lambda>d. eff_when (map_of (dn_agents d) name \<noteq> None)
       (eff_seq
          [eff_when (\<not> agent_in {AS_FAILED, AS_KILLED} (Some name) d)
             (or_force_status name AS_FAILED (transition_agent env name AS_FAILED (Some i) ''worker.failed'')),
           eff_modify (\<lambda>d. put_acb name (record_event (dnow env d) ''worker.isolated'' (Some i) ''worker.failed''
             [(''error'', JStr error)]) d),
           eff_modify (\<lambda>d. put_monitor (reclaim (dnow env d) i error) d),
           eff_modify (\<lambda>d. put_store (release_leases_for_task (dnow env d) (de_stamp env) i error) d),
           stop_worker env name True,
           eff_modify (put_fault name id),
           eff_get (\<lambda>d. eff_when (\<not> agent_in {AS_KILLED} (Some name) d \<and>
               can_restart (dnow env d) (dict_get (dn_faults d) name (new_fault_state name name)))
             (eff_then (eff_modify (\<lambda>d. put_fault name (record_restart (dnow env d)) d)) (start_worker env name))),
           eff_modify (persist_agent env name)]))"

end
