(* ===== verification/Daemon_Execution.thy ===== *)
theory Daemon_Execution
  imports Daemon_State
begin

text \<open>
  \<open>aruntime/daemon/main.py\<close>, the execution of a dispatched task: one attempt (\<open>_run_task_once\<close>), the
  attempts its failure policy allows (\<open>_run_task_with_policy\<close>), and the whole of it with the
  bookkeeping before and after (\<open>_execute_task\<close>).

  An attempt object is addressed by its identifier in the task's list. A future is the entry of
  \<open>dn_pending\<close>: it is done when \<open>_on_task_result\<close> has put a result there. Both call sites of
  \<open>_run_task_once\<close> pass an attempt and a lease, so neither is optional here.
\<close>

section \<open>One attempt\<close>

definition backend_for_task :: "TaskSpec \<Rightarrow> AgentSpec \<Rightarrow> AgentBackendType" where
  "backend_for_task task agent =
     (case ts_required_backend task of
        Some b \<Rightarrow> b
      | None \<Rightarrow> if be_type (ag_backend agent) \<noteq> LEGACY_LLM then be_type (ag_backend agent)
                else if json_is_obj (get_json (ts_task_input task) ''__tool'') then DIRECT_TOOL else LEGACY_LLM)"

definition plain_workspace :: "string \<Rightarrow> WorkspaceSpec" where
  "plain_workspace path = (new_workspace path ''HEAD'' False)\<lparr>ws_workspace_path := Some path\<rparr>"

definition base_workspace :: "daemon_env \<Rightarrow> daemon \<Rightarrow> TaskSpec \<Rightarrow> WorkspaceSpec" where
  "base_workspace env d task =
     (case workspace_for_task (workflow_env_of env d) (dn_wf d) task of
        Some ws \<Rightarrow> ws
      | None \<Rightarrow> plain_workspace (if de_legacy_workspace env \<noteq> [] then de_legacy_workspace env
                                 else we_cwd (workflow_env_of env d)))"

definition attempt_workspace ::
    "daemon_env \<Rightarrow> daemon \<Rightarrow> TaskSpec \<Rightarrow> string \<Rightarrow> AgentSpec \<Rightarrow> py_error + WorkspaceSpec" where
  "attempt_workspace env d task aid agent =
     (let base = base_workspace env d task
      in if backend_for_task task agent \<in> {CODEX_CLI, DIRECT_TOOL, NATIVE_PLANNER} \<and> ws_workspace_path base = None
         then de_workspace env (dn_tick d) (ts_task_id task) aid base
                (be_sandbox (ag_backend agent) = ''read-only'' \<or> ws_read_only base)
         else Inr base)"

definition workspace_for_attempt :: "daemon_env \<Rightarrow> string \<Rightarrow> string \<Rightarrow> AgentSpec \<Rightarrow> (daemon, WorkspaceSpec) eff" where
  "workspace_for_attempt env i aid agent =
     eff_get (\<lambda>d. eff_bind (eff_lift (attempt_workspace env d (dn_task d i) aid agent)) (\<lambda>base.
       eff_then (eff_modify (put_attempt i aid (\<lambda>a.
           a\<lparr>at_backend_type := backend_value (backend_for_task (dn_task d i) agent), at_workspace_id := ws_workspace_id base,
             at_workspace_path := ws_workspace_path base, at_base_commit := ws_base_commit base\<rparr>)))
         (eff_return base)))"

definition timeout_seconds :: "TaskSpec \<Rightarrow> rat" where
  "timeout_seconds t =
     (case ts_timeout_ms t of
        Some ms \<Rightarrow> of_int ms / 1000
      | None \<Rightarrow> (case ts_timeout t of
                   Some s \<Rightarrow> if s \<noteq> 0 then s else of_int (fp_timeout_ms (ts_failure_policy t)) / 1000
                 | None \<Rightarrow> of_int (fp_timeout_ms (ts_failure_policy t)) / 1000))"

definition exec_event ::
    "daemon_env \<Rightarrow> daemon \<Rightarrow> string \<Rightarrow> string \<Rightarrow> AgentSpec \<Rightarrow> jdict \<Rightarrow> WorkspaceSpec \<Rightarrow> jdict" where
  "exec_event env d i aid agent payload ws =
     (let t = dn_task d i
      in [(''type'', JStr ''exec_task''), (''message_id'', JStr (''exec_'' @ i @ ''_'' @ de_fresh env (dn_tick d))),
          (''task_id'', JStr i), (''attempt_id'', JStr aid),
          (''system_prompt'', JStr (or_default (ag_system_prompt agent) (de_role_prompt env (ag_role agent)))),
          (''user_message'', JStr (py_str (ke_repr (kernel_env env d)) (JObj payload))), (''task_input'', JObj payload),
          (''workspace'', de_dump_workspace env ws),
          (''runtime_context'', if json_is_obj (get_json payload ''runtime_context'')
                                then get_json payload ''runtime_context'' else JObj []),
          (''timeout_s'', JInt (trunc (timeout_seconds t))),
          (''token_budget'', jopt JInt (ts_token_budget t))])"

definition wait_connected :: "daemon_env \<Rightarrow> string \<Rightarrow> (daemon, bool) eff" where
  "wait_connected env name = eff_then (await env) (eff_get (\<lambda>d. eff_return (de_connected env (dn_tick d) name)))"

definition send_event :: "daemon_env \<Rightarrow> string \<Rightarrow> jdict \<Rightarrow> (daemon, bool) eff" where
  "send_event env name event =
     eff_then (eff_modify (\<lambda>d. d\<lparr>dn_sent := dn_sent d @ [(name, event)]\<rparr>))
       (eff_then (await env) (eff_get (\<lambda>d. eff_return (de_sent env (dn_tick d) name))))"

definition connect :: "daemon_env \<Rightarrow> string \<Rightarrow> string \<Rightarrow> (daemon, unit) eff" where
  "connect env i name =
     eff_bind (wait_connected env name) (\<lambda>ok.
       if ok then eff_return ()
       else eff_get (\<lambda>d.
         if map_of (dn_workers d) name \<noteq> None \<and> de_exited env (dn_tick d) name
         then eff_raise (RuntimeError ''agent worker crashed'')
         else eff_then (record_trace_event env i ''worker.restart_for_connect_timeout'' [(''agent_name'', JStr name)])
           (eff_then (ensure_worker_started env name)
             (eff_bind (wait_connected env name) (\<lambda>ok.
               if ok then eff_return () else eff_raise (RuntimeError ''agent worker not connected''))))))"

definition check_lease :: "daemon_env \<Rightarrow> string \<Rightarrow> string \<Rightarrow> ResourceLease \<Rightarrow> (daemon, unit) eff" where
  "check_lease env i lid lease =
     eff_then (record_trace_event env i ''resource.monitor'' [(''lease_id'', JStr lid)])
       (eff_get (\<lambda>d. case monitor_lease (de_load env (dn_tick d)) lease (dn_monitor d) of (ok, reason) \<Rightarrow>
          if ok then eff_return () else eff_raise (RuntimeError (''resource limit exceeded: '' @ reason))))"

definition finish :: "daemon_env \<Rightarrow> string \<Rightarrow> string \<Rightarrow> jdict option \<Rightarrow> string \<Rightarrow> jdict option \<Rightarrow> (daemon, unit) eff" where
  "finish env i aid result failure_reason usage =
     eff_modify (\<lambda>d. put_task i (finish_attempt (dnow env d) aid result failure_reason usage) d)"

definition release_stored :: "daemon_env \<Rightarrow> string \<Rightarrow> string \<Rightarrow> (daemon, unit) eff" where
  "release_stored env i reason =
     eff_modify (\<lambda>d. put_store (release_leases_for_task (dnow env d) (de_stamp env) i reason) d)"

text \<open>\<open>await resource_monitor.reclaim_async(..)\<close>: the lock is awaited, the rest is one step.\<close>

definition reclaim_async :: "daemon_env \<Rightarrow> string \<Rightarrow> string \<Rightarrow> (daemon, unit) eff" where
  "reclaim_async env i reason =
     eff_then (await env) (eff_modify (\<lambda>d. put_monitor (reclaim (dnow env d) i reason) d))"

definition release_async :: "daemon_env \<Rightarrow> string \<Rightarrow> (daemon, unit) eff" where
  "release_async env i =
     eff_then (await env) (eff_modify (\<lambda>d. put_monitor (release (dnow env d) (RelKey i)) d))"

definition on_timeout :: "daemon_env \<Rightarrow> string \<Rightarrow> string \<Rightarrow> string \<Rightarrow> (daemon, json) eff" where
  "on_timeout env i name aid =
     eff_then (eff_seq
       [finish env i aid None ''task timeout'' None,
        eff_modify (put_attempt i aid (\<lambda>a. a\<lparr>at_status := ''TIMEOUT''\<rparr>)),
        persist env i,
        task_transition env i TS_TIMEOUT ''task.timeout'',
        eff_get (\<lambda>d. record_trace_event env i ''task.timeout'' [(''timeout_s'', JFloat (timeout_seconds (dn_task d i)))]),
        eff_then (send_event env name [(''type'', JStr ''cancel_task''), (''task_id'', JStr i),
            (''attempt_id'', JStr aid), (''reason'', JStr ''timeout'')]) (eff_return ()),
        record_trace_event env i ''task.cancel'' [(''agent_name'', JStr name), (''attempt_id'', JStr aid)],
        await env,
        record_trace_event env i ''worker.kill'' [(''agent_name'', JStr name), (''attempt_id'', JStr aid)],
        reclaim_async env i ''task timeout'',
        release_stored env i ''task timeout'',
        record_trace_event env i ''lease.reclaim'' [(''reason'', JStr ''task timeout'')]])
       (eff_raise (RuntimeError ''task timeout''))"

section \<open>The result of an attempt\<close>

definition sum_bind :: "py_error + 'a \<Rightarrow> ('a \<Rightarrow> py_error + 'b) \<Rightarrow> py_error + 'b" where
  "sum_bind r f = (case r of Inl e \<Rightarrow> Inl e | Inr x \<Rightarrow> f x)"

fun py_float :: "(string \<Rightarrow> py_error + rat) \<Rightarrow> json \<Rightarrow> py_error + rat" where
  "py_float float_of_str (JBool b) = Inr (if b then 1 else 0)"
| "py_float float_of_str (JInt i) = Inr (of_int i)"
| "py_float float_of_str (JFloat x) = Inr x"
| "py_float float_of_str (JStr s) = float_of_str s"
| "py_float float_of_str _ = Inl (TypeError ''float() argument must be a string or a number'')"

text \<open>\<open>int(usage.get(k) or 0)\<close>; a failing conversion leaves the totals counted before it.\<close>

definition add_tokens ::
    "daemon_env \<Rightarrow> jdict \<Rightarrow> string \<Rightarrow> (int \<Rightarrow> usage_totals \<Rightarrow> usage_totals) \<Rightarrow> (daemon, unit) eff" where
  "add_tokens env usage key add =
     eff_bind (eff_lift (py_int (de_int_of_str env) (json_or [get_json usage key] (JInt 0)))) (\<lambda>n.
       eff_modify (\<lambda>d. d\<lparr>dn_usage := add n (dn_usage d)\<rparr>))"

definition record_llm_usage :: "daemon_env \<Rightarrow> string \<Rightarrow> jdict \<Rightarrow> (daemon, unit) eff" where
  "record_llm_usage env i usage =
     eff_when (usage \<noteq> []) (eff_seq
       [eff_modify (put_task i (\<lambda>t. t\<lparr>ts_llm_usage := usage\<rparr>)),
        add_tokens env usage ''input_tokens'' (\<lambda>n u. u\<lparr>ut_input_tokens := ut_input_tokens u + n\<rparr>),
        add_tokens env usage ''output_tokens'' (\<lambda>n u. u\<lparr>ut_output_tokens := ut_output_tokens u + n\<rparr>),
        add_tokens env usage ''total_tokens'' (\<lambda>n u. u\<lparr>ut_total_tokens := ut_total_tokens u + n\<rparr>),
        eff_bind (eff_lift (py_float (de_float_of_str env) (json_or [get_json usage ''latency_ms''] (JFloat 0)))) (\<lambda>x.
          eff_modify (\<lambda>d. d\<lparr>dn_usage := (dn_usage d)\<lparr>ut_latency_ms := ut_latency_ms (dn_usage d) + x\<rparr>\<rparr>)),
        eff_modify (\<lambda>d. d\<lparr>dn_usage := (dn_usage d)\<lparr>ut_calls := Suc (ut_calls (dn_usage d))\<rparr>\<rparr>),
        eff_when (get_truthy usage ''logical_context_reuse_hit'' \<or> get_truthy usage ''prefix_cache_hit'')
          (eff_modify (\<lambda>d. d\<lparr>dn_usage := (dn_usage d)\<lparr>ut_prefix_hits := Suc (ut_prefix_hits (dn_usage d)),
             ut_reuse_hits := Suc (ut_reuse_hits (dn_usage d))\<rparr>\<rparr>))])"

text \<open>\<open>[ArtifactReference(**item) for item in artifacts_data if isinstance(item, dict)]\<close>.\<close>

fun read_artifacts :: "daemon_env \<Rightarrow> json list \<Rightarrow> py_error + ArtifactReference list" where
  "read_artifacts env [] = Inr []"
| "read_artifacts env (JObj d # rest) =
     sum_bind (de_artifact env d) (\<lambda>a. sum_bind (read_artifacts env rest) (\<lambda>as. Inr (a # as)))"
| "read_artifacts env (_ # rest) = read_artifacts env rest"

definition dict_or_empty :: "json \<Rightarrow> jdict" where
  "dict_or_empty v = (case v of JObj d \<Rightarrow> d | _ \<Rightarrow> [])"

definition account_usage :: "daemon_env \<Rightarrow> string \<Rightarrow> string \<Rightarrow> jdict \<Rightarrow> jdict \<Rightarrow> (daemon, unit) eff" where
  "account_usage env i aid result usage =
     (let backend = json_or [get_json result ''backend_type''] (JStr []); code = get_json result ''exit_code''
      in eff_seq
           [record_llm_usage env i usage,
            record_trace_event env i ''llm.call'' usage,
            eff_modify (put_attempt i aid (\<lambda>a. a\<lparr>at_token_usage := usage\<rparr>)),
            eff_get (\<lambda>d. eff_when (truthy backend)
              (eff_modify (put_attempt i aid (\<lambda>a. a\<lparr>at_backend_type := py_str (ke_repr (kernel_env env d)) backend\<rparr>)))),
            eff_when (code \<noteq> JNull) (eff_bind (eff_lift (py_int (de_int_of_str env) code)) (\<lambda>n.
              eff_modify (put_attempt i aid (\<lambda>a. a\<lparr>at_exit_code := Some n\<rparr>)))),
            eff_bind (eff_lift (sum_bind (json_iter (json_or [get_json result ''artifacts''] (JList [])))
                (read_artifacts env))) (\<lambda>as. eff_modify (put_attempt i aid (\<lambda>a. a\<lparr>at_artifacts := as\<rparr>))),
            persist env i])"

definition store_patch :: "daemon_env \<Rightarrow> string \<Rightarrow> string \<Rightarrow> WorkspaceSpec \<Rightarrow> (daemon, unit) eff" where
  "store_patch env i aid ws =
     eff_get (\<lambda>d. eff_bind (eff_lift (de_patch env (dn_tick d) ws i aid)) (\<lambda>p. case p of
         None \<Rightarrow> eff_raise (RuntimeError ''codex task produced empty patch'')
       | Some art \<Rightarrow> eff_then (eff_modify (put_attempt i aid (\<lambda>a. a\<lparr>at_artifacts := at_artifacts a @ [art]\<rparr>)))
           (eff_modify (put_store (save_artifact (root_or_self (dn_task d i)) art)))))"

definition finish_span_of :: "daemon_env \<Rightarrow> string \<Rightarrow> string \<Rightarrow> string \<Rightarrow> (daemon, unit) eff" where
  "finish_span_of env i sid status = eff_modify (\<lambda>d. put_traces (finish_span (dnow env d) i sid status) d)"

definition on_result ::
    "daemon_env \<Rightarrow> string \<Rightarrow> AgentSpec \<Rightarrow> string \<Rightarrow> string \<Rightarrow> WorkspaceSpec \<Rightarrow> jdict \<Rightarrow> (daemon, json) eff" where
  "on_result env i agent aid sid ws result =
     (let output = json_or [get_json result ''output''] (JStr []);
          error = json_or [get_json result ''error''] (JStr []);
          usage = json_or [get_json result ''usage''] (JObj []);
          text = json_or [error, output] (JStr ''worker error'')
      in eff_then (eff_when (json_is_obj usage) (account_usage env i aid result (dict_or_empty usage)))
           (eff_get (\<lambda>d.
              if get_json result ''status'' = JStr ''SUCCESS''
              then eff_then (eff_seq
                [eff_when (backend_for_task (dn_task d i) agent = CODEX_CLI \<and> role_of (dn_task d i) \<in> {''coder'', ''repair''})
                   (store_patch env i aid ws),
                 finish env i aid (Some [(''output'', output)]) [] (Some (dict_or_empty usage)),
                 persist env i,
                 finish_span_of env i sid ''success'']) (eff_return output)
              else let msg = py_str (ke_repr (kernel_env env d)) text
                in eff_then (eff_seq
                  [finish env i aid (Some [(''output'', output)]) msg (Some (dict_or_empty usage)), persist env i])
                  (eff_raise (RuntimeError msg)))))"

definition once_body ::
    "daemon_env \<Rightarrow> string \<Rightarrow> AgentSpec \<Rightarrow> string \<Rightarrow> jdict \<Rightarrow> string \<times> ResourceLease \<Rightarrow> string \<Rightarrow> string \<Rightarrow> (daemon, json) eff" where
  "once_body env i agent name payload lease aid sid =
     eff_then (eff_seq
       [eff_modify (\<lambda>d. put_traces (span_event (dnow env d) i sid ''agent.dispatch'' [(''agent_name'', JStr name)]) d),
        record_trace_event env i ''ipc.wait_connected'' [(''agent_name'', JStr name)],
        connect env i name,
        check_lease env i (fst lease) (snd lease)])
       (eff_bind (workspace_for_attempt env i aid agent) (\<lambda>ws.
         eff_then (eff_then (persist env i) (record_trace_event env i ''ipc.send_task'' [(''agent_name'', JStr name)]))
           (eff_get (\<lambda>d. eff_bind (send_event env name (exec_event env d i aid agent payload ws)) (\<lambda>sent.
             if \<not> sent then eff_raise (RuntimeError ''failed to send exec_task'')
             else eff_then (await env) (eff_get (\<lambda>d. case map_of (dn_pending d) i of
                 Some (a, Some result) \<Rightarrow> on_result env i agent aid sid ws result
               | _ \<Rightarrow> on_timeout env i name aid)))))))"

definition run_task_once ::
    "daemon_env \<Rightarrow> string \<Rightarrow> AgentSpec \<Rightarrow> string \<Rightarrow> jdict \<Rightarrow> string \<times> ResourceLease \<Rightarrow> string \<Rightarrow> (daemon, json) eff" where
  "run_task_once env i agent name payload lease aid =
     eff_then (eff_modify (\<lambda>d. d\<lparr>dn_pending := dict_set i (aid, None) (dn_pending d)\<rparr>))
       (eff_get (\<lambda>d. case start_span (dnow env d) (ts_trace_id (dn_task d i)) i ''agent.execute'' name (wk_traces (dn_wf d)) of
          (tr, sid) \<Rightarrow> eff_then (eff_modify (put_traces (\<lambda>_. tr)))
            (eff_finally
               (eff_try (once_body env i agent name payload lease aid sid) (\<lambda>e. eff_then (eff_seq
                  [eff_get (\<lambda>d. eff_when (attempt_open d i aid)
                     (eff_then (finish env i aid None ''worker error'' None) (persist env i))),
                   finish_span_of env i sid ''failed'']) (eff_raise e)))
               (eff_modify (\<lambda>d. d\<lparr>dn_pending := dict_pop i (dn_pending d)\<rparr>)))))"

end
