(* ===== verification/Daemon_Policy.thy ===== *)
theory Daemon_Policy
  imports Daemon_Execution
begin

text \<open>
  \<open>aruntime/daemon/main.py\<close>: the attempts a failure policy allows, the fallback agent, and what
  \<open>_execute_task\<close> does around them. The scheduling loop starts one such execution per dispatched task;
  the executions interleave at their awaits.
\<close>

section \<open>Recovery of a failed attempt\<close>

definition recovery_json :: "daemon_env \<Rightarrow> TaskAttempt \<Rightarrow> string \<Rightarrow> ArtifactReference option \<Rightarrow> json" where
  "recovery_json env a failure_reason patch =
     JObj [(''previous_attempt_id'', JStr (at_attempt_id a)), (''previous_agent'', JStr (at_agent_name a)),
           (''failure_reason'', JStr failure_reason), (''completed_events'', JList []),
           (''partial_patch'', jopt (de_dump_artifact env) patch),
           (''changed_files'', case patch of
              Some p \<Rightarrow> json_or [get_json (ar_metadata p) ''changed_files''] (JList [])
            | None \<Rightarrow> JList []),
           (''shared_context_version'', JNull)]"

text \<open>The patch left in the workspace of the attempt; every exception on the way means there is none.\<close>

definition partial_patch :: "daemon_env \<Rightarrow> daemon \<Rightarrow> string \<Rightarrow> TaskAttempt \<Rightarrow> ArtifactReference option" where
  "partial_patch env d i a =
     (case (filled_or (at_workspace_path a) None, filled_or (at_base_commit a) None) of
        (Some path, Some commit) \<Rightarrow>
          (case de_patch env (dn_tick d)
             ((new_workspace (case ts_workspace (dn_task d i) of Some ws \<Rightarrow> ws_source_repo ws | None \<Rightarrow> path) ''HEAD'' False)
                \<lparr>ws_workspace_path := Some path, ws_base_commit := Some commit\<rparr>) i (at_attempt_id a) of
             Inl e \<Rightarrow> None
           | Inr p \<Rightarrow> p)
      | _ \<Rightarrow> None)"

definition record_recovery_context :: "daemon_env \<Rightarrow> string \<Rightarrow> string \<Rightarrow> string \<Rightarrow> (daemon, unit) eff" where
  "record_recovery_context env i aid failure_reason =
     eff_get (\<lambda>d. case (filled_or (ts_context_id (dn_task d i)) None, attempt_of d i aid) of
         (Some cid, Some a) \<Rightarrow>
           (let patch = partial_patch env d i a
            in eff_then (case patch of
                 None \<Rightarrow> eff_return ()
               | Some p \<Rightarrow> eff_then (eff_modify (put_attempt i aid (\<lambda>a. a\<lparr>at_artifacts := at_artifacts a @ [p]\<rparr>)))
                   (eff_modify (put_store (save_artifact (root_or_self (dn_task d i)) p))))
               (\<lambda>d. case record_task_context (de_ctx env (dn_tick d)) cid (at_agent_name a) [] None
                      [(''recovery:'' @ aid, recovery_json env a failure_reason patch)] (dn_contexts d) of
                  (m, Inl e) \<Rightarrow> (d\<lparr>dn_contexts := m\<rparr>, Inl e)
                | (m, Inr c) \<Rightarrow> (d\<lparr>dn_contexts := m\<rparr>, Inr ())))
       | _ \<Rightarrow> eff_return ())"

text \<open>\<open>test_cfg.pop("crash_worker", None)\<close> where the task input has a test configuration.\<close>

definition drop_crash_flag :: "jdict \<Rightarrow> jdict" where
  "drop_crash_flag input =
     (case get_json input ''__test'' of
        JObj cfg \<Rightarrow> dict_set ''__test'' (JObj (dict_pop ''crash_worker'' cfg)) input
      | _ \<Rightarrow> input)"

definition new_attempt :: "daemon_env \<Rightarrow> string \<Rightarrow> string \<Rightarrow> (daemon, string) eff" where
  "new_attempt env i name =
     eff_get (\<lambda>d. case create_attempt (dnow env d) name (map_of (dn_workers d) name) (dn_task d i) of
       (t, a) \<Rightarrow> eff_then (eff_modify (put_task i (\<lambda>_. t))) (eff_return (at_attempt_id a)))"

definition inc_inflight :: "string option \<Rightarrow> daemon \<Rightarrow> daemon" where
  "inc_inflight name d = d\<lparr>dn_inflight := dict_set name (dict_get (dn_inflight d) name 0 + 1) (dn_inflight d)\<rparr>"

definition dec_inflight :: "string option \<Rightarrow> daemon \<Rightarrow> daemon" where
  "dec_inflight name d = d\<lparr>dn_inflight := dict_set name (max (dict_get (dn_inflight d) name 0 - 1) 0) (dn_inflight d)\<rparr>"

definition quoted :: "string \<Rightarrow> string" where
  "quoted s = CHR 0x27 # s @ [CHR 0x27]"

definition prepare_fallback_attempt :: "daemon_env \<Rightarrow> string \<Rightarrow> string \<Rightarrow> (daemon, string option) eff" where
  "prepare_fallback_attempt env i fallback_agent =
     eff_get (\<lambda>d0. if map_of (dn_agents d0) fallback_agent = None
       then eff_then (set_task_error i (''fallback agent '' @ quoted fallback_agent @ '' not found'')) (eff_return None)
       else eff_then (eff_modify (put_task i (\<lambda>t. t\<lparr>ts_task_input := drop_crash_flag (ts_task_input t)\<rparr>)))
         (eff_bind (new_attempt env i fallback_agent) (\<lambda>aid.
           eff_get (\<lambda>d.
             let t = dn_task d i; n = length (ts_attempts t);
                 previous = (if n \<ge> 2 then Some (at_attempt_id (ts_attempts t ! (n - 2))) else None)
             in eff_then (eff_seq
               [(case previous of
                   None \<Rightarrow> eff_return ()
                 | Some p \<Rightarrow> eff_modify (put_attempt i aid (\<lambda>a. a\<lparr>at_resumed_from_attempt := Some p,
                               at_recovery_context_id := ts_context_id t\<rparr>))),
                eff_modify (put_task i (\<lambda>t. t\<lparr>ts_scheduler_decision_reason :=
                  ''fallback:'' @ name_str (ts_agent_name t) @ ''->'' @ fallback_agent\<rparr>)),
                eff_modify (inc_inflight (Some fallback_agent)),
                eff_modify (\<lambda>d. put_fault (name_str (ts_agent_name t))
                  (record_fallback (de_stamp env) (dnow env d) i (name_str (ts_agent_name t)) fallback_agent aid) d),
                persist env i]) (eff_return (Some aid))))))"

section \<open>Attempts\<close>

text \<open>\<open>_cgroup_ready\<close>, the lease, and one run under it: the body of both \<open>try\<close> blocks.\<close>

definition lease_and_run ::
    "daemon_env \<Rightarrow> string \<Rightarrow> AgentSpec \<Rightarrow> string \<Rightarrow> jdict \<Rightarrow> string \<Rightarrow> (daemon, json) eff" where
  "lease_and_run env i agent name payload aid =
     eff_get (\<lambda>d. case acquire (de_load env (dn_tick d)) (dnow env d) (de_fresh env (dn_tick d)) i name
                          (resource_request_for_task (dn_task d i) agent) (dn_monitor d) of
         (m, None) \<Rightarrow> eff_then (eff_modify (\<lambda>d. d\<lparr>dn_monitor := m\<rparr>))
                        (eff_raise (RuntimeError ''resource lease not available''))
       | (m, Some lid) \<Rightarrow>
           (let lease = new_lease i name (resource_request_for_task (dn_task d i) agent) (dnow env d)
            in eff_then (eff_seq
              [eff_modify (\<lambda>d. d\<lparr>dn_monitor := m\<rparr>),
               eff_modify (put_task i (set_resource_lease (Some (lease_to_dict (de_stamp env) lid lease)))),
               eff_modify (\<lambda>d. put_store (save_lease (dnow env d) (de_stamp env) lid lease) d),
               persist env i])
              (run_task_once env i agent name payload (lid, lease) aid)))"

definition attempt_body ::
    "daemon_env \<Rightarrow> string \<Rightarrow> AgentSpec \<Rightarrow> string \<Rightarrow> jdict \<Rightarrow> string \<Rightarrow> (daemon, json) eff" where
  "attempt_body env i agent name payload aid =
     eff_get (\<lambda>d. case cgroup_ready env (Some name) d of (ok, reason) \<Rightarrow>
       if \<not> ok then eff_raise (RuntimeError reason)
       else eff_then (record_trace_event env i ''resource.acquire'' [(''agent_name'', JStr name)])
         (eff_then (await env) (lease_and_run env i agent name payload aid)))"

definition build_payload :: "daemon_env \<Rightarrow> string \<Rightarrow> string \<Rightarrow> (daemon, jdict) eff" where
  "build_payload env i name =
     eff_get (\<lambda>d. case filled_or (ts_context_id (dn_task d i)) None of
         None \<Rightarrow> eff_return (dict_update [] (ts_task_input (dn_task d i)))
       | Some cid \<Rightarrow>
           eff_then (record_trace_event env i ''context.build'' [(''context_id'', JStr cid), (''agent_name'', JStr name)])
             (eff_get (\<lambda>d. case build_agent_context (de_ctx env (dn_tick d)) cid name (dn_contexts d) of
                (m, view) \<Rightarrow> eff_then (eff_modify (\<lambda>d. d\<lparr>dn_contexts := m\<rparr>))
                  (eff_return (dict_update [(''runtime_context'', JObj view)] (ts_task_input (dn_task d i)))))))"

definition resume_running :: "daemon_env \<Rightarrow> string \<Rightarrow> (daemon, unit) eff" where
  "resume_running env i =
     eff_get (\<lambda>d. if ts_status (dn_task d i) = TS_TIMEOUT
       then eff_then (task_transition env i TS_RETRYING ''task.retry'') (task_transition env i TS_RUNNING ''task.retry.dispatch'')
       else eff_when (ts_status (dn_task d i) = TS_RETRYING) (task_transition env i TS_RUNNING ''task.retry.dispatch''))"

definition close_attempt :: "daemon_env \<Rightarrow> string \<Rightarrow> string \<Rightarrow> string \<Rightarrow> (daemon, unit) eff" where
  "close_attempt env i aid err =
     eff_get (\<lambda>d. eff_when (attempt_open d i aid) (finish env i aid None err None))"

text \<open>
  The \<open>for\<close> loop over the attempts: \<open>n\<close> is the number of the attempt, \<open>k\<close> how many may follow it. \<open>Inr\<close> is
  the output of a successful attempt, \<open>Inl\<close> the last error.
\<close>

definition one_attempt :: "daemon_env \<Rightarrow> string \<Rightarrow> AgentSpec \<Rightarrow> string \<Rightarrow> jdict \<Rightarrow> nat \<Rightarrow> (daemon, string + json) eff" where
  "one_attempt env i agent name payload n =
     eff_then (resume_running env i)
       (eff_bind (new_attempt env i name) (\<lambda>aid.
         eff_then (persist env i)
           (eff_try (eff_bind (attempt_body env i agent name payload aid) (\<lambda>output. eff_return (Inr output)))
             (\<lambda>e. let err = de_str env e in eff_then (eff_seq
                [close_attempt env i aid err,
                 record_recovery_context env i aid err,
                 eff_modify (put_traces (increment_retry i)),
                 record_trace_event env i ''task.retry_or_reclaim'' [(''error'', JStr err), (''attempt'', JInt (int n))],
                 isolate_failed_worker env name i err,
                 reclaim_async env i err]) (eff_return (Inl err))))))"

fun attempt_loop :: "daemon_env \<Rightarrow> string \<Rightarrow> AgentSpec \<Rightarrow> string \<Rightarrow> jdict \<Rightarrow> nat \<Rightarrow> nat \<Rightarrow> (daemon, string + json) eff" where
  "attempt_loop env i agent name payload n 0 = one_attempt env i agent name payload n"
| "attempt_loop env i agent name payload n (Suc k) =
     eff_bind (one_attempt env i agent name payload n) (\<lambda>r. case r of
         Inl err \<Rightarrow> eff_then (await env) (attempt_loop env i agent name payload (Suc n) k)
       | Inr output \<Rightarrow> eff_return (Inr output))"

definition has_fallback :: "TaskSpec \<Rightarrow> string option" where
  "has_fallback t = (if fp_mode (ts_failure_policy t) = FALLBACK then filled_or (fp_fallback_agent (ts_failure_policy t)) None else None)"

definition fallback_run :: "daemon_env \<Rightarrow> string \<Rightarrow> AgentSpec \<Rightarrow> string \<Rightarrow> string \<Rightarrow> (daemon, string + json) eff" where
  "fallback_run env i agent fallback aid =
     eff_bind (build_payload env i fallback) (\<lambda>payload.
       eff_try (eff_bind (attempt_body env i agent fallback payload aid) (\<lambda>output. eff_return (Inr output)))
         (\<lambda>e. let err = de_str env e in eff_then (eff_seq
            [close_attempt env i aid err,
             record_recovery_context env i aid err,
             isolate_failed_worker env fallback i err,
             reclaim_async env i err]) (eff_return (Inl err))))"

definition fallback_attempt :: "daemon_env \<Rightarrow> string \<Rightarrow> string \<Rightarrow> string \<Rightarrow> (daemon, string + json) eff" where
  "fallback_attempt env i fallback aid =
     eff_then (record_trace_event env i ''task.fallback'' [(''fallback_agent'', JStr fallback)])
       (eff_get (\<lambda>d. case map_of (dn_agents d) fallback of
          None \<Rightarrow> eff_raise (KeyError fallback)
        | Some agent \<Rightarrow>
            eff_then (eff_seq
              [eff_when (ts_status (dn_task d i) = TS_FALLBACK) (task_transition env i TS_RUNNING ''task.fallback.dispatch''),
               eff_try (transition_agent env fallback AS_RUNNING (Some i) ''scheduler.fallback_dispatch'')
                 (\<lambda>e. case e of InvalidTransitionError x \<Rightarrow> eff_return () | _ \<Rightarrow> eff_raise e),
               ensure_worker_started env fallback])
              (fallback_run env i agent fallback aid)))"

definition run_fallback :: "daemon_env \<Rightarrow> string \<Rightarrow> string \<Rightarrow> string \<Rightarrow> (daemon, string + json) eff" where
  "run_fallback env i fallback err =
     eff_then (eff_get (\<lambda>d. eff_when (ts_status (dn_task d i) = TS_TIMEOUT) (task_transition env i TS_FALLBACK ''task.fallback'')))
       (eff_bind (prepare_fallback_attempt env i fallback) (\<lambda>attempt. case attempt of
          None \<Rightarrow> eff_return (Inl err)
        | Some aid \<Rightarrow> fallback_attempt env i fallback aid))"

definition max_attempts :: "TaskSpec \<Rightarrow> nat" where
  "max_attempts t = nat (max (fp_max_retries (ts_failure_policy t) + 1) 1)"

text \<open>What becomes of the last error. The answer: whether the task succeeded, with its output or the error.\<close>

definition policy_outcome :: "daemon_env \<Rightarrow> string \<Rightarrow> string + json \<Rightarrow> (daemon, bool \<times> json) eff" where
  "policy_outcome env i r =
     (case r of
        Inr output \<Rightarrow> eff_return (True, output)
      | Inl err \<Rightarrow> eff_get (\<lambda>d. case has_fallback (dn_task d i) of
            Some fallback \<Rightarrow>
              eff_bind (run_fallback env i fallback err) (\<lambda>r. case r of
                  Inr output \<Rightarrow> eff_return (True, output)
                | Inl err \<Rightarrow> eff_return (False, JStr (or_default err ''worker error'')))
          | None \<Rightarrow>
              if fp_mode (ts_failure_policy (dn_task d i)) = DEGRADE
              then eff_return (True, JStr (de_degraded_label env @ or_default err ''worker error''))
              else eff_return (False, JStr (or_default err ''worker error''))))"

definition run_task_with_policy :: "daemon_env \<Rightarrow> string \<Rightarrow> (daemon, bool \<times> json) eff" where
  "run_task_with_policy env i =
     eff_get (\<lambda>d. case (ts_agent_name (dn_task d i), agent_of d (ts_agent_name (dn_task d i))) of
         (Some name, Some agent) \<Rightarrow>
           eff_bind (build_payload env i name) (\<lambda>payload.
             eff_bind (attempt_loop env i agent name payload 0 (max_attempts (dn_task d i) - 1)) (policy_outcome env i))
       | (name, _) \<Rightarrow> eff_return (False, JStr (''agent '' @ quoted (name_str name) @ '' not found'')))"

section \<open>The whole execution\<close>

text \<open>The daemon's own clock is in UTC, so the offset of an aware deadline is all that matters.\<close>

definition deadline_passed :: "daemon_env \<Rightarrow> daemon \<Rightarrow> string \<Rightarrow> bool" where
  "deadline_passed env d i =
     (case ts_deadline (dn_task d i) of
        None \<Rightarrow> False
      | Some (DT us (Some offset)) \<Rightarrow> us - offset \<le> dnow env d
      | Some (DT us None) \<Rightarrow> us \<le> dnow env d)"

definition task_result_of :: "daemon \<Rightarrow> string \<Rightarrow> json \<Rightarrow> jdict" where
  "task_result_of d i output =
     [(''role'', JStr (case agent_of d (ts_agent_name (dn_task d i)) of Some a \<Rightarrow> ag_role a | None \<Rightarrow> [])), (''output'', output)]"

definition set_task_result :: "string \<Rightarrow> json \<Rightarrow> (daemon, unit) eff" where
  "set_task_result i output =
     eff_modify (\<lambda>d. put_task i (\<lambda>t. t\<lparr>ts_result := Some (task_result_of d i output)\<rparr>) d)"

definition finish_success :: "daemon_env \<Rightarrow> string \<Rightarrow> json \<Rightarrow> (daemon, unit) eff" where
  "finish_success env i output =
     eff_seq
       [task_transition env i TS_SUCCESS ''task.success'',
        set_task_result i output,
        eff_get (\<lambda>d. case ts_agent_name (dn_task d i) of
            None \<Rightarrow> eff_return ()
          | Some name \<Rightarrow> eff_when (agent_of d (Some name) \<noteq> None \<and> \<not> agent_in {AS_KILLED} (Some name) d) (eff_seq
              [eff_when (agent_in {AS_FAILED} (Some name) d) (recover_agent env name (Some i) ''task.recovered''),
               eff_get (\<lambda>d. eff_when (agent_in {AS_RUNNING} (Some name) d)
                 (transition_agent env name AS_COMPLETED (Some i) ''task.success''))])),
        eff_get (\<lambda>d. on_kernel (kernel_complete_task (kernel_env env d) i)),
        eff_get (\<lambda>d. record_trace_event env i ''task.success'' [(''agent_name'', JStr (name_str (ts_agent_name (dn_task d i))))]),
        persist env i,
        eff_get (\<lambda>d. eff_then (on_workflow (handle_task_success (workflow_env_of env d) i)) (eff_return ()))]"

definition finish_failure :: "daemon_env \<Rightarrow> string \<Rightarrow> json \<Rightarrow> (daemon, unit) eff" where
  "finish_failure env i err =
     eff_get (\<lambda>d. let text = py_str (ke_repr (kernel_env env d)) err
       in eff_seq
         [task_transition env i TS_FAILED ''task.failed'',
          set_task_error i text,
          eff_get (\<lambda>d. case ts_agent_name (dn_task d i) of
              None \<Rightarrow> eff_return ()
            | Some name \<Rightarrow> eff_when (agent_of d (Some name) \<noteq> None \<and> \<not> agent_in {AS_FAILED, AS_KILLED} (Some name) d)
                (transition_agent env name AS_FAILED (Some i) ''task.failed'')),
          eff_get (\<lambda>d. on_kernel (kernel_fail_task (kernel_env env d) i)),
          record_trace_event env i ''task.failed'' [(''error'', JStr text)],
          set_task_result i (JStr (de_error_label env @ text)),
          persist env i,
          eff_get (\<lambda>d. eff_then (on_workflow (handle_task_failure (workflow_env_of env d) i)) (eff_return ()))])"

definition execute_body :: "daemon_env \<Rightarrow> string \<Rightarrow> (daemon, unit) eff" where
  "execute_body env i =
     eff_get (\<lambda>d.
       if deadline_passed env d i
       then eff_seq
         [task_transition env i TS_CANCELLED ''deadline.expired'',
          set_task_error i ''deadline expired'',
          eff_get (\<lambda>d. on_kernel (kernel_fail_task (kernel_env env d) i)),
          record_trace_event env i ''task.cancelled'' [(''reason'', JStr ''deadline.expired'')],
          persist env i]
       else if agent_of d (ts_agent_name (dn_task d i)) = None
       then eff_then (task_transition env i TS_CANCELLED ''agent_missing'') (persist env i)
       else eff_then (prepare_agent_for_task env i ''scheduler.dispatch'')
         (eff_bind (run_task_with_policy env i) (\<lambda>(ok, output).
           eff_get (\<lambda>d.
             if ts_status (dn_task d i) = TS_CANCELLED then persist env i
             else if ok then finish_success env i output
             else finish_failure env i output))))"

definition execute_except :: "daemon_env \<Rightarrow> string \<Rightarrow> py_error \<Rightarrow> (daemon, unit) eff" where
  "execute_except env i e =
     eff_get (\<lambda>d.
       if ts_status (dn_task d i) = TS_CANCELLED then persist env i
       else let text = de_str env e
         in eff_seq
           [task_transition env i TS_FAILED ''task.exception'',
            set_task_error i text,
            eff_get (\<lambda>d. case ts_agent_name (dn_task d i) of
                None \<Rightarrow> eff_return ()
              | Some name \<Rightarrow> eff_when (agent_of d (Some name) \<noteq> None \<and> \<not> agent_in {AS_FAILED, AS_KILLED} (Some name) d)
                  (or_force_status name AS_FAILED (transition_agent env name AS_FAILED (Some i) ''task.exception''))),
            eff_get (\<lambda>d. on_kernel (kernel_fail_task (kernel_env env d) i)),
            record_trace_event env i ''task.exception'' [(''error'', JStr text)],
            set_task_result i (JStr (de_error_label env @ text)),
            persist env i])"

definition execute_finally :: "daemon_env \<Rightarrow> string \<Rightarrow> string option \<Rightarrow> (daemon, unit) eff" where
  "execute_finally env i original_agent =
     eff_seq
       [release_async env i,
        release_stored env i ''task.finished'',
        record_trace_event env i ''resource.release'' [(''task_id'', JStr i)],
        eff_modify (\<lambda>d. put_task i (\<lambda>t. t\<lparr>ts_resource_usage := usage_to_dict (rm_usage (dn_monitor d))\<rparr>) d),
        persist env i,
        eff_modify (dec_inflight original_agent),
        eff_get (\<lambda>d. eff_for (ts_attempts (dn_task d i)) (\<lambda>a.
          eff_when (Some (at_agent_name a) \<noteq> original_agent)
            (eff_then (eff_modify (dec_inflight (Some (at_agent_name a))))
              (set_agent_task env (Some (at_agent_name a)) None)))),
        eff_get (\<lambda>d. set_agent_task env (ts_agent_name (dn_task d i)) None)]"

definition execute_task :: "daemon_env \<Rightarrow> string \<Rightarrow> (daemon, unit) eff" where
  "execute_task env i =
     eff_get (\<lambda>d. eff_finally (eff_try (execute_body env i) (execute_except env i))
       (execute_finally env i (ts_agent_name (dn_task d i))))"

end
