(* ===== verification/Daemon_Requests.thy ===== *)
theory Daemon_Requests
  imports Daemon_Policy
begin

text \<open>
  \<open>aruntime/daemon/main.py\<close>: the requests that change the daemon's state (agents created, killed and
  restarted; tasks submitted, spawned, linked and cancelled), the messages of the workers, the
  dispatch of the scheduling loop, one round of the worker monitor, and what a start recovers from
  the store. A handler without an await is one step.
\<close>

section \<open>Requests\<close>

text \<open>
  The fields of the request classes; \<open>rq_policy_given\<close> says whether the caller gave a failure policy
  (\<open>"failure_policy" in model_fields_set\<close>).
\<close>

record task_request =
  rq_agent_name :: "string option"
  rq_task_input :: jdict
  rq_context_id :: string
  rq_priority :: int
  rq_resource_request :: jdict
  rq_required_capability :: jdict
  rq_timeout_ms :: "int option"
  rq_task_role :: string
  rq_required_backend :: "AgentBackendType option"
  rq_workspace :: "WorkspaceSpec option"
  rq_dependency_failure_policies :: "FailureMode dict"
  rq_on_failure :: "FailureMode dict"
  rq_failure_policy :: FailurePolicy
  rq_policy_given :: bool

record submit_fields = task_request +
  rq_deadline :: "py_datetime option"
  rq_token_budget :: "int option"
  rq_timeout :: "rat option"
  rq_parent_task_id :: string
  rq_root_task_id :: string
  rq_trace_id :: string
  rq_idempotency_key :: "string option"
  rq_side_effect_level :: SideEffectLevel
  rq_compensation :: jdict

record SubmitTaskRequest = submit_fields +
  rq_children :: "string list"
  rq_dependencies :: "string list"

type_synonym SubmitDynamicTaskRequest = submit_fields

record SpawnTaskRequest = task_request +
  rs_dependencies :: "string list"
  rs_inherit_context :: bool

record CreateAgentRequest =
  ca_agent_name :: string
  ca_role :: string
  ca_system_prompt :: string
  ca_model :: string
  ca_capability :: AgentCapability
  ca_backend :: AgentBackendConfig
  ca_failure_policy :: FailurePolicy
  ca_max_retries :: int
  ca_restart_budget :: int
  ca_fault_domain :: string
  ca_memory_max_bytes :: "int option"
  ca_memory_high_bytes :: "int option"
  ca_cpu_max :: string
  ca_pids_max :: "int option"

definition or_none :: "string \<Rightarrow> string option" where
  "or_none s = (if s = [] then None else Some s)"

section \<open>Agents\<close>

definition agent_from_request :: "usec \<Rightarrow> CreateAgentRequest \<Rightarrow> AgentSpec" where
  "agent_from_request now r =
     (new_agent (ca_agent_name r) (ca_role r) now)
       \<lparr>ag_system_prompt := ca_system_prompt r, ag_model := ca_model r, ag_capability := ca_capability r,
        ag_backend := ca_backend r, ag_failure_policy := ca_failure_policy r, ag_max_retries := ca_max_retries r,
        ag_restart_budget := ca_restart_budget r, ag_fault_domain := or_none (ca_fault_domain r),
        ag_memory_max_bytes := ca_memory_max_bytes r, ag_memory_high_bytes := ca_memory_high_bytes r,
        ag_cpu_max := or_none (ca_cpu_max r), ag_pids_max := ca_pids_max r\<rparr>"

definition register_agent :: "daemon_env \<Rightarrow> AgentSpec \<Rightarrow> daemon \<Rightarrow> daemon" where
  "register_agent env agent d =
     (let name = ag_agent_name agent
      in d\<lparr>dn_agents := dict_set name agent (dn_agents d),
           dn_acbs := dict_set name (from_agent_spec (dnow env d) (''trace_'' @ de_fresh env (dn_tick d)) agent) (dn_acbs d),
           dn_faults := dict_set name (new_fault_state name name) (dn_faults d)\<rparr>)"

definition forget_agent :: "string \<Rightarrow> daemon \<Rightarrow> daemon" where
  "forget_agent name d =
     d\<lparr>dn_agents := dict_pop name (dn_agents d), dn_acbs := dict_pop name (dn_acbs d),
       dn_faults := dict_pop name (dn_faults d), dn_tokens := dict_pop name (dn_tokens d),
       dn_cgroups := dict_pop name (dn_cgroups d)\<rparr>"

definition create_agent :: "daemon_env \<Rightarrow> CreateAgentRequest \<Rightarrow> (daemon, unit) eff" where
  "create_agent env r =
     eff_get (\<lambda>d. let name = ca_agent_name r in
       if map_of (dn_agents d) name \<noteq> None then eff_raise (HTTPException 400 name)
       else eff_seq
         [eff_modify (register_agent env (agent_from_request (dnow env d) r)),
          eff_try (start_worker env name)
            (\<lambda>e. eff_then (eff_modify (forget_agent name)) (eff_raise (HTTPException 503 (de_str env e)))),
          transition_agent env name AS_READY None ''agent.created'',
          eff_modify (persist_agent env name)])"

definition kill_agent :: "daemon_env \<Rightarrow> string \<Rightarrow> (daemon, unit) eff" where
  "kill_agent env name =
     eff_get (\<lambda>d. if map_of (dn_agents d) name = None then eff_raise (HTTPException 404 name)
       else eff_seq
         [stop_worker env name True,
          eff_get (\<lambda>d. eff_when (\<not> agent_in {AS_KILLED} (Some name) d)
            (eff_try (transition_agent env name AS_KILLED None ''agent.kill'')
              (\<lambda>e. eff_modify (\<lambda>d. put_acb name (\<lambda>acb. record_event (dnow env d) ''agent.force_killed'' None [] []
                     (acb\<lparr>acb_status := AS_KILLED\<rparr>)) (put_agent name (\<lambda>a. a\<lparr>ag_status := AS_KILLED\<rparr>) d))))),
          eff_modify (\<lambda>d. d\<lparr>dn_inflight := dict_set (Some name) 0 (dn_inflight d)\<rparr>)])"

definition restart_agent :: "daemon_env \<Rightarrow> string \<Rightarrow> (daemon, unit) eff" where
  "restart_agent env name =
     eff_get (\<lambda>d. if map_of (dn_agents d) name = None then eff_raise (HTTPException 404 name)
       else if agent_in {AS_KILLED} (Some name) d then eff_raise (HTTPException 409 name)
       else eff_seq
         [stop_worker env name True,
          start_worker env name,
          eff_get (\<lambda>d. eff_when (agent_in {AS_COMPLETED, AS_FAILED, AS_WAITING} (Some name) d)
            (transition_agent env name AS_READY None ''agent.restart''))])"

section \<open>Tasks\<close>

definition select_agent_name :: "string option \<Rightarrow> jdict \<Rightarrow> daemon \<Rightarrow> py_error + string option" where
  "select_agent_name name required d =
     (case filled_or name None of
        Some a \<Rightarrow> Inr (Some a)
      | None \<Rightarrow>
          if required = [] then Inr None
          else (case matched_agents required (map snd (dn_agents d)) of
                  Inl e \<Rightarrow> Inl e
                | Inr [] \<Rightarrow> Inr None
                | Inr (a # rest) \<Rightarrow> Inr (Some (ag_agent_name (least_agent a rest)))))"

text \<open>The agent a request is for, or the answer 404.\<close>

definition require_agent :: "string option \<Rightarrow> jdict \<Rightarrow> (string \<Rightarrow> (daemon, 'a) eff) \<Rightarrow> (daemon, 'a) eff" where
  "require_agent name required f =
     eff_get (\<lambda>d. eff_bind (eff_lift (select_agent_name name required d)) (\<lambda>sel. case sel of
         None \<Rightarrow> eff_raise (HTTPException 404 [])
       | Some a \<Rightarrow> if map_of (dn_agents d) a = None then eff_raise (HTTPException 404 a) else f a))"

definition make_agent_usable :: "daemon_env \<Rightarrow> string \<Rightarrow> string \<Rightarrow> (daemon, unit) eff" where
  "make_agent_usable env name reason =
     eff_get (\<lambda>d. if agent_in {AS_KILLED, AS_SUSPENDED, AS_ISOLATED} (Some name) d then eff_raise (HTTPException 409 name)
       else if agent_in {AS_FAILED} (Some name) d then recover_agent env name None reason
       else eff_when (agent_in {AS_COMPLETED} (Some name) d) (mark_agent_ready_for_reuse env name None reason))"

definition require_tasks :: "string list \<Rightarrow> (daemon, unit) eff" where
  "require_tasks ids =
     eff_for ids (\<lambda>dep. eff_get (\<lambda>d. if dep \<in> set (wk_tasks (dn_wf d)) then eff_return () else eff_raise (HTTPException 404 dep)))"

definition obj_or_empty :: "jdict \<Rightarrow> string \<Rightarrow> jdict" where
  "obj_or_empty d k = dict_or_empty (get_json d k)"

definition record_submitted_context :: "daemon_env \<Rightarrow> string \<Rightarrow> string \<Rightarrow> jdict \<Rightarrow> (daemon, unit) eff" where
  "record_submitted_context env context_id name task_input =
     eff_when (context_id \<noteq> []) (\<lambda>d.
       let context = obj_or_empty task_input ''context'';
           readonly = dict_or_empty (dict_get context ''readonly'' (get_json context ''readonly_context''))
       in case record_task_context (de_ctx env (dn_tick d)) context_id name (obj_or_empty context ''shared'')
                 (Some (obj_or_empty context ''private'')) readonly (dn_contexts d) of
            (m, Inl e) \<Rightarrow> (d\<lparr>dn_contexts := m\<rparr>, Inl e)
          | (m, Inr c) \<Rightarrow> (d\<lparr>dn_contexts := m\<rparr>, Inr ()))"

definition edge_failure_policies :: "'a task_request_scheme \<Rightarrow> FailureMode dict" where
  "edge_failure_policies r = dict_update (rq_dependency_failure_policies r) (rq_on_failure r)"

text \<open>\<open>_make_task\<close> with the fields every request has; a failure policy counts only when it was given.\<close>

definition task_from_request ::
    "daemon_env \<Rightarrow> daemon \<Rightarrow> 'a task_request_scheme \<Rightarrow> string \<Rightarrow> string \<Rightarrow> string list \<Rightarrow> TaskSpec" where
  "task_from_request env d r name trace_id deps =
     (raw_task (''task_'' @ de_fresh env (dn_tick d)) (Some name) (rq_task_input r) deps
        (or_default trace_id (''trace_'' @ de_fresh env (dn_tick d))) (dnow env d))
       \<lparr>ts_priority := rq_priority r, ts_resource_request := rq_resource_request r,
        ts_required_capability := rq_required_capability r, ts_timeout_ms := rq_timeout_ms r,
        ts_task_role := or_none (rq_task_role r), ts_required_backend := rq_required_backend r,
        ts_workspace := rq_workspace r, ts_dependency_failure_policies := edge_failure_policies r,
        ts_failure_policy := (if rq_policy_given r then rq_failure_policy r else default_failure_policy),
        ts_failure_policy_set := rq_policy_given r\<rparr>"

definition task_from_submit :: "daemon_env \<Rightarrow> daemon \<Rightarrow> 'a submit_fields_scheme \<Rightarrow> string \<Rightarrow> string list \<Rightarrow> TaskSpec" where
  "task_from_submit env d r name deps =
     (task_from_request env d r name (rq_trace_id r) deps)
       \<lparr>ts_context_id := Some (rq_context_id r), ts_deadline := rq_deadline r, ts_token_budget := rq_token_budget r,
        ts_timeout := rq_timeout r, ts_parent_task_id := or_none (rq_parent_task_id r),
        ts_root_task_id := or_none (rq_root_task_id r), ts_idempotency_key := rq_idempotency_key r,
        ts_side_effect_level := rq_side_effect_level r, ts_compensation := rq_compensation r\<rparr>"

text \<open>
  The task enters the table, the recorder and the scheduler. The task object exists before
  \<open>enqueue\<close>; it becomes the scheduler's \<open>k_task\<close> entry where the source puts it in \<open>tasks\<close>.
\<close>

definition admit_task :: "daemon_env \<Rightarrow> TaskSpec \<Rightarrow> string \<Rightarrow> jdict \<Rightarrow> (daemon, unit) eff" where
  "admit_task env t event detail =
     (let i = ts_task_id t
      in eff_seq
           [eff_modify (\<lambda>d. put_task i (\<lambda>_. t) (d\<lparr>dn_wf := note_task i (dn_wf d)\<rparr>)),
            eff_modify (put_traces (\<lambda>r. fst (ensure_trace (ts_trace_id t) i r))),
            record_trace_event env i event detail])"

definition schedule_task :: "daemon_env \<Rightarrow> string \<Rightarrow> (daemon, unit) eff" where
  "schedule_task env i =
     eff_then (eff_get (\<lambda>d. on_kernel (kernel_enqueue (kernel_env env d) (dn_task d i))))
       (eff_get (\<lambda>d. record_trace_event env i ''scheduler.enqueue''
          [(''status'', JStr (task_status_value (ts_status (dn_task d i))))]))"

definition submit_task :: "daemon_env \<Rightarrow> SubmitTaskRequest \<Rightarrow> (daemon, string) eff" where
  "submit_task env r =
     require_agent (rq_agent_name r) (rq_required_capability r) (\<lambda>name.
       eff_then (eff_seq
         [make_agent_usable env name ''task.submit'',
          require_tasks (rq_dependencies r),
          record_submitted_context env (rq_context_id r) name (rq_task_input r),
          set_context_handle env name (or_none (rq_context_id r))])
         (eff_get (\<lambda>d.
           let t = model_post_init ((task_from_submit env d r name (rq_dependencies r))\<lparr>ts_children := rq_children r\<rparr>);
               i = ts_task_id t
           in eff_then (eff_seq
             [admit_task env t ''task.created'' [(''agent_name'', JStr name), (''required_capability'', JObj (rq_required_capability r))],
              schedule_task env i,
              eff_modify (inc_inflight (Some name)),
              persist env i]) (eff_return i))))"

definition submit_dynamic_task :: "daemon_env \<Rightarrow> SubmitDynamicTaskRequest \<Rightarrow> (daemon, string) eff" where
  "submit_dynamic_task env r =
     require_agent (rq_agent_name r) (rq_required_capability r) (\<lambda>name.
       eff_then (eff_seq
         [make_agent_usable env name ''task.dynamic_submit'',
          require_tasks (if rq_parent_task_id r = [] then [] else [rq_parent_task_id r]),
          record_submitted_context env (rq_context_id r) name (rq_task_input r),
          set_context_handle env name (or_none (rq_context_id r))])
         (eff_get (\<lambda>d.
           let t = model_post_init (task_from_submit env d r name (if rq_parent_task_id r = [] then [] else [rq_parent_task_id r]));
               i = ts_task_id t
           in eff_then (eff_seq
             [admit_task env t ''task.created'' [(''agent_name'', JStr name), (''parent_task_id'', JStr (rq_parent_task_id r))],
              schedule_task env i,
              eff_modify (inc_inflight (Some name)),
              persist env i]) (eff_return i))))"

text \<open>A dependency that failed, timed out or was cancelled and whose edge fails open.\<close>

definition open_failure :: "daemon \<Rightarrow> TaskSpec \<Rightarrow> string \<Rightarrow> bool" where
  "open_failure d child dep \<longleftrightarrow>
     ts_status (dn_task d dep) \<in> {TS_FAILED, TS_TIMEOUT, TS_CANCELLED} \<and>
     map_of (ts_dependency_failure_policies child) dep = Some FAIL_OPEN"

definition spawn_task :: "daemon_env \<Rightarrow> string \<Rightarrow> SpawnTaskRequest \<Rightarrow> (daemon, string) eff" where
  "spawn_task env task_id r =
     eff_get (\<lambda>d0. if task_id \<notin> set (wk_tasks (dn_wf d0)) then eff_raise (HTTPException 404 task_id)
       else require_agent (rq_agent_name r) (rq_required_capability r) (\<lambda>name.
         eff_then (require_tasks (rs_dependencies r))
           (eff_get (\<lambda>d.
             let parent = dn_task d task_id; deps = dedup (rs_dependencies r);
                 context_id = (if rq_context_id r \<noteq> [] then Some (rq_context_id r)
                               else if rs_inherit_context r then filled_or (ts_context_id parent) None else None);
                 child = model_post_init ((task_from_request env d r name (ts_trace_id parent) deps)
                   \<lparr>ts_context_id := context_id, ts_parent_task_id := Some task_id,
                    ts_root_task_id := Some (root_or_self parent),
                    ts_workspace := (case rq_workspace r of Some ws \<Rightarrow> Some ws | None \<Rightarrow> ts_workspace parent)\<rparr>);
                 i = ts_task_id child
             in eff_then (eff_seq
               [eff_modify (\<lambda>d. put_task i (\<lambda>_. child) (d\<lparr>dn_wf := note_task i (dn_wf d)\<rparr>)),
                eff_modify (put_task task_id (\<lambda>t. t\<lparr>ts_children := ts_children t @ [i]\<rparr>)),
                eff_modify (put_traces (\<lambda>tr. fst (ensure_trace (ts_trace_id child) i tr))),
                record_trace_event env i ''task.spawned'' [(''parent_task_id'', JStr task_id), (''dependencies'', JList (map JStr deps))],
                eff_get (\<lambda>d. eff_when (deps \<noteq> [] \<and> (\<forall>dep \<in> set deps. ts_status (dn_task d dep) = TS_SUCCESS \<or> open_failure d child dep))
                  (eff_then (eff_modify (put_task i (\<lambda>t. t\<lparr>ts_dependencies :=
                       filter (\<lambda>dep. \<not> open_failure d child dep) (ts_dependencies t)\<rparr>)))
                    (task_transition env i TS_READY ''dependencies_satisfied''))),
                schedule_task env i,
                persist env task_id,
                persist env i]) (eff_return i)))))"

definition add_task_dependencies :: "daemon_env \<Rightarrow> string \<Rightarrow> string list \<Rightarrow> (daemon, unit) eff" where
  "add_task_dependencies env i dependencies =
     eff_get (\<lambda>d. if i \<notin> set (wk_tasks (dn_wf d)) then eff_raise (HTTPException 404 i)
       else eff_seq
         [require_tasks dependencies,
          eff_get (\<lambda>d. eff_try (on_kernel (kernel_add_dependencies (kernel_env env d) i (dedup dependencies)))
            (\<lambda>e. case e of ValueError x \<Rightarrow> eff_raise (HTTPException 409 x) | _ \<Rightarrow> eff_raise e)),
          persist env i])"

definition cancel_runtime_task :: "daemon_env \<Rightarrow> string \<Rightarrow> string \<Rightarrow> (daemon, bool) eff" where
  "cancel_runtime_task env i reason =
     eff_get (\<lambda>d. if i \<notin> set (wk_tasks (dn_wf d)) then eff_return False
       else if ts_status (dn_task d i) \<in> {TS_SUCCESS, TS_FAILED, TS_TIMEOUT, TS_CANCELLED} then eff_return True
       else eff_then (eff_seq
         [task_transition env i TS_CANCELLED reason,
          set_task_error i ''cancelled'',
          eff_get (\<lambda>d. on_kernel (kernel_fail_task (kernel_env env d) i)),
          release_async env i,
          release_stored env i ''task.cancelled'',
          record_trace_event env i ''task.cancelled'' [(''reason'', JStr reason)],
          persist env i,
          eff_get (\<lambda>d. eff_modify (dec_inflight (ts_agent_name (dn_task d i)))),
          eff_get (\<lambda>d. set_agent_task env (ts_agent_name (dn_task d i)) None)]) (eff_return True))"

section \<open>The workers' messages\<close>

text \<open>\<open>str(data.get(k) or "")\<close>, stripped where the source strips it.\<close>

definition text_of :: "daemon_env \<Rightarrow> daemon \<Rightarrow> jdict \<Rightarrow> string \<Rightarrow> string" where
  "text_of env d data k = py_str (ke_repr (kernel_env env d)) (json_or [get_json data k] (JStr []))"

definition on_task_result :: "daemon_env \<Rightarrow> string \<Rightarrow> jdict \<Rightarrow> (daemon, unit) eff" where
  "on_task_result env agent_name data =
     eff_get (\<lambda>d. let i = str_strip (text_of env d data ''task_id''); result_id = text_of env d data ''attempt_id''
       in if i = [] \<or> i \<notin> set (wk_tasks (dn_wf d)) then eff_return ()
          else case map_of (dn_pending d) i of
            None \<Rightarrow> eff_return ()
          | Some (pending_id, res) \<Rightarrow>
              (case active_attempt (dn_task d i) of
                 None \<Rightarrow> record_trace_event env i ''task.late_result''
                   [(''result_attempt_id'', JStr result_id), (''active_attempt_id'', JNull)]
               | Some a \<Rightarrow>
                   if result_id \<noteq> at_attempt_id a
                   then record_trace_event env i ''task.late_result''
                     [(''result_attempt_id'', JStr result_id), (''active_attempt_id'', jopt JStr (or_none (at_attempt_id a)))]
                   else if res \<noteq> None
                   then record_trace_event env i ''task.late_result''
                     [(''result_attempt_id'', JStr result_id), (''reason'', JStr ''future_done'')]
                   else eff_modify (\<lambda>d. d\<lparr>dn_pending := dict_set i (pending_id, Some
                     [(''agent_name'', JStr agent_name), (''task_id'', JStr i), (''attempt_id'', JStr result_id),
                      (''status'', get_json data ''status''), (''output'', get_json data ''output''),
                      (''error'', get_json data ''error''), (''usage'', json_or [get_json data ''usage''] (JObj []))])
                     (dn_pending d)\<rparr>)))"

definition on_heartbeat :: "daemon_env \<Rightarrow> string \<Rightarrow> (daemon, unit) eff" where
  "on_heartbeat env name =
     eff_then (eff_modify (\<lambda>d. put_fault name (heartbeat (dnow env d)) d)) (eff_modify (persist_agent env name))"

definition backend_trace_name_and_detail :: "daemon_env \<Rightarrow> daemon \<Rightarrow> string \<Rightarrow> jdict \<Rightarrow> string \<times> jdict" where
  "backend_trace_name_and_detail env d agent_name data =
     (let detail = filter (\<lambda>(k, v). k \<noteq> ''type'') data;
          named = (\<lambda>m. case map_of m ''agent_name'' of None \<Rightarrow> dict_set ''agent_name'' (JStr agent_name) m | Some _ \<Rightarrow> m);
          plain = (\<lambda>m. (py_str (ke_repr (kernel_env env d)) (json_or [get_json data ''type''] (JStr ''backend_event'')), named m))
      in case get_json data ''event'' of
           JObj event \<Rightarrow>
             (let event_name = str_strip (text_of env d event ''name''); merged = named (dict_update detail event)
              in if event_name \<noteq> [] then (event_name, merged) else plain merged)
         | _ \<Rightarrow> plain detail)"

definition note_backend :: "daemon_env \<Rightarrow> string \<Rightarrow> string \<Rightarrow> jdict \<Rightarrow> (daemon, unit) eff" where
  "note_backend env i aid detail =
     eff_get (\<lambda>d. let str = py_str (ke_repr (kernel_env env d)); bt = get_json detail ''backend_type'';
           pid = get_json detail ''backend_pid''; session = get_json detail ''backend_session_id''
       in eff_seq
         [eff_when (truthy bt) (eff_modify (put_attempt i aid (\<lambda>a. a\<lparr>at_backend_type := str bt\<rparr>))),
          eff_when (pid \<noteq> JNull) (eff_bind (eff_lift (py_int (de_int_of_str env) pid)) (\<lambda>n.
            eff_modify (put_attempt i aid (\<lambda>a. a\<lparr>at_backend_pid := Some n\<rparr>)))),
          eff_when (truthy session) (eff_modify (put_attempt i aid (\<lambda>a. a\<lparr>at_backend_session_id := Some (str session)\<rparr>))),
          persist env i])"

definition on_backend_event :: "daemon_env \<Rightarrow> string \<Rightarrow> jdict \<Rightarrow> (daemon, unit) eff" where
  "on_backend_event env agent_name data =
     eff_get (\<lambda>d. let i = str_strip (text_of env d data ''task_id''); aid = str_strip (text_of env d data ''attempt_id'')
       in if i \<notin> set (wk_tasks (dn_wf d)) then eff_return ()
          else case backend_trace_name_and_detail env d agent_name data of (name, detail) \<Rightarrow>
            eff_then (eff_when (name \<in> {''backend.started'', ''backend_started''} \<and> attempt_of d i aid \<noteq> None)
              (note_backend env i aid detail)) (record_trace_event env i name detail))"

text \<open>The answer is the message the router is to acknowledge, if any.\<close>

definition on_agent_message_ack :: "daemon_env \<Rightarrow> string \<Rightarrow> jdict \<Rightarrow> (daemon, string option) eff" where
  "on_agent_message_ack env agent_name data =
     eff_get (\<lambda>d. let message_id = text_of env d data ''message_id'' in
       if message_id = [] then eff_return None
       else if processed_message_exists message_id agent_name (wk_store (dn_wf d)) then eff_return (Some message_id)
       else eff_then (eff_seq
         [eff_modify (\<lambda>d. put_store (save_processed_message (dnow env d) message_id agent_name ''processed''
            (text_of env d data ''generated_task_id'')) d),
          eff_get (\<lambda>d. case List.find (\<lambda>i. ts_agent_name (dn_task d i) = Some agent_name \<and> ts_status (dn_task d i) = TS_SUCCESS)
                             (wk_tasks (dn_wf d)) of
              None \<Rightarrow> eff_return ()
            | Some i \<Rightarrow> record_trace_event env i ''agent_message_ack''
                [(''message_id'', JStr message_id), (''agent_name'', JStr agent_name)])])
         (eff_return (Some message_id)))"

section \<open>The background loops and the start\<close>

definition dequeue_ready_batch :: "daemon_env \<Rightarrow> (daemon, string list) eff" where
  "dequeue_ready_batch env = eff_get (\<lambda>d. on_kernel (dispatch_ready (kernel_env env d) None))"

text \<open>One round of \<open>worker_monitor_loop\<close>; an exception ends the round.\<close>

definition monitor_worker :: "daemon_env \<Rightarrow> string \<Rightarrow> (daemon, unit) eff" where
  "monitor_worker env name =
     eff_get (\<lambda>d. if agent_in {AS_KILLED} (Some name) d \<or> map_of (dn_workers d) name = None then eff_return ()
       else eff_then (eff_modify (put_fault name id))
         (eff_get (\<lambda>d. let fault = dict_get (dn_faults d) name (new_fault_state name name);
               exited = de_exited env (dn_tick d) name;
               current = Option.bind (map_of (dn_agents d) name) ag_current_task_id
           in eff_when (exited \<or> heartbeat_stale (dnow env d) 10 fault) (eff_seq
             [(case filled_or current None of
                 None \<Rightarrow> eff_return ()
               | Some i \<Rightarrow> eff_when (i \<in> set (wk_tasks (dn_wf d))) (record_trace_event env i ''worker.lost''
                   [(''agent_name'', JStr name), (''reason'', JStr (if exited then ''proc_exit'' else ''heartbeat_stale''))])),
              stop_worker env name True,
              if can_restart (dnow env d) fault
              then eff_then (eff_modify (\<lambda>d. put_fault name (record_restart (dnow env d)) d)) (start_worker env name)
              else transition_agent env name AS_ISOLATED None ''fault.circuit_open'']))))"

definition worker_monitor_round :: "daemon_env \<Rightarrow> (daemon, unit) eff" where
  "worker_monitor_round env =
     eff_get (\<lambda>d. eff_try (eff_for (map fst (dn_agents d)) (monitor_worker env)) (\<lambda>e. eff_return ()))"

definition restored :: "agent_row \<Rightarrow> AgentSpec" where
  "restored row =
     (let a = ga_data row
      in if ag_status a \<in> {AS_KILLED, AS_READY, AS_CREATED} then a
         else a\<lparr>ag_status := AS_READY, ag_current_task_id := None\<rparr>)"

definition restore_agent :: "daemon_env \<Rightarrow> agent_row \<Rightarrow> daemon \<Rightarrow> daemon" where
  "restore_agent env row d =
     (let agent = restored row; name = ag_agent_name agent
      in (register_agent env agent d)\<lparr>dn_tokens := dict_set name (or_default (ga_auth_token row) (de_fresh env (dn_tick d))) (dn_tokens d)\<rparr>)"

definition restore_task :: "daemon_env \<Rightarrow> TaskSpec \<Rightarrow> (daemon, unit) eff" where
  "restore_task env t =
     (let i = ts_task_id t
      in eff_get (\<lambda>d. eff_when (i \<notin> set (wk_tasks (dn_wf d)) \<and> agent_of d (ts_agent_name t) \<noteq> None) (eff_seq
           [eff_modify (\<lambda>d. put_task i (\<lambda>_. t) (d\<lparr>dn_wf := note_task i (dn_wf d)\<rparr>)),
            eff_modify (put_traces (\<lambda>r. fst (ensure_trace (ts_trace_id t) i r))),
            eff_get (\<lambda>d. on_kernel (kernel_enqueue (kernel_env env d) t))])))"

text \<open>What \<open>startup\<close> restores; the mailboxes are the router's.\<close>

definition startup_restore :: "daemon_env \<Rightarrow> (daemon, unit) eff" where
  "startup_restore env =
     eff_try (eff_seq
       [eff_modify (\<lambda>d. fold (\<lambda>(n, row). restore_agent env row) (load_agents (wk_store (dn_wf d))) d),
        (\<lambda>d. case recover_tasks (dnow env d) (de_stamp env) (wk_store (dn_wf d)) of
           (st, Inl e) \<Rightarrow> (put_store (\<lambda>_. st) d, Inl e)
         | (st, Inr (ts, notes)) \<Rightarrow> eff_for ts (restore_task env) (put_store (\<lambda>_. st) d))])
       (\<lambda>e. eff_return ())"

definition startup :: "daemon_env \<Rightarrow> (daemon, unit) eff" where
  "startup env =
     eff_get (\<lambda>d. let names = map ag_agent_name (filter (\<lambda>a. ag_status a \<noteq> AS_KILLED)
                                  (map (\<lambda>(n, row). restored row) (load_agents (wk_store (dn_wf d)))))
       in eff_then (startup_restore env) (eff_try (eff_for names (start_worker env)) (\<lambda>e. eff_return ())))"

end
