(* ===== verification/Daemon_Views.thy ===== *)
theory Daemon_Views
  imports Daemon_Requests
begin

text \<open>
  Parts of the daemon's state that the bookkeeping of an execution leaves alone. A part is a function
  of the state; the laws of the locale say which fields and which edits of the task it does not see,
  and its lemmas that no step of an execution changes it.
\<close>

locale daemon_view =
  fixes p :: "daemon \<Rightarrow> 'v" and i :: string and minor :: "(TaskSpec \<Rightarrow> TaskSpec) \<Rightarrow> bool"
  assumes view_task: "minor f \<Longrightarrow> p (put_task i f d) = p d"
    and view_store: "p (put_store g d) = p d"
    and view_traces: "p (put_traces h d) = p d"
    and view_agents: "p (d\<lparr>dn_agents := x1\<rparr>) = p d" "p (d\<lparr>dn_acbs := x2\<rparr>) = p d" "p (d\<lparr>dn_faults := x3\<rparr>) = p d"
    and view_workers: "p (d\<lparr>dn_workers := x4\<rparr>) = p d" "p (d\<lparr>dn_tokens := x5\<rparr>) = p d" "p (d\<lparr>dn_cgroups := x6\<rparr>) = p d"
    and view_rest: "p (d\<lparr>dn_contexts := x7\<rparr>) = p d" "p (d\<lparr>dn_pending := x8\<rparr>) = p d" "p (d\<lparr>dn_usage := x9\<rparr>) = p d"
      "p (d\<lparr>dn_sent := x10\<rparr>) = p d" "p (d\<lparr>dn_inflight := x11\<rparr>) = p d"
    and view_transition: "frame p (task_transition env i st r)"
    and minor_task: "minor (\<lambda>t. t\<lparr>ts_error := y1\<rparr>)" "minor (\<lambda>t. t\<lparr>ts_llm_usage := y2\<rparr>)"
      "minor (\<lambda>t. t\<lparr>ts_task_input := drop_crash_flag (ts_task_input t)\<rparr>)"
      "minor (\<lambda>t. t\<lparr>ts_scheduler_decision_reason := y3 t\<rparr>)" "minor (set_resource_lease y4)"
    and minor_attempts: "minor (\<lambda>t. t\<lparr>ts_attempts := map q (ts_attempts t)\<rparr>)"
begin

declare view_store [simp] view_traces [simp]

lemma view_put [simp]:
  "p (put_agent n f d) = p d" "p (put_acb n g d) = p d" "p (put_fault n h d) = p d" "p (put_attempt i a c d) = p d"
  "p (inc_inflight x d) = p d"
  by (simp_all add: put_agent_def put_acb_def put_fault_def put_attempt_def inc_inflight_def view_agents view_rest view_task
      minor_attempts split: option.splits)

lemma view_put_task [simp]:
  "p (put_task i (\<lambda>t. t\<lparr>ts_error := y1\<rparr>) d) = p d" "p (put_task i (\<lambda>t. t\<lparr>ts_llm_usage := y2\<rparr>) d) = p d"
  "p (put_task i (\<lambda>t. t\<lparr>ts_task_input := drop_crash_flag (ts_task_input t)\<rparr>) d) = p d"
  "p (put_task i (\<lambda>t. t\<lparr>ts_scheduler_decision_reason := y3 t\<rparr>) d) = p d" "p (put_task i (set_resource_lease y4) d) = p d"
  "p (put_task i (finish_attempt now a x y z) d) = p d"
  using view_task[OF minor_attempts, of "\<lambda>b. if at_attempt_id b = a then finish_attempt_obj now x y z b else b" d]
  by (simp_all add: view_task minor_task finish_attempt_def[abs_def])

lemma view_persist_agent [simp]:
  "p (persist_agent env n d) = p d" "p (sync_agent_from_acb n d) = p d"
  by (simp_all add: persist_agent_def sync_agent_from_acb_def view_store split: option.splits)

lemma view_record_trace: "p (d\<lparr>dn_wf := record_trace e j name detail (dn_wf d)\<rparr>) = p d"
proof -
  obtain tr st where "record_trace e j name detail (dn_wf d) = (dn_wf d)\<lparr>wk_traces := tr, wk_store := st\<rparr>"
    by (simp add: record_trace_def Let_def)
  then have "d\<lparr>dn_wf := record_trace e j name detail (dn_wf d)\<rparr> = put_store (\<lambda>_. st) (put_traces (\<lambda>_. tr) d)"
    by (simp add: put_store_def put_traces_def)
  then show ?thesis by (simp add: view_store view_traces)
qed

lemmas view_simps = view_store view_traces view_agents view_workers view_rest view_record_trace

lemma view_steps [frame_intros]:
  "frame p (set_task_error i e)" "frame p (persist env i)" "frame p (record_trace_event env i name detail)"
  "frame p (transition_agent env n s t r)" "frame p (stop_worker env n b)" "frame p (finish env i a x y z)"
  "frame p (release_stored env i r)" "frame p (finish_span_of env i sid st_text)" "frame p (set_agent_task env nm tid)"
  "frame p (set_context_handle env n c)" "frame p (mark_agent_ready_for_reuse env n t r)"
  unfolding set_task_error_def persist_def record_trace_event_def transition_agent_def stop_worker_def finish_def
    release_stored_def finish_span_of_def set_agent_task_def set_context_handle_def mark_agent_ready_for_reuse_def Let_def comp_def
  by (auto simp: view_simps intro!: frame_intros)

declare view_transition [frame_intros]

lemma view_agent_steps [frame_intros]:
  "frame p (recover_agent env n t r)" "frame p (start_worker env n)"
  "frame p m \<Longrightarrow> frame p (or_force_status n st m)"
  unfolding recover_agent_def start_worker_def or_force_status_def Let_def
  by (auto simp: view_simps intro!: frame_intros)

lemma view_attempt_steps [frame_intros]:
  "frame p (ensure_worker_started env n)" "frame p (workspace_for_attempt env i a agent)"
  "frame p (check_lease env i lid l)" "frame p (resume_running env i)" "frame p (close_attempt env i a err)"
  "frame p (build_payload env i n)" "frame p (store_patch env i a ws)" "frame p (add_tokens env usage key add)"
  unfolding ensure_worker_started_def workspace_for_attempt_def check_lease_def resume_running_def
    close_attempt_def build_payload_def store_patch_def add_tokens_def Let_def
  by (auto simp: view_simps intro!: frame_intros)

lemma view_record_context [frame_intros]:
  "frame p (\<lambda>d. case record_task_context (cenv d) cid n a b (c d) (dn_contexts d) of
      (m, Inl e) \<Rightarrow> (d\<lparr>dn_contexts := m\<rparr>, Inl e) | (m, Inr x) \<Rightarrow> (d\<lparr>dn_contexts := m\<rparr>, Inr ()))"
  by (simp add: frame_def view_simps split: prod.splits sum.splits)

lemma view_result_steps [frame_intros]:
  "frame p (record_llm_usage env i usage)" "frame p (prepare_agent_for_task env i r)"
  "frame p (record_recovery_context env i a err)"
  unfolding record_llm_usage_def prepare_agent_for_task_def record_recovery_context_def Let_def
  by (auto simp: view_simps intro!: frame_intros)

lemma view_account_usage [frame_intros]: "frame p (account_usage env i a result usage)"
  unfolding account_usage_def Let_def by (auto simp: view_simps intro!: frame_intros)

lemma view_on_result [frame_intros]: "frame p (on_result env i agent a sid ws result)"
  unfolding on_result_def Let_def by (auto simp: view_simps intro!: frame_intros)

end

section \<open>Parts that the others leave alone as well\<close>

text \<open>
  A part that does not see the monitor either. If the other coroutines do not change it where this one
  awaits, which is what \<open>frame p (await env)\<close> says, a whole attempt does not change it.
\<close>

locale quiet_view = daemon_view +
  assumes view_monitor: "p (d\<lparr>dn_monitor := m\<rparr>) = p d"
begin

lemma quiet_steps [frame_intros]:
  assumes "frame p (await env)"
  shows "frame p (wait_connected env n)" "frame p (send_event env n ev)" "frame p (reclaim_async env i r)"
  using assms unfolding wait_connected_def send_event_def reclaim_async_def put_monitor_def
  by (auto simp: view_simps view_monitor intro!: frame_intros)

lemma quiet_connect [frame_intros]: "frame p (await env) \<Longrightarrow> frame p (connect env i n)"
  unfolding connect_def by (auto intro!: frame_intros)

lemma quiet_timeout [frame_intros]: "frame p (await env) \<Longrightarrow> frame p (on_timeout env i n a)"
  unfolding on_timeout_def by (auto simp: view_simps intro!: frame_intros)

lemma quiet_once_body [frame_intros]: "frame p (await env) \<Longrightarrow> frame p (once_body env i agent n payload lease a sid)"
  unfolding once_body_def by (auto simp: view_simps intro!: frame_intros split: option.split)

lemma quiet_run_once [frame_intros]: "frame p (await env) \<Longrightarrow> frame p (run_task_once env i agent n payload lease a)"
  unfolding run_task_once_def by (auto simp: view_simps intro!: frame_intros)

lemma quiet_isolate [frame_intros]: "frame p (isolate_failed_worker env n i err)"
  unfolding isolate_failed_worker_def put_monitor_def by (auto simp: view_simps view_monitor intro!: frame_intros)

lemma quiet_lease [frame_intros]: "frame p (await env) \<Longrightarrow> frame p (lease_and_run env i agent n payload a)"
  unfolding lease_and_run_def Let_def by (auto simp: view_simps view_monitor intro!: frame_intros)

lemma quiet_body [frame_intros]: "frame p (await env) \<Longrightarrow> frame p (attempt_body env i agent n payload a)"
  unfolding attempt_body_def by (auto intro!: frame_intros)

lemma quiet_fallback_run [frame_intros]: "frame p (await env) \<Longrightarrow> frame p (fallback_run env i agent n a)"
  unfolding fallback_run_def Let_def by (auto intro!: frame_intros)

lemma quiet_fallback_attempt [frame_intros]: "frame p (await env) \<Longrightarrow> frame p (fallback_attempt env i n a)"
  unfolding fallback_attempt_def by (auto intro!: frame_intros)

end

end
