(* ===== verification/Daemon_Examples.thy ===== *)
theory Daemon_Examples
  imports Daemon_Requests Kernel_Invariants Resource_Accounting
begin

text \<open>
  A small daemon: one agent, an empty scheduler and store, and an environment in which nobody else
  runs, every worker connects and no clock moves. The witnesses of the daemon's theorems use it.
\<close>

definition small_kernel_env :: kenv where
  "small_kernel_env = \<lparr>ke_now = 0, ke_checker = None, ke_agents = None, ke_iter = sorted_list_of_set, ke_repr = (\<lambda>_. ''0'')\<rparr>"

definition small_workflow_env :: workflow_env where
  "small_workflow_env =
     \<lparr>we_kernel = small_kernel_env, we_now = 0, we_agents = [], we_max_repair_rounds = 2, we_cwd = ''.'',
      we_task_id = (\<lambda>w role. ''t''), we_loads = (\<lambda>_. Inl (ValueError ''json'')), we_plan_model = (\<lambda>_. Inl (ValueError ''plan'')),
      we_error_text = (\<lambda>_. ''error''), we_rev_parse = (\<lambda>_ _. Inr ''HEAD''), we_create_workspace = (\<lambda>_ _ _ _. Inr ''.''),
      we_apply = (\<lambda>_ _ _. None), we_commit = (\<lambda>_ _. Inr None)\<rparr>"

definition small_daemon_env :: "(nat \<Rightarrow> daemon \<Rightarrow> daemon) \<Rightarrow> daemon_env" where
  "small_daemon_env others =
     \<lparr>de_now = (\<lambda>_. 0), de_stamp = (\<lambda>_. ''now''), de_load = (\<lambda>_. \<lparr>ld_cpu = 0, ld_mem = 0\<rparr>),
      de_ctx = (\<lambda>_. \<lparr>ce_touch = 0, ce_evict = 0, ce_stamps = (\<lambda>_. (0, 0)), ce_perf = 0, ce_sha256 = id, ce_float_repr = (\<lambda>_. ''0'')\<rparr>),
      de_workflow = (\<lambda>_. small_workflow_env), de_world = others, de_connected = (\<lambda>_ _. True), de_exited = (\<lambda>_ _. False),
      de_sent = (\<lambda>_ _. True), de_spawn = (\<lambda>_ _. Inr 7), de_bind = (\<lambda>_ _. (True, [])), de_workspace = (\<lambda>_ _ _ ws _. Inr ws),
      de_patch = (\<lambda>_ _ _ _. Inr None), de_artifact = (\<lambda>_. Inl (ValueError ''artifact'')), de_dump_artifact = (\<lambda>_. JNull),
      de_dump_workspace = (\<lambda>_. JNull), de_fresh = (\<lambda>n. ''x''), de_str = (\<lambda>_. ''error''), de_int_of_str = (\<lambda>_. Inr 0),
      de_float_of_str = (\<lambda>_. Inr 0), de_strict = False, de_uds_path = ''sock'', de_legacy_workspace = [],
      de_role_prompt = id, de_degraded_label = [], de_error_label = []\<rparr>"

definition small_workflow :: workflow where
  "small_workflow =
     \<lparr>wk_kernel = kernel_init ''priority'' (\<lambda>i. new_task i None [] [] ''tr'' 0), wk_tasks = [], wk_store = empty_store,
      wk_traces = recorder_init, wk_integration_commits = [], wk_integration_workspaces = [], wk_applied_artifacts = [],
      wk_repair_rounds = []\<rparr>"

definition small_daemon :: daemon where
  "small_daemon =
     \<lparr>dn_tick = 0, dn_wf = small_workflow, dn_agents = [(''a'', new_agent ''a'' ''coder'' 0)], dn_acbs = [],
      dn_monitor = monitor_init demo_config, dn_faults = [], dn_workers = [(''a'', 7)], dn_tokens = [], dn_cgroups = [],
      dn_inflight = [], dn_contexts = context_manager_init 1000 4 0, dn_pending = [],
      dn_usage = \<lparr>ut_input_tokens = 0, ut_output_tokens = 0, ut_total_tokens = 0, ut_latency_ms = 0, ut_calls = 0,
        ut_prefix_hits = 0, ut_reuse_hits = 0\<rparr>, dn_sent = []\<rparr>"

definition small_request :: SubmitTaskRequest where
  "small_request =
     \<lparr>rq_agent_name = Some ''a'', rq_task_input = [], rq_context_id = [], rq_priority = 0, rq_resource_request = [],
      rq_required_capability = [], rq_timeout_ms = None, rq_task_role = [], rq_required_backend = None, rq_workspace = None,
      rq_dependency_failure_policies = [], rq_on_failure = [], rq_failure_policy = default_failure_policy, rq_policy_given = False,
      rq_deadline = None, rq_token_budget = None, rq_timeout = None, rq_parent_task_id = [], rq_root_task_id = [],
      rq_trace_id = [], rq_idempotency_key = None, rq_side_effect_level = SE_NONE, rq_compensation = [],
      rq_children = [], rq_dependencies = []\<rparr>"

lemma small_kernel: "kernel_inv (wk_kernel (dn_wf small_daemon))" "\<not> known (wk_kernel (dn_wf small_daemon)) i"
  by (simp_all add: small_daemon_def small_workflow_def kernel_inv_init) (simp add: known_def kernel_init_def)

lemma small_prepared:
  "eff_seq [make_agent_usable env ''a'' reason, require_tasks [], record_submitted_context env [] ''a'' inp,
     set_context_handle env ''a'' None] small_daemon = (small_daemon, Inr ())"
  by (simp add: eff_simps make_agent_usable_def require_tasks_def record_submitted_context_def set_context_handle_def
      agent_in_def agent_of_def small_daemon_def new_agent_def put_acb_def)

text \<open>A world in which another coroutine stores a heartbeat at every await.\<close>

definition heartbeats :: "nat \<Rightarrow> daemon \<Rightarrow> daemon" where
  "heartbeats n d = put_fault ''a'' (heartbeat 5) d"

end
