(* ===== verification/Daemon_Leases.thy ===== *)
theory Daemon_Leases
  imports Daemon_Views Daemon_Examples Resource_Accounting Store_Properties
begin

text \<open>
  What an execution does to the leases of its task: whatever the worker, the network and the other
  coroutines do, and however the execution ends, the task has at most one active lease while it
  runs and none afterwards, neither in the monitor nor in the store.
\<close>

section \<open>Steps that do not touch the monitor\<close>

lemma monitor_put [simp]:
  "dn_monitor (put_task i f d) = dn_monitor d" "dn_monitor (put_store g d) = dn_monitor d"
  "dn_monitor (put_traces h d) = dn_monitor d" "dn_monitor (put_monitor k d) = k (dn_monitor d)"
  "dn_monitor (dec_inflight x d) = dn_monitor d"
  by (simp_all add: put_task_def put_store_def put_traces_def put_monitor_def dec_inflight_def)

lemma monitor_on_workflow [frame_intros]: "frame dn_monitor (on_workflow m)"
  by (simp add: frame_def on_workflow_def split: prod.splits)

lemma monitor_on_kernel [frame_intros]: "frame dn_monitor (on_kernel m)"
  unfolding on_kernel_def by (rule monitor_on_workflow)

interpretation monitor: daemon_view dn_monitor i "\<lambda>_. True" for i
  by unfold_locales (auto simp: task_transition_def intro!: frame_intros)

lemma monitor_attempts [frame_intros]:
  "frame dn_monitor (new_attempt env i n)" "frame dn_monitor (prepare_fallback_attempt env i fb)"
  "frame dn_monitor (set_task_result i out)"
  unfolding new_attempt_def prepare_fallback_attempt_def set_task_result_def Let_def
  by (auto intro!: frame_intros)

lemma monitor_endings [frame_intros]:
  "frame dn_monitor (finish_success env i out)" "frame dn_monitor (finish_failure env i err)"
  "frame dn_monitor (execute_except env i e)"
  unfolding finish_success_def finish_failure_def execute_except_def Let_def
  by (auto intro!: frame_intros)

section \<open>The leases of one task\<close>

definition no_lease :: "string \<Rightarrow> ResourceMonitor \<Rightarrow> bool" where
  "no_lease i m \<longleftrightarrow>
     (\<forall>lid l. map_of (rm_leases m) lid = Some l \<longrightarrow> ls_task_id l = i \<longrightarrow> ls_status l \<noteq> ''active'')"

text \<open>The active lease of the task, if it has one, is the one the monitor files under the task.\<close>

definition one_lease :: "string \<Rightarrow> ResourceMonitor \<Rightarrow> bool" where
  "one_lease i m \<longleftrightarrow>
     (\<forall>lid l. map_of (rm_leases m) lid = Some l \<longrightarrow> ls_task_id l = i \<longrightarrow> ls_status l = ''active'' \<longrightarrow>
        map_of (rm_task_leases m) i = Some lid)"

lemma no_lease_one: "no_lease i m \<Longrightarrow> one_lease i m"
  by (simp add: no_lease_def one_lease_def)

lemma llm_leases [simp]:
  "rm_leases (release_llm a m) = rm_leases m" "rm_task_leases (release_llm a m) = rm_task_leases m"
  "rm_leases (fst (acquire_llm a k m)) = rm_leases m" "rm_task_leases (fst (acquire_llm a k m)) = rm_task_leases m"
  by (simp_all add: release_llm_def acquire_llm_def Let_def)

lemma llm_times_leases [simp]:
  "rm_leases (release_llm_times n a m) = rm_leases m" "rm_task_leases (release_llm_times n a m) = rm_task_leases m"
  unfolding release_llm_times_def by (induction n) simp_all

lemma llm_loop_leases:
  "rm_leases (fst (acquire_llm_loop n k a limit m)) = rm_leases m \<and>
   rm_task_leases (fst (acquire_llm_loop n k a limit m)) = rm_task_leases m"
proof (induction n k a limit m rule: acquire_llm_loop.induct)
  case (2 n acquired a limit m)
  obtain m' b where e: "acquire_llm a limit m = (m', b)" by fastforce
  then have "rm_leases m' = rm_leases m \<and> rm_task_leases m' = rm_task_leases m"
    using llm_leases(3,4)[of a limit m] by (metis fst_conv)
  then show ?case using 2 e by (cases b) simp_all
qed simp

lemma acquire_leases:
  "rm_leases (fst (acquire ld now lid i a req m)) = rm_leases m \<and>
     rm_task_leases (fst (acquire ld now lid i a req m)) = rm_task_leases m \<or>
   rm_leases (fst (acquire ld now lid i a req m)) = dict_set lid (new_lease i a req now) (rm_leases m) \<and>
     rm_task_leases (fst (acquire ld now lid i a req m)) = dict_set i lid (rm_task_leases m)"
  using llm_loop_leases[of "nat (llm_amount req)" 0 a "max (llm_amount req) 1" m]
  by (auto simp: acquire_def store_lease_def Let_def split: prod.splits bool.splits)

lemma release_books:
  "rm_leases (release now arg m) = rm_leases m \<and> rm_task_leases (release now arg m) = rm_task_leases m \<or>
   (\<exists>lid l. release_target arg m = Some lid \<and> map_of (rm_leases m) lid = Some l \<and> ls_status l = ''active'' \<and>
      rm_leases (release now arg m) = dict_set lid (lease_release now l) (rm_leases m) \<and>
      rm_task_leases (release now arg m) = dict_pop (ls_task_id l) (rm_task_leases m))"
  by (auto simp: release_def Let_def split: option.splits)

lemma lease_release_simps [simp]:
  "ls_status (lease_release now l) = ''released''" "ls_task_id (lease_release now l) = ls_task_id l"
  by (simp_all add: lease_release_def)

lemma no_lease_release: "no_lease i m \<Longrightarrow> no_lease i (release now arg m)"
  using release_books[of now arg m] by (auto simp: no_lease_def split: if_splits)

lemma one_lease_release:
  assumes "one_lease i m" shows "one_lease i (release now arg m)"
  using release_books[of now arg m]
proof (elim disjE exE conjE)
  fix lid l
  assume l: "map_of (rm_leases m) lid = Some l" "ls_status l = ''active''"
    and r: "rm_leases (release now arg m) = dict_set lid (lease_release now l) (rm_leases m)"
      "rm_task_leases (release now arg m) = dict_pop (ls_task_id l) (rm_task_leases m)"
  show ?thesis
  proof (cases "ls_task_id l = i")
    case True
    then have "map_of (rm_task_leases m) i = Some lid" using assms l by (simp add: one_lease_def)
    then have "no_lease i (release now arg m)" using assms r by (auto simp: no_lease_def one_lease_def)
    then show ?thesis by (rule no_lease_one)
  next
    case False
    then show ?thesis using assms r by (auto simp: one_lease_def delete_conv')
  qed
qed (use assms in \<open>simp add: one_lease_def\<close>)

lemma release_ends_lease:
  assumes "one_lease i m" and "release_target arg m = Some (dict_get (rm_task_leases m) i x)"
  shows "no_lease i (release now arg m)"
  unfolding no_lease_def
proof (intro allI impI notI)
  fix lid l
  assume l: "map_of (rm_leases (release now arg m)) lid = Some l" "ls_task_id l = i" "ls_status l = ''active''"
  then have old: "map_of (rm_leases m) lid = Some l"
    using release_books[of now arg m] by (auto split: if_splits)
  then have "map_of (rm_task_leases m) i = Some lid" using assms(1) l by (simp add: one_lease_def)
  then have "release_target arg m = Some lid" using assms(2) by (simp add: dict_get_def)
  then have "rm_leases (release now arg m) = dict_set lid (lease_release now l) (rm_leases m)"
    using old l(3) by (simp add: release_def Let_def)
  then have "lease_release now l = l" using l(1) by simp
  then show False using lease_release_simps(1)[of now l] l(3) by simp
qed

lemma reclaimer_leases: "no_lease i m \<Longrightarrow> no_lease i (reclaimer_reclaim now lid r m)"
  by (auto simp: no_lease_def reclaimer_reclaim_def split: option.splits)

lemma reclaim_ends_lease:
  assumes "one_lease i m" shows "no_lease i (reclaim now i r m)"
proof (cases "map_of (rm_leases m) (dict_get (rm_task_leases m) i [])")
  case None
  have "no_lease i m" unfolding no_lease_def
  proof (intro allI impI notI)
    fix lid l assume l: "map_of (rm_leases m) lid = Some l" "ls_task_id l = i" "ls_status l = ''active''"
    then have "map_of (rm_task_leases m) i = Some lid" using assms by (simp add: one_lease_def)
    then show False using None l(1) by (simp add: dict_get_def)
  qed
  then show ?thesis using None by (simp add: reclaim_def)
next
  case (Some l)
  have "release_target (RelLease (dict_get (rm_task_leases m) i [])) m = Some (dict_get (rm_task_leases m) i [])"
    by (simp add: release_target_def)
  from reclaimer_leases[OF release_ends_lease[OF assms this]] Some show ?thesis by (simp add: reclaim_def Let_def)
qed

lemma acquire_gives_one_lease: "no_lease i m \<Longrightarrow> one_lease i (fst (acquire ld now lid i a req m))"
  using acquire_leases[of ld now lid i a req m] by (auto simp: no_lease_def one_lease_def split: if_splits)

lemma release_key_ends_lease: "one_lease i m \<Longrightarrow> no_lease i (release now (RelKey i) m)"
  by (rule release_ends_lease) (simp_all add: release_target_def)

section \<open>Steps that await\<close>

text \<open>What the other coroutines may do to the monitor while this one awaits.\<close>

definition world_keeps :: "daemon_env \<Rightarrow> (ResourceMonitor \<Rightarrow> bool) \<Rightarrow> bool" where
  "world_keeps env P \<longleftrightarrow> (\<forall>n d. P (dn_monitor d) \<longrightarrow> P (dn_monitor (de_world env n d)))"

text \<open>A view of the monitor that reclaiming the leases of the task does not spoil.\<close>

locale lease_view =
  fixes i :: string and P :: "ResourceMonitor \<Rightarrow> bool"
  assumes reclaim_keeps: "P m \<Longrightarrow> P (reclaim now i r m)"
begin

lemma keeps_step: "frame dn_monitor m \<Longrightarrow> keeps (\<lambda>d. P (dn_monitor d)) m"
  by (rule frame_keeps)

lemma keeps_await: "world_keeps env P \<Longrightarrow> keeps (\<lambda>d. P (dn_monitor d)) (await env)"
  unfolding await_def by (rule keeps_modify) (simp add: world_keeps_def)

lemma keeps_reclaim_async: "world_keeps env P \<Longrightarrow> keeps (\<lambda>d. P (dn_monitor d)) (reclaim_async env i r)"
  unfolding reclaim_async_def by (intro triple_intros keeps_await) (simp_all add: reclaim_keeps)

lemma keeps_wait: "world_keeps env P \<Longrightarrow> keeps (\<lambda>d. P (dn_monitor d)) (wait_connected env name)"
  unfolding wait_connected_def by (intro keeps_then keeps_await keeps_get' keeps_return)

lemma keeps_send: "world_keeps env P \<Longrightarrow> keeps (\<lambda>d. P (dn_monitor d)) (send_event env name event)"
  unfolding send_event_def by (intro keeps_then keeps_await keeps_get' keeps_return keeps_modify) simp_all

lemma keeps_connect: "world_keeps env P \<Longrightarrow> keeps (\<lambda>d. P (dn_monitor d)) (connect env i name)"
  unfolding connect_def
  by (intro keeps_bind keeps_wait keeps_if keeps_get' keeps_then keeps_return keeps_raise)
    (auto intro: keeps_step frame_intros)

lemma keeps_on_timeout:
  assumes "world_keeps env P" shows "keeps (\<lambda>d. P (dn_monitor d)) (on_timeout env i name aid)"
  unfolding on_timeout_def eff_seq.simps
  by (intro keeps_then keeps_raise keeps_return keeps_reclaim_async[OF assms] keeps_send[OF assms] keeps_await[OF assms])
    (auto intro!: keeps_step frame_intros)

lemma keeps_once_body:
  assumes "world_keeps env P" shows "keeps (\<lambda>d. P (dn_monitor d)) (once_body env i agent name payload lease aid sid)"
  unfolding once_body_def eff_seq.simps
proof (intro keeps_then keeps_bind keeps_get' keeps_if keeps_return keeps_raise keeps_connect[OF assms]
    keeps_send[OF assms] keeps_await[OF assms])
  fix d ws
  show "keeps (\<lambda>d. P (dn_monitor d)) (case map_of (dn_pending d) i of
      Some (a, Some result) \<Rightarrow> on_result env i agent aid sid ws result | _ \<Rightarrow> on_timeout env i name aid)"
    using keeps_on_timeout[OF assms] by (auto intro: keeps_step frame_intros split: option.split)
qed (auto intro!: keeps_step frame_intros)

lemma keeps_run_task_once:
  assumes "world_keeps env P" shows "keeps (\<lambda>d. P (dn_monitor d)) (run_task_once env i agent name payload lease aid)"
proof (unfold run_task_once_def, intro keeps_then keeps_get', goal_cases)
  case (2 d)
  obtain tr sid where "start_span (dnow env d) (ts_trace_id (dn_task d i)) i ''agent.execute'' name (wk_traces (dn_wf d)) = (tr, sid)"
    by fastforce
  then show ?case
    by (simp only: prod.case)
      (intro keeps_then keeps_finally keeps_try keeps_once_body[OF assms]; auto intro!: keeps_step frame_intros)
qed (auto intro!: keeps_step frame_intros)

lemma keeps_isolate: "keeps (\<lambda>d. P (dn_monitor d)) (isolate_failed_worker env name i err)"
  unfolding isolate_failed_worker_def eff_seq.simps
  by (intro keeps_get' keeps_when keeps_then keeps_return)
    (auto intro!: keeps_step frame_intros keeps_modify simp: reclaim_keeps)

end

interpretation free: lease_view i "no_lease i" for i
  by unfold_locales (meson no_lease_one reclaim_ends_lease)

interpretation held: lease_view i "one_lease i" for i
  by unfold_locales (meson no_lease_one reclaim_ends_lease)

section \<open>Attempts and executions\<close>

abbreviation without_lease :: "string \<Rightarrow> daemon \<Rightarrow> bool" where
  "without_lease i d \<equiv> no_lease i (dn_monitor d)"

abbreviation with_lease :: "string \<Rightarrow> daemon \<Rightarrow> bool" where
  "with_lease i d \<equiv> one_lease i (dn_monitor d)"

text \<open>The others leave the leases of the task alone, or end them.\<close>

definition world_respects :: "daemon_env \<Rightarrow> string \<Rightarrow> bool" where
  "world_respects env i \<longleftrightarrow> world_keeps env (no_lease i) \<and> world_keeps env (one_lease i)"

lemma respectsD: "world_respects env i \<Longrightarrow> world_keeps env (no_lease i)" "world_respects env i \<Longrightarrow> world_keeps env (one_lease i)"
  by (simp_all add: world_respects_def)

lemma triple_frame: "frame dn_monitor m \<Longrightarrow> triple (\<lambda>d. P (dn_monitor d)) m (\<lambda>_ d. P (dn_monitor d)) (\<lambda>_ d. P (dn_monitor d))"
  by (intro triple_keeps frame_keeps)

lemma triple_free_one:
  "triple (without_lease i) m (\<lambda>_. without_lease i) (\<lambda>_. without_lease i) \<Longrightarrow>
   triple (without_lease i) m (\<lambda>_. without_lease i) (\<lambda>_. with_lease i)"
  by (erule triple_conseq) (auto intro: no_lease_one)

text \<open>The lease and the run under it: from no lease to at most one, however it ends.\<close>

lemma lease_and_run_triple:
  assumes w: "world_respects env i"
  shows "triple (without_lease i) (lease_and_run env i agent name payload aid) (\<lambda>_. with_lease i) (\<lambda>_. with_lease i)"
  unfolding lease_and_run_def
proof (rule triple_get)
  fix d assume free: "without_lease i d"
  let ?acq = "acquire (de_load env (dn_tick d)) (dnow env d) (de_fresh env (dn_tick d)) i name
      (resource_request_for_task (dn_task d i) agent) (dn_monitor d)"
  obtain m r where a: "?acq = (m, r)" by fastforce
  have "one_lease i (fst ?acq)" by (rule acquire_gives_one_lease[OF free])
  then have put: "triple (\<lambda>d'. d' = d) (eff_modify (\<lambda>d. d\<lparr>dn_monitor := m\<rparr>)) (\<lambda>_. with_lease i) (\<lambda>_. with_lease i)"
    by (intro triple_modify) (simp add: a)
  have run: "triple (with_lease i) (run_task_once env i agent name payload l aid) (\<lambda>_. with_lease i) (\<lambda>_. with_lease i)" for l
    by (rule triple_keeps[OF held.keeps_run_task_once[OF respectsD(2)[OF w]]])
  show "triple (\<lambda>d'. d' = d) (case ?acq of
      (m, None) \<Rightarrow> eff_then (eff_modify (\<lambda>d. d\<lparr>dn_monitor := m\<rparr>)) (eff_raise (RuntimeError ''resource lease not available''))
    | (m, Some lid) \<Rightarrow>
        (let lease = new_lease i name (resource_request_for_task (dn_task d i) agent) (dnow env d)
         in eff_then (eff_seq
           [eff_modify (\<lambda>d. d\<lparr>dn_monitor := m\<rparr>),
            eff_modify (put_task i (set_resource_lease (Some (lease_to_dict (de_stamp env) lid lease)))),
            eff_modify (\<lambda>d. put_store (save_lease (dnow env d) (de_stamp env) lid lease) d),
            persist env i])
           (run_task_once env i agent name payload (lid, lease) aid))) (\<lambda>_. with_lease i) (\<lambda>_. with_lease i)"
  proof (cases r)
    case None
    then show ?thesis using a by (auto intro!: triple_then[OF put] triple_raise)
  next
    case (Some lid)
    then show ?thesis
      unfolding a Some prod.case option.case Let_def eff_seq.simps
      by (intro triple_then[OF triple_then[OF put triple_frame] run]) (auto intro!: frame_intros)
  qed
qed

lemma attempt_body_triple:
  assumes w: "world_respects env i"
  shows "triple (without_lease i) (attempt_body env i agent name payload aid) (\<lambda>_. with_lease i) (\<lambda>_. with_lease i)"
proof -
  have "triple (without_lease i) (eff_then (record_trace_event env i e dt) (eff_then (await env)
      (lease_and_run env i agent name payload aid))) (\<lambda>_. with_lease i) (\<lambda>_. with_lease i)" for e dt
    by (rule triple_then[OF triple_free_one[OF triple_frame] triple_then[OF triple_free_one[OF triple_keeps]
          lease_and_run_triple[OF w]]])
      (auto intro: free.keeps_await[OF respectsD(1)[OF w]] frame_intros)
  then show ?thesis
    unfolding attempt_body_def
    by (intro triple_get') (auto intro: triple_raise no_lease_one split: prod.split)
qed

text \<open>What follows a failed attempt ends its lease, or raises with the lease still filed under the task.\<close>

lemma reclaim_async_triple:
  assumes "world_respects env i"
  shows "triple (with_lease i) (reclaim_async env i r) (\<lambda>_. without_lease i) (\<lambda>_. with_lease i)"
  unfolding reclaim_async_def
  by (rule triple_then[OF triple_keeps[OF held.keeps_await[OF respectsD(2)[OF assms]]]])
    (rule triple_modify, simp add: reclaim_ends_lease)

definition lease_after :: "string \<Rightarrow> string + json \<Rightarrow> daemon \<Rightarrow> bool" where
  "lease_after i r d = (case r of Inl _ \<Rightarrow> without_lease i d | Inr _ \<Rightarrow> with_lease i d)"

lemma lease_after_simps: "lease_after i (Inl e) = without_lease i" "lease_after i (Inr x) = with_lease i"
  by (simp_all add: fun_eq_iff lease_after_def)

lemma after_attempt_triple:
  assumes w: "world_respects env i" and ms: "\<And>m. m \<in> set ms \<Longrightarrow> keeps (with_lease i) m"
  shows "triple (with_lease i) (eff_then (eff_seq (ms @ [reclaim_async env i err])) (eff_return (Inl x)))
    (lease_after i) (\<lambda>_. with_lease i)"
  by (rule triple_then[OF triple_seq_snoc[OF ms reclaim_async_triple[OF w]] triple_return])
    (auto simp: lease_after_def)

lemma attempt_try_triple:
  assumes w: "world_respects env i" and ms: "\<And>m e. m \<in> set (ms e) \<Longrightarrow> keeps (with_lease i) m"
  shows "triple (without_lease i)
    (eff_try (eff_bind (attempt_body env i agent name payload aid) (\<lambda>output. eff_return (Inr output)))
      (\<lambda>e. eff_then (eff_seq (ms e @ [reclaim_async env i (de_str env e)])) (eff_return (Inl (de_str env e)))))
    (lease_after i) (\<lambda>_. with_lease i)"
proof (rule triple_try)
  show "triple (without_lease i) (eff_bind (attempt_body env i agent name payload aid) (\<lambda>output. eff_return (Inr output)))
      (lease_after i) (\<lambda>_. with_lease i)"
    by (rule triple_bind[OF attempt_body_triple[OF w] triple_return]) (simp add: lease_after_def)
qed (rule after_attempt_triple[OF w ms])

lemma one_attempt_triple:
  assumes w: "world_respects env i"
  shows "triple (without_lease i) (one_attempt env i agent name payload n) (lease_after i) (\<lambda>_. with_lease i)"
proof -
  let ?ms = "\<lambda>aid e. [close_attempt env i aid (de_str env e), record_recovery_context env i aid (de_str env e),
          eff_modify (put_traces (increment_retry i)),
          record_trace_event env i ''task.retry_or_reclaim'' [(''error'', JStr (de_str env e)), (''attempt'', JInt (int n))],
          isolate_failed_worker env name i (de_str env e)]"
  have ks: "keeps (with_lease i) m" if "m \<in> set (?ms aid e)" for m aid e
  proof (cases "m = isolate_failed_worker env name i (de_str env e)")
      case True
      then show ?thesis by (simp only: held.keeps_isolate)
    next
      case False
      then show ?thesis using that by (auto intro!: held.keeps_step frame_intros)
    qed
  note t = attempt_try_triple[where ms = "?ms aid" for aid, OF w ks, unfolded append.simps]
  show ?thesis
    unfolding one_attempt_def Let_def
    by (rule triple_then[OF triple_free_one[OF triple_frame] triple_bind[OF triple_free_one[OF triple_frame]
          triple_then[OF triple_free_one[OF triple_frame] t]]]) (auto intro: frame_intros)
qed

lemma attempt_loop_triple:
  assumes w: "world_respects env i"
  shows "triple (without_lease i) (attempt_loop env i agent name payload n k) (lease_after i) (\<lambda>_. with_lease i)"
proof (induction k arbitrary: n)
  case 0
  show ?case by (simp add: one_attempt_triple[OF w])
next
  case (Suc k)
  have "triple (lease_after i r) (case r of
      Inl err \<Rightarrow> eff_then (await env) (attempt_loop env i agent name payload (Suc n) k)
    | Inr output \<Rightarrow> eff_return (Inr output)) (lease_after i) (\<lambda>_. with_lease i)" for r
  proof (cases r)
    case (Inl err)
    have "triple (without_lease i) (eff_then (await env) (attempt_loop env i agent name payload (Suc n) k))
        (lease_after i) (\<lambda>_. with_lease i)"
      by (rule triple_then[OF triple_free_one[OF triple_keeps[OF free.keeps_await[OF respectsD(1)[OF w]]]] Suc])
    then show ?thesis using Inl by (simp add: lease_after_simps)
  next
    case (Inr x)
    then show ?thesis by (auto intro!: triple_return simp: lease_after_def)
  qed
  then show ?case unfolding attempt_loop.simps by (rule triple_bind[OF one_attempt_triple[OF w]])
qed

lemma weak_lease_after:
  "triple P m (lease_after i) (\<lambda>_. with_lease i) \<Longrightarrow> triple P m (\<lambda>_. with_lease i) (\<lambda>_. with_lease i)"
  by (erule triple_conseq) (auto simp: lease_after_def intro: no_lease_one split: sum.splits)

lemma fallback_run_triple:
  assumes w: "world_respects env i"
  shows "triple (without_lease i) (fallback_run env i agent fallback aid) (\<lambda>_. with_lease i) (\<lambda>_. with_lease i)"
proof -
  let ?ms = "\<lambda>e. [close_attempt env i aid (de_str env e), record_recovery_context env i aid (de_str env e),
          isolate_failed_worker env fallback i (de_str env e)]"
  have ks: "keeps (with_lease i) m" if "m \<in> set (?ms e)" for m e
  proof (cases "m = isolate_failed_worker env fallback i (de_str env e)")
      case True
      then show ?thesis by (simp only: held.keeps_isolate)
    next
      case False
      then show ?thesis using that by (auto intro!: held.keeps_step frame_intros)
    qed
  note t = weak_lease_after[OF attempt_try_triple[where ms = ?ms, OF w ks, unfolded append.simps]]
  show ?thesis
    unfolding fallback_run_def Let_def
    by (rule triple_bind[OF triple_free_one[OF triple_frame] t]) (rule frame_intros)
qed

lemma run_fallback_triple:
  assumes w: "world_respects env i"
  shows "triple (without_lease i) (run_fallback env i fallback err) (\<lambda>_. with_lease i) (\<lambda>_. with_lease i)"
proof -
  note s = triple_free_one[OF triple_frame]
  have fa: "triple (without_lease i) (fallback_attempt env i fallback aid) (\<lambda>_. with_lease i) (\<lambda>_. with_lease i)" for aid
    unfolding fallback_attempt_def
    by (intro triple_then[OF s triple_get'] frame_intros)
      (auto intro!: triple_raise triple_then[OF s fallback_run_triple[OF w]] frame_intros no_lease_one split: option.split)
  show ?thesis
    unfolding run_fallback_def
    by (intro triple_then[OF s triple_bind[OF s]] frame_intros)
      (auto intro!: triple_return fa no_lease_one split: option.split)
qed

lemma run_task_with_policy_triple:
  assumes w: "world_respects env i"
  shows "triple (without_lease i) (run_task_with_policy env i) (\<lambda>_. with_lease i) (\<lambda>_. with_lease i)"
proof -
  note s = triple_free_one[OF triple_frame]
  have end1: "triple (with_lease i) (case r of
      Inr output \<Rightarrow> eff_return (True, output)
    | Inl e \<Rightarrow> eff_return (False, JStr (or_default e ''worker error''))) (\<lambda>_. with_lease i) (\<lambda>_. with_lease i)" for r
    by (cases r) (auto intro!: triple_return)
  have end2: "triple (lease_after i r) (policy_outcome env i r) (\<lambda>_. with_lease i) (\<lambda>_. with_lease i)" for r
  proof (cases r)
    case (Inl err)
    show ?thesis unfolding policy_outcome_def Inl lease_after_simps sum.case
      by (intro triple_get')
        (auto intro!: triple_return no_lease_one triple_bind[OF run_fallback_triple[OF w] end1] split: option.split)
  qed (auto intro!: triple_return simp: lease_after_simps policy_outcome_def)
  show ?thesis
    unfolding run_task_with_policy_def
    by (intro triple_get')
      (auto intro!: triple_return no_lease_one triple_bind[OF s triple_bind[OF attempt_loop_triple[OF w] end2]] frame_intros
        split: option.split prod.split)
qed

lemma execute_body_triple:
  assumes w: "world_respects env i"
  shows "triple (without_lease i) (execute_body env i) (\<lambda>_. with_lease i) (\<lambda>_. with_lease i)"
proof -
  note s = triple_free_one[OF triple_frame]
  have f: "triple (without_lease i) m (\<lambda>_. with_lease i) (\<lambda>_. with_lease i)" if "frame dn_monitor m" for m :: "(daemon, unit) eff"
    by (rule triple_conseq[OF s[OF that]]) (auto intro: no_lease_one)
  have g: "triple (with_lease i) (case r of (ok, output) \<Rightarrow> eff_get (\<lambda>d. if ts_status (dn_task d i) = TS_CANCELLED then persist env i
      else if ok then finish_success env i output else finish_failure env i output)) (\<lambda>_. with_lease i) (\<lambda>_. with_lease i)" for r
    by (rule triple_frame) (auto intro!: frame_intros split: prod.split)
  show ?thesis
    unfolding execute_body_def
    by (intro triple_get')
      (auto intro!: f triple_then[OF s triple_bind[OF run_task_with_policy_triple[OF w] g]] frame_intros)
qed

section \<open>The end of an execution\<close>

text \<open>What says who holds a lease: the monitor and the rows of the store.\<close>

definition lease_books :: "daemon \<Rightarrow> ResourceMonitor \<times> lease_row dict" where
  "lease_books d = (dn_monitor d, st_leases (wk_store (dn_wf d)))"

lemma books_put [simp]:
  "lease_books (put_task i f d) = lease_books d" "lease_books (put_acb n q d) = lease_books d"
  "lease_books (put_agent n p d) = lease_books d" "lease_books (dec_inflight x d) = lease_books d"
  by (simp_all add: lease_books_def put_task_def set_wk_task_def put_acb_def put_agent_def dec_inflight_def
      split: option.splits)

lemma books_persist_agent [simp]: "lease_books (persist_agent env n d) = lease_books d"
  by (simp add: lease_books_def persist_agent_def put_store_def save_agent_def split: option.splits)

lemma books_steps [frame_intros]:
  "frame lease_books (record_trace_event env i name detail)" "frame lease_books (persist env i)"
  unfolding record_trace_event_def persist_def
  by (auto simp: lease_books_def record_trace_def save_trace_event_def put_store_def Let_def intro!: frame_intros)

lemma books_set_agent_task [frame_intros]: "frame lease_books (set_agent_task env x tid)"
  unfolding set_agent_task_def Let_def by (auto intro!: frame_intros split: option.split)

definition leases_ended :: "string \<Rightarrow> ResourceMonitor \<times> lease_row dict \<Rightarrow> bool" where
  "leases_ended i b \<longleftrightarrow> no_lease i (fst b) \<and> (\<forall>(lid, r) \<in> set (snd b). gl_task_id r = i \<longrightarrow> gl_status r \<noteq> ''active'')"

lemma leases_ended_stored:
  "triple (without_lease i) (release_stored env i r) (\<lambda>_ d. leases_ended i (lease_books d)) (\<lambda>_ _. False)"
  unfolding release_stored_def
  by (rule triple_modify)
    (auto simp: leases_ended_def lease_books_def put_store_def release_leases_for_task_def release_row_def split: if_splits)

lemma release_async_triple:
  assumes "world_respects env i"
  shows "triple (with_lease i) (release_async env i) (\<lambda>_. without_lease i) (\<lambda>_ _. False)"
  using respectsD(2)[OF assms]
  by (simp add: triple_def release_async_def await_def eff_simps world_keeps_def release_key_ends_lease)

lemma execute_finally_triple:
  assumes "world_respects env i"
  shows "triple (with_lease i) (execute_finally env i x)
    (\<lambda>_ d. leases_ended i (lease_books d)) (\<lambda>_ d. leases_ended i (lease_books d))"
  unfolding execute_finally_def eff_seq.simps
  by (rule triple_then[OF triple_conseq[OF release_async_triple[OF assms]]
        triple_then[OF triple_conseq[OF leases_ended_stored] triple_keeps[OF frame_keeps[where p = lease_books]]]])
    (auto intro!: frame_intros)

lemma execute_task_ends_leases:
  assumes w: "world_respects env i" and free: "without_lease i d"
  shows "leases_ended i (lease_books (fst (execute_task env i d)))"
proof -
  have "triple (without_lease i) (eff_try (execute_body env i) (execute_except env i)) (\<lambda>_. with_lease i) (\<lambda>_. with_lease i)"
    by (rule triple_try[OF execute_body_triple[OF w] triple_frame]) (rule frame_intros)
  then have "triple (without_lease i) (eff_finally (eff_try (execute_body env i) (execute_except env i)) (execute_finally env i x))
      (\<lambda>_ d. leases_ended i (lease_books d)) (\<lambda>_ d. leases_ended i (lease_books d))" for x
    by (rule triple_finally[OF _ execute_finally_triple[OF w]])
  from triple_end[OF this, of d] show ?thesis using free by (simp add: execute_task_def eff_get_def)
qed

text \<open>C3: If a task holds no lease when its execution begins, and the other coroutines do not take
leases for it in the meantime, then it holds none when the execution is over, whether it succeeds,
fails, times out, is cancelled or raises: not in the resource monitor, and not in the rows of the store.\<close>

theorem daemon_execution_releases:
  assumes "world_respects env i" and "no_lease i (dn_monitor d)"
  shows "no_lease i (dn_monitor (fst (execute_task env i d))) \<and>
    i \<notin> lease_holders (wk_store (dn_wf (fst (execute_task env i d))))"
  using execute_task_ends_leases[OF assms]
  by (fastforce simp: leases_ended_def lease_books_def lease_holders_def)

lemma small_world: "world_respects (small_daemon_env heartbeats) i" "no_lease i (dn_monitor small_daemon)"
  by (simp_all add: world_respects_def world_keeps_def small_daemon_env_def heartbeats_def no_lease_def small_daemon_def
      monitor_init_def)

lemma monitor_submit_task: "frame dn_monitor (submit_task env r)"
proof -
  have "frame dn_monitor (record_submitted_context env c n inp)" for c n inp
    unfolding record_submitted_context_def Let_def by (auto intro!: frame_intros)
  moreover have "frame dn_monitor (admit_task env t ev detail)" "frame dn_monitor (schedule_task env i)" for t ev detail i
    unfolding admit_task_def schedule_task_def Let_def by (auto intro!: frame_intros)
  moreover have "frame dn_monitor (make_agent_usable env n s)" "frame dn_monitor (require_tasks ids)" for n s ids
    unfolding make_agent_usable_def require_tasks_def recover_agent_def by (auto intro!: frame_intros)
  ultimately show ?thesis
    unfolding submit_task_def require_agent_def Let_def by (auto intro!: frame_intros split: option.split)
qed

theorem daemon_execution_releases_witness:
  "no_lease ''task_x'' (dn_monitor (fst (execute_task (small_daemon_env heartbeats) ''task_x''
     (fst (submit_task (small_daemon_env heartbeats) small_request small_daemon)))))"
proof -
  have "no_lease ''task_x'' (dn_monitor (fst (submit_task (small_daemon_env heartbeats) small_request small_daemon)))"
    using small_world(2) monitor_submit_task by (simp add: frame_def)
  from daemon_execution_releases[OF small_world(1) this] show ?thesis by simp
qed

end
