(* ===== verification/Daemon_Admission.thy ===== *)
theory Daemon_Admission
  imports Daemon_Examples Kernel_Admission Store_Properties
begin

text \<open>
  Submissions are atomic: one that is refused leaves the scheduler, the task table, the stored tasks
  and the in-flight counters as they were, and one that is accepted is in all of them.
\<close>

section \<open>What a refused submission may not touch\<close>

definition task_books :: "daemon \<Rightarrow> kernel \<times> string list \<times> task_row dict \<times> (string option \<times> int) list \<times> nat" where
  "task_books d = (wk_kernel (dn_wf d), wk_tasks (dn_wf d), st_tasks (wk_store (dn_wf d)), dn_inflight d, dn_tick d)"

lemma task_books_put [simp]:
  "task_books (put_agent n p d) = task_books d" "task_books (put_acb n q d) = task_books d"
  "task_books (put_traces h d) = task_books d" "task_books (sync_agent_from_acb n d) = task_books d"
  "task_books (persist_agent env n d) = task_books d"
  by (simp_all add: task_books_def put_agent_def put_acb_def put_traces_def sync_agent_from_acb_def persist_agent_def
      put_store_def save_agent_def split: option.splits)

lemma task_books_agents [frame_intros]:
  "frame task_books (transition_agent env n s t r)" "frame task_books (mark_agent_ready_for_reuse env n t r)"
  "frame task_books (set_context_handle env n c)" "frame task_books (require_tasks ids)"
  unfolding transition_agent_def mark_agent_ready_for_reuse_def set_context_handle_def require_tasks_def Let_def comp_def
  by (auto intro!: frame_intros split: option.split prod.split sum.split)

lemma task_books_usable [frame_intros]: "frame task_books (make_agent_usable env n r)"
  unfolding make_agent_usable_def recover_agent_def by (auto intro!: frame_intros)

lemma task_books_context [frame_intros]: "frame task_books (record_submitted_context env c n inp)"
  unfolding record_submitted_context_def
  by (auto simp: frame_def eff_when_def eff_return_def task_books_def Let_def split: prod.split sum.split)

section \<open>Admission\<close>

text \<open>What an accepted submission leaves: the scheduler's node and queue, the table, the store, the counter.\<close>

definition admitted :: "daemon \<Rightarrow> string \<Rightarrow> string \<Rightarrow> string list \<Rightarrow> daemon \<Rightarrow> bool" where
  "admitted d i name deps d' \<longleftrightarrow>
     (let k = wk_kernel (dn_wf d); k' = wk_kernel (dn_wf d'); ds = set deps - k_completed_tasks k
      in kernel_inv k' \<and> known k' i \<and> open_deps k' i = ds \<and>
         set (k_ready k') = set (k_ready k) \<union> (if ds = {} then {i} else {}) \<and>
         set (k_waiting k') = set (k_waiting k) \<union> (if ds = {} then {} else {i}) \<and>
         set (wk_tasks (dn_wf d')) = insert i (set (wk_tasks (dn_wf d))) \<and>
         (\<exists>now. map_of (st_tasks (wk_store (dn_wf d'))) i = Some (row_of_task now (dn_task d' i))) \<and>
         dict_get (dn_inflight d') (Some name) 0 = dict_get (dn_inflight d) (Some name) 0 + 1)"

definition admission :: "daemon_env \<Rightarrow> TaskSpec \<Rightarrow> string \<Rightarrow> jdict \<Rightarrow> string \<Rightarrow> (daemon, string) eff" where
  "admission env t event detail name =
     eff_then (eff_seq [admit_task env t event detail, schedule_task env (ts_task_id t),
       eff_modify (inc_inflight (Some name)), persist env (ts_task_id t)]) (eff_return (ts_task_id t))"

text \<open>\<open>tasks[i] = task\<close> before \<open>enqueue\<close> changes nothing for the scheduler.\<close>

lemma kernel_enqueue_again:
  "kernel_enqueue env t (k\<lparr>k_task := (k_task k)(ts_task_id t := t)\<rparr>) = kernel_enqueue env t k"
  by (simp add: kernel_enqueue_def eff_simps Let_def)

lemma admission_succeeds:
  assumes inv: "kernel_inv (wk_kernel (dn_wf d))" and t: "coherent t" "ts_status t = TS_PENDING"
    and fresh: "\<not> known (wk_kernel (dn_wf d)) (ts_task_id t)"
  shows "\<exists>d'. admission env t event detail name d = (d', Inr (ts_task_id t)) \<and>
    admitted d (ts_task_id t) name (ts_dependencies t) d'"
proof -
  let ?i = "ts_task_id t" and ?k = "wk_kernel (dn_wf d)"
  define d3 where "d3 = fst (admit_task env t event detail d)"
  have admit: "admit_task env t event detail d = (d3, Inr ())"
    by (simp add: d3_def admit_task_def record_trace_event_def Let_def eff_simps)
  have d3: "wk_kernel (dn_wf d3) = ?k\<lparr>k_task := (k_task ?k)(?i := t)\<rparr>" "dn_task d3 ?i = t"
      "wk_tasks (dn_wf d3) = wk_tasks (note_task ?i (dn_wf d))" "dn_inflight d3 = dn_inflight d"
    by (simp_all add: d3_def admit_task_def record_trace_event_def Let_def eff_simps put_task_def put_traces_def
        record_trace_def set_wk_task_def note_task_def dn_task_def wk_task_def)
  obtain k' where k': "kernel_enqueue (kernel_env env d3) t ?k = (k', Inr ())" "enqueued t ?k k'"
    using enqueue_fresh[OF t fresh] by blast
  have inv': "kernel_inv k'" by (rule enqueued_inv[OF inv t(1) fresh k'(1)])
  have id: "ts_task_id (k_task k' ?i) = ?i" using inv_knownD[OF inv'] k'(2) by (simp add: enqueued_def Let_def)
  define d4 where "d4 = fst (schedule_task env ?i d3)"
  have sched: "schedule_task env ?i d3 = (d4, Inr ())"
    by (simp add: d4_def schedule_task_def eff_simps on_kernel_def on_workflow_def d3 kernel_enqueue_again k'(1)
        record_trace_event_def)
  have d4: "wk_kernel (dn_wf d4) = k'" "wk_tasks (dn_wf d4) = wk_tasks (dn_wf d3)" "dn_inflight d4 = dn_inflight d3"
    by (simp_all add: d4_def schedule_task_def eff_simps on_kernel_def on_workflow_def d3 kernel_enqueue_again k'(1)
        record_trace_event_def record_trace_def Let_def)
  define d5 where "d5 = fst (persist env ?i (inc_inflight (Some name) d4))"
  have run: "admission env t event detail name d = (d5, Inr ?i)"
    by (simp add: admission_def eff_simps admit sched d5_def persist_def)
  have d5: "wk_kernel (dn_wf d5) = k'" "wk_tasks (dn_wf d5) = wk_tasks (note_task ?i (dn_wf d))"
      "dict_get (dn_inflight d5) (Some name) 0 = dict_get (dn_inflight d) (Some name) 0 + 1"
      "map_of (st_tasks (wk_store (dn_wf d5))) ?i = Some (row_of_task (dnow env d4) (dn_task d5 ?i))"
    by (simp_all add: d5_def persist_def eff_simps put_store_def inc_inflight_def d4 d3 dict_get_def dn_task_def wk_task_def
        id dnow_def)
  have "admitted d ?i name (ts_dependencies t) d5"
    using k'(2) inv' d5 by (auto simp: admitted_def Let_def enqueued_def note_task_def)
  with run show ?thesis by blast
qed

section \<open>Submissions\<close>

lemma require_agent_cases:
  "(\<exists>e. require_agent nm req f d = (d, Inl e)) \<or> (\<exists>a. require_agent nm req f d = f a d)"
proof (cases "select_agent_name nm req d")
  case (Inr b)
  then show ?thesis
    by (cases b; cases "map_of (dn_agents d) (the b) = None") (auto simp: require_agent_def eff_simps)
qed (simp add: require_agent_def eff_simps)

lemma submission_atomic:
  assumes frame: "frame task_books pre" and inv: "kernel_inv (wk_kernel (dn_wf d))"
    and t: "\<And>d'. coherent (t d')" "\<And>d'. ts_status (t d') = TS_PENDING"
      "\<And>d'. dn_tick d' = dn_tick d \<Longrightarrow> ts_task_id (t d') = i" "\<And>d'. ts_dependencies (t d') = deps"
    and fresh: "\<not> known (wk_kernel (dn_wf d)) i"
  shows "case eff_then pre (eff_get (\<lambda>d. admission env (t d) event detail name)) d of
      (d', Inl e) \<Rightarrow> task_books d' = task_books d
    | (d', Inr j) \<Rightarrow> j = i \<and> admitted d i name deps d'"
proof -
  obtain d1 r where pre: "pre d = (d1, r)" by fastforce
  then have same: "task_books d1 = task_books d" using frame by (simp add: frame_def) (metis fst_conv)
  show ?thesis
  proof (cases r)
    case (Inl e)
    then show ?thesis using pre same by (simp add: eff_simps)
  next
    case (Inr u)
    have tick: "dn_tick d1 = dn_tick d" "wk_kernel (dn_wf d1) = wk_kernel (dn_wf d)" using same by (simp_all add: task_books_def)
    obtain d' where "admission env (t d1) event detail name d1 = (d', Inr i)" "admitted d1 i name deps d'"
      using admission_succeeds[of d1 "t d1" env event detail name] inv t fresh tick by auto
    then show ?thesis
      using Inr pre same by (simp add: eff_simps admitted_def task_books_def Let_def)
  qed
qed

lemma post_init_fields:
  assumes "ts_tcb t = None"
  shows "ts_task_id (model_post_init t) = ts_task_id t" "ts_dependencies (model_post_init t) = ts_dependencies t"
    "ts_status (model_post_init t) = ts_status t"
  using assms by (simp_all add: model_post_init_def Let_def sync_from_tcb_def tcb_of_task_def split: option.splits)

lemma post_init_coherent: "coherent (model_post_init t)"
  by (rule synced_coherent[OF synced_model_post_init])

lemma request_task_fields:
  "ts_task_id (task_from_submit env d r name deps) = ''task_'' @ de_fresh env (dn_tick d)"
  "ts_dependencies (task_from_submit env d r name deps) = deps"
  "ts_status (task_from_submit env d r name deps) = TS_PENDING" "ts_tcb (task_from_submit env d r name deps) = None"
  by (simp_all add: task_from_submit_def task_from_request_def raw_task_def)

definition submit_body :: "daemon_env \<Rightarrow> SubmitTaskRequest \<Rightarrow> string \<Rightarrow> (daemon, string) eff" where
  "submit_body env r name =
     eff_then (eff_seq
         [make_agent_usable env name ''task.submit'', require_tasks (rq_dependencies r),
          record_submitted_context env (rq_context_id r) name (rq_task_input r),
          set_context_handle env name (or_none (rq_context_id r))])
       (eff_get (\<lambda>d. admission env (model_post_init ((task_from_submit env d r name (rq_dependencies r))\<lparr>ts_children := rq_children r\<rparr>))
          ''task.created'' [(''agent_name'', JStr name), (''required_capability'', JObj (rq_required_capability r))] name))"

lemma submit_task_body:
  "submit_task env r = require_agent (rq_agent_name r) (rq_required_capability r) (submit_body env r)"
  by (simp add: submit_task_def submit_body_def[abs_def] admission_def Let_def)

text \<open>C4: A submission is all or nothing. For a scheduler in a consistent state and an unused identifier,
\<open>submit_task\<close> either answers an error and leaves the scheduler, the task table, the stored tasks and the
in-flight counters exactly as they were, or it returns the identifier of a task that the scheduler has
ready (all its dependencies completed) or waiting (with exactly the others open), that the table
lists, whose row the store holds, and that is counted as in flight for its agent.\<close>

theorem daemon_submission_atomic:
  assumes "kernel_inv (wk_kernel (dn_wf d))" and "\<not> known (wk_kernel (dn_wf d)) (''task_'' @ de_fresh env (dn_tick d))"
  shows "case submit_task env r d of
      (d', Inl e) \<Rightarrow> task_books d' = task_books d
    | (d', Inr i) \<Rightarrow> i = ''task_'' @ de_fresh env (dn_tick d) \<and> (\<exists>name. admitted d i name (rq_dependencies r) d')"
proof -
  let ?body = "submit_body env r"
  have body: "case ?body name d of
      (d', Inl e) \<Rightarrow> task_books d' = task_books d
    | (d', Inr i) \<Rightarrow> i = ''task_'' @ de_fresh env (dn_tick d) \<and>
        admitted d (''task_'' @ de_fresh env (dn_tick d)) name (rq_dependencies r) d'" for name
    unfolding submit_body_def
    by (rule submission_atomic[OF _ assms(1) _ _ _ _ assms(2)])
      (auto simp: post_init_fields request_task_fields post_init_coherent intro!: frame_intros)
  show ?thesis
    using require_agent_cases[of "rq_agent_name r" "rq_required_capability r" ?body d]
  proof (elim disjE exE)
    fix a
    assume "require_agent (rq_agent_name r) (rq_required_capability r) ?body d = ?body a d"
    with body[of a] show ?thesis by (auto simp: submit_task_body split: prod.splits sum.splits)
  qed (simp add: submit_task_body)
qed

lemma small_submit: "\<exists>d'. submit_task (small_daemon_env others) small_request small_daemon = (d', Inr ''task_x'')"
proof -
  let ?env = "small_daemon_env others" and ?d = small_daemon
  let ?t = "model_post_init ((task_from_submit ?env ?d small_request ''a'' [])\<lparr>ts_children := []\<rparr>)"
  have r: "rq_agent_name small_request = Some ''a''" "rq_context_id small_request = []" "rq_dependencies small_request = []"
      "rq_children small_request = []"
    by (simp_all add: small_request_def)
  have a: "map_of (dn_agents ?d) ''a'' \<noteq> None" by (simp add: small_daemon_def)
  have x: "de_fresh ?env n = ''x''" for n by (simp add: small_daemon_env_def)
  let ?detail = "[(''agent_name'', JStr ''a''), (''required_capability'', JObj (rq_required_capability small_request))]"
  have "\<exists>d'. admission ?env ?t ''task.created'' ?detail ''a'' ?d = (d', Inr ''task_x'')"
    using admission_succeeds[OF small_kernel(1), of ?t ?env "''task.created''" ?detail "''a''"] small_kernel(2)
    by (auto simp: post_init_fields request_task_fields post_init_coherent x)
  then obtain d' where "admission ?env ?t ''task.created'' ?detail ''a'' ?d = (d', Inr ''task_x'')" ..
  then have "submit_body ?env small_request ''a'' ?d = (d', Inr ''task_x'')"
    unfolding submit_body_def r or_none_def if_True eff_then_def[of "eff_seq xs" for xs] eff_bind_def small_prepared
    by (simp add: eff_get_def small_prepared[unfolded eff_seq.simps])
  then have "submit_task ?env small_request ?d = (d', Inr ''task_x'')"
    using a by (auto simp: submit_task_body require_agent_def select_agent_name_def filled_or_def eff_get_def eff_lift_def
        eff_bind_def r)
  then show ?thesis by blast
qed

theorem daemon_submission_atomic_witness:
  "\<exists>d' name. submit_task (small_daemon_env (\<lambda>_ d. d)) small_request small_daemon = (d', Inr ''task_x'') \<and>
     admitted small_daemon ''task_x'' name [] d'"
proof -
  obtain d' where s: "submit_task (small_daemon_env (\<lambda>_ d. d)) small_request small_daemon = (d', Inr ''task_x'')"
    using small_submit by blast
  with daemon_submission_atomic[OF small_kernel(1), of "small_daemon_env (\<lambda>_ d. d)" small_request] small_kernel(2)
  show ?thesis by (auto simp: small_request_def)
qed

end
