(* ===== verification/Daemon_Attempts.thy ===== *)
theory Daemon_Attempts
  imports Daemon_Views Daemon_Examples Daemon_Admission
begin

text \<open>
  How often a task is tried: an execution makes at most \<open>max_retries + 1\<close> attempts on the task's agent
  and one on the fallback agent. And which result an attempt gets: the first one its worker sends
  while the attempt is the active one; what comes late changes nothing but the trace.
\<close>

section \<open>Effects that add a bounded amount\<close>

definition grows :: "('s \<Rightarrow> nat) \<Rightarrow> nat \<Rightarrow> ('s, 'a) eff \<Rightarrow> bool" where
  "grows p n m \<longleftrightarrow> (\<forall>s. p (fst (m s)) \<le> p s + n)"

lemma growsD: "grows p n m \<Longrightarrow> m s = (s', r) \<Longrightarrow> p s' \<le> p s + n"
  by (metis fst_conv grows_def)

lemma grows_frame: "frame p m \<Longrightarrow> grows p n m"
  by (simp add: frame_def grows_def)

lemma grows_mono: "grows p n m \<Longrightarrow> n \<le> n' \<Longrightarrow> grows p n' m"
  by (meson add_left_mono grows_def le_trans)

lemma grows_bind:
  assumes m: "grows p a m" and f: "\<And>x. grows p b (f x)"
  shows "grows p (a + b) (eff_bind m f)"
  unfolding grows_def
proof
  fix s
  obtain s' r where e: "m s = (s', r)" by fastforce
  show "p (fst (eff_bind m f s)) \<le> p s + (a + b)"
  proof (cases r)
    case (Inr x)
    then show ?thesis using e growsD[OF m e] f[of x] by (auto simp: eff_bind_def grows_def intro: le_trans[of _ "p s' + b"])
  qed (use e growsD[OF m e] in \<open>simp add: eff_bind_def\<close>)
qed

lemma grows_then: "grows p a m \<Longrightarrow> grows p b n \<Longrightarrow> grows p (a + b) (eff_then m n)"
  by (simp add: eff_then_def grows_bind)

lemma grows_get: "(\<And>s. grows p n (f s)) \<Longrightarrow> grows p n (eff_get f)"
  by (simp add: grows_def eff_get_def)

lemma grows_if: "grows p n m \<Longrightarrow> grows p n m' \<Longrightarrow> grows p n (if b then m else m')"
  by simp

section \<open>The attempts of one execution\<close>

definition tries :: "string \<Rightarrow> daemon \<Rightarrow> nat" where
  "tries i d = length (ts_attempts (dn_task d i))"

definition policy_of :: "string \<Rightarrow> daemon \<Rightarrow> FailurePolicy" where
  "policy_of i d = ts_failure_policy (dn_task d i)"

lemma ensure_tcb_keeps:
  "ensure_tcb t = (c, t1) \<Longrightarrow> ts_attempts t1 = ts_attempts t \<and> ts_failure_policy t1 = ts_failure_policy t"
  by (auto simp: ensure_tcb_def model_post_init_def sync_from_tcb_def Let_def split: option.splits)

lemma via_tcb_keeps:
  "ts_attempts (fst (via_tcb m t)) = ts_attempts t \<and> ts_failure_policy (fst (via_tcb m t)) = ts_failure_policy t"
proof -
  obtain c t1 where e: "ensure_tcb t = (c, t1)" by fastforce
  obtain c' r where "m c = (c', r)" by fastforce
  then show ?thesis using e ensure_tcb_keeps[OF e] by (cases r) (simp_all add: via_tcb_def sync_from_tcb_def)
qed

lemma dn_task_put_task: "dn_task (put_task i f d) i = f (dn_task d i)"
  by (simp add: put_task_def dn_task_def set_wk_task_def wk_task_def)

lemma dn_task_transition: "dn_task (fst (task_transition env i st r d)) i = fst (transition_to (dnow env d) st r (dn_task d i))"
  by (simp add: task_transition_def eff_get_def on_kernel_def on_workflow_def on_task_def dn_task_def wk_task_def split: prod.splits)

lemma dn_task_fields:
  "dn_task (put_store g d) i = dn_task d i" "dn_task (put_traces h d) i = dn_task d i"
  by (simp_all add: dn_task_def wk_task_def put_store_def put_traces_def)

lemma dn_task_cong: "dn_wf d' = dn_wf d \<Longrightarrow> dn_task d' i = dn_task d i"
  by (simp add: dn_task_def)

text \<open>A part of the task alone.\<close>

lemma task_part_view:
  assumes "\<And>f t. minor f \<Longrightarrow> q (f t) = q t" "\<And>now st r t. q (fst (transition_to now st r t)) = q t"
    and "\<And>y. minor (\<lambda>t. t\<lparr>ts_error := y\<rparr>)" "\<And>y. minor (\<lambda>t. t\<lparr>ts_llm_usage := y\<rparr>)"
      "minor (\<lambda>t. t\<lparr>ts_task_input := drop_crash_flag (ts_task_input t)\<rparr>)"
      "\<And>y. minor (\<lambda>t. t\<lparr>ts_scheduler_decision_reason := y t\<rparr>)" "\<And>y. minor (set_resource_lease y)"
      "\<And>g. minor (\<lambda>t. t\<lparr>ts_attempts := map g (ts_attempts t)\<rparr>)"
  shows "quiet_view (\<lambda>d. q (dn_task d i)) i minor"
  using assms
  by unfold_locales
    (simp_all add: dn_task_put_task dn_task_fields frame_def dn_task_transition, simp_all add: dn_task_def)

definition same_tries :: "(TaskSpec \<Rightarrow> TaskSpec) \<Rightarrow> bool" where
  "same_tries f \<longleftrightarrow> (\<forall>t. length (ts_attempts (f t)) = length (ts_attempts t) \<and> ts_failure_policy (f t) = ts_failure_policy t)"

lemma same_tries_lease: "same_tries (set_resource_lease y)"
  unfolding same_tries_def set_resource_lease_def using ensure_tcb_keeps by (auto split: prod.splits)

interpretation tries: quiet_view "tries i" i same_tries for i
  unfolding tries_def[abs_def]
  by (rule task_part_view) (simp_all add: same_tries_lease, simp_all add: same_tries_def via_tcb_keeps transition_to_def)

interpretation policy: quiet_view "policy_of i" i same_tries for i
  unfolding policy_of_def[abs_def]
  by (rule task_part_view) (simp_all add: same_tries_lease, simp_all add: same_tries_def via_tcb_keeps transition_to_def)

text \<open>Only a new attempt adds to the list.\<close>

lemma create_attempt_keeps:
  "create_attempt now n pid t = (t', a) \<Longrightarrow> length (ts_attempts t') = Suc (length (ts_attempts t)) \<and>
     ts_failure_policy t' = ts_failure_policy t"
  using ensure_tcb_keeps by (auto simp: create_attempt_def Let_def split: prod.splits)

lemma new_attempt_tries: "grows (tries i) 1 (new_attempt env i n)"
  using create_attempt_keeps
  by (auto simp: grows_def new_attempt_def eff_simps tries_def dn_task_put_task split: prod.splits)

lemma new_attempt_policy [frame_intros]: "frame (policy_of i) (new_attempt env i n)"
  using create_attempt_keeps
  by (auto simp: frame_def new_attempt_def eff_simps policy_of_def dn_task_put_task split: prod.splits)

text \<open>The others add no attempt and do not change the policy of the task.\<close>

definition world_waits :: "daemon_env \<Rightarrow> string \<Rightarrow> bool" where
  "world_waits env i \<longleftrightarrow> (\<forall>n d. tries i (de_world env n d) = tries i d \<and> policy_of i (de_world env n d) = policy_of i d)"

lemma waits_await: "world_waits env i \<Longrightarrow> frame (tries i) (await env) \<and> frame (policy_of i) (await env)"
  by (simp add: world_waits_def frame_def await_def eff_modify_def tries_def policy_of_def dn_task_def)

lemma one_attempt_tries:
  assumes "world_waits env i"
  shows "grows (tries i) 1 (one_attempt env i agent n payload k)" "frame (policy_of i) (one_attempt env i agent n payload k)"
proof -
  have "grows (tries i) (0 + (1 + 0)) (one_attempt env i agent n payload k)"
    unfolding one_attempt_def Let_def
    by (intro grows_then grows_bind new_attempt_tries grows_frame)
      (use waits_await[OF assms] in \<open>auto intro!: frame_intros\<close>)
  then show "grows (tries i) 1 (one_attempt env i agent n payload k)" by simp
  show "frame (policy_of i) (one_attempt env i agent n payload k)"
    unfolding one_attempt_def Let_def using waits_await[OF assms] by (auto intro!: frame_intros)
qed

lemma attempt_loop_tries:
  assumes w: "world_waits env i"
  shows "grows (tries i) (Suc m) (attempt_loop env i agent n payload k m)"
    and "frame (policy_of i) (attempt_loop env i agent n payload k m)"
proof (induction m arbitrary: k)
  case 0
  {
    case 1
    show ?case using one_attempt_tries[OF w] by simp
  next
    case 2
    show ?case using one_attempt_tries[OF w] by simp
  }
next
  case (Suc m)
  {
    case 1
    have "grows (tries i) (1 + (0 + Suc m)) (attempt_loop env i agent n payload k (Suc m))"
      unfolding attempt_loop.simps
    proof (rule grows_bind[OF one_attempt_tries(1)[OF w]])
      show "grows (tries i) (0 + Suc m) (case r of Inl err \<Rightarrow> eff_then (await env) (attempt_loop env i agent n payload (Suc k) m)
          | Inr output \<Rightarrow> eff_return (Inr output))" for r
        using grows_then[OF grows_frame Suc(1), of "await env" 0] waits_await[OF w]
        by (cases r) (simp_all add: grows_frame frame_return)
    qed
    then show ?case by simp
  next
    case 2
    show ?case unfolding attempt_loop.simps
      using waits_await[OF w] Suc(2) one_attempt_tries(2)[OF w] by (auto intro!: frame_intros)
  }
qed

lemma run_fallback_tries:
  assumes "world_waits env i" shows "grows (tries i) 1 (run_fallback env i fallback err)"
proof -
  have branch: "grows (tries i) (0 + (1 + 0)) (eff_then (eff_modify (put_task i (\<lambda>t. t\<lparr>ts_task_input := drop_crash_flag (ts_task_input t)\<rparr>)))
      (eff_bind (new_attempt env i fallback) f))" if "\<And>x. frame (tries i) (f x)" for f :: "string \<Rightarrow> (daemon, string option) eff"
    by (intro grows_then grows_bind new_attempt_tries grows_frame that) (auto intro!: frame_intros)
  have prepare: "grows (tries i) (0 + (1 + 0)) (prepare_fallback_attempt env i fallback)"
    unfolding prepare_fallback_attempt_def Let_def
    by (intro grows_get grows_if, rule grows_frame, (auto intro!: frame_intros)[1], rule branch, auto intro!: frame_intros)
  have "grows (tries i) (0 + ((0 + (1 + 0)) + 0)) (run_fallback env i fallback err)"
    unfolding run_fallback_def
    by (rule grows_then[OF grows_frame grows_bind[OF prepare grows_frame]])
      (use waits_await[OF assms] in \<open>auto intro!: frame_intros split: option.split\<close>)
  then show ?thesis by simp
qed

lemma has_fallback_policy: "policy_of i d' = policy_of i d \<Longrightarrow> has_fallback (dn_task d' i) = has_fallback (dn_task d i)"
  by (simp add: has_fallback_def policy_of_def)

lemma policy_outcome_tries:
  assumes "world_waits env i"
  shows "tries i (fst (policy_outcome env i r d)) \<le> tries i d + (if has_fallback (dn_task d i) = None then 0 else 1)"
proof (cases "has_fallback (dn_task d i)")
  case None
  then show ?thesis by (cases r) (simp_all add: policy_outcome_def eff_get_def eff_return_def)
next
  case (Some fb)
  have g: "grows (tries i) (1 + 0) (eff_bind (run_fallback env i fb err) f)" if "\<And>x. frame (tries i) (f x)"
    for err and f :: "string + json \<Rightarrow> (daemon, bool \<times> json) eff"
    by (rule grows_bind[OF run_fallback_tries[OF assms] grows_frame[OF that]])
  have "grows (tries i) (1 + 0) (eff_bind (run_fallback env i fb err) (\<lambda>r. case r of
      Inr output \<Rightarrow> eff_return (True, output) | Inl err \<Rightarrow> eff_return (False, JStr (or_default err ''worker error''))))" for err
    by (rule g) (auto intro!: frame_intros)
  with Some show ?thesis
    by (cases r) (simp_all add: policy_outcome_def eff_get_def grows_def, simp add: eff_return_def)
qed

text \<open>C5: Retries are bounded. While the other coroutines neither add attempts to the task nor change its
failure policy, one execution makes at most \<open>max(max_retries + 1, 1)\<close> attempts on the agent of the
task, whatever fails, and one more only when the policy names a fallback agent.\<close>

theorem daemon_attempts_bounded:
  assumes w: "world_waits env i"
  shows "tries i (fst (run_task_with_policy env i d)) \<le>
    tries i d + max_attempts (dn_task d i) + (if has_fallback (dn_task d i) = None then 0 else 1)"
proof (cases "\<exists>name agent. ts_agent_name (dn_task d i) = Some name \<and> agent_of d (Some name) = Some agent")
  case False
  then have "fst (run_task_with_policy env i d) = d"
    by (auto simp: run_task_with_policy_def eff_simps agent_of_def split: option.splits)
  then show ?thesis by simp
next
  case True
  then obtain name agent where a: "ts_agent_name (dn_task d i) = Some name" "agent_of d (Some name) = Some agent" by blast
  let ?m = "max_attempts (dn_task d i)"
  let ?loop = "\<lambda>payload. attempt_loop env i agent name payload 0 (?m - 1)"
  let ?loops = "eff_bind (build_payload env i name) ?loop"
  have run: "run_task_with_policy env i d = eff_bind ?loops (policy_outcome env i) d"
    using a by (simp add: run_task_with_policy_def eff_get_def eff_bind_assoc)
  obtain d1 r where l: "?loops d = (d1, r)" by fastforce
  have "grows (tries i) (0 + Suc (?m - 1)) ?loops"
    by (intro grows_bind grows_frame attempt_loop_tries(1)[OF w] frame_intros)
  moreover have "frame (policy_of i) ?loops" by (intro frame_intros attempt_loop_tries(2)[OF w])
  moreover have "1 \<le> ?m" by (simp add: max_attempts_def)
  ultimately have 1: "tries i d1 \<le> tries i d + ?m" "policy_of i d1 = policy_of i d"
    using l growsD[of "tries i" _ ?loops d d1 r] frameD[of "policy_of i" ?loops d d1 r] by auto
  show ?thesis
  proof (cases r)
    case (Inl e)
    then show ?thesis using l 1(1) unfolding run eff_bind_def[of ?loops] by simp
  next
    case (Inr x)
    then show ?thesis using l 1(1) policy_outcome_tries[OF w, of x d1] has_fallback_policy[OF 1(2)]
      unfolding run eff_bind_def[of ?loops] by simp
  qed
qed

definition small_task_daemon :: daemon where
  "small_task_daemon = put_task ''t'' (\<lambda>_. new_task ''t'' (Some ''a'') [] [] ''tr'' 0) small_daemon"

theorem daemon_attempts_bounded_witness:
  "tries ''t'' (fst (run_task_with_policy (small_daemon_env heartbeats) ''t'' small_task_daemon)) \<le> 1"
proof -
  have w: "world_waits (small_daemon_env heartbeats) ''t''"
    by (simp add: world_waits_def small_daemon_env_def heartbeats_def tries_def policy_of_def dn_task_def put_fault_def)
  have t: "dn_task small_task_daemon ''t'' = new_task ''t'' (Some ''a'') [] [] ''tr'' 0"
    by (simp add: small_task_daemon_def dn_task_put_task)
  have "max_attempts (dn_task small_task_daemon ''t'') = 1" "has_fallback (dn_task small_task_daemon ''t'') = None"
    by (simp_all add: t max_attempts_def has_fallback_def new_task_def model_post_init_def sync_from_tcb_def tcb_of_task_def
        raw_task_def default_failure_policy_def)
  moreover have "tries ''t'' small_task_daemon = 0" by (simp add: tries_def t)
  ultimately show ?thesis using daemon_attempts_bounded[OF w, of small_task_daemon] by simp
qed

section \<open>Results\<close>

text \<open>The result a message of a worker carries for the active attempt of the task, if it does.\<close>

definition result_for :: "daemon_env \<Rightarrow> daemon \<Rightarrow> string \<Rightarrow> string \<times> jdict \<Rightarrow> jdict option" where
  "result_for env d i = (\<lambda>(agent_name, data).
     if i \<noteq> [] \<and> i \<in> set (wk_tasks (dn_wf d)) \<and> str_strip (text_of env d data ''task_id'') = i \<and>
        map_option at_attempt_id (active_attempt (dn_task d i)) = Some (text_of env d data ''attempt_id'')
     then Some [(''agent_name'', JStr agent_name), (''task_id'', JStr i), (''attempt_id'', JStr (text_of env d data ''attempt_id'')),
       (''status'', get_json data ''status''), (''output'', get_json data ''output''),
       (''error'', get_json data ''error''), (''usage'', json_or [get_json data ''usage''] (JObj []))]
     else None)"

definition deliver :: "daemon_env \<Rightarrow> (string \<times> jdict) list \<Rightarrow> daemon \<Rightarrow> daemon" where
  "deliver env = fold (\<lambda>(agent_name, data) d. fst (on_task_result env agent_name data d))"

lemma pending_record_trace [simp]:
  "dn_pending (fst (record_trace_event env i name detail d)) = dn_pending d"
  "result_for env (fst (record_trace_event env i name detail d)) = result_for env d"
  by (simp_all add: fun_eq_iff record_trace_event_def eff_modify_def record_trace_def result_for_def text_of_def kernel_env_def
      dnow_def dn_task_def wk_task_def Let_def)

lemma result_for_pending [simp]: "result_for env (d\<lparr>dn_pending := x\<rparr>) = result_for env d"
  by (simp add: fun_eq_iff result_for_def text_of_def kernel_env_def dnow_def dn_task_def)

lemma on_task_result_frame: "result_for env (fst (on_task_result env n data d)) = result_for env d"
  by (simp add: on_task_result_def eff_get_def Let_def eff_return_def eff_modify_def split: option.split prod.split)

lemma on_task_result_pending:
  "map_of (dn_pending (fst (on_task_result env n data d))) i =
     (case map_of (dn_pending d) i of
        Some (a, None) \<Rightarrow> Some (a, result_for env d i (n, data))
      | other \<Rightarrow> other)"
proof -
  let ?j = "str_strip (text_of env d data ''task_id'')" and ?a = "text_of env d data ''attempt_id''"
  let ?d = "fst (on_task_result env n data d)"
  note defs = on_task_result_def eff_get_def Let_def eff_return_def
  consider "?j = [] \<or> ?j \<notin> set (wk_tasks (dn_wf d))" | "map_of (dn_pending d) ?j = None"
    | a res where "?j \<noteq> []" "?j \<in> set (wk_tasks (dn_wf d))" "map_of (dn_pending d) ?j = Some (a, res)"
    by fastforce
  then show ?thesis
  proof cases
    case 1
    then have "?d = d" "result_for env d i (n, data) = None" by (auto simp: defs result_for_def)
    then show ?thesis by (simp split: option.split)
  next
    case 2
    then have "?d = d" "?j = i \<longrightarrow> map_of (dn_pending d) i = None" by (auto simp: defs)
    moreover have "?j \<noteq> i \<Longrightarrow> result_for env d i (n, data) = None" by (simp add: result_for_def)
    ultimately show ?thesis by (cases "?j = i") (auto split: option.split)
  next
    case (3 a res)
    show ?thesis
    proof (cases "map_option at_attempt_id (active_attempt (dn_task d ?j)) = Some ?a \<and> res = None")
      case True
      then have "?d = d\<lparr>dn_pending := dict_set ?j (a, result_for env d ?j (n, data)) (dn_pending d)\<rparr>"
        using 3 by (auto simp: defs eff_modify_def result_for_def)
      then show ?thesis using 3 True by (cases "?j = i") (auto simp: result_for_def split: option.split)
    next
      case False
      then have "dn_pending ?d = dn_pending d" using 3 by (auto simp: defs split: option.split)
      moreover have "?j = i \<Longrightarrow> res = None \<Longrightarrow> result_for env d i (n, data) = None"
        using False by (auto simp: result_for_def)
      moreover have "?j \<noteq> i \<Longrightarrow> result_for env d i (n, data) = None" by (simp add: result_for_def)
      ultimately show ?thesis using 3 by (cases "?j = i"; cases res) (auto split: option.split)
    qed
  qed
qed

text \<open>C6: The first result wins. Whatever messages the workers send, in whatever order, an attempt that waits
gets the first of them that names its task and the active attempt of that task, and nothing if there
is none; a result that came is never replaced; where nothing waits, nothing is entered.\<close>

theorem daemon_first_result_wins:
  "map_of (dn_pending (deliver env msgs d)) i =
     (case map_of (dn_pending d) i of
        None \<Rightarrow> None
      | Some (a, Some r) \<Rightarrow> Some (a, Some r)
      | Some (a, None) \<Rightarrow>
          Some (a, case List.map_filter (result_for env d i) msgs of [] \<Rightarrow> None | r # _ \<Rightarrow> Some r))"
proof (induction msgs arbitrary: d)
  case Nil
  show ?case by (simp add: deliver_def List.map_filter_simps split: option.split prod.split)
next
  case (Cons m msgs)
  obtain n data where m: "m = (n, data)" by fastforce
  let ?d = "fst (on_task_result env n data d)"
  have "deliver env (m # msgs) d = deliver env msgs ?d" by (simp add: deliver_def m)
  then show ?case
    using Cons[of ?d] on_task_result_pending[of env n data d i] on_task_result_frame[of env n data d]
    by (auto simp: m List.map_filter_simps split: option.splits)
qed

end
