(* ===== verification/Uds_Transport.thy ===== *)
theory Uds_Transport
  imports State_Store
begin

text \<open>
  \<open>aruntime/comm/transport.py\<close>: the server side of one connection over the Unix domain socket.

  A connection is read line by line; what \<open>readline\<close> gives or raises is a list, and the end of the list
  or an empty line is the end of the stream. What the handler does for those lines is the list of its
  calls: to the router, to the four handlers the daemon passes to \<open>start_uds_server\<close>, and to the writer.
  Whether the n-th call returns or raises is a function of the environment, as are \<open>json.loads\<close>, the
  credentials of the peer and the identifiers of new messages. \<open>UDSMessageClient\<close> is the other end.
\<close>

section \<open>Lines\<close>

record uds_env =
  ue_max_bytes :: nat
  ue_loads :: "string \<Rightarrow> py_error + json"
  ue_float_repr :: "rat \<Rightarrow> string"
  ue_tokens :: "string dict"
  ue_peer :: jdict
  ue_allowed_uid :: string
  ue_int :: "string \<Rightarrow> py_error + int"
  ue_message_id :: "nat \<Rightarrow> string"
  ue_now :: "nat \<Rightarrow> usec"
  ue_returns :: "nat \<Rightarrow> bool"

definition decode_line :: "uds_env \<Rightarrow> string \<Rightarrow> py_error + jdict" where
  "decode_line env line =
     (if length line > ue_max_bytes env then Inl (ValueError ''message too large'')
      else (case ue_loads env line of
              Inl e \<Rightarrow> Inl e
            | Inr (JObj d) \<Rightarrow> Inr d
            | Inr _ \<Rightarrow> Inl (ValueError ''message must be object'')))"

definition read_limited_line :: "uds_env \<Rightarrow> py_error + string \<Rightarrow> py_error + string" where
  "read_limited_line env r =
     (case r of
        Inl (ValueError x) \<Rightarrow> Inl (ValueError ''message too large'')
      | Inl e \<Rightarrow> Inl e
      | Inr line \<Rightarrow> if length line > ue_max_bytes env then Inl (ValueError ''message too large'') else Inr line)"

text \<open>\<open>None\<close> where the source leaves the loop: the end of the stream, or an exception.\<close>

definition next_message :: "uds_env \<Rightarrow> py_error + string \<Rightarrow> jdict option" where
  "next_message env r =
     (case read_limited_line env r of
        Inr line \<Rightarrow> if line = [] then None else (case decode_line env line of Inr d \<Rightarrow> Some d | Inl e \<Rightarrow> None)
      | Inl e \<Rightarrow> None)"

text \<open>\<open>str(data.get(k) or "")\<close>.\<close>

definition field_text :: "uds_env \<Rightarrow> jdict \<Rightarrow> string \<Rightarrow> string" where
  "field_text env data k = py_str (ue_float_repr env) (json_or [get_json data k] (JStr []))"

definition valid_register :: "uds_env \<Rightarrow> jdict \<Rightarrow> bool" where
  "valid_register env data \<longleftrightarrow> get_json data ''type'' = JStr ''register'' \<and> str_strip (field_text env data ''agent_name'') \<noteq> []"

text \<open>\<open>x in {..}\<close> raises for a list or a dict, which have no hash.\<close>

definition in_set :: "json \<Rightarrow> string list \<Rightarrow> py_error + bool" where
  "in_set x names =
     (case x of
        JList _ \<Rightarrow> Inl (TypeError ''unhashable type'')
      | JObj _ \<Rightarrow> Inl (TypeError ''unhashable type'')
      | _ \<Rightarrow> Inr (x \<in> JStr ` set names))"

definition valid_task_result :: "uds_env \<Rightarrow> jdict \<Rightarrow> py_error + bool" where
  "valid_task_result env data =
     (if get_json data ''type'' = JStr ''task_result'' \<and> str_strip (field_text env data ''task_id'') \<noteq> []
      then in_set (get_json data ''status'') [''SUCCESS'', ''FAILED'', ''CANCELLED'', ''TIMEOUT'']
      else Inr False)"

section \<open>One message\<close>

datatype uds_action =
    ARegister string
  | AHeartbeat string
  | ARoute Message
  | AResult string jdict
  | ABackend string jdict
  | AMessageAck string jdict
  | AWrite jdict
  | AUnregister string
  | AClose

definition ack_line :: "json \<Rightarrow> json \<Rightarrow> jdict" where
  "ack_line task_id message_id = [(''type'', JStr ''ack''), (''task_id'', task_id), (''message_id'', message_id)]"

definition sent_message :: "uds_env \<Rightarrow> nat \<Rightarrow> string \<Rightarrow> string \<Rightarrow> jdict \<Rightarrow> json \<Rightarrow> Message" where
  "sent_message env n agent_name to_agent payload topic =
     \<lparr>ms_message_id = ''msg_'' @ ue_message_id env n, ms_from_agent = agent_name, ms_to_agent = to_agent,
      ms_type = ''message'', ms_payload = payload, ms_trace_id = [], ms_task_id = None, ms_ack_required = True,
      ms_topic = (if truthy topic then Some (py_str (ue_float_repr env) topic) else None), ms_created_at = ue_now env n\<rparr>"

text \<open>
  The calls for one message, the message identifiers seen after it, and whether the loop goes on;
  \<open>n\<close> calls came before.
\<close>

definition handle_result :: "uds_env \<Rightarrow> string \<Rightarrow> string list \<Rightarrow> nat \<Rightarrow> jdict \<Rightarrow> uds_action list \<times> string list \<times> bool" where
  "handle_result env agent_name seen n data =
     (case valid_task_result env data of
        Inl e \<Rightarrow> ([], seen, False)
      | Inr False \<Rightarrow> ([], seen, True)
      | Inr True \<Rightarrow>
          (let message_id = field_text env data ''message_id''; task_id = get_json data ''task_id''
           in if message_id \<noteq> [] \<and> message_id \<in> set seen
              then ([AWrite (ack_line task_id (JStr message_id))], seen, ue_returns env n)
              else (let seen1 = (if message_id \<noteq> [] then message_id # seen else seen)
                    in if \<not> ue_returns env n then ([AResult agent_name data], seen1, False)
                       else if truthy task_id
                       then ([AResult agent_name data, AWrite (ack_line task_id (dict_get data ''message_id'' (JStr [])))],
                             seen1, ue_returns env (Suc n))
                       else ([AResult agent_name data], seen1, True))))"

definition handle_message :: "uds_env \<Rightarrow> string \<Rightarrow> string list \<Rightarrow> nat \<Rightarrow> jdict \<Rightarrow> uds_action list \<times> string list \<times> bool" where
  "handle_message env agent_name seen n data =
     (let ty = get_json data ''type''
      in if ty = JStr ''send''
         then (case (str_strip (field_text env data ''to_agent''), get_json data ''payload'') of
                 (c # cs, JObj payload) \<Rightarrow>
                   ([ARoute (sent_message env n agent_name (c # cs) payload (get_json data ''topic''))], seen, ue_returns env n)
               | _ \<Rightarrow> ([], seen, True))
         else if ty = JStr ''heartbeat'' then ([AHeartbeat agent_name], seen, ue_returns env n)
         else if ty = JStr ''task_result'' then handle_result env agent_name seen n data
         else (case in_set ty [''backend_started'', ''backend_event'', ''artifact_created'', ''backend_cancelled''] of
                 Inl e \<Rightarrow> ([], seen, False)
               | Inr True \<Rightarrow> ([ABackend agent_name data], seen, ue_returns env n)
               | Inr False \<Rightarrow>
                   if ty = JStr ''agent_message_ack'' \<and> field_text env data ''message_id'' \<noteq> []
                   then ([AMessageAck agent_name data], seen, ue_returns env n)
                   else ([], seen, True)))"

section \<open>One connection\<close>

fun serve_loop :: "uds_env \<Rightarrow> string \<Rightarrow> string list \<Rightarrow> nat \<Rightarrow> (py_error + string) list \<Rightarrow> uds_action list" where
  "serve_loop env agent_name seen n [] = []"
| "serve_loop env agent_name seen n (r # rs) =
     (case next_message env r of
        None \<Rightarrow> []
      | Some data \<Rightarrow>
          (case handle_message env agent_name seen n data of (as, seen', go) \<Rightarrow>
             as @ (if go then serve_loop env agent_name seen' (n + length as) rs else [])))"

text \<open>The token and the user of the peer; \<open>int(allowed_uid)\<close> may raise.\<close>

definition admits :: "uds_env \<Rightarrow> string \<Rightarrow> jdict \<Rightarrow> bool" where
  "admits env agent_name first \<longleftrightarrow>
     (case map_of (ue_tokens env) agent_name of
        Some expected \<Rightarrow> expected = [] \<or> get_json first ''token'' = JStr expected
      | None \<Rightarrow> True) \<and>
     (ue_allowed_uid env = [] \<or>
      (case ue_int env (ue_allowed_uid env) of Inr uid \<Rightarrow> json_eq (get_json (ue_peer env) ''uid'') (JInt uid) | Inl e \<Rightarrow> False))"

definition serve :: "uds_env \<Rightarrow> string \<Rightarrow> (py_error + string) list \<Rightarrow> uds_action list" where
  "serve env agent_name rs =
     ARegister agent_name #
       (if \<not> ue_returns env 0 then []
        else AHeartbeat agent_name # (if ue_returns env 1 then serve_loop env agent_name [] 2 rs else []))"

definition handle_uds_client :: "uds_env \<Rightarrow> (py_error + string) list \<Rightarrow> uds_action list" where
  "handle_uds_client env reads =
     (case reads of
        [] \<Rightarrow> [AClose]
      | r # rs \<Rightarrow>
          (case next_message env r of
             None \<Rightarrow> [AClose]
           | Some first \<Rightarrow>
               if \<not> valid_register env first then [AClose]
               else (let agent_name = str_strip (field_text env first ''agent_name'')
                     in (if admits env agent_name first then serve env agent_name rs else []) @ [AUnregister agent_name, AClose])))"

section \<open>Who may act\<close>

text \<open>The agent in whose name a call is made.\<close>

fun actor :: "uds_action \<Rightarrow> string option" where
  "actor (ARegister a) = Some a"
| "actor (AHeartbeat a) = Some a"
| "actor (ARoute m) = Some (ms_from_agent m)"
| "actor (AResult a d) = Some a"
| "actor (ABackend a d) = Some a"
| "actor (AMessageAck a d) = Some a"
| "actor _ = None"

lemma handle_message_actor:
  assumes "handle_message env a seen n data = (as, seen', go)" "x \<in> set as" "actor x = Some b"
  shows "b = a"
  using assms
  by (auto simp: handle_message_def handle_result_def sent_message_def Let_def split: if_splits sum.splits bool.splits list.splits json.splits)

lemma serve_loop_actor: "x \<in> set (serve_loop env a seen n rs) \<Longrightarrow> actor x = Some b \<Longrightarrow> b = a"
proof (induction env a seen n rs rule: serve_loop.induct)
  case (2 env a seen n r rs)
  show ?case
  proof (cases "next_message env r")
    case (Some data)
    obtain as seen' go where h: "handle_message env a seen n data = (as, seen', go)" by (metis prod_cases3)
    with 2 Some handle_message_actor[OF h] show ?thesis by (auto split: if_splits)
  qed (use 2 in simp)
qed simp


definition demo_uds_env :: uds_env where
  "demo_uds_env =
     \<lparr>ue_max_bytes = 100,
      ue_loads = (\<lambda>_. Inr (JObj [(''type'', JStr ''register''), (''agent_name'', JStr ''a''), (''token'', JStr ''s'')])),
      ue_float_repr = (\<lambda>_. ''0''), ue_tokens = [(''a'', ''s'')], ue_peer = [], ue_allowed_uid = [], ue_int = (\<lambda>_. Inr 0),
      ue_message_id = (\<lambda>_. ''m''), ue_now = (\<lambda>_. 0), ue_returns = (\<lambda>_. True)\<rparr>"

abbreviation demo_register :: jdict where
  "demo_register \<equiv> [(''type'', JStr ''register''), (''agent_name'', JStr ''a''), (''token'', JStr ''s'')]"

lemma demo_register_read:
  "next_message demo_uds_env (Inr ''line'') = Some demo_register" "field_text demo_uds_env demo_register ''agent_name'' = ''a''"
  by (simp_all add: demo_uds_env_def next_message_def read_limited_line_def decode_line_def field_text_def get_json_def dict_get_def)

lemma demo_register_admitted:
  "str_strip ''a'' = ''a''" "admits demo_uds_env ''a'' demo_register" "serve demo_uds_env ''a'' [] = [ARegister ''a'', AHeartbeat ''a'']"
  by (simp_all add: str_strip_def is_space_def admits_def demo_uds_env_def get_json_def dict_get_def serve_def)

lemma demo_uds_calls: "handle_uds_client demo_uds_env [Inr ''line''] = [ARegister ''a'', AHeartbeat ''a'', AUnregister ''a'', AClose]"
  by (simp add: handle_uds_client_def demo_register_read demo_register_admitted valid_register_def get_json_def dict_get_def Let_def)


section \<open>Results\<close>

fun result_data :: "uds_action \<Rightarrow> jdict list" where
  "result_data (AResult a d) = [d]"
| "result_data _ = []"

definition result_ids :: "uds_env \<Rightarrow> uds_action list \<Rightarrow> string list" where
  "result_ids env as = filter (\<lambda>m. m \<noteq> []) (map (\<lambda>d. field_text env d ''message_id'') (concat (map result_data as)))"

lemma result_ids_append [simp]: "result_ids env (as @ bs) = result_ids env as @ result_ids env bs"
  by (simp add: result_ids_def)

lemma handle_message_results:
  assumes "handle_message env a seen n data = (as, seen', go)"
  shows "result_ids env as = [] \<and> seen' = seen \<or> (\<exists>m. result_ids env as = [m] \<and> m \<notin> set seen \<and> seen' = m # seen)"
  using assms
  by (auto simp: handle_message_def handle_result_def Let_def result_ids_def split: if_splits sum.splits bool.splits list.splits json.splits)

lemma serve_loop_results:
  "distinct (result_ids env (serve_loop env a seen n rs)) \<and> set (result_ids env (serve_loop env a seen n rs)) \<inter> set seen = {}"
proof (induction env a seen n rs rule: serve_loop.induct)
  case (1 env a seen n)
  show ?case by (simp add: result_ids_def)
next
  case (2 env a seen n r rs)
  show ?case
  proof (cases "next_message env r")
    case None
    then show ?thesis by (simp add: result_ids_def)
  next
    case (Some data)
    obtain as seen' go where h: "handle_message env a seen n data = (as, seen', go)" by (metis prod_cases3)
    have nil: "result_ids env [] = []" by (simp add: result_ids_def)
    show ?thesis
      using handle_message_results[OF h] 2[OF Some h[symmetric] refl] Some h by (cases go) (auto simp: nil)
  qed
qed

text \<open>C34: Within a connection a result is handed to the daemon at most once: of the results the handler passes
on, no two carry the same message identifier, whatever the worker sends again.\<close>

theorem uds_results_handed_over_once: "distinct (result_ids env (handle_uds_client env reads))"
proof -
  have "result_ids env (serve env a rs) = result_ids env (if ue_returns env 0 \<and> ue_returns env 1 then serve_loop env a [] 2 rs else [])"
    for a rs by (simp add: serve_def result_ids_def)
  moreover have "result_ids env [AUnregister a, AClose] = []" "result_ids env [AClose] = []" "result_ids env [] = []" for a
    by (simp_all add: result_ids_def)
  ultimately show ?thesis
    using serve_loop_results[of env]
    by (auto simp: handle_uds_client_def Let_def split: list.split option.split)
qed

end
