(* ===== verification/Agent_Worker.thy ===== *)
theory Agent_Worker
  imports Daemon_Attempts Uds_Transport
begin

text \<open>
  \<open>aruntime/worker/agent_worker.py\<close>: the process that executes the tasks of one agent, and
  \<open>aruntime/backends/base.py\<close>, what a backend is asked and what it answers.

  A backend (its \<open>prepare\<close>, \<open>execute\<close> and \<open>cleanup\<close>) is a function from the request to the events it emits and
  how it ends; all four types are registered, so \<open>create\<close> never fails. Pydantic's reading of a workspace
  and of the token budget are functions too. A write that fails ends the process and is not modelled.
\<close>

section \<open>Backends\<close>

record BackendExecutionRequest =
  br_task_id :: string
  br_attempt_id :: string
  br_agent_name :: string
  br_system_prompt :: string
  br_user_message :: string
  br_task_input :: jdict
  br_workspace :: WorkspaceSpec
  br_runtime_context :: jdict
  br_timeout_s :: int
  br_token_budget :: "int option"

datatype backend_status = BSuccess | BFailed | BCancelled | BTimeout

fun backend_status_value :: "backend_status \<Rightarrow> string" where
  "backend_status_value BSuccess = ''SUCCESS''"
| "backend_status_value BFailed = ''FAILED''"
| "backend_status_value BCancelled = ''CANCELLED''"
| "backend_status_value BTimeout = ''TIMEOUT''"

record BackendExecutionResult =
  bx_status :: backend_status
  bx_output :: string
  bx_error :: string
  bx_backend_type :: string
  bx_backend_session_id :: "string option"
  bx_backend_run_id :: "string option"
  bx_backend_pid :: "int option"
  bx_exit_code :: "int option"
  bx_usage :: jdict
  bx_artifacts :: "ArtifactReference list"

datatype backend_end = Returned BackendExecutionResult | Raised py_error | Interrupted

record worker_env =
  ae_agent :: AgentSpec
  ae_mock :: bool
  ae_float_repr :: "rat \<Rightarrow> string"
  ae_int_of_str :: "string \<Rightarrow> py_error + int"
  ae_token_budget :: "json \<Rightarrow> py_error + int option"
  ae_workspace :: "jdict \<Rightarrow> py_error + WorkspaceSpec"
  ae_workspace_root :: string
  ae_backend :: "AgentBackendConfig \<Rightarrow> BackendExecutionRequest \<Rightarrow> jdict list \<times> backend_end"
  ae_dump_artifact :: "ArtifactReference \<Rightarrow> json"
  ae_str :: "py_error \<Rightarrow> string"
  ae_fresh :: string

definition worker_text :: "worker_env \<Rightarrow> jdict \<Rightarrow> string \<Rightarrow> string" where
  "worker_text env data k = py_str (ae_float_repr env) (json_or [get_json data k] (JStr []))"

section \<open>One task\<close>

definition obj_of :: "json \<Rightarrow> jdict" where
  "obj_of v = (case v of JObj d \<Rightarrow> d | _ \<Rightarrow> [])"

text \<open>What the test configuration of a mock worker asks for: nothing, an exit of the process, an error.\<close>

datatype test_action = Proceed | Crash | ForceError

definition test_action_of :: "worker_env \<Rightarrow> json \<Rightarrow> test_action" where
  "test_action_of env task_input =
     (case task_input of
        JObj input \<Rightarrow>
          if \<not> ae_mock env then Proceed
          else (let cfg = obj_of (get_json input ''__test'')
                in if get_json cfg ''crash_worker'' = JBool True then Crash
                   else if get_json cfg ''force_error'' = JBool True then ForceError else Proceed)
      | _ \<Rightarrow> Proceed)"

definition task_workspace :: "worker_env \<Rightarrow> jdict \<Rightarrow> py_error + WorkspaceSpec" where
  "task_workspace env data =
     (case obj_of (get_json data ''workspace'') of
        [] \<Rightarrow> Inr ((new_workspace (ae_workspace_root env) ''HEAD'' False)\<lparr>ws_workspace_path := Some (ae_workspace_root env)\<rparr>)
      | ws \<Rightarrow> ae_workspace env ws)"

definition backend_config_for :: "AgentSpec \<Rightarrow> json \<Rightarrow> AgentBackendConfig" where
  "backend_config_for agent task_input =
     (let c = ag_backend agent
      in if be_type c = LEGACY_LLM \<and> get_truthy (obj_of (get_json (obj_of task_input) ''__tool'')) ''name''
         then default_backend\<lparr>be_type := DIRECT_TOOL, be_timeout_s := be_timeout_s c\<rparr> else c)"

definition exec_request :: "worker_env \<Rightarrow> jdict \<Rightarrow> string \<Rightarrow> string \<Rightarrow> py_error + BackendExecutionRequest" where
  "exec_request env data task_id attempt_id =
     (let task_input = get_json data ''task_input''; config = backend_config_for (ae_agent env) task_input
      in sum_bind (task_workspace env data) (\<lambda>ws.
         sum_bind (py_int (ae_int_of_str env) (json_or [get_json data ''timeout_s'', JInt (be_timeout_s config)] (JInt 300))) (\<lambda>timeout.
         sum_bind (ae_token_budget env (get_json data ''token_budget'')) (\<lambda>budget.
           Inr \<lparr>br_task_id = task_id, br_attempt_id = attempt_id, br_agent_name = ag_agent_name (ae_agent env),
                br_system_prompt = worker_text env data ''system_prompt'', br_user_message = worker_text env data ''user_message'',
                br_task_input = obj_of task_input, br_workspace = ws,
                br_runtime_context = obj_of (get_json (obj_of task_input) ''runtime_context''),
                br_timeout_s = timeout, br_token_budget = budget\<rparr>))))"

text \<open>The messages of \<open>emit_event\<close>.\<close>

definition emit_event :: "string \<Rightarrow> string \<Rightarrow> AgentBackendConfig \<Rightarrow> jdict \<Rightarrow> jdict list" where
  "emit_event task_id attempt_id config event =
     [(''type'', JStr ''backend_event''), (''task_id'', JStr task_id), (''attempt_id'', JStr attempt_id), (''event'', JObj event)] #
     (if get_json event ''name'' = JStr ''backend.started''
      then [[(''type'', JStr ''backend_started''), (''task_id'', JStr task_id), (''attempt_id'', JStr attempt_id),
             (''backend_type'', json_or [get_json event ''backend_type''] (JStr (backend_value (be_type config)))),
             (''backend_pid'', get_json event ''backend_pid''), (''backend_session_id'', get_json event ''backend_session_id'')]]
      else [])"

definition result_message :: "worker_env \<Rightarrow> string \<Rightarrow> string \<Rightarrow> py_error + BackendExecutionResult \<Rightarrow> jdict" where
  "result_message env task_id attempt_id r =
     [(''type'', JStr ''task_result''), (''message_id'', JStr (''result_'' @ ae_fresh env)),
      (''task_id'', JStr task_id), (''attempt_id'', JStr attempt_id)] @
     (case r of
        Inr b \<Rightarrow>
          [(''status'', JStr (backend_status_value (bx_status b))), (''output'', JStr (bx_output b)), (''error'', JStr (bx_error b)),
           (''usage'', JObj (bx_usage b)), (''backend_type'', JStr (bx_backend_type b)), (''exit_code'', jopt JInt (bx_exit_code b)),
           (''artifacts'', JList (map (ae_dump_artifact env) (bx_artifacts b)))]
      | Inl e \<Rightarrow>
          [(''status'', JStr ''FAILED''), (''output'', JStr []), (''error'', JStr (ae_str env e)), (''usage'', JObj []),
           (''backend_type'', JStr []), (''exit_code'', JNull), (''artifacts'', JList [])])"

text \<open>How the coroutine ends, and what it sends: it is skipped, the process exits, it is cancelled, or it answers.\<close>

datatype exec_end = Skipped | Exited | Stopped | Answered

definition run_exec_task :: "worker_env \<Rightarrow> jdict \<Rightarrow> exec_end \<times> jdict list" where
  "run_exec_task env data =
     (let task_id = str_strip (worker_text env data ''task_id''); attempt_id = str_strip (worker_text env data ''attempt_id'');
          task_input = get_json data ''task_input''; config = backend_config_for (ae_agent env) task_input;
          answer = (\<lambda>r. (Answered, [result_message env task_id attempt_id r]))
      in if task_id = [] \<or> attempt_id = [] then (Skipped, [])
         else (case test_action_of env task_input of
                 Crash \<Rightarrow> (Exited, [])
               | ForceError \<Rightarrow> answer (Inl (RuntimeError ''forced error''))
               | Proceed \<Rightarrow>
                   (case exec_request env data task_id attempt_id of
                      Inl e \<Rightarrow> answer (Inl e)
                    | Inr request \<Rightarrow>
                        (case ae_backend env config request of (events, end_of) \<Rightarrow>
                           let emitted = concat (map (emit_event task_id attempt_id config) events)
                           in case end_of of
                                Returned b \<Rightarrow> (Answered, emitted @ [result_message env task_id attempt_id (Inr b)])
                              | Raised e \<Rightarrow> (Answered, emitted @ [result_message env task_id attempt_id (Inl e)])
                              | Interrupted \<Rightarrow>
                                  (Stopped, emitted @ [[(''type'', JStr ''task_cancelled''), (''task_id'', JStr task_id),
                                     (''attempt_id'', JStr attempt_id)]])))))"

section \<open>The loop of the process\<close>

record worker_state =
  aw_running :: "((string \<times> string) \<times> nat) list"
  aw_started :: nat
  aw_processed_messages :: "string list"
  aw_context_updates :: "jdict list"

datatype worker_act = WSend jdict | WStart nat jdict | WCancel nat

definition protocol_error :: "string \<Rightarrow> string \<Rightarrow> string \<Rightarrow> worker_act" where
  "protocol_error task_id attempt_id text =
     WSend [(''type'', JStr ''protocol_error''), (''task_id'', JStr task_id), (''attempt_id'', JStr attempt_id), (''error'', JStr text)]"

definition on_exec_task :: "worker_env \<Rightarrow> jdict \<Rightarrow> worker_state \<Rightarrow> worker_state \<times> worker_act list" where
  "on_exec_task env data s =
     (let task_id = str_strip (worker_text env data ''task_id''); attempt_id = str_strip (worker_text env data ''attempt_id'')
      in if task_id = [] \<or> attempt_id = [] then (s, [protocol_error task_id attempt_id ''task_id and attempt_id are required''])
         else if map_of (aw_running s) (task_id, attempt_id) \<noteq> None
         then (s, [protocol_error task_id attempt_id ''attempt already running''])
         else (s\<lparr>aw_running := dict_set (task_id, attempt_id) (aw_started s) (aw_running s), aw_started := Suc (aw_started s)\<rparr>,
               [WStart (aw_started s) data]))"

definition on_cancel_task :: "worker_env \<Rightarrow> jdict \<Rightarrow> worker_state \<Rightarrow> worker_state \<times> worker_act list" where
  "on_cancel_task env data s =
     (let task_id = str_strip (worker_text env data ''task_id''); attempt_id = str_strip (worker_text env data ''attempt_id'');
          ack = (\<lambda>found rest. WSend ([(''type'', JStr ''cancel_ack''), (''task_id'', JStr task_id),
                   (''attempt_id'', JStr attempt_id), (''cancelled'', JBool found)] @ rest))
      in case map_of (aw_running s) (task_id, attempt_id) of
           Some n \<Rightarrow> (s, [WCancel n, ack True []])
         | None \<Rightarrow> (s, [ack False [(''reason'', JStr ''attempt_not_running'')]]))"

definition on_agent_message :: "worker_env \<Rightarrow> string \<Rightarrow> jdict \<Rightarrow> worker_state \<Rightarrow> worker_state \<times> worker_act list" where
  "on_agent_message env agent_name data s =
     (let message_id = worker_text env data ''message_id''
      in (if message_id \<noteq> [] \<and> message_id \<notin> set (aw_processed_messages s)
          then s\<lparr>aw_processed_messages := message_id # aw_processed_messages s\<rparr> else s,
          [WSend [(''type'', JStr ''agent_message_ack''), (''message_id'', JStr message_id), (''agent_name'', JStr agent_name)]]))"

text \<open>\<open>dict(v)\<close>: a dict, or a list of pairs with string keys; anything else raises.\<close>

fun dict_of_pairs :: "json list \<Rightarrow> jdict \<Rightarrow> py_error + jdict" where
  "dict_of_pairs [] acc = Inr acc"
| "dict_of_pairs (JList [JStr k, v] # rest) acc = dict_of_pairs rest (dict_set k v acc)"
| "dict_of_pairs (_ # rest) acc = Inl (TypeError ''cannot convert dictionary update sequence element'')"

definition py_dict_of :: "json \<Rightarrow> py_error + jdict" where
  "py_dict_of v =
     (case v of JObj d \<Rightarrow> Inr d | JList xs \<Rightarrow> dict_of_pairs xs [] | _ \<Rightarrow> Inl (TypeError ''object is not iterable''))"

definition on_context_update :: "string \<Rightarrow> jdict \<Rightarrow> worker_state \<Rightarrow> py_error + worker_state \<times> worker_act list" where
  "on_context_update agent_name data s =
     sum_bind (py_dict_of (json_or [get_json data ''payload''] (JObj []))) (\<lambda>d.
       Inr (s\<lparr>aw_context_updates := aw_context_updates s @ [d]\<rparr>,
          [WSend [(''type'', JStr ''context_update_ack''), (''message_id'', dict_get data ''message_id'' (JStr [])),
                  (''agent_name'', JStr agent_name)]]))"

definition worker_line :: "worker_env \<Rightarrow> string \<Rightarrow> jdict \<Rightarrow> worker_state \<Rightarrow> py_error + worker_state \<times> worker_act list" where
  "worker_line env agent_name data s =
     (let ty = get_json data ''type''
      in if ty = JStr ''exec_task'' then Inr (on_exec_task env data s)
         else if ty = JStr ''cancel_task'' then Inr (on_cancel_task env data s)
         else if ty = JStr ''agent_message'' \<or> ty = JStr ''message'' \<and> get_truthy data ''payload''
         then Inr (on_agent_message env agent_name data s)
         else if ty = JStr ''context_update'' then on_context_update agent_name data s
         else Inr (s, []))"

text \<open>The done callback of the n-th task.\<close>

definition cleanup :: "string \<times> string \<Rightarrow> nat \<Rightarrow> worker_state \<Rightarrow> worker_state" where
  "cleanup key n s = (if map_of (aw_running s) key = Some n then s\<lparr>aw_running := dict_pop key (aw_running s)\<rparr> else s)"

section \<open>One execution per attempt\<close>

datatype worker_event = WLine jdict | WDone "string \<times> string" nat

definition worker_init :: worker_state where
  "worker_init = \<lparr>aw_running = [], aw_started = 0, aw_processed_messages = [], aw_context_updates = []\<rparr>"

text \<open>The tasks an action starts, with the attempt each is for.\<close>

fun started_by :: "worker_env \<Rightarrow> worker_act \<Rightarrow> ((string \<times> string) \<times> nat) list" where
  "started_by env (WStart n data) =
     [((str_strip (worker_text env data ''task_id''), str_strip (worker_text env data ''attempt_id'')), n)]"
| "started_by env _ = []"

text \<open>The process and its live coroutines; a line that raises ends the process, which cancels them.\<close>

fun worker_event_step :: "worker_env \<Rightarrow> string \<Rightarrow> worker_event \<Rightarrow> worker_state \<times> ((string \<times> string) \<times> nat) list
    \<Rightarrow> worker_state \<times> ((string \<times> string) \<times> nat) list" where
  "worker_event_step env name (WLine data) (s, live) =
     (case worker_line env name data s of
        Inl e \<Rightarrow> (worker_init, [])
      | Inr (s', acts) \<Rightarrow> (s', live @ concat (map (started_by env) acts)))"
| "worker_event_step env name (WDone key n) (s, live) =
     (if (key, n) \<in> set live then (cleanup key n s, removeAll (key, n) live) else (s, live))"

definition worker_run :: "worker_env \<Rightarrow> string \<Rightarrow> worker_event list \<Rightarrow> worker_state \<times> ((string \<times> string) \<times> nat) list" where
  "worker_run env name es = fold (worker_event_step env name) es (worker_init, [])"

definition table_exact :: "worker_state \<times> ((string \<times> string) \<times> nat) list \<Rightarrow> bool" where
  "table_exact w \<longleftrightarrow> distinct (map fst (snd w)) \<and> distinct (dict_keys (aw_running (fst w))) \<and> set (snd w) = set (aw_running (fst w))"

definition starts :: "worker_env \<Rightarrow> worker_act list \<Rightarrow> ((string \<times> string) \<times> nat) list" where
  "starts env acts = concat (map (started_by env) acts)"

text \<open>A line starts nothing, or one task for an attempt that has none.\<close>

definition line_effect :: "worker_env \<Rightarrow> worker_state \<Rightarrow> worker_state \<times> worker_act list \<Rightarrow> bool" where
  "line_effect env s r \<longleftrightarrow>
     aw_running (fst r) = aw_running s \<and> starts env (snd r) = [] \<or>
     (\<exists>key. key \<notin> fst ` set (aw_running s) \<and> aw_running (fst r) = aw_running s @ [(key, aw_started s)] \<and>
        starts env (snd r) = [(key, aw_started s)])"

lemma line_effect_exec: "line_effect env s (on_exec_task env data s)"
  by (auto simp: on_exec_task_def line_effect_def starts_def protocol_error_def Let_def map_of_eq_None_iff dict_set_fresh)

lemma line_effect_other:
  "line_effect env s (on_cancel_task env data s)" "line_effect env s (on_agent_message env name data s)"
  "on_context_update name data s = Inr r \<Longrightarrow> line_effect env s r"
  by (auto simp: on_cancel_task_def on_agent_message_def on_context_update_def sum_bind_def line_effect_def starts_def Let_def
      split: option.split sum.splits)

lemma line_effect_none: "line_effect env s (s, [])"
  by (simp add: line_effect_def starts_def)

lemma worker_line_effect: "worker_line env name data s = Inr r \<Longrightarrow> line_effect env s r"
  unfolding worker_line_def Let_def
  using line_effect_exec line_effect_other line_effect_none by (metis sum.inject(2))

lemma distinct_keys_pop: "distinct (dict_keys d) \<Longrightarrow> (k, v) \<in> set d \<Longrightarrow> set (dict_pop k d) = set d - {(k, v)}"
  by (induction d) (auto simp: rev_image_eqI)

lemma table_exact_step: "table_exact w \<Longrightarrow> table_exact (worker_event_step env name e w)"
proof (cases w)
  case w: (Pair s live)
  assume "table_exact w"
  then have ok: "distinct (map fst live)" "distinct (dict_keys (aw_running s))" "set live = set (aw_running s)"
    by (simp_all add: w table_exact_def)
  show ?thesis
  proof (cases e)
    case (WLine data)
    show ?thesis
    proof (cases "worker_line env name data s")
      case (Inl x)
      then show ?thesis by (simp add: w WLine table_exact_def worker_init_def)
    next
      case (Inr r)
      obtain s' acts where r: "r = (s', acts)" by fastforce
      have "worker_event_step env name e w = (s', live @ starts env acts)" by (simp add: w WLine Inr r starts_def)
      moreover have "line_effect env s (s', acts)" using worker_line_effect[OF Inr] r by simp
      then consider "aw_running s' = aw_running s" "starts env acts = []"
        | key where "key \<notin> fst ` set (aw_running s)" "aw_running s' = aw_running s @ [(key, aw_started s)]"
            "starts env acts = [(key, aw_started s)]"
        by (auto simp: line_effect_def)
      then have "table_exact (s', live @ starts env acts)"
        using ok by cases (simp_all add: table_exact_def)
      ultimately show ?thesis by simp
    qed
  next
    case (WDone key n)
    show ?thesis
    proof (cases "(key, n) \<in> set live")
      case True
      then have "map_of (aw_running s) key = Some n" using ok by simp
      moreover have "set (dict_pop key (aw_running s)) = set (aw_running s) - {(key, n)}"
        using distinct_keys_pop ok True by metis
      moreover have "distinct (map fst (removeAll (key, n) live))"
        using ok(1) by (simp add: distinct_map_filter removeAll_filter_not_eq)
      ultimately show ?thesis using True ok by (simp add: w WDone table_exact_def cleanup_def)
    next
      case False
      then show ?thesis using ok by (simp add: w WDone table_exact_def)
    qed
  qed
qed

text \<open>C35: A worker never runs one attempt twice at a time: after any sequence of messages and completions, no
two live executions are for the same task and attempt, and the table of running attempts has exactly
the live ones.\<close>

theorem worker_one_execution_per_attempt:
  "distinct (map fst (snd (worker_run env name es))) \<and> set (aw_running (fst (worker_run env name es))) = set (snd (worker_run env name es))"
proof -
  have "table_exact (fold (worker_event_step env name) es w)" if "table_exact w" for w
    using that by (induction es arbitrary: w) (simp_all add: table_exact_step del: worker_event_step.simps split_paired_All)
  from this[of "(worker_init, [])"] show ?thesis by (simp add: worker_run_def table_exact_def worker_init_def)
qed

section \<open>From the daemon to the worker and back\<close>

lemma result_message_fields:
  "get_json (result_message env i aid r) ''type'' = JStr ''task_result''"
  "get_json (result_message env i aid r) ''task_id'' = JStr i" "get_json (result_message env i aid r) ''attempt_id'' = JStr aid"
  "get_json (result_message env i aid r) ''status'' =
     JStr (case r of Inr b \<Rightarrow> backend_status_value (bx_status b) | Inl e \<Rightarrow> ''FAILED'')"
  by (simp_all add: result_message_def get_json_def dict_get_def split: sum.split)

lemma run_exec_task_answer:
  assumes "run_exec_task env data = (Answered, msgs)"
  shows "\<exists>r. msgs \<noteq> [] \<and> last msgs = result_message env (str_strip (worker_text env data ''task_id''))
    (str_strip (worker_text env data ''attempt_id'')) r"
  using assms
  by (auto simp: run_exec_task_def Let_def split: if_splits test_action.splits sum.splits prod.splits backend_end.splits)

lemma exec_event_ids:
  "worker_text wenv (exec_event env d i aid agent payload ws) ''task_id'' = i"
  "worker_text wenv (exec_event env d i aid agent payload ws) ''attempt_id'' = aid"
  by (simp_all add: worker_text_def exec_event_def get_json_def dict_get_def Let_def)

text \<open>C36: The parts speak the same protocol. When a worker answers the \<open>exec_task\<close> message the daemon sent for
the active attempt of a task, then the last message it sends is a result that the server of the
connection takes for valid and that the daemon accepts: the attempt, which waits for it, gets it.\<close>

theorem worker_answer_reaches_attempt:
  assumes ids: "i \<noteq> []" "str_strip i = i" "str_strip aid = aid"
    and waits: "i \<in> set (wk_tasks (dn_wf d))" "map_option at_attempt_id (active_attempt (dn_task d i)) = Some aid"
      "map_of (dn_pending d) i = Some (aid, None)"
    and answer: "run_exec_task wenv (exec_event env d' i aid agent payload ws) = (Answered, msgs)"
  shows "msgs \<noteq> [] \<and> valid_task_result uenv (last msgs) = Inr True \<and>
    (\<exists>r. map_of (dn_pending (fst (on_task_result env name (last msgs) d))) i = Some (aid, Some r) \<and>
       get_json r ''attempt_id'' = JStr aid \<and> get_json r ''status'' = get_json (last msgs) ''status'' \<and>
       get_json r ''output'' = get_json (last msgs) ''output'')"
proof -
  obtain r where m: "msgs \<noteq> []" "last msgs = result_message wenv i aid r"
    using run_exec_task_answer[OF answer] ids by (auto simp: exec_event_ids)
  let ?m = "result_message wenv i aid r"
  have "valid_task_result uenv ?m = Inr True"
    using ids by (simp add: valid_task_result_def field_text_def result_message_fields in_set_def split: sum.split)
      (metis backend_status.exhaust backend_status_value.simps)
  moreover have t: "text_of env d ?m ''task_id'' = i" "text_of env d ?m ''attempt_id'' = aid"
    by (simp_all add: text_of_def result_message_fields)
  have "result_for env d i (name, ?m) = Some [(''agent_name'', JStr name), (''task_id'', JStr i), (''attempt_id'', JStr aid),
       (''status'', get_json ?m ''status''), (''output'', get_json ?m ''output''),
       (''error'', get_json ?m ''error''), (''usage'', json_or [get_json ?m ''usage''] (JObj []))]"
    using ids waits t by (simp add: result_for_def)
  ultimately show ?thesis
    using m waits(3) by (simp add: on_task_result_pending get_json_def dict_get_def)
qed

definition demo_worker_env :: worker_env where
  "demo_worker_env =
     \<lparr>ae_agent = new_agent ''a'' ''coder'' 0, ae_mock = False, ae_float_repr = (\<lambda>_. ''0''), ae_int_of_str = (\<lambda>_. Inr 0),
      ae_token_budget = (\<lambda>_. Inr None), ae_workspace = (\<lambda>_. Inr (new_workspace ''.'' ''HEAD'' False)), ae_workspace_root = ''.'',
      ae_backend = (\<lambda>_ _. ([], Returned \<lparr>bx_status = BSuccess, bx_output = ''done'', bx_error = [], bx_backend_type = ''legacy_llm'',
        bx_backend_session_id = None, bx_backend_run_id = None, bx_backend_pid = None, bx_exit_code = None, bx_usage = [], bx_artifacts = []\<rparr>)),
      ae_dump_artifact = (\<lambda>_. JNull), ae_str = (\<lambda>_. ''error''), ae_fresh = ''u''\<rparr>"

definition demo_waiting :: daemon where
  "demo_waiting =
     (put_task ''t'' (\<lambda>_. fst (create_attempt 0 ''a'' None (new_task ''t'' (Some ''a'') [] [] ''tr'' 0)))
       (small_daemon\<lparr>dn_wf := note_task ''t'' (dn_wf small_daemon)\<rparr>))\<lparr>dn_pending := [(''t'', (''t:attempt:1'', None))]\<rparr>"

abbreviation demo_exec_event :: jdict where
  "demo_exec_event \<equiv> exec_event (small_daemon_env heartbeats) small_daemon ''t'' ''t:attempt:1'' (new_agent ''a'' ''coder'' 0) [] (new_workspace ''.'' ''HEAD'' False)"

lemma demo_strip: "str_strip ''t'' = ''t''" "str_strip ''t:attempt:1'' = ''t:attempt:1''"
  by (simp_all add: str_strip_def is_space_def)

lemma demo_answer: "fst (run_exec_task demo_worker_env demo_exec_event) = Answered"
proof -
  have "test_action_of demo_worker_env x = Proceed" for x
    by (simp add: test_action_of_def demo_worker_env_def split: json.split)
  moreover have "\<exists>r. exec_request demo_worker_env demo_exec_event ''t'' ''t:attempt:1'' = Inr r"
  proof -
    obtain n where "get_json demo_exec_event ''timeout_s'' = JInt n"
      by (simp add: exec_event_def get_json_def dict_get_def Let_def)
    then have n': "py_int f (json_or [get_json demo_exec_event ''timeout_s'', JInt m] (JInt 300)) =
        Inr (if n \<noteq> 0 then n else if m \<noteq> 0 then m else 300)" for f m by simp
    have "\<exists>ws. task_workspace demo_worker_env demo_exec_event = Inr ws"
      by (simp add: task_workspace_def demo_worker_env_def split: list.split)
    then obtain ws where "task_workspace demo_worker_env demo_exec_event = Inr ws" by blast
    then show ?thesis
      unfolding exec_request_def Let_def n' by (simp add: sum_bind_def) (simp add: demo_worker_env_def)
  qed
  ultimately show ?thesis
    by (auto simp: run_exec_task_def exec_event_ids demo_strip Let_def) (simp add: demo_worker_env_def)
qed

lemma demo_waits:
  "''t'' \<in> set (wk_tasks (dn_wf demo_waiting))"
  "map_option at_attempt_id (active_attempt (dn_task demo_waiting ''t'')) = Some ''t:attempt:1''"
  "map_of (dn_pending demo_waiting) ''t'' = Some (''t:attempt:1'', None)"
proof -
  have one: "nat_str (Suc 0) = ''1''" by code_simp
  have "ts_attempts (dn_task demo_waiting ''t'') = [snd (create_attempt 0 ''a'' None (new_task ''t'' (Some ''a'') [] [] ''tr'' 0))]"
    by (simp add: demo_waiting_def dn_task_def put_task_def set_wk_task_def wk_task_def create_attempt_def ensure_tcb_def new_task_tcb Let_def)
  then show "map_option at_attempt_id (active_attempt (dn_task demo_waiting ''t'')) = Some ''t:attempt:1''"
    by (simp add: active_attempt_def create_attempt_def ensure_tcb_def new_task_tcb tcb_of_task_def Let_def attempt_id_of_def one)
qed (simp_all add: demo_waiting_def note_task_def small_daemon_def small_workflow_def put_task_def set_wk_task_def)

theorem worker_answer_reaches_attempt_witness:
  "\<exists>r. map_of (dn_pending (fst (on_task_result (small_daemon_env heartbeats) ''a''
        (last (snd (run_exec_task demo_worker_env demo_exec_event))) demo_waiting))) ''t'' = Some (''t:attempt:1'', Some r)"
proof -
  obtain msgs where m: "run_exec_task demo_worker_env demo_exec_event = (Answered, msgs)"
    using demo_answer by (metis prod.collapse)
  from worker_answer_reaches_attempt[OF _ demo_strip demo_waits m, of undefined "''a''"] show ?thesis by (auto simp: m)
qed

end
