(* ===== verification/Tool_Sandbox.thy ===== *)
theory Tool_Sandbox
  imports Agent_Worker
begin

text \<open>
  \<open>aruntime/tools\<close>, \<open>aruntime/executor/task_executor.py\<close>, and \<open>aruntime/backends/direct_tool.py\<close>:
  what a tool may touch.

  An absolute path is the list of its components. The operating system's part is the environment:
  where links lead (\<open>Path.resolve\<close>), which error a write meets, what a directory lists, what a command
  does, and text encodings. A file system is the contents of its files.
\<close>

section \<open>Paths\<close>

type_synonym path = "string list"
type_synonym files = "path \<Rightarrow> string option"

fun split_slash :: "string \<Rightarrow> string list" where
  "split_slash [] = [[]]"
| "split_slash (c # cs) =
     (if c = CHR ''/'' then [] # split_slash cs
      else (case split_slash cs of [] \<Rightarrow> [[c]] | w # ws \<Rightarrow> (c # w) # ws))"

text \<open>The components \<open>Path\<close> keeps.\<close>

definition path_parts :: "string \<Rightarrow> path" where
  "path_parts s = filter (\<lambda>p. p \<noteq> [] \<and> p \<noteq> ''.'') (split_slash s)"

definition is_absolute :: "string \<Rightarrow> bool" where
  "is_absolute s \<longleftrightarrow> take 1 s = ''/''"

definition path_str :: "path \<Rightarrow> string" where
  "path_str p = (if p = [] then ''/'' else concat (map (\<lambda>c. CHR ''/'' # c) p))"

text \<open>\<open>self.root / raw\<close>: an absolute right operand replaces the left one.\<close>

definition path_join :: "path \<Rightarrow> string \<Rightarrow> path" where
  "path_join p raw = (if is_absolute raw then path_parts raw else p @ path_parts raw)"

record completed_process =
  cp_returncode :: int
  cp_stdout :: string
  cp_stderr :: string

text \<open>What \<open>subprocess.run\<close> ends with.\<close>

datatype run_end = Finished completed_process | TimedOut string | NotStarted py_error

text \<open>An element of \<open>xml.etree\<close>.\<close>

datatype xml = Elem (xml_tag: string) (xml_attrib: "string dict") (xml_text: "string option") (xml_children: "xml list")

text \<open>
  \<open>os_write_fails\<close> gives the error of a write together with what it leaves in the file; \<open>os_run\<close> takes
  the arguments, the working directory, the environment variables and the time limit. Permission bits are
  not part of the file system of the model; \<open>os_chmod_error\<close> says whether setting them fails.
\<close>

record tool_env =
  os_cwd :: path
  os_resolve :: "path \<Rightarrow> path"
  os_read_error :: "files \<Rightarrow> path \<Rightarrow> py_error option"
  os_write_fails :: "files \<Rightarrow> path \<Rightarrow> string \<Rightarrow> (py_error \<times> string option) option"
  os_mkdir_error :: "files \<Rightarrow> path \<Rightarrow> py_error option"
  os_unlink_error :: "files \<Rightarrow> path \<Rightarrow> py_error option"
  os_chmod_error :: "files \<Rightarrow> path \<Rightarrow> py_error option"
  os_exists :: "files \<Rightarrow> path \<Rightarrow> bool"
  os_listing :: "files \<Rightarrow> path \<Rightarrow> path list"
  os_run :: "string list \<Rightarrow> path option \<Rightarrow> string dict option \<Rightarrow> rat option \<Rightarrow> files \<Rightarrow> files \<times> run_end"
  os_elapsed :: rat
  os_parse_xml :: "files \<Rightarrow> path \<Rightarrow> xml option"
  os_shlex_split :: "string \<Rightarrow> py_error + string list"
  os_decode_replace :: "string \<Rightarrow> string"
  os_decode_ignore :: "string \<Rightarrow> py_error + string"
  os_encode :: "string \<Rightarrow> string"
  os_int_of_str :: "string \<Rightarrow> py_error + int"
  os_float_repr :: "rat \<Rightarrow> string"
  os_sha256 :: "string \<Rightarrow> string"
  os_uuid :: string

record ToolExecutionContext =
  tc_workspace_root :: path
  tc_allowed_roots :: "path list"
  tc_allowed_shell_commands :: "string list"
  tc_timeout_s :: rat
  tc_max_output_bytes :: nat

record ToolResult =
  tr_ok :: bool
  tr_output :: json
  tr_error :: string
  tr_metadata :: jdict

definition tool_failure :: "string \<Rightarrow> ToolResult" where
  "tool_failure e = \<lparr>tr_ok = False, tr_output = JNull, tr_error = e, tr_metadata = []\<rparr>"

definition tool_success :: "json \<Rightarrow> ToolResult" where
  "tool_success out = \<lparr>tr_ok = True, tr_output = out, tr_error = [], tr_metadata = []\<rparr>"

definition context_roots :: "tool_env \<Rightarrow> ToolExecutionContext \<Rightarrow> path list" where
  "context_roots env ctx = map (os_resolve env) (tc_workspace_root ctx # tc_allowed_roots ctx)"

text \<open>\<open>candidate == root or root in candidate.parents\<close>.\<close>

definition below_root :: "path \<Rightarrow> path list \<Rightarrow> bool" where
  "below_root p roots \<longleftrightarrow> list_ex (\<lambda>r. take (length r) p = r) roots"

definition resolve_path :: "tool_env \<Rightarrow> ToolExecutionContext \<Rightarrow> string \<Rightarrow> py_error + path" where
  "resolve_path env ctx raw =
     (let candidate = os_resolve env (path_join (tc_workspace_root ctx) raw)
      in if below_root candidate (context_roots env ctx) then Inr candidate
         else Inl (ToolPermissionError (''path outside workspace: '' @ raw)))"

section \<open>Tools\<close>

definition arg_text :: "tool_env \<Rightarrow> jdict \<Rightarrow> string \<Rightarrow> string \<Rightarrow> string" where
  "arg_text env arguments k dflt = py_str (os_float_repr env) (dict_get arguments k (JStr dflt))"

definition read_bytes :: "tool_env \<Rightarrow> path \<Rightarrow> (files, string) eff" where
  "read_bytes env p =
     eff_get (\<lambda>fs. case (os_read_error env fs p, fs p) of
         (Some e, _) \<Rightarrow> eff_raise e
       | (None, None) \<Rightarrow> eff_raise (OSError ''No such file or directory'')
       | (None, Some content) \<Rightarrow> eff_return content)"

text \<open>\<open>path.parent.mkdir\<close> and \<open>path.write_bytes\<close>.\<close>

definition make_dir :: "tool_env \<Rightarrow> path \<Rightarrow> (files, unit) eff" where
  "make_dir env p = eff_get (\<lambda>fs. case os_mkdir_error env fs p of Some e \<Rightarrow> eff_raise e | None \<Rightarrow> eff_return ())"

definition write_bytes :: "tool_env \<Rightarrow> path \<Rightarrow> string \<Rightarrow> (files, unit) eff" where
  "write_bytes env p content =
     eff_get (\<lambda>fs. case os_write_fails env fs p content of
         Some (e, left) \<Rightarrow> eff_then (eff_modify (\<lambda>fs. fs(p := left))) (eff_raise e)
       | None \<Rightarrow> eff_modify (\<lambda>fs. fs(p := Some content)))"

definition read_file_tool :: "tool_env \<Rightarrow> ToolExecutionContext \<Rightarrow> jdict \<Rightarrow> (files, ToolResult) eff" where
  "read_file_tool env ctx arguments =
     eff_bind (eff_lift (resolve_path env ctx (arg_text env arguments ''path'' []))) (\<lambda>p.
       eff_get (\<lambda>fs. if fs p = None then eff_return (tool_failure ''file not found'')
         else eff_bind (read_bytes env p) (\<lambda>content. eff_return
           (tool_success (JStr (os_decode_replace env (take (tc_max_output_bytes ctx) content)))))))"

definition write_file_tool :: "tool_env \<Rightarrow> ToolExecutionContext \<Rightarrow> jdict \<Rightarrow> (files, ToolResult) eff" where
  "write_file_tool env ctx arguments =
     eff_bind (eff_lift (resolve_path env ctx (arg_text env arguments ''path'' []))) (\<lambda>p.
       eff_then (make_dir env (butlast p))
       (eff_then (write_bytes env p (os_encode env (arg_text env arguments ''content'' [])))
       (eff_return (tool_success (JObj [(''path'', JStr (path_str p))])))))"

fun is_infix :: "string \<Rightarrow> string \<Rightarrow> bool" where
  "is_infix needle [] = (needle = [])"
| "is_infix needle (c # cs) = (take (length needle) (c # cs) = needle \<or> is_infix needle cs)"

text \<open>\<open>file.relative_to(root)\<close> raises when the file is not below it.\<close>

definition relative_to :: "path \<Rightarrow> path \<Rightarrow> py_error + string" where
  "relative_to root_path p =
     (if take (length root_path) p = root_path
      then Inr (case drop (length root_path) p of [] \<Rightarrow> ''.'' | rest \<Rightarrow> tl (path_str rest))
      else Inl (ValueError ''is not in the subpath''))"

text \<open>\<open>file.read_text(errors="ignore")\<close>, nothing when it raises; a listed path may be a link.\<close>

definition readable_text :: "tool_env \<Rightarrow> files \<Rightarrow> path \<Rightarrow> string option" where
  "readable_text env fs p =
     (case read_bytes env (os_resolve env p) fs of
        (_, Inl e) \<Rightarrow> None
      | (_, Inr content) \<Rightarrow> (case os_decode_ignore env content of Inl e \<Rightarrow> None | Inr t \<Rightarrow> Some t))"

fun search_matches :: "tool_env \<Rightarrow> path \<Rightarrow> string \<Rightarrow> files \<Rightarrow> path list \<Rightarrow> py_error + string list" where
  "search_matches env root_path needle fs [] = Inr []"
| "search_matches env root_path needle fs (p # ps) =
     (case readable_text env fs p of
        None \<Rightarrow> search_matches env root_path needle fs ps
      | Some t \<Rightarrow>
          if is_infix needle t
          then sum_bind (relative_to root_path p) (\<lambda>m. sum_bind (search_matches env root_path needle fs ps) (\<lambda>ms. Inr (m # ms)))
          else search_matches env root_path needle fs ps)"

definition search_code_tool :: "tool_env \<Rightarrow> ToolExecutionContext \<Rightarrow> jdict \<Rightarrow> (files, ToolResult) eff" where
  "search_code_tool env ctx arguments =
     eff_bind (eff_lift (resolve_path env ctx (arg_text env arguments ''path'' ''.''))) (\<lambda>p.
       eff_get (\<lambda>fs. eff_bind (eff_lift (search_matches env (tc_workspace_root ctx) (arg_text env arguments ''needle'' []) fs
           (os_listing env fs p))) (\<lambda>ms. eff_return (tool_success (JList (map JStr ms))))))"

fun relative_all :: "path \<Rightarrow> path list \<Rightarrow> py_error + string list" where
  "relative_all root_path [] = Inr []"
| "relative_all root_path (p # ps) =
     sum_bind (relative_to root_path p) (\<lambda>x. sum_bind (relative_all root_path ps) (\<lambda>xs. Inr (x # xs)))"

definition repo_scan_tool :: "tool_env \<Rightarrow> ToolExecutionContext \<Rightarrow> jdict \<Rightarrow> (files, ToolResult) eff" where
  "repo_scan_tool env ctx arguments =
     eff_get (\<lambda>fs. let root_path = tc_workspace_root ctx
       in eff_bind (eff_lift (relative_all root_path (filter (\<lambda>p. fs (os_resolve env p) \<noteq> None) (os_listing env fs root_path)))) (\<lambda>names.
            eff_return (tool_success (JList (take 1000 (map JStr names))))))"

text \<open>\<open>subprocess.run\<close>; \<open>expired\<close> is the exception a time-out leaves the tool with.\<close>

definition run_process ::
    "tool_env \<Rightarrow> string list \<Rightarrow> path option \<Rightarrow> string dict option \<Rightarrow> rat option \<Rightarrow> (string \<Rightarrow> py_error) \<Rightarrow> (files, completed_process) eff" where
  "run_process env argv cwd environ timeout expired =
     (\<lambda>fs. case os_run env argv cwd environ timeout fs of
        (fs', Finished proc) \<Rightarrow> (fs', Inr proc)
      | (fs', TimedOut s) \<Rightarrow> (fs', Inl (expired s))
      | (fs', NotStarted e) \<Rightarrow> (fs', Inl e))"

definition command_argv :: "tool_env \<Rightarrow> json \<Rightarrow> py_error + string list" where
  "command_argv env command =
     (case command of
        JStr s \<Rightarrow> os_shlex_split env s
      | JList xs \<Rightarrow> Inr (map (py_str (os_float_repr env)) xs)
      | _ \<Rightarrow> Inr [])"

definition run_command_tool :: "tool_env \<Rightarrow> ToolExecutionContext \<Rightarrow> jdict \<Rightarrow> (files, ToolResult) eff" where
  "run_command_tool env ctx arguments =
     eff_bind (eff_lift (command_argv env (get_json arguments ''command''))) (\<lambda>argv. case argv of
         [] \<Rightarrow> eff_return (tool_failure ''command missing'')
       | c # args \<Rightarrow>
           if tc_allowed_shell_commands ctx \<noteq> [] \<and> c \<notin> set (tc_allowed_shell_commands ctx)
           then eff_raise (ToolPermissionError (''command not allowed: '' @ c))
           else eff_bind (run_process env (c # args) (Some (tc_workspace_root ctx)) (Some [(''PATH'', ''/usr/bin:/bin'')])
               (Some (tc_timeout_s ctx)) ToolTimeoutError) (\<lambda>proc. eff_return
             \<lparr>tr_ok = cp_returncode proc = 0, tr_output = JStr (take (tc_max_output_bytes ctx) (cp_stdout proc)),
              tr_error = take (tc_max_output_bytes ctx) (cp_stderr proc), tr_metadata = [(''returncode'', JInt (cp_returncode proc))]\<rparr>))"

definition git_status_tool :: "tool_env \<Rightarrow> ToolExecutionContext \<Rightarrow> jdict \<Rightarrow> (files, ToolResult) eff" where
  "git_status_tool env ctx arguments =
     eff_bind (run_process env [''git'', ''-C'', path_str (tc_workspace_root ctx), ''status'', ''--short''] None None
       (Some (tc_timeout_s ctx)) TimeoutExpired) (\<lambda>proc.
       eff_return \<lparr>tr_ok = cp_returncode proc = 0, tr_output = JStr (str_strip (cp_stdout proc)),
         tr_error = str_strip (cp_stderr proc), tr_metadata = []\<rparr>)"

definition git_diff_tool :: "tool_env \<Rightarrow> ToolExecutionContext \<Rightarrow> jdict \<Rightarrow> (files, ToolResult) eff" where
  "git_diff_tool env ctx arguments =
     eff_bind (run_process env [''git'', ''-C'', path_str (tc_workspace_root ctx), ''diff'', ''--no-ext-diff'', ''--unified=3''] None None
       (Some (tc_timeout_s ctx)) TimeoutExpired) (\<lambda>proc.
       eff_return \<lparr>tr_ok = cp_returncode proc = 0, tr_output = JStr (take (tc_max_output_bytes ctx) (cp_stdout proc)),
         tr_error = str_strip (cp_stderr proc), tr_metadata = []\<rparr>)"

subsection \<open>Running pytest\<close>

definition list_arg :: "tool_env \<Rightarrow> jdict \<Rightarrow> string \<Rightarrow> string list" where
  "list_arg env arguments k =
     (case dict_get arguments k (JList []) of JList xs \<Rightarrow> map (py_str (os_float_repr env)) xs | _ \<Rightarrow> [])"

definition junit_arg :: "jdict \<Rightarrow> string" where
  "junit_arg arguments = (case get_json arguments ''junit_xml'' of JStr s \<Rightarrow> s | _ \<Rightarrow> [])"

definition pytest_argv :: "tool_env \<Rightarrow> jdict \<Rightarrow> string list" where
  "pytest_argv env arguments =
     [''python3'', ''-m'', ''pytest''] @ list_arg env arguments ''args'' @ list_arg env arguments ''paths'' @
     (if junit_arg arguments = [] then [] else [''--junitxml='' @ junit_arg arguments])"

record pytest_counts =
  pc_passed :: int
  pc_failed :: int
  pc_failed_tests :: "json list"

text \<open>\<open>root.iter()\<close>: the element and all below it, in document order.\<close>

primrec xml_iter :: "xml \<Rightarrow> xml list" where
  "xml_iter (Elem tag attribs t children) = Elem tag attribs t children # concat (map xml_iter children)"

definition xml_named :: "string \<Rightarrow> xml \<Rightarrow> xml list" where
  "xml_named tag e = filter (\<lambda>x. xml_tag x = tag) (xml_iter e)"

fun sum_ints :: "(string \<Rightarrow> py_error + int) \<Rightarrow> string list \<Rightarrow> py_error + int" where
  "sum_ints int_of [] = Inr 0"
| "sum_ints int_of (s # ss) = sum_bind (int_of s) (\<lambda>n. sum_bind (sum_ints int_of ss) (\<lambda>m. Inr (n + m)))"

definition sum_attribs :: "tool_env \<Rightarrow> string list \<Rightarrow> xml list \<Rightarrow> py_error + int" where
  "sum_attribs env names suites =
     sum_ints (os_int_of_str env) (concat (map (\<lambda>suite. map (\<lambda>n. dict_get (xml_attrib suite) n ''0'') names) suites))"

definition strip_colons :: "string \<Rightarrow> string" where
  "strip_colons s = rev (dropWhile (\<lambda>c. c = CHR '':'') (rev (dropWhile (\<lambda>c. c = CHR '':'') s)))"

definition failed_case :: "xml \<Rightarrow> json list" where
  "failed_case c =
     (case filter (\<lambda>x. xml_tag x = ''failure'') (xml_children c) @ filter (\<lambda>x. xml_tag x = ''error'') (xml_children c) of
        [] \<Rightarrow> []
      | failure # _ \<Rightarrow>
          [JObj [(''name'', JStr (strip_colons (dict_get (xml_attrib c) ''classname'' [] @ ''::'' @ dict_get (xml_attrib c) ''name'' []))),
                 (''message'', JStr (take 512 (case filled_or (map_of (xml_attrib failure) ''message'') (xml_text failure) of
                    Some m \<Rightarrow> m | None \<Rightarrow> [])))]])"

text \<open>The counts reached, and whether the report was read to its end; what an exception interrupts stays set.\<close>

definition read_junit :: "tool_env \<Rightarrow> xml \<Rightarrow> pytest_counts \<Rightarrow> pytest_counts \<times> bool" where
  "read_junit env e r =
     (let suites = (if xml_tag e = ''testsuites'' then xml_named ''testsuite'' e else [e])
      in case sum_attribs env [''failures'', ''errors''] suites of
           Inl _ \<Rightarrow> (r, False)
         | Inr failed \<Rightarrow>
             (let r1 = r\<lparr>pc_failed := failed\<rparr>
              in case sum_bind (sum_attribs env [''tests''] suites) (\<lambda>tests.
                     sum_bind (sum_attribs env [''skipped''] suites) (\<lambda>skipped. Inr (tests, skipped))) of
                   Inl _ \<Rightarrow> (r1, False)
                 | Inr (tests, skipped) \<Rightarrow>
                     (r1\<lparr>pc_passed := max (tests - failed - skipped) 0,
                         pc_failed_tests := concat (map failed_case (xml_named ''testcase'' e))\<rparr>, True)))"

fun split_words :: "string \<Rightarrow> string \<Rightarrow> string list" where
  "split_words acc [] = (if acc = [] then [] else [rev acc])"
| "split_words acc (c # cs) =
     (if is_space c then (if acc = [] then [] else [rev acc]) @ split_words [] cs else split_words (c # acc) cs)"

definition is_digits :: "string \<Rightarrow> bool" where
  "is_digits s \<longleftrightarrow> s \<noteq> [] \<and> list_all (\<lambda>c. let n = (of_char c :: nat) in (48 \<le> n \<and> n \<le> 57) \<or> n \<in> {178, 179, 185}) s"

text \<open>The inner loop for one marker: the first number, wherever it stands, and then \<open>break\<close>.\<close>

definition first_number :: "tool_env \<Rightarrow> string \<Rightarrow> string \<Rightarrow> int \<Rightarrow> py_error + int" where
  "first_number env stdout marker old =
     (case find is_digits (split_words [] (map (\<lambda>c. if c = CHR '','' then CHR '' '' else c) stdout)) of
        None \<Rightarrow> Inr old
      | Some part \<Rightarrow> if is_infix marker stdout then sum_bind (os_int_of_str env part) (\<lambda>n. Inr (max old n)) else Inr old)"

definition read_summary :: "tool_env \<Rightarrow> string \<Rightarrow> pytest_counts \<Rightarrow> py_error + pytest_counts" where
  "read_summary env stdout r =
     sum_bind (first_number env stdout ''passed'' (pc_passed r)) (\<lambda>passed.
     sum_bind (first_number env stdout ''failed'' (pc_failed r)) (\<lambda>failed.
     sum_bind (first_number env stdout ''error'' failed) (\<lambda>failed'.
       Inr (r\<lparr>pc_passed := passed, pc_failed := failed'\<rparr>))))"

definition parse_pytest_output :: "tool_env \<Rightarrow> files \<Rightarrow> string \<Rightarrow> string \<Rightarrow> py_error + pytest_counts" where
  "parse_pytest_output env fs stdout junit_xml =
     (let r = \<lparr>pc_passed = 0, pc_failed = 0, pc_failed_tests = []\<rparr>
      in if junit_xml = [] then read_summary env stdout r
         else case os_parse_xml env fs (path_join (os_cwd env) junit_xml) of
                None \<Rightarrow> read_summary env stdout r
              | Some e \<Rightarrow> (case read_junit env e r of
                    (r', True) \<Rightarrow> Inr r'
                  | (r', False) \<Rightarrow> read_summary env stdout r'))"

definition run_pytest_tool :: "tool_env \<Rightarrow> ToolExecutionContext \<Rightarrow> jdict \<Rightarrow> (files, ToolResult) eff" where
  "run_pytest_tool env ctx arguments =
     eff_bind (run_process env (pytest_argv env arguments) (Some (tc_workspace_root ctx))
       (Some [(''PATH'', ''/usr/bin:/bin''), (''PYTHONDONTWRITEBYTECODE'', ''1''), (''PYTEST_ADDOPTS'', ''-p no:cacheprovider'')])
       (Some (tc_timeout_s ctx)) ToolTimeoutError) (\<lambda>proc.
     eff_get (\<lambda>fs. eff_bind (eff_lift (parse_pytest_output env fs (cp_stdout proc) (junit_arg arguments))) (\<lambda>parsed.
       let duration = JFloat (py_round 3 (os_elapsed env * 1000))
       in eff_return
         \<lparr>tr_ok = cp_returncode proc = 0,
          tr_output = JObj [(''returncode'', JInt (cp_returncode proc)), (''passed'', JInt (pc_passed parsed)),
            (''failed'', JInt (pc_failed parsed)), (''duration_ms'', duration), (''failed_tests'', JList (pc_failed_tests parsed)),
            (''stdout'', JStr (take (tc_max_output_bytes ctx) (cp_stdout proc)))],
          tr_error = take (tc_max_output_bytes ctx) (cp_stderr proc),
          tr_metadata = [(''returncode'', JInt (cp_returncode proc)), (''duration_ms'', duration)]\<rparr>)))"

subsection \<open>The registry of the worker\<close>

type_synonym tool = "ToolExecutionContext \<Rightarrow> jdict \<Rightarrow> (files, ToolResult) eff"

definition tool_registry :: "tool_env \<Rightarrow> tool dict" where
  "tool_registry env =
     [(''repo_scan'', repo_scan_tool env), (''read_file'', read_file_tool env), (''search_code'', search_code_tool env),
      (''write_file'', write_file_tool env), (''git_diff'', git_diff_tool env), (''git_status'', git_status_tool env),
      (''run_pytest'', run_pytest_tool env), (''run_command'', run_command_tool env)]"

text \<open>The trace entry \<open>execute_tool\<close> adds goes with the context, which no caller reads again.\<close>

definition execute_tool :: "tool dict \<Rightarrow> string \<Rightarrow> jdict \<Rightarrow> ToolExecutionContext \<Rightarrow> (files, ToolResult) eff" where
  "execute_tool registry name arguments ctx =
     (case map_of registry name of None \<Rightarrow> eff_raise (KeyError name) | Some t \<Rightarrow> t ctx arguments)"

section \<open>The direct tool backend\<close>

definition direct_context :: "tool_env \<Rightarrow> BackendExecutionRequest \<Rightarrow> ToolExecutionContext" where
  "direct_context env request =
     (let root_path = os_resolve env (path_join (os_cwd env) (case ws_workspace_path (br_workspace request) of Some p \<Rightarrow> p | None \<Rightarrow> ''None''))
      in \<lparr>tc_workspace_root = root_path, tc_allowed_roots = [root_path], tc_allowed_shell_commands = [],
          tc_timeout_s = of_int (br_timeout_s request), tc_max_output_bytes = 64 * 1024\<rparr>)"

definition direct_tool_failed :: BackendExecutionResult where
  "direct_tool_failed =
     \<lparr>bx_status = BFailed, bx_output = [], bx_error = ''direct_tool backend requires task_input.__tool.name'',
      bx_backend_type = backend_value DIRECT_TOOL, bx_backend_session_id = None, bx_backend_run_id = None, bx_backend_pid = None,
      bx_exit_code = None, bx_usage = [], bx_artifacts = []\<rparr>"

definition direct_tool_answer :: "tool_env \<Rightarrow> string \<Rightarrow> ToolResult \<Rightarrow> BackendExecutionResult" where
  "direct_tool_answer env name r =
     \<lparr>bx_status = (if tr_ok r then BSuccess else BFailed), bx_output = json_dumps (os_float_repr env) (tr_output r),
      bx_error = tr_error r, bx_backend_type = backend_value DIRECT_TOOL, bx_backend_session_id = None, bx_backend_run_id = None,
      bx_backend_pid = None, bx_exit_code = (case map_of (tr_metadata r) ''returncode'' of Some (JInt n) \<Rightarrow> Some n | _ \<Rightarrow> None),
      bx_usage = [(''tool'', JStr name), (''metadata'', JObj (tr_metadata r))], bx_artifacts = []\<rparr>"

text \<open>The files afterwards, the events emitted and the end, for \<open>ae_backend\<close> of the worker.\<close>

definition direct_tool_run ::
    "tool_env \<Rightarrow> tool dict \<Rightarrow> jdict \<Rightarrow> string \<Rightarrow> BackendExecutionRequest \<Rightarrow> files \<Rightarrow> files \<times> jdict list \<times> backend_end" where
  "direct_tool_run env registry tool_request name request fs =
     (let started = [(''name'', JStr ''tool.started''), (''tool'', JStr name)]
      in case eff_bind (eff_lift (py_dict_of (json_or [get_json tool_request ''arguments''] (JObj []))))
                (\<lambda>arguments. execute_tool registry name arguments (direct_context env request)) fs of
           (fs', Inl e) \<Rightarrow> (fs', [started], Raised e)
         | (fs', Inr r) \<Rightarrow> (fs', [started, [(''name'', JStr ''tool.completed''), (''tool'', JStr name), (''ok'', JBool (tr_ok r))]],
                           Returned (direct_tool_answer env name r)))"

definition direct_tool_backend ::
    "tool_env \<Rightarrow> tool dict \<Rightarrow> AgentSpec \<Rightarrow> BackendExecutionRequest \<Rightarrow> files \<Rightarrow> files \<times> jdict list \<times> backend_end" where
  "direct_tool_backend env registry agent request fs =
     (if filled_or (ws_workspace_path (br_workspace request)) None = None
      then (fs, [], Raised (ValueError ''workspace_path is required for direct_tool backend''))
      else (let tool_request = obj_of (get_json (br_task_input request) ''__tool'');
                name = py_str (os_float_repr env) (get_json tool_request ''name'')
            in if \<not> get_truthy tool_request ''name'' then (fs, [], Returned direct_tool_failed)
               else if name \<notin> set (cap_tools (ag_capability agent))
               then (fs, [], Raised (ToolPermissionError
                 (''tool '' @ quoted name @ '' is not allowed for agent '' @ quoted (ag_agent_name agent))))
               else direct_tool_run env registry tool_request name request fs))"

section \<open>Confinement\<close>

text \<open>An effect on the files that leaves everything outside the roots alone.\<close>

definition confined :: "path list \<Rightarrow> (files, 'a) eff \<Rightarrow> bool" where
  "confined roots m \<longleftrightarrow> (\<forall>fs p. \<not> below_root p roots \<longrightarrow> fst (m fs) p = fs p)"

lemma confined_frame: "(\<And>p. \<not> below_root p roots \<Longrightarrow> frame (\<lambda>fs. fs p) m) \<Longrightarrow> confined roots m"
  by (simp add: confined_def frame_def)

lemma confined_lift: "confined roots (eff_lift r)"
  by (simp add: confined_def eff_lift_def)

lemma confined_bind: "confined roots m \<Longrightarrow> (\<And>x. confined roots (f x)) \<Longrightarrow> confined roots (eff_bind m f)"
  by (simp add: confined_def eff_bind_def split: prod.split sum.split) (metis fst_conv)

lemma direct_tool_run_files:
  "fst (direct_tool_run env registry tr name request fs) =
     fst (eff_bind (eff_lift (py_dict_of (json_or [get_json tr ''arguments''] (JObj []))))
       (\<lambda>arguments. execute_tool registry name arguments (direct_context env request)) fs)"
  unfolding direct_tool_run_def Let_def by (simp only: split: prod.split sum.split) simp

lemma resolve_path_under: "resolve_path env ctx raw = Inr p \<Longrightarrow> below_root p (context_roots env ctx)"
  by (auto simp: resolve_path_def Let_def split: if_splits)

lemma confined_readers:
  "confined roots (read_file_tool env ctx arguments)" "confined roots (search_code_tool env ctx arguments)"
  "confined roots (repo_scan_tool env ctx arguments)"
  unfolding read_file_tool_def read_bytes_def search_code_tool_def repo_scan_tool_def Let_def
  by (rule confined_frame, auto intro!: frame_intros)+

lemma confined_write_bytes: "below_root p roots \<Longrightarrow> confined roots (write_bytes env p content)"
  by (auto simp: write_bytes_def eff_simps confined_def split: option.split)

lemma confined_write: "confined (context_roots env ctx) (write_file_tool env ctx arguments)"
proof (cases "resolve_path env ctx (arg_text env arguments ''path'' [])")
  case (Inl e)
  then show ?thesis by (simp add: write_file_tool_def eff_simps confined_def)
next
  case (Inr p)
  with confined_write_bytes[OF resolve_path_under[OF Inr]] show ?thesis
    by (simp add: write_file_tool_def eff_simps confined_def make_dir_def split: option.split prod.split sum.split) (metis fst_conv)
qed

text \<open>The tools that start no process.\<close>

definition file_tools :: "string list" where
  "file_tools = [''repo_scan'', ''read_file'', ''search_code'', ''write_file'']"

text \<open>
  What the direct tool backend relies on: the tools an agent is granted keep to the area of their
  context. Then so does the backend, whatever the request.
\<close>

locale confined_registry =
  fixes registry :: "tool dict" and granted :: "string list" and area :: "ToolExecutionContext \<Rightarrow> path list"
  assumes granted_confined: "name \<in> set granted \<Longrightarrow> map_of registry name = Some t \<Longrightarrow> confined (area ctx) (t ctx arguments)"
begin

lemma execute_confined: "name \<in> set granted \<Longrightarrow> confined (area ctx) (execute_tool registry name arguments ctx)"
  using granted_confined by (auto simp: execute_tool_def confined_def eff_raise_def split: option.split)

lemma run_confined:
  assumes "name \<in> set granted" and "\<not> below_root p (area (direct_context env request))"
  shows "fst (direct_tool_run env registry tr name request fs) p = fs p"
  unfolding direct_tool_run_files
  by (rule confined_bind[OF confined_lift execute_confined[OF assms(1)], unfolded confined_def, rule_format, OF assms(2)])

lemma backend_confined:
  assumes "set (cap_tools (ag_capability agent)) \<subseteq> set granted" and "\<not> below_root p (area (direct_context env request))"
  shows "fst (direct_tool_backend env registry agent request fs) p = fs p"
  using run_confined assms by (auto simp: direct_tool_backend_def Let_def)

end

interpretation file_registry: confined_registry "tool_registry env" file_tools "context_roots env" for env
  by unfold_locales (use confined_readers confined_write in \<open>auto simp: file_tools_def tool_registry_def\<close>)

lemma direct_roots: "context_roots env (direct_context env request) = [os_resolve env (tc_workspace_root (direct_context env request)),
    os_resolve env (tc_workspace_root (direct_context env request))]"
  by (simp add: context_roots_def direct_context_def Let_def)

text \<open>C37: An agent that is granted file tools only cannot reach outside its workspace: whatever the task asks
for, links and \<open>..\<close> included, running it with the direct tool backend changes no file whose resolved
path is not below the resolved workspace.\<close>

theorem direct_tool_confined:
  assumes "set (cap_tools (ag_capability agent)) \<subseteq> set file_tools"
    and "\<not> below_root p [os_resolve env (tc_workspace_root (direct_context env request))]"
  shows "fst (direct_tool_backend env (tool_registry env) agent request fs) p = fs p"
proof -
  have "\<not> below_root p (context_roots env (direct_context env request))"
    using assms(2) by (simp add: direct_roots below_root_def)
  with assms(1) show ?thesis by (rule file_registry.backend_confined)
qed

text \<open>A machine without links, on which every write succeeds, and an agent that may write files.\<close>

definition plain_os :: tool_env where
  "plain_os =
     \<lparr>os_cwd = [''srv''],
      os_resolve = foldl (\<lambda>acc c. if c = ''..'' then butlast acc else acc @ [c]) [],
      os_read_error = (\<lambda>_ _. None), os_write_fails = (\<lambda>_ _ _. None), os_mkdir_error = (\<lambda>_ _. None),
      os_unlink_error = (\<lambda>_ _. None), os_chmod_error = (\<lambda>_ _. None), os_exists = (\<lambda>fs p. fs p \<noteq> None),
      os_listing = (\<lambda>_ _. []), os_run = (\<lambda>_ _ _ _ fs. (fs, TimedOut [])), os_elapsed = 0, os_parse_xml = (\<lambda>_ _. None),
      os_shlex_split = (\<lambda>s. Inr [s]), os_decode_replace = id, os_decode_ignore = Inr, os_encode = id,
      os_int_of_str = (\<lambda>_. Inr 0), os_float_repr = (\<lambda>_. ''0.0''), os_sha256 = (\<lambda>_. ''digest''), os_uuid = ''id''\<rparr>"

definition writer_agent :: AgentSpec where
  "writer_agent = (new_agent ''a'' ''coder'' 0)\<lparr>ag_capability := (ag_capability (new_agent ''a'' ''coder'' 0))\<lparr>cap_tools := [''write_file'']\<rparr>\<rparr>"

definition write_request :: "string \<Rightarrow> BackendExecutionRequest" where
  "write_request target =
     \<lparr>br_task_id = ''t'', br_attempt_id = ''t:attempt:1'', br_agent_name = ''a'', br_system_prompt = [], br_user_message = [],
      br_task_input = [(''__tool'', JObj [(''name'', JStr ''write_file''),
        (''arguments'', JObj [(''path'', JStr target), (''content'', JStr ''x'')])])],
      br_workspace = (new_workspace [] ''HEAD'' False)\<lparr>ws_workspace_path := Some ''/ws''\<rparr>,
      br_runtime_context = [], br_timeout_s = 30, br_token_budget = None\<rparr>"

lemma write_request_root: "os_resolve plain_os (tc_workspace_root (direct_context plain_os (write_request target))) = [''ws'']"
  by (simp add: direct_context_def plain_os_def write_request_def path_join_def is_absolute_def path_parts_def Let_def)

lemma write_request_lands:
  "fst (direct_tool_backend plain_os (tool_registry plain_os) writer_agent (write_request ''./notes'') Map.empty) [''ws'', ''notes''] = Some ''x''"
  by (simp add: direct_tool_backend_def direct_tool_run_files write_request_def writer_agent_def new_agent_def default_capability_def
      new_workspace_def execute_tool_def tool_registry_def write_file_tool_def resolve_path_def context_roots_def below_root_def
      direct_context_def plain_os_def path_join_def path_parts_def is_absolute_def arg_text_def make_dir_def write_bytes_def eff_simps
      obj_of_def get_json_def get_truthy_def dict_get_def py_dict_of_def filled_or_def Let_def)

theorem direct_tool_confined_witness:
  "fst (direct_tool_backend plain_os (tool_registry plain_os) writer_agent (write_request ''../etc/passwd'') Map.empty)
     [''etc'', ''passwd''] = None"
proof -
  have "set (cap_tools (ag_capability writer_agent)) \<subseteq> set file_tools"
    by (simp add: writer_agent_def file_tools_def)
  moreover have "\<not> below_root [''etc'', ''passwd''] [os_resolve plain_os (tc_workspace_root (direct_context plain_os (write_request ''../etc/passwd'')))]"
    unfolding write_request_root by (simp add: below_root_def)
  ultimately show ?thesis using direct_tool_confined by fastforce
qed

subsection \<open>Counting from the summary line\<close>

text \<open>Without a report, \<open>1 failed, 2 passed\<close> is read as one of each: every marker takes the same first number.\<close>

lemma read_summary_same_number:
  assumes "read_summary env stdout \<lparr>pc_passed = 0, pc_failed = 0, pc_failed_tests = []\<rparr> = Inr r"
    and "is_infix ''passed'' stdout" "is_infix ''failed'' stdout"
  shows "pc_passed r = pc_failed r"
  using assms
  by (auto simp: read_summary_def first_number_def sum_bind_def split: option.splits sum.splits if_splits)

end
