(* ===== verification/Artifact_Store.thy ===== *)
theory Artifact_Store
  imports Tool_Sandbox
begin

text \<open>
  \<open>aruntime/workspace/artifact_store.py\<close>: the files a task leaves behind, each below the directory of its
  attempt. The file system and what the operating system decides are those of the tools.
\<close>

section \<open>Operations\<close>

definition safe_char :: "char \<Rightarrow> char" where
  "safe_char c =
     (let n = (of_char c :: nat)
      in if (97 \<le> n \<and> n \<le> 122) \<or> (65 \<le> n \<and> n \<le> 90) \<or> (48 \<le> n \<and> n \<le> 57) \<or> c \<in> set ''_.-'' then c else CHR ''_'')"

definition safe_id :: "string \<Rightarrow> string" where
  "safe_id value = map safe_char value"

text \<open>\<open>root in path.parents\<close>.\<close>

definition strictly_below :: "path \<Rightarrow> path \<Rightarrow> bool" where
  "strictly_below p r \<longleftrightarrow> take (length r) p = r \<and> p \<noteq> r"

definition escapes :: py_error where
  "escapes = ValueError ''artifact path escapes artifact root''"

definition attempt_dir :: "tool_env \<Rightarrow> path \<Rightarrow> string \<Rightarrow> string \<Rightarrow> (files, path) eff" where
  "attempt_dir env store_root root_task_id attempt_id =
     (let p = os_resolve env (path_join (path_join store_root (safe_id root_task_id)) (safe_id attempt_id))
      in if \<not> strictly_below p store_root \<and> p \<noteq> store_root then eff_raise escapes
         else eff_then (make_dir env p) (eff_return p))"

definition artifact_write_bytes ::
    "tool_env \<Rightarrow> path \<Rightarrow> usec \<Rightarrow> string \<Rightarrow> string \<Rightarrow> string \<Rightarrow> string \<Rightarrow> string \<Rightarrow> string \<Rightarrow> jdict \<Rightarrow> (files, ArtifactReference) eff" where
  "artifact_write_bytes env store_root now root_task_id task_id attempt_id artifact_type filename data metadata =
     eff_bind (attempt_dir env store_root root_task_id attempt_id) (\<lambda>dir.
       let p = os_resolve env (path_join dir filename)
       in if \<not> strictly_below p store_root then eff_raise escapes
          else eff_then (write_bytes env p data) (eff_return
            \<lparr>ar_artifact_id = ''artifact_'' @ os_uuid env, ar_artifact_type = artifact_type, ar_path = path_str p,
             ar_sha256 = os_sha256 env data, ar_size_bytes = int (length data), ar_task_id = task_id,
             ar_attempt_id = attempt_id, ar_created_at = now, ar_metadata = metadata\<rparr>))"

text \<open>\<open>json.dumps(data, ensure_ascii=False, indent=2)\<close>.\<close>

definition indent_to :: "nat \<Rightarrow> string" where
  "indent_to n = CHR 0x0A # replicate n (CHR '' '')"

fun join_indented :: "nat \<Rightarrow> string list \<Rightarrow> string" where
  "join_indented n [] = []"
| "join_indented n [x] = indent_to n @ x"
| "join_indented n (x # xs) = indent_to n @ x @ '','' @ join_indented n xs"

fun json_dumps_indent :: "(rat \<Rightarrow> string) \<Rightarrow> nat \<Rightarrow> json \<Rightarrow> string" where
  "json_dumps_indent fr n (JList xs) =
     (if xs = [] then ''[]''
      else ''['' @ join_indented (n + 2) (map (json_dumps_indent fr (n + 2)) xs) @ indent_to n @ '']'')"
| "json_dumps_indent fr n (JObj kvs) =
     (if kvs = [] then ''{}''
      else ''{'' @ join_indented (n + 2) (map (\<lambda>kv. dump_str (fst kv) @ '': '' @ json_dumps_indent fr (n + 2) (snd kv)) kvs)
             @ indent_to n @ ''}'')"
| "json_dumps_indent fr n v = json_dumps fr v"

definition artifact_write_json ::
    "tool_env \<Rightarrow> path \<Rightarrow> usec \<Rightarrow> string \<Rightarrow> string \<Rightarrow> string \<Rightarrow> string \<Rightarrow> string \<Rightarrow> jdict \<Rightarrow> (files, ArtifactReference) eff" where
  "artifact_write_json env store_root now root_task_id task_id attempt_id artifact_type filename data =
     artifact_write_bytes env store_root now root_task_id task_id attempt_id artifact_type filename
       (os_encode env (json_dumps_indent (os_float_repr env) 0 (JObj data))) []"

definition artifact_read :: "tool_env \<Rightarrow> path \<Rightarrow> ArtifactReference \<Rightarrow> (files, string) eff" where
  "artifact_read env store_root artifact =
     (let p = os_resolve env (path_join (os_cwd env) (ar_path artifact))
      in if \<not> strictly_below p store_root then eff_raise escapes else read_bytes env p)"

section \<open>Printing and reading paths\<close>

definition plain_name :: "string \<Rightarrow> bool" where
  "plain_name c \<longleftrightarrow> c \<noteq> [] \<and> c \<noteq> ''.'' \<and> CHR ''/'' \<notin> set c"

lemma split_slash_nonempty [simp]: "split_slash s \<noteq> []"
  by (induction s) (auto split: list.split)

lemma split_slash_name: "CHR ''/'' \<notin> set c \<Longrightarrow> split_slash (c @ s) = (c @ hd (split_slash s)) # tl (split_slash s)"
  by (induction c) auto

lemma split_slash_names:
  "list_all plain_name p \<Longrightarrow> split_slash (concat (map (\<lambda>c. CHR ''/'' # c) p)) = [] # p"
  by (induction p) (simp_all add: split_slash_name plain_name_def)

lemma path_parts_str: "list_all plain_name p \<Longrightarrow> path_parts (path_str p) = p"
  by (auto simp: path_parts_def path_str_def split_slash_names list_all_iff plain_name_def intro!: filter_True)

lemma is_absolute_path_str [simp]: "is_absolute (path_str p)"
  by (cases p) (simp_all add: is_absolute_def path_str_def)

lemma strictly_below_root: "strictly_below p r \<Longrightarrow> below_root p [r]"
  by (simp add: strictly_below_def below_root_def)

section \<open>Properties\<close>

lemma frame_guarded_write:
  "\<not> strictly_below p r \<Longrightarrow>
   frame (\<lambda>fs. fs p) (if \<not> strictly_below q r then eff_raise e else eff_then (write_bytes env q data) (eff_return x))"
  by (cases "strictly_below q r") (auto simp: frame_def write_bytes_def eff_simps split: option.split)

lemma artifact_write_ended:
  assumes "artifact_write_bytes env store_root now root_task_id task_id attempt_id artifact_type filename data metadata fs = (fs', Inr ref)"
  obtains q where "ar_path ref = path_str (os_resolve env q)" "strictly_below (os_resolve env q) store_root"
    "fs' = fs(os_resolve env q \<mapsto> data)" "ar_size_bytes ref = int (length data)" "ar_sha256 ref = os_sha256 env data"
  using assms
  by (auto simp: artifact_write_bytes_def attempt_dir_def make_dir_def write_bytes_def eff_simps Let_def
      split: if_splits option.splits)

text \<open>C38: An artifact that was written can be read back: the reference \<open>write_bytes\<close> returns has the path,
the size and the digest of the bytes, and reading it gives the bytes, whatever the names of the task,
the attempt and the file were. The environment's part is what \<open>Path.resolve\<close> documents, a path that
resolves to itself and has plain components, and that the file written can be read.\<close>

theorem artifact_write_read:
  assumes "artifact_write_bytes env store_root now root_task_id task_id attempt_id artifact_type filename data metadata fs = (fs', Inr ref)"
    and "\<forall>q. list_all plain_name (os_resolve env q) \<and> os_resolve env (os_resolve env q) = os_resolve env q"
    and "\<forall>q. os_read_error env fs' q = None"
  shows "artifact_read env store_root ref fs' = (fs', Inr data) \<and> ar_size_bytes ref = int (length data) \<and> ar_sha256 ref = os_sha256 env data"
proof -
  from assms(1) obtain q where *: "ar_path ref = path_str (os_resolve env q)" "strictly_below (os_resolve env q) store_root"
    "fs' = fs(os_resolve env q \<mapsto> data)" "ar_size_bytes ref = int (length data)" "ar_sha256 ref = os_sha256 env data"
    by (rule artifact_write_ended)
  with assms(2,3) show ?thesis
    by (simp add: artifact_read_def read_bytes_def path_join_def path_parts_str eff_simps Let_def)
qed

text \<open>Nothing is written outside the store: whatever identifiers and file name a caller passes, and whether
or not the call raises, every file that is not strictly below the root of the store is as before.\<close>

theorem artifact_write_confined:
  assumes "\<not> strictly_below p store_root"
  shows "fst (artifact_write_bytes env store_root now root_task_id task_id attempt_id artifact_type filename data metadata fs) p = fs p"
proof -
  have "frame (\<lambda>fs. fs p) (artifact_write_bytes env store_root now root_task_id task_id attempt_id artifact_type filename data metadata)"
    unfolding artifact_write_bytes_def attempt_dir_def make_dir_def Let_def
    by (intro frame_intros frame_guarded_write assms)
  then show ?thesis by (simp add: frame_def)
qed

definition demo_os :: tool_env where
  "demo_os = plain_os\<lparr>os_resolve := filter plain_name\<rparr>"

theorem artifact_write_confined_witness:
  "fst (artifact_write_bytes demo_os [''art''] 0 ''r'' ''t'' ''t:attempt:1'' ''log'' ''/etc/passwd'' ''x'' [] Map.empty) [''etc'', ''passwd''] = None"
  using artifact_write_confined[of "[''etc'', ''passwd'']" "[''art'']"] by (simp add: strictly_below_def)

theorem artifact_write_read_witness:
  "\<exists>fs ref. artifact_write_bytes demo_os [''art''] 0 ''r'' ''t'' ''t:attempt:1'' ''log'' ''out.txt'' ''x'' [] Map.empty = (fs, Inr ref) \<and>
     artifact_read demo_os [''art''] ref fs = (fs, Inr ''x'')"
proof -
  have "\<exists>fs ref. artifact_write_bytes demo_os [''art''] 0 ''r'' ''t'' ''t:attempt:1'' ''log'' ''out.txt'' ''x'' [] Map.empty = (fs, Inr ref)"
    by (simp add: artifact_write_bytes_def attempt_dir_def make_dir_def write_bytes_def demo_os_def plain_os_def path_join_def path_parts_def
        is_absolute_def safe_id_def safe_char_def plain_name_def strictly_below_def eff_simps Let_def)
  then obtain fs ref where *: "artifact_write_bytes demo_os [''art''] 0 ''r'' ''t'' ''t:attempt:1'' ''log'' ''out.txt'' ''x'' [] Map.empty = (fs, Inr ref)"
    by blast
  moreover have "artifact_read demo_os [''art''] ref fs = (fs, Inr ''x'')"
    using artifact_write_read[OF *] by (simp add: demo_os_def plain_os_def list_all_iff)
  ultimately show ?thesis by blast
qed

end
