(* ===== verification/Codex_Backend.thy ===== *)
theory Codex_Backend
  imports Artifact_Store
begin

text \<open>
  \<open>aruntime/backends/codex_cli.py\<close>: running the codex command line for one attempt, with its event stream
  and its retries. The program itself is an argument: a run of the process takes the files to new files,
  the lines and the errors it printed, and an exit code, or none when it had to be killed at the time limit.
  Killing a process group and \<open>cancel\<close> are not modelled.
\<close>

section \<open>Events\<close>

fun join_text :: "string \<Rightarrow> string list \<Rightarrow> string" where
  "join_text sep [] = []"
| "join_text sep [x] = x"
| "join_text sep (x # xs) = x @ sep @ join_text sep xs"

definition event_name :: "string \<Rightarrow> string" where
  "event_name event_type =
     dict_get [(''thread.started'', ''backend.session.started''), (''turn.started'', ''agent.turn.started''),
       (''turn.completed'', ''agent.turn.completed''), (''turn.failed'', ''agent.turn.failed''), (''error'', ''backend.error'')]
       event_type (if event_type = [] then ''backend.event'' else event_type)"

definition or_empty :: "(rat \<Rightarrow> string) \<Rightarrow> jdict \<Rightarrow> string \<Rightarrow> string" where
  "or_empty fr d k = py_str fr (json_or [get_json d k] (JStr []))"

text \<open>The part of \<open>sanitize_codex_event\<close> on \<open>event["item"]\<close>.\<close>

definition sanitize_command :: "(rat \<Rightarrow> string) \<Rightarrow> string \<Rightarrow> jdict \<Rightarrow> jdict \<Rightarrow> jdict" where
  "sanitize_command fr event_type item result =
     (let result = dict_set ''name'' (JStr (if event_type = ''item.started'' then ''tool.command.started'' else ''tool.command.completed'')) result
      in case get_json item ''command'' of
           JList parts \<Rightarrow> dict_set ''command'' (JStr (join_text '' '' (map (py_str fr) (take 8 parts)))) result
         | JStr c \<Rightarrow> dict_set ''command'' (JStr (take 256 c)) result
         | _ \<Rightarrow> result)"

definition sanitize_item :: "(rat \<Rightarrow> string) \<Rightarrow> string \<Rightarrow> jdict \<Rightarrow> jdict \<Rightarrow> jdict" where
  "sanitize_item fr event_type item result =
     (let item_type = or_empty fr item ''type'';
          result = dict_set ''item_type'' (JStr item_type) result;
          result = (if item_type = ''command_execution'' then sanitize_command fr event_type item result else result)
      in case map_of item ''path'' of
           None \<Rightarrow> result
         | Some p \<Rightarrow> dict_set ''name'' (JStr ''artifact.file.changed'') (dict_set ''path'' (JStr (py_str fr p)) result))"

definition sanitize_codex_event :: "(rat \<Rightarrow> string) \<Rightarrow> jdict \<Rightarrow> jdict" where
  "sanitize_codex_event fr event =
     (let event_type = or_empty fr event ''type'';
          mapped = event_name event_type;
          result = [(''name'', JStr mapped), (''raw_type'', JStr event_type)];
          result = (if get_truthy event ''thread_id''
                    then dict_set ''thread_id'' (JStr (py_str fr (get_json event ''thread_id''))) result else result);
          result = (case get_json event ''usage'' of JObj u \<Rightarrow> dict_set ''usage'' (JObj u) result | _ \<Rightarrow> result);
          result = (case get_json event ''item'' of JObj item \<Rightarrow> sanitize_item fr event_type item result | _ \<Rightarrow> result);
          result = (if event_type = ''invalid_jsonl''
                    then dict_set ''error'' (JStr ''invalid jsonl'') (dict_set ''name'' (JStr ''backend.error'') result) else result)
      in if get_truthy event ''message'' \<and> mapped = ''backend.error''
         then dict_set ''error'' (JStr (take 512 (py_str fr (get_json event ''message'')))) result else result)"

definition usage_from_events :: "jdict list \<Rightarrow> jdict" where
  "usage_from_events events =
     (let usage = [(''codex_events'', JInt (int (length events)))]
      in case find (\<lambda>e. json_is_obj (get_json e ''usage'')) (rev events) of
           None \<Rightarrow> usage
         | Some e \<Rightarrow> dict_update usage (obj_of (get_json e ''usage'')))"

definition session_id :: "jdict list \<Rightarrow> string option" where
  "session_id events =
     (case find (\<lambda>e. map_of e ''name'' = Some (JStr ''backend.session.started'')) events of
        None \<Rightarrow> None
      | Some e \<Rightarrow> (case get_json e ''thread_id'' of JStr s \<Rightarrow> Some s | _ \<Rightarrow> None))"

section \<open>The command\<close>

record codex_process =
  cx_pid :: int
  cx_stdout :: "(py_error + string) list"
  cx_stderr :: string
  cx_exit :: "int option"

text \<open>
  \<open>ce_json_loads\<close> is \<open>json.loads(line.decode("utf-8"))\<close>: nothing for a \<open>JSONDecodeError\<close>, and any other
  exception as it is. \<open>ce_run\<close> takes the number of the try, the command, the environment variables, the
  working directory and the time limit.
\<close>

record codex_env =
  ce_os :: tool_env
  ce_store_root :: path
  ce_environ :: "string dict"
  ce_home :: path
  ce_repo_root :: path
  ce_now :: usec
  ce_json_loads :: "string \<Rightarrow> py_error + json option"
  ce_run :: "nat \<Rightarrow> string list \<Rightarrow> string dict \<Rightarrow> string \<Rightarrow> int \<Rightarrow> files \<Rightarrow> files \<times> (py_error + codex_process)"

definition schema_path :: "codex_env \<Rightarrow> string \<Rightarrow> string" where
  "schema_path env raw =
     (if is_absolute raw then path_str (path_parts raw)
      else path_str (os_resolve (ce_os env) (path_join (ce_repo_root env) raw)))"

definition double_newline :: string where
  "double_newline = [CHR 0x0A, CHR 0x0A]"

definition build_prompt :: "codex_env \<Rightarrow> BackendExecutionRequest \<Rightarrow> string" where
  "build_prompt env request =
     (let fr = os_float_repr (ce_os env); newline = [CHR 0x0A]
      in join_text double_newline
        ((if br_system_prompt request = [] then [] else [br_system_prompt request])
         @ (if br_user_message request = [] then [] else [br_user_message request])
         @ (if get_truthy (br_task_input request) ''goal''
            then [''Goal:'' @ newline @ py_str fr (get_json (br_task_input request) ''goal'')] else [])
         @ (case filled_or (ws_workspace_path (br_workspace request)) None of
              None \<Rightarrow> []
            | Some p \<Rightarrow>
                [''Workspace:'' @ newline @ path_str (os_resolve (ce_os env) (path_join (os_cwd (ce_os env)) p)) @ newline
                 @ ''Only inspect and modify files under this workspace. ''
                 @ ''Do not edit the source repository path or example/template repository paths.''])
         @ (if br_task_input request = [] then [] else [''Task input JSON:'' @ newline @ json_dumps fr (JObj (br_task_input request))])
         @ (if br_runtime_context request = [] then []
            else [''Runtime context JSON:'' @ newline @ json_dumps fr (JObj (br_runtime_context request))])))"

text \<open>\<open>final.json\<close> in the directory of the attempt; computing its path creates the directory.\<close>

definition final_json_path :: "codex_env \<Rightarrow> BackendExecutionRequest \<Rightarrow> (files, path) eff" where
  "final_json_path env request =
     eff_bind (attempt_dir (ce_os env) (ce_store_root env) (br_task_id request) (br_attempt_id request)) (\<lambda>dir.
       eff_return (dir @ [''final.json'']))"

definition build_command :: "codex_env \<Rightarrow> AgentBackendConfig \<Rightarrow> BackendExecutionRequest \<Rightarrow> (files, string list) eff" where
  "build_command env config request =
     eff_bind (final_json_path env request) (\<lambda>final. eff_return
       ([be_executable config, ''--ask-for-approval'', be_approval_policy config, ''exec'', ''--sandbox'', be_sandbox config]
        @ (if be_ephemeral config then [''--ephemeral''] else []) @ [''--json'']
        @ (case filled_or (be_output_schema config) None of
             Some schema \<Rightarrow> if map_of (ce_environ env) ''CODEX_ENABLE_OUTPUT_SCHEMA'' = Some ''1''
                           then [''--output-schema'', schema_path env schema] else []
           | None \<Rightarrow> [])
        @ [''--output-last-message'', path_str final, build_prompt env request]))"

definition prepare_codex_home :: "codex_env \<Rightarrow> BackendExecutionRequest \<Rightarrow> (files, path) eff" where
  "prepare_codex_home env request =
     eff_bind (attempt_dir (ce_os env) (ce_store_root env) (br_task_id request) (br_attempt_id request)) (\<lambda>dir.
       let target = dir @ [''codex-home''];
           source_home = (case map_of (ce_environ env) ''CODEX_HOME'' of
             Some h \<Rightarrow> path_join (os_cwd (ce_os env)) h | None \<Rightarrow> ce_home env @ [''.codex'']);
           source_config = os_resolve (ce_os env) (source_home @ [''config.toml'']);
           target_config = os_resolve (ce_os env) (target @ [''config.toml''])
       in eff_then (make_dir (ce_os env) target)
          (eff_then (eff_get (\<lambda>fs. eff_when (os_exists (ce_os env) fs source_config \<and> \<not> os_exists (ce_os env) fs target_config)
             (eff_bind (read_bytes (ce_os env) source_config) (\<lambda>content. write_bytes (ce_os env) target_config content))))
          (eff_return target)))"

definition child_environ :: "codex_env \<Rightarrow> path \<Rightarrow> string dict" where
  "child_environ env home_path =
     dict_set ''CODEX_HOME'' (path_str home_path)
       (case filled_or (map_of (ce_environ env) ''CODEX_API_KEY'') (filled_or (map_of (ce_environ env) ''OPENAI_API_KEY'') None) of
          Some key \<Rightarrow> dict_set ''CODEX_API_KEY'' key (ce_environ env)
        | None \<Rightarrow> ce_environ env)"

section \<open>One run\<close>

text \<open>The files, and the events emitted so far.\<close>

type_synonym codex_state = "files \<times> jdict list"

definition on_files :: "(files, 'a) eff \<Rightarrow> (codex_state, 'a) eff" where
  "on_files m = (\<lambda>(fs, events). case m fs of (fs', r) \<Rightarrow> ((fs', events), r))"

definition emit :: "jdict \<Rightarrow> (codex_state, unit) eff" where
  "emit e = eff_modify (\<lambda>(fs, events). (fs, events @ [e]))"

fun consume_jsonl :: "codex_env \<Rightarrow> (py_error + string) list \<Rightarrow> jdict list \<Rightarrow> (codex_state, jdict list) eff" where
  "consume_jsonl env [] events = eff_return events"
| "consume_jsonl env (line # lines) events =
     eff_bind (eff_lift (sum_bind line (ce_json_loads env))) (\<lambda>parsed.
       case (case parsed of None \<Rightarrow> JObj [(''type'', JStr ''invalid_jsonl'')] | Some v \<Rightarrow> v) of
         JObj event \<Rightarrow>
           (let clean = sanitize_codex_event (os_float_repr (ce_os env)) event
            in eff_then (emit clean) (consume_jsonl env lines (events @ [clean])))
       | _ \<Rightarrow> eff_raise (AttributeError ''object has no attribute get''))"

definition stderr_artifacts :: "codex_env \<Rightarrow> BackendExecutionRequest \<Rightarrow> string \<Rightarrow> (files, ArtifactReference list) eff" where
  "stderr_artifacts env request stderr =
     (if stderr = [] then eff_return []
      else eff_bind (artifact_write_bytes (ce_os env) (ce_store_root env) (ce_now env) (br_task_id request) (br_task_id request)
             (br_attempt_id request) ''log'' ''stderr.log'' (os_encode (ce_os env) stderr) []) (\<lambda>a. eff_return [a]))"

definition read_final_json :: "codex_env \<Rightarrow> BackendExecutionRequest \<Rightarrow> (files, string) eff" where
  "read_final_json env request =
     eff_bind (final_json_path env request) (\<lambda>final. eff_get (\<lambda>fs.
       if os_exists (ce_os env) fs final
       then eff_bind (read_bytes (ce_os env) final) (\<lambda>content. eff_return (os_decode_replace (ce_os env) content))
       else eff_return []))"

definition codex_timeout :: "codex_process \<Rightarrow> jdict list \<Rightarrow> ArtifactReference list \<Rightarrow> BackendExecutionResult" where
  "codex_timeout process events artifacts =
     \<lparr>bx_status = BTimeout, bx_output = [], bx_error = ''codex timeout'', bx_backend_type = backend_value CODEX_CLI,
      bx_backend_session_id = None, bx_backend_run_id = None, bx_backend_pid = Some (cx_pid process), bx_exit_code = None,
      bx_usage = usage_from_events events, bx_artifacts = artifacts\<rparr>"

definition codex_finished ::
    "codex_env \<Rightarrow> codex_process \<Rightarrow> int \<Rightarrow> string \<Rightarrow> jdict list \<Rightarrow> ArtifactReference list \<Rightarrow> string \<Rightarrow> BackendExecutionResult" where
  "codex_finished env process code stderr events artifacts output =
     \<lparr>bx_status = (if code = 0 then BSuccess else BFailed), bx_output = output,
      bx_error = (if code = 0 then [] else if stderr \<noteq> [] then stderr else ''codex exited '' @ int_str code),
      bx_backend_type = backend_value CODEX_CLI, bx_backend_session_id = session_id events,
      bx_backend_run_id = Some (''run_'' @ os_uuid (ce_os env)), bx_backend_pid = Some (cx_pid process), bx_exit_code = Some code,
      bx_usage = usage_from_events events, bx_artifacts = artifacts\<rparr>"

definition execute_once ::
    "codex_env \<Rightarrow> BackendExecutionRequest \<Rightarrow> string list \<Rightarrow> nat \<Rightarrow> (codex_state, BackendExecutionResult) eff" where
  "execute_once env request command k =
     eff_bind (on_files (prepare_codex_home env request)) (\<lambda>home_path.
     eff_bind (on_files (\<lambda>fs. ce_run env k command (child_environ env home_path)
         (opt_or (ws_workspace_path (br_workspace request)) ''None'') (br_timeout_s request) fs)) (\<lambda>process.
     eff_then (emit [(''name'', JStr ''backend.started''), (''backend_type'', JStr (backend_value CODEX_CLI)),
       (''backend_pid'', JInt (cx_pid process))])
     (eff_bind (consume_jsonl env (cx_stdout process) []) (\<lambda>events.
        let stderr = take 65536 (os_decode_replace (ce_os env) (cx_stderr process))
        in eff_bind (on_files (stderr_artifacts env request stderr)) (\<lambda>artifacts.
             case cx_exit process of
               None \<Rightarrow> eff_return (codex_timeout process events artifacts)
             | Some code \<Rightarrow> eff_bind (on_files (read_final_json env request)) (\<lambda>output.
                 eff_return (codex_finished env process code stderr events artifacts output)))))))"

section \<open>Retries\<close>

definition is_retryable_failure :: "BackendExecutionResult \<Rightarrow> bool" where
  "is_retryable_failure r =
     (let t = bx_output r @ [CHR 0x0A] @ bx_error r
      in is_infix ''stream disconnected before completion'' t \<or> is_infix ''Upstream request failed'' t)"

definition codex_retry_failed :: BackendExecutionResult where
  "codex_retry_failed =
     \<lparr>bx_status = BFailed, bx_output = [], bx_error = ''codex retry failed'', bx_backend_type = backend_value CODEX_CLI,
      bx_backend_session_id = None, bx_backend_run_id = None, bx_backend_pid = None, bx_exit_code = None, bx_usage = [], bx_artifacts = []\<rparr>"

definition unlink_final :: "codex_env \<Rightarrow> BackendExecutionRequest \<Rightarrow> (files, unit) eff" where
  "unlink_final env request =
     eff_bind (final_json_path env request) (\<lambda>final. eff_get (\<lambda>fs.
       case os_unlink_error (ce_os env) fs final of
         Some e \<Rightarrow> if fs final = None then eff_return () else eff_raise e
       | None \<Rightarrow> eff_modify (\<lambda>fs. fs(final := None))))"

text \<open>The loop with the tries left; the try that starts is number \<open>k\<close>.\<close>

fun codex_tries ::
    "codex_env \<Rightarrow> BackendExecutionRequest \<Rightarrow> string list \<Rightarrow> nat \<Rightarrow> nat \<Rightarrow> BackendExecutionResult option \<Rightarrow> (codex_state, BackendExecutionResult) eff" where
  "codex_tries env request command k 0 last_result =
     eff_return (case last_result of Some r \<Rightarrow> r | None \<Rightarrow> codex_retry_failed)"
| "codex_tries env request command k (Suc n) last_result =
     eff_then (on_files (unlink_final env request))
     (eff_bind (execute_once env request command k) (\<lambda>result.
       if bx_status result = BSuccess \<or> \<not> is_retryable_failure result then eff_return result
       else eff_then (eff_when (n > 0) (emit [(''name'', JStr ''backend.retry''), (''backend_type'', JStr (backend_value CODEX_CLI)),
              (''reason'', JStr (if bx_error result \<noteq> [] then bx_error result else ''retryable codex failure'')),
              (''attempt'', JInt (int k + 1))]))
            (codex_tries env request command (k + 1) n (Some result))))"

definition codex_attempts :: "codex_env \<Rightarrow> py_error + nat" where
  "codex_attempts env =
     sum_bind (os_int_of_str (ce_os env) (dict_get (ce_environ env) ''CODEX_EXEC_RETRIES'' ''2'')) (\<lambda>n. Inr (nat (max 1 n)))"

definition codex_prepare :: "AgentBackendConfig \<Rightarrow> BackendExecutionRequest \<Rightarrow> py_error + unit" where
  "codex_prepare config request =
     (if filled_or (ws_workspace_path (br_workspace request)) None = None
      then Inl (ValueError ''workspace_path is required for codex_cli backend'')
      else if be_sandbox config = ''danger-full-access'' then Inl (ValueError ''danger-full-access is disabled by default'')
      else Inr ())"

definition codex_execute :: "codex_env \<Rightarrow> AgentBackendConfig \<Rightarrow> BackendExecutionRequest \<Rightarrow> (codex_state, BackendExecutionResult) eff" where
  "codex_execute env config request =
     eff_bind (on_files (build_command env config request)) (\<lambda>command.
     eff_bind (eff_lift (codex_attempts env)) (\<lambda>attempts.
       codex_tries env request command 0 attempts None))"

section \<open>The shape of events\<close>

definition event_fields :: "string list" where
  "event_fields = [''name'', ''raw_type'', ''thread_id'', ''usage'', ''item_type'', ''command'', ''path'', ''error'']"

fun is_text :: "json \<Rightarrow> bool" where
  "is_text (JStr s) = True"
| "is_text _ = False"

text \<open>An entry as the handler of the daemon expects it.\<close>

definition field_ok :: "string \<times> json \<Rightarrow> bool" where
  "field_ok kv \<longleftrightarrow> fst kv \<in> set event_fields \<and>
     (if fst kv = ''usage'' then json_is_obj (snd kv) else is_text (snd kv)) \<and>
     (fst kv = ''name'' \<longrightarrow> snd kv \<noteq> JStr []) \<and>
     (fst kv = ''error'' \<longrightarrow> (\<forall>s. snd kv = JStr s \<longrightarrow> length s \<le> 512))"

definition clean_event :: "jdict \<Rightarrow> bool" where
  "clean_event e \<longleftrightarrow> distinct (dict_keys e) \<and> list_all field_ok e \<and> ''name'' \<in> set (dict_keys e)"

lemma field_ok_update: "list_all field_ok e \<Longrightarrow> field_ok (k, v) \<Longrightarrow> list_all field_ok (dict_set k v e)"
  by (induction e) auto

lemma clean_event_set: "clean_event e \<Longrightarrow> field_ok (k, v) \<Longrightarrow> clean_event (dict_set k v e)"
  by (simp add: clean_event_def field_ok_update distinct_update dom_update)

lemma clean_event_if: "clean_event e \<Longrightarrow> (b \<Longrightarrow> clean_event e') \<Longrightarrow> clean_event (if b then e' else e)"
  by simp

lemma clean_event_option: "clean_event e \<Longrightarrow> (\<And>x. clean_event (f x)) \<Longrightarrow> clean_event (case v of None \<Rightarrow> e | Some x \<Rightarrow> f x)"
  by (simp split: option.split)

lemma clean_event_obj:
  "clean_event e \<Longrightarrow> (\<And>u. clean_event (f u)) \<Longrightarrow> clean_event (case v of JObj u \<Rightarrow> f u | _ \<Rightarrow> e)"
  by (cases v) auto

lemmas clean_event_intros = clean_event_if clean_event_option clean_event_obj clean_event_set

lemma field_ok_text:
  "k \<in> {''raw_type'', ''thread_id'', ''item_type'', ''command'', ''path''} \<Longrightarrow> field_ok (k, JStr s)"
  "s \<noteq> [] \<Longrightarrow> field_ok (''name'', JStr s)" "length s \<le> 512 \<Longrightarrow> field_ok (''error'', JStr s)" "field_ok (''usage'', JObj u)"
  by (auto simp: field_ok_def event_fields_def)

lemma event_name_nonempty: "event_name t \<noteq> []"
  by (simp add: event_name_def dict_get_def)

lemma clean_event_command: "clean_event e \<Longrightarrow> clean_event (sanitize_command fr t item e)"
  unfolding sanitize_command_def Let_def
  by (cases "get_json item ''command''") (auto intro!: clean_event_set field_ok_text)

lemma clean_event_item: "clean_event e \<Longrightarrow> clean_event (sanitize_item fr t item e)"
  unfolding sanitize_item_def Let_def by (intro clean_event_intros clean_event_command) (simp_all add: field_ok_text)

text \<open>C39: Whatever object the codex process prints, the event that is passed on has the shape the daemon
expects: only the eight known fields, each once, a name that is not empty, an object as usage and strings
everywhere else, the error text cut to 512 characters.\<close>

theorem codex_event_shape: "clean_event (sanitize_codex_event fr event)"
proof -
  have base: "clean_event [(''name'', JStr (event_name t)), (''raw_type'', JStr t)]" for t
    using event_name_nonempty by (simp add: clean_event_def field_ok_text)
  show ?thesis
    unfolding sanitize_codex_event_def Let_def
    by (intro clean_event_intros clean_event_item base) (simp_all add: field_ok_text)
qed

section \<open>Which run answers\<close>

definition codex_final :: "codex_env \<Rightarrow> BackendExecutionRequest \<Rightarrow> path" where
  "codex_final env request =
     os_resolve (ce_os env) (path_join (path_join (ce_store_root env) (safe_id (br_task_id request))) (safe_id (br_attempt_id request)))
     @ [''final.json'']"

lemma final_json_path_is: "final_json_path env request fs = (fs', Inr p) \<Longrightarrow> p = codex_final env request \<and> fs' = fs"
  by (auto simp: final_json_path_def attempt_dir_def make_dir_def codex_final_def eff_simps Let_def split: if_splits option.splits)

lemma unlink_final_clears:
  assumes "unlink_final env request fs = (fs', Inr x)"
  shows "fs' (codex_final env request) = None"
  using assms final_json_path_is[of env request fs]
  by (auto simp: unlink_final_def eff_simps split: prod.splits sum.splits option.splits if_splits)

lemma codex_tries_answer:
  assumes "codex_tries env request command k n last_result st = (st', Inr r)" and "n > 0"
  shows "\<exists>j fs events. j < k + n \<and> fs (codex_final env request) = None \<and>
    execute_once env request command j (fs, events) = (st', Inr r) \<and>
    (bx_status r = BSuccess \<or> \<not> is_retryable_failure r \<or> j + 1 = k + n)"
  using assms
proof (induction n arbitrary: k last_result st)
  case (Suc n)
  obtain fs events where st: "st = (fs, events)" by (cases st)
  obtain fs1 where unlinked: "unlink_final env request fs = (fs1, Inr ())"
    using Suc.prems(1) by (auto simp: st on_files_def eff_simps split: prod.splits sum.splits)
  then obtain st2 result where once: "execute_once env request command k (fs1, events) = (st2, Inr result)"
    using Suc.prems(1) by (auto simp: st on_files_def eff_simps split: prod.splits sum.splits)
  note clear = unlink_final_clears[OF unlinked]
  show ?case
  proof (cases "bx_status result = BSuccess \<or> \<not> is_retryable_failure result")
    case True
    with Suc.prems(1) unlinked once have "st' = st2" "r = result" by (auto simp: st on_files_def eff_simps)
    with True once clear show ?thesis by (intro exI[of _ k]) auto
  next
    case failed: False
    have more: "\<exists>st3. codex_tries env request command (k + 1) n (Some result) st3 = (st', Inr r)"
      using Suc.prems(1)[unfolded codex_tries.simps] unlinked once failed
      by (cases st2, cases st') (auto simp: st on_files_def emit_def eff_simps split: if_splits)
    show ?thesis
    proof (cases n)
      case 0
      with Suc.prems(1) unlinked once failed have "st' = st2" "r = result" by (auto simp: st on_files_def eff_simps)
      with once clear 0 show ?thesis by (intro exI[of _ k]) auto
    next
      case (Suc m)
      with more obtain st3 where "codex_tries env request command (k + 1) n (Some result) st3 = (st', Inr r)" by blast
      from Suc.IH[OF this] Suc show ?thesis by simp
    qed
  qed
qed simp

text \<open>C40: An attempt is answered by one run of the codex process and by nothing left over from another: the
result is what a single run \<open>k\<close> gave, \<open>k\<close> below the number of tries configured, at the start of that run no
\<open>final.json\<close> of an earlier one was left in the directory of the attempt, and a result that asks for
a retry is returned only by the last try.\<close>

theorem codex_answer_fresh:
  assumes "codex_execute env config request st = (st', Inr r)"
  shows "\<exists>n k command fs events. codex_attempts env = Inr n \<and> k < n \<and> fs (codex_final env request) = None \<and>
    execute_once env request command k (fs, events) = (st', Inr r) \<and>
    (bx_status r = BSuccess \<or> \<not> is_retryable_failure r \<or> k + 1 = n)"
proof -
  from assms obtain n command st1 where n: "codex_attempts env = Inr n"
    and tries: "codex_tries env request command 0 n None st1 = (st', Inr r)"
    by (auto simp: codex_execute_def eff_bind_def eff_lift_def split: prod.splits sum.splits)
  from n have "n > 0" by (auto simp: codex_attempts_def sum_bind_def split: sum.splits)
  from codex_tries_answer[OF tries this] n show ?thesis by auto
qed

text \<open>A process that loses its connection once and then answers.\<close>

definition flaky_env :: codex_env where
  "flaky_env =
     \<lparr>ce_os = demo_os\<lparr>os_int_of_str := (\<lambda>_. Inr 2)\<rparr>, ce_store_root = [''art''], ce_environ = [], ce_home = [''home''], ce_repo_root = [''app''],
      ce_now = 0, ce_json_loads = (\<lambda>_. Inr None),
      ce_run = (\<lambda>k _ _ _ _ fs. if k = 0
        then (fs, Inr \<lparr>cx_pid = 7, cx_stdout = [], cx_stderr = ''Upstream request failed'', cx_exit = Some 1\<rparr>)
        else (fs([''art'', ''t'', ''t_attempt_1'', ''final.json''] := Some ''done''),
              Inr \<lparr>cx_pid = 8, cx_stdout = [Inr ''x''], cx_stderr = [], cx_exit = Some 0\<rparr>))\<rparr>"

lemmas demo_eval = codex_execute_def build_command_def final_json_path_def attempt_dir_def make_dir_def on_files_def
  codex_attempts_def sum_bind_def dict_get_def unlink_final_def execute_once_def prepare_codex_home_def read_final_json_def
  stderr_artifacts_def artifact_write_bytes_def write_bytes_def read_bytes_def emit_def codex_finished_def is_retryable_failure_def
  path_join_def path_parts_def is_absolute_def safe_id_def safe_char_def strictly_below_def plain_name_def eff_simps Let_def

lemma flaky_env_answers:
  "\<exists>st r. codex_execute flaky_env default_backend (write_request ''x'') (Map.empty, []) = (st, Inr r) \<and> bx_output r = ''done''"
  by (simp add: demo_eval flaky_env_def demo_os_def plain_os_def write_request_def numeral_2_eq_2)

theorem codex_answer_fresh_witness:
  "\<exists>st r k fs. codex_execute flaky_env default_backend (write_request ''x'') (Map.empty, []) = (st, Inr r) \<and>
     bx_output r = ''done'' \<and> k < 2 \<and> fs (codex_final flaky_env (write_request ''x'')) = None \<and>
     (\<exists>command events. execute_once flaky_env (write_request ''x'') command k (fs, events) = (st, Inr r))"
proof -
  obtain st r where *: "codex_execute flaky_env default_backend (write_request ''x'') (Map.empty, []) = (st, Inr r)" "bx_output r = ''done''"
    using flaky_env_answers by blast
  have "codex_attempts flaky_env = Inr 2"
    by (simp add: codex_attempts_def flaky_env_def sum_bind_def)
  with codex_answer_fresh[OF *(1)] * show ?thesis by auto
qed

end
