(* ===== verification/Workspace_Manager.thy ===== *)
theory Workspace_Manager
  imports Artifact_Store
begin

text \<open>
  \<open>aruntime/workspace/manager.py\<close> and \<open>aruntime/workspace/integration.py\<close>: a git worktree for every
  attempt, the patch of what changed in it, its removal, and applying a patch. git is a process of the environment.
\<close>

section \<open>Calling git\<close>

fun join_words :: "string list \<Rightarrow> string" where
  "join_words [] = []"
| "join_words [x] = x"
| "join_words (x # xs) = x @ '' '' @ join_words xs"

definition run_git :: "tool_env \<Rightarrow> string \<Rightarrow> string list \<Rightarrow> (files, completed_process) eff" where
  "run_git env dir args = run_process env ([''git'', ''-C'', dir] @ args) None None None TimeoutExpired"

definition git_or_raise :: "tool_env \<Rightarrow> path \<Rightarrow> string list \<Rightarrow> (files, string) eff" where
  "git_or_raise env dir args =
     eff_bind (run_git env (path_str dir) args) (\<lambda>proc.
       if cp_returncode proc \<noteq> 0
       then eff_raise (RuntimeError (''git '' @ join_words args @ '' failed: '' @
              (if cp_stderr proc \<noteq> [] then cp_stderr proc else cp_stdout proc)))
       else eff_return (cp_stdout proc))"

section \<open>Workspaces\<close>

text \<open>Every file below the worktree loses its write permission.\<close>

definition make_read_only :: "tool_env \<Rightarrow> path \<Rightarrow> (files, unit) eff" where
  "make_read_only env dir =
     eff_get (\<lambda>fs. eff_for (filter (\<lambda>p. fs (os_resolve env p) \<noteq> None) (os_listing env fs dir)) (\<lambda>p.
       eff_get (\<lambda>fs. case os_chmod_error env fs p of Some e \<Rightarrow> eff_raise e | None \<Rightarrow> eff_return ())))"

definition attempt_workspace_path :: "tool_env \<Rightarrow> path \<Rightarrow> string \<Rightarrow> string option \<Rightarrow> string \<Rightarrow> path" where
  "attempt_workspace_path env workspace_root task_id root_task_id attempt_id =
     os_resolve env (path_join (path_join workspace_root (safe_id (opt_or root_task_id task_id))) (safe_id attempt_id))"

definition workspace_escapes :: py_error where
  "workspace_escapes = ValueError ''workspace path escapes workspace root''"

text \<open>From \<open>workspace_path = ..\<close> on, with the commit found.\<close>

definition add_worktree :: "tool_env \<Rightarrow> path \<Rightarrow> path \<Rightarrow> path \<Rightarrow> string \<Rightarrow> bool \<Rightarrow> (files, unit) eff" where
  "add_worktree env workspace_root repo p base_commit read_only =
     (if \<not> strictly_below p workspace_root then eff_raise workspace_escapes
      else eff_get (\<lambda>fs. if os_exists env fs p then eff_raise (ValueError (''workspace already exists: '' @ path_str p))
        else eff_then (make_dir env (butlast p))
          (eff_then (eff_bind (git_or_raise env repo [''worktree'', ''add'', ''--detach'', path_str p, base_commit]) (\<lambda>_. eff_return ()))
          (eff_when read_only (make_read_only env p)))))"

definition create_attempt_workspace ::
    "tool_env \<Rightarrow> path \<Rightarrow> string \<Rightarrow> string \<Rightarrow> string \<Rightarrow> string \<Rightarrow> bool \<Rightarrow> string option \<Rightarrow> (files, WorkspaceSpec) eff" where
  "create_attempt_workspace env workspace_root source_repo task_id attempt_id base_ref read_only root_task_id =
     (let repo = os_resolve env (path_join (os_cwd env) source_repo)
      in eff_get (\<lambda>fs.
           if \<not> os_exists env fs repo then eff_raise (ValueError (''source_repo not found: '' @ source_repo))
           else if \<not> os_exists env fs (repo @ [''.git''])
           then eff_raise (ValueError (''source_repo is not a git repository: '' @ source_repo))
           else eff_bind (git_or_raise env repo [''rev-parse'', base_ref]) (\<lambda>out.
             let base_commit = str_strip out; p = attempt_workspace_path env workspace_root task_id root_task_id attempt_id
             in eff_then (add_worktree env workspace_root repo p base_commit read_only)
                (eff_return \<lparr>ws_source_repo = path_str repo, ws_base_ref = base_ref, ws_base_commit = Some base_commit,
                   ws_workspace_id = Some (safe_id attempt_id), ws_workspace_path = Some (path_str p), ws_read_only = read_only,
                   ws_retain_on_failure = True\<rparr>))))"

section \<open>Patches\<close>

definition is_line_break :: "char \<Rightarrow> bool" where
  "is_line_break c \<longleftrightarrow> (let n = (of_char c :: nat) in (10 \<le> n \<and> n \<le> 13) \<or> (28 \<le> n \<and> n \<le> 30) \<or> n = 133)"

fun split_breaks :: "string \<Rightarrow> string \<Rightarrow> string list" where
  "split_breaks acc [] = [rev acc]"
| "split_breaks acc (c # cs) = (if is_line_break c then rev acc # split_breaks [] cs else split_breaks (c # acc) cs)"

text \<open>\<open>[line.strip() for line in s.splitlines() if line.strip()]\<close>.\<close>

definition stripped_lines :: "string \<Rightarrow> string list" where
  "stripped_lines s = filter (\<lambda>l. l \<noteq> []) (map str_strip (split_breaks [] s))"

definition ignored_path :: "string \<Rightarrow> string list \<Rightarrow> bool" where
  "ignored_path p ignored \<longleftrightarrow> list_ex (\<lambda>part. is_infix part p) ignored"

definition diff_excludes :: "string list" where
  "diff_excludes =
     ['':(exclude)**/__pycache__/**'', '':(exclude).pytest_cache/**'', '':(exclude).codex-home/**'',
      '':(exclude).codex-events.jsonl'', '':(exclude).codex-final.json'']"

definition create_patch_artifact ::
    "tool_env \<Rightarrow> path \<Rightarrow> usec \<Rightarrow> WorkspaceSpec \<Rightarrow> string \<Rightarrow> string \<Rightarrow> string option \<Rightarrow> string list \<Rightarrow> (files, ArtifactReference option) eff" where
  "create_patch_artifact env store_root now workspace task_id attempt_id root_task_id exclude_globs =
     (case (filled_or (ws_workspace_path workspace) None, filled_or (ws_base_commit workspace) None) of
        (Some raw, Some base_commit) \<Rightarrow>
          (let worktree = os_resolve env (path_join (os_cwd env) raw);
               ignored = exclude_globs @ [''__pycache__/'', ''.pytest_cache/'', ''.codex-home/'', ''.codex-events.jsonl'', ''.codex-final.json'']
           in eff_bind (git_or_raise env worktree [''ls-files'', ''--others'', ''--exclude-standard'']) (\<lambda>untracked.
              let new_files = filter (\<lambda>f. \<not> ignored_path f ignored) (stripped_lines untracked)
              in eff_then (if new_files = [] then eff_return ()
                           else eff_bind (git_or_raise env worktree ([''add'', ''-N''] @ new_files)) (\<lambda>_. eff_return ()))
                 (eff_bind (git_or_raise env worktree ([''diff'', ''--binary'', base_commit, ''--'', ''.''] @ diff_excludes)) (\<lambda>patch.
                  eff_bind (git_or_raise env worktree ([''diff'', ''--name-only'', base_commit, ''--'', ''.''] @ diff_excludes)) (\<lambda>changed.
                    if patch = [] then eff_return None
                    else eff_bind (artifact_write_bytes env store_root now (opt_or root_task_id task_id) task_id attempt_id
                           ''patch'' ''changes.patch'' (os_encode env patch)
                           [(''changed_files'', JList (map JStr (stripped_lines changed))), (''base_commit'', JStr base_commit)])
                         (\<lambda>a. eff_return (Some a)))))))
      | _ \<Rightarrow> eff_return None)"

section \<open>Removal and integration\<close>

definition cleanup_workspace :: "tool_env \<Rightarrow> path \<Rightarrow> WorkspaceSpec \<Rightarrow> bool \<Rightarrow> (files, unit) eff" where
  "cleanup_workspace env workspace_root workspace force =
     (case filled_or (ws_workspace_path workspace) None of
        None \<Rightarrow> eff_return ()
      | Some raw \<Rightarrow>
          (let worktree = os_resolve env (path_join (os_cwd env) raw)
           in if \<not> strictly_below worktree workspace_root then eff_raise workspace_escapes
              else eff_get (\<lambda>fs. if \<not> os_exists env fs worktree then eff_return ()
                else eff_bind (run_git env (ws_source_repo workspace)
                       ([''worktree'', ''remove''] @ (if force then [''--force''] else []) @ [path_str worktree])) (\<lambda>_. eff_return ()))))"

definition apply_patch_to_worktree :: "tool_env \<Rightarrow> string \<Rightarrow> string \<Rightarrow> (files, bool \<times> string) eff" where
  "apply_patch_to_worktree env workspace_path patch_path =
     (let worktree = path_str (os_resolve env (path_join (os_cwd env) workspace_path));
          patch = path_str (os_resolve env (path_join (os_cwd env) patch_path));
          said = (\<lambda>proc. if cp_stderr proc \<noteq> [] then cp_stderr proc else cp_stdout proc)
      in eff_bind (run_git env worktree [''apply'', ''--check'', patch]) (\<lambda>check.
           if cp_returncode check \<noteq> 0 then eff_return (False, said check)
           else eff_bind (run_git env worktree [''apply'', ''--3way'', patch]) (\<lambda>applied.
             eff_return (cp_returncode applied = 0, said applied))))"

section \<open>Properties\<close>

text \<open>The workspace a call returns is a new directory strictly below the root, for every identifier.\<close>

lemma create_attempt_workspace_inside:
  assumes "create_attempt_workspace env workspace_root source_repo task_id attempt_id base_ref read_only root_task_id fs = (fs', Inr w)"
  shows "\<exists>fs1. ws_workspace_path w = Some (path_str (attempt_workspace_path env workspace_root task_id root_task_id attempt_id)) \<and>
    strictly_below (attempt_workspace_path env workspace_root task_id root_task_id attempt_id) workspace_root \<and>
    \<not> os_exists env fs1 (attempt_workspace_path env workspace_root task_id root_task_id attempt_id)"
proof -
  from assms obtain repo commit fs1 fs2
    where w: "ws_workspace_path w = Some (path_str (attempt_workspace_path env workspace_root task_id root_task_id attempt_id))"
      and add: "add_worktree env workspace_root repo (attempt_workspace_path env workspace_root task_id root_task_id attempt_id)
        commit read_only fs1 = (fs2, Inr ())"
    by (auto simp: create_attempt_workspace_def eff_bind_def eff_then_def eff_get_def eff_return_def eff_raise_def Let_def
        split: if_splits prod.splits sum.splits)
  from add show ?thesis
    by (auto simp: w add_worktree_def eff_get_def eff_raise_def split: if_splits intro!: exI[of _ fs1])
qed

text \<open>Removal runs git only for an existing directory strictly below the root; otherwise nothing changes.\<close>

lemma cleanup_workspace_guarded:
  assumes "fst (cleanup_workspace env workspace_root w force fs) \<noteq> fs"
  shows "\<exists>raw. ws_workspace_path w = Some raw \<and> strictly_below (os_resolve env (path_join (os_cwd env) raw)) workspace_root \<and>
    os_exists env fs (os_resolve env (path_join (os_cwd env) raw))"
  using assms
  by (auto simp: cleanup_workspace_def filled_or_def eff_get_def eff_return_def eff_raise_def Let_def split: option.splits if_splits)

lemma path_str_nonempty [simp]: "path_str p \<noteq> []"
  by (cases p) (simp_all add: path_str_def)

text \<open>Every workspace the manager creates can be removed again: the specification it returns is never taken
for one outside the root, whatever the task and attempt are called; the removal asks git to remove exactly
the directory that was created, as long as it is there, and does nothing else.\<close>

theorem workspace_created_is_removable:
  assumes "create_attempt_workspace env workspace_root source_repo task_id attempt_id base_ref read_only root_task_id fs = (fs', Inr w)"
    and "\<forall>q. list_all plain_name (os_resolve env q) \<and> os_resolve env (os_resolve env q) = os_resolve env q"
  shows "\<exists>p. strictly_below p workspace_root \<and> ws_workspace_path w = Some (path_str p) \<and>
    cleanup_workspace env workspace_root w force = eff_get (\<lambda>fs. if \<not> os_exists env fs p then eff_return ()
      else eff_bind (run_git env (ws_source_repo w) ([''worktree'', ''remove''] @ (if force then [''--force''] else []) @ [path_str p]))
        (\<lambda>_. eff_return ()))"
proof -
  define p where "p = attempt_workspace_path env workspace_root task_id root_task_id attempt_id"
  have w: "ws_workspace_path w = Some (path_str p)" "strictly_below p workspace_root"
    using create_attempt_workspace_inside[OF assms(1)] by (auto simp: p_def)
  have "os_resolve env (path_join (os_cwd env) (path_str p)) = p"
    using assms(2) by (simp add: path_join_def path_parts_str p_def attempt_workspace_path_def)
  with w have "cleanup_workspace env workspace_root w force = eff_get (\<lambda>fs. if \<not> os_exists env fs p then eff_return ()
      else eff_bind (run_git env (ws_source_repo w) ([''worktree'', ''remove''] @ (if force then [''--force''] else []) @ [path_str p]))
        (\<lambda>_. eff_return ()))"
    by (simp add: cleanup_workspace_def filled_or_def)
  with w show ?thesis by blast
qed

text \<open>A machine on which the repository \<open>/repo\<close> exists and git always succeeds.\<close>

definition git_os :: tool_env where
  "git_os = demo_os\<lparr>os_exists := (\<lambda>fs p. take 1 p = [''repo'']),
     os_run := (\<lambda>_ _ _ _ fs. (fs, Finished \<lparr>cp_returncode = 0, cp_stdout = ''abc'', cp_stderr = []\<rparr>))\<rparr>"

lemma git_os_creates:
  "\<exists>fs w. create_attempt_workspace git_os [''ws''] ''/repo'' ''t'' ''t:attempt:1'' ''HEAD'' False None Map.empty = (fs, Inr w)"
  by (simp add: create_attempt_workspace_def attempt_workspace_path_def add_worktree_def make_dir_def git_or_raise_def run_git_def run_process_def
      git_os_def demo_os_def plain_os_def path_join_def path_parts_def is_absolute_def safe_id_def safe_char_def strictly_below_def plain_name_def
      opt_or_def eff_simps Let_def)

theorem workspace_created_is_removable_witness:
  "\<exists>fs w p. create_attempt_workspace git_os [''ws''] ''/repo'' ''t'' ''t:attempt:1'' ''HEAD'' False None Map.empty = (fs, Inr w) \<and>
     strictly_below p [''ws''] \<and> ws_workspace_path w = Some (path_str p)"
proof -
  obtain fs w where *: "create_attempt_workspace git_os [''ws''] ''/repo'' ''t'' ''t:attempt:1'' ''HEAD'' False None Map.empty = (fs, Inr w)"
    using git_os_creates by blast
  have "\<forall>q. list_all plain_name (os_resolve git_os q) \<and> os_resolve git_os (os_resolve git_os q) = os_resolve git_os q"
    by (simp add: git_os_def demo_os_def list_all_iff)
  from workspace_created_is_removable[OF * this] * show ?thesis by blast
qed

end
