(* ===== verification/Cgroup_Control.thy ===== *)
theory Cgroup_Control
  imports Artifact_Store
begin

text \<open>
  \<open>aruntime/resource/cgroup.py\<close>: the control groups of worker processes. A control file is a file of the
  model, with the text last written to it; what the kernel makes of the text, which directories exist and
  which signals can be sent is the environment's part.
\<close>

section \<open>Names\<close>

definition group_char :: "char \<Rightarrow> bool" where
  "group_char c \<longleftrightarrow> safe_char c = c"

text \<open>\<open>re.sub(r"[^A-Za-z0-9_.-]+", "_", ..)\<close>; the flag says that a run of replaced characters is under way.\<close>

fun replace_runs :: "bool \<Rightarrow> string \<Rightarrow> string" where
  "replace_runs b [] = []"
| "replace_runs b (c # cs) =
     (if group_char c then c # replace_runs False cs
      else if b then replace_runs True cs else CHR ''_'' # replace_runs True cs)"

definition strip_marks :: "string \<Rightarrow> string" where
  "strip_marks s = rev (dropWhile (\<lambda>c. c \<in> set ''._'') (rev (dropWhile (\<lambda>c. c \<in> set ''._'') s)))"

definition sanitize :: "string \<Rightarrow> string" where
  "sanitize value =
     (let t = strip_marks (replace_runs False (str_strip value)) in if t = [] then ''default'' else t)"

record cgroup_env =
  cg_os :: tool_env
  cg_base :: path
  cg_root_name :: string
  cg_isdir :: "files \<Rightarrow> path \<Rightarrow> bool"
  cg_listdir :: "files \<Rightarrow> path \<Rightarrow> py_error + string list"
  cg_rmdir_error :: "files \<Rightarrow> path \<Rightarrow> py_error option"
  cg_kill_error :: "int \<Rightarrow> py_error option"
  cg_float_of_str :: "string \<Rightarrow> rat option"
  cg_str :: "py_error \<Rightarrow> string"

definition cgroup_root :: "cgroup_env \<Rightarrow> path" where
  "cgroup_root env = path_join (cg_base env) (sanitize (cg_root_name env))"

definition cgroup_path :: "cgroup_env \<Rightarrow> string \<Rightarrow> path" where
  "cgroup_path env group_name = path_join (cgroup_root env) (sanitize group_name)"

section \<open>Control files\<close>

text \<open>The files and the processes that were sent \<open>SIGKILL\<close>.\<close>

type_synonym cgroup_state = "files \<times> int list"

definition in_files :: "(files, 'a) eff \<Rightarrow> (cgroup_state, 'a) eff" where
  "in_files m = (\<lambda>(fs, killed). case m fs of (fs', r) \<Rightarrow> ((fs', killed), r))"

definition cgroup_write :: "cgroup_env \<Rightarrow> path \<Rightarrow> string \<Rightarrow> string \<Rightarrow> (cgroup_state, unit) eff" where
  "cgroup_write env dir name value = in_files (write_bytes (cg_os env) (dir @ [name]) (os_encode (cg_os env) value))"

text \<open>The answer of an operation: the body between \<open>try\<close> and \<open>except Exception\<close>.\<close>

definition answer :: "cgroup_env \<Rightarrow> path \<Rightarrow> (cgroup_state, unit) eff \<Rightarrow> (cgroup_state, jdict) eff" where
  "answer env dir body =
     eff_try (eff_then body (eff_return [(''ok'', JBool True), (''path'', JStr (path_str dir))]))
       (\<lambda>e. eff_return [(''ok'', JBool False), (''path'', JStr (path_str dir)), (''error'', JStr (cg_str env e))])"

definition enable_subtree_control :: "cgroup_env \<Rightarrow> (cgroup_state, unit) eff" where
  "enable_subtree_control env =
     eff_then (in_files (make_dir (cg_os env) (cgroup_root env)))
     (eff_get (\<lambda>(fs, _).
        if \<not> os_exists (cg_os env) fs (cg_base env @ [''cgroup.controllers'']) \<or>
           \<not> os_exists (cg_os env) fs (cg_base env @ [''cgroup.subtree_control''])
        then eff_return ()
        else eff_bind (in_files (read_bytes (cg_os env) (cg_base env @ [''cgroup.controllers'']))) (\<lambda>content.
          let controllers = filter (\<lambda>c. c \<in> {''cpu'', ''memory'', ''pids''}) (split_words [] content)
          in eff_when (controllers \<noteq> []) (cgroup_write env (cg_base env) ''cgroup.subtree_control''
               (tl (concat (map (\<lambda>c. '' +'' @ c) controllers)))))))"

record limits =
  li_memory_max :: "int option"
  li_cpu_max :: "string option"
  li_cpu_weight :: "int option"
  li_memory_high :: "int option"
  li_pids_max :: "int option"

definition write_positive :: "cgroup_env \<Rightarrow> path \<Rightarrow> string \<Rightarrow> int option \<Rightarrow> (cgroup_state, unit) eff" where
  "write_positive env dir name v =
     (case v of Some n \<Rightarrow> eff_when (n > 0) (cgroup_write env dir name (int_str n)) | None \<Rightarrow> eff_return ())"

definition cgroup_update :: "cgroup_env \<Rightarrow> string \<Rightarrow> limits \<Rightarrow> (cgroup_state, jdict) eff" where
  "cgroup_update env group_name l =
     (let dir = cgroup_path env group_name
      in answer env dir (eff_seq
           [case filled_or (li_cpu_max l) None of Some v \<Rightarrow> cgroup_write env dir ''cpu.max'' v | None \<Rightarrow> eff_return (),
            case li_cpu_weight l of Some w \<Rightarrow> cgroup_write env dir ''cpu.weight'' (int_str (max 1 (min w 10000))) | None \<Rightarrow> eff_return (),
            write_positive env dir ''memory.high'' (li_memory_high l),
            write_positive env dir ''memory.max'' (li_memory_max l),
            write_positive env dir ''pids.max'' (li_pids_max l)]))"

definition cgroup_create :: "cgroup_env \<Rightarrow> string \<Rightarrow> limits \<Rightarrow> (cgroup_state, jdict) eff" where
  "cgroup_create env group_name l =
     (let dir = cgroup_path env group_name
      in answer env dir (eff_seq
           [in_files (make_dir (cg_os env) dir),
            enable_subtree_control env,
            eff_bind (cgroup_update env group_name l) (\<lambda>_. eff_return ())]))"

definition cgroup_attach :: "cgroup_env \<Rightarrow> string \<Rightarrow> int \<Rightarrow> (cgroup_state, jdict) eff" where
  "cgroup_attach env group_name pid =
     (let dir = cgroup_path env group_name in answer env dir (cgroup_write env dir ''cgroup.procs'' (int_str pid)))"

section \<open>Reading\<close>

fun split_newlines :: "string \<Rightarrow> string \<Rightarrow> string list" where
  "split_newlines acc [] = (if acc = [] then [] else [rev acc])"
| "split_newlines acc (c # cs) = (if c = CHR 0x0A \<or> c = CHR 0x0D then rev acc # split_newlines [] cs else split_newlines (c # acc) cs)"

text \<open>The lines of a control file; none when it does not exist.\<close>

definition control_lines :: "cgroup_env \<Rightarrow> path \<Rightarrow> string \<Rightarrow> (cgroup_state, string list) eff" where
  "control_lines env dir name =
     eff_get (\<lambda>(fs, _). if \<not> os_exists (cg_os env) fs (dir @ [name]) then eff_return []
       else eff_bind (in_files (read_bytes (cg_os env) (dir @ [name]))) (\<lambda>content. eff_return (split_newlines [] content)))"

definition kv_line :: "cgroup_env \<Rightarrow> string \<Rightarrow> jdict \<Rightarrow> jdict" where
  "kv_line env line result =
     (case split_words [] line of
        [k, v] \<Rightarrow> (case os_int_of_str (cg_os env) v of Inr n \<Rightarrow> dict_set k (JInt n) result | Inl _ \<Rightarrow> result)
      | _ \<Rightarrow> result)"

definition read_kv :: "cgroup_env \<Rightarrow> path \<Rightarrow> string \<Rightarrow> (cgroup_state, jdict) eff" where
  "read_kv env dir name = eff_bind (control_lines env dir name) (\<lambda>ls. eff_return (fold (kv_line env) ls []))"

definition pressure_item :: "cgroup_env \<Rightarrow> string \<Rightarrow> jdict \<Rightarrow> jdict" where
  "pressure_item env item values =
     (case dropWhile (\<lambda>c. c \<noteq> CHR ''='') item of
        [] \<Rightarrow> values
      | _ # v \<Rightarrow> (case cg_float_of_str env v of
          Some x \<Rightarrow> dict_set (takeWhile (\<lambda>c. c \<noteq> CHR ''='') item) (JFloat x) values | None \<Rightarrow> values))"

definition pressure_line :: "cgroup_env \<Rightarrow> string \<Rightarrow> jdict \<Rightarrow> jdict" where
  "pressure_line env line result =
     (case split_words [] line of [] \<Rightarrow> result | k # items \<Rightarrow> dict_set k (JObj (fold (pressure_item env) items [])) result)"

definition read_pressure :: "cgroup_env \<Rightarrow> path \<Rightarrow> string \<Rightarrow> (cgroup_state, jdict) eff" where
  "read_pressure env dir name = eff_bind (control_lines env dir name) (\<lambda>ls. eff_return (fold (pressure_line env) ls []))"

definition read_stats :: "cgroup_env \<Rightarrow> string \<Rightarrow> (cgroup_state, jdict) eff" where
  "read_stats env group_name =
     (let dir = cgroup_path env group_name
      in eff_bind (read_kv env dir ''cpu.stat'') (\<lambda>cpu. eff_bind (read_kv env dir ''memory.events'') (\<lambda>memory.
         eff_bind (read_kv env dir ''cgroup.events'') (\<lambda>events. eff_bind (read_pressure env dir ''cpu.pressure'') (\<lambda>cpu_pressure.
         eff_bind (read_pressure env dir ''memory.pressure'') (\<lambda>memory_pressure. eff_return
           [(''path'', JStr (path_str dir)), (''cpu_stat'', JObj cpu), (''memory_events'', JObj memory), (''cgroup_events'', JObj events),
            (''cpu_pressure'', JObj cpu_pressure), (''memory_pressure'', JObj memory_pressure)]))))))"

section \<open>Ending a group\<close>

fun pids_of :: "cgroup_env \<Rightarrow> string list \<Rightarrow> py_error + int list" where
  "pids_of env [] = Inr []"
| "pids_of env (l # ls) =
     (if is_digits (str_strip l)
      then sum_bind (os_int_of_str (cg_os env) (str_strip l)) (\<lambda>n. sum_bind (pids_of env ls) (\<lambda>ns. Inr (n # ns)))
      else pids_of env ls)"

definition kill_pid :: "cgroup_env \<Rightarrow> int \<Rightarrow> (cgroup_state, unit) eff" where
  "kill_pid env pid =
     (case cg_kill_error env pid of Some e \<Rightarrow> eff_raise e | None \<Rightarrow> eff_modify (\<lambda>(fs, killed). (fs, killed @ [pid])))"

definition cgroup_kill :: "cgroup_env \<Rightarrow> string \<Rightarrow> (cgroup_state, jdict) eff" where
  "cgroup_kill env group_name =
     (let dir = cgroup_path env group_name
      in answer env dir (eff_get (\<lambda>(fs, _).
           if os_exists (cg_os env) fs (dir @ [''cgroup.kill'']) then cgroup_write env dir ''cgroup.kill'' ''1''
           else eff_bind (control_lines env dir ''cgroup.procs'') (\<lambda>ls.
             eff_bind (eff_lift (pids_of env ls)) (\<lambda>pids. eff_for pids (kill_pid env))))))"

text \<open>\<open>os.rmdir\<close>: the control files of a group go with their directory.\<close>

definition remove_dir :: "cgroup_env \<Rightarrow> path \<Rightarrow> (files, unit) eff" where
  "remove_dir env dir =
     eff_get (\<lambda>fs. case cg_rmdir_error env fs dir of
         Some e \<Rightarrow> eff_raise e
       | None \<Rightarrow> eff_modify (\<lambda>fs p. if strictly_below p dir then None else fs p))"

definition remove_file :: "cgroup_env \<Rightarrow> path \<Rightarrow> (files, unit) eff" where
  "remove_file env p =
     eff_get (\<lambda>fs. if fs p = None then eff_return ()
       else case os_unlink_error (cg_os env) fs p of Some e \<Rightarrow> eff_raise e | None \<Rightarrow> eff_modify (\<lambda>fs. fs(p := None)))"

definition cgroup_cleanup :: "cgroup_env \<Rightarrow> string \<Rightarrow> (cgroup_state, jdict) eff" where
  "cgroup_cleanup env group_name =
     (let dir = cgroup_path env group_name
      in answer env dir (in_files (eff_get (\<lambda>fs.
           if \<not> cg_isdir env fs dir then eff_return ()
           else if take 14 (path_str dir) = ''/sys/fs/cgroup'' then remove_dir env dir
           else eff_bind (eff_lift (cg_listdir env fs dir)) (\<lambda>names.
             eff_then (eff_for names (\<lambda>n. remove_file env (dir @ [n]))) (remove_dir env dir))))))"

section \<open>Applying limits to a process\<close>

definition said_ok :: "jdict \<Rightarrow> bool" where
  "said_ok d \<longleftrightarrow> map_of d ''ok'' = Some (JBool True)"

definition apply_cgroup_v2 :: "cgroup_env \<Rightarrow> int \<Rightarrow> string \<Rightarrow> limits \<Rightarrow> (cgroup_state, jdict) eff" where
  "apply_cgroup_v2 env pid group_name l =
     eff_bind (cgroup_create env group_name l) (\<lambda>created.
       if \<not> said_ok created then eff_return created
       else eff_bind (cgroup_attach env group_name pid) (\<lambda>attached.
         if \<not> said_ok attached then eff_bind (cgroup_cleanup env group_name) (\<lambda>_. eff_return attached)
         else eff_bind (read_stats env group_name) (\<lambda>stats. eff_return
           [(''ok'', JBool True), (''path'', get_json created ''path''), (''stats'', JObj stats)])))"

section \<open>Group names\<close>

lemma strip_prefix: "\<exists>ys. t = rev (dropWhile P (rev t)) @ ys"
  by (metis rev_append rev_rev_ident takeWhile_dropWhile_id)

lemma strip_marks_hd: "strip_marks s \<noteq> [] \<Longrightarrow> hd (strip_marks s) \<notin> set ''._''"
proof -
  assume ne: "strip_marks s \<noteq> []"
  let ?P = "\<lambda>c. c \<in> set ''._''"
  obtain ys where ys: "dropWhile ?P s = strip_marks s @ ys" unfolding strip_marks_def using strip_prefix by blast
  with ne have "hd (dropWhile ?P s) = hd (strip_marks s)" "dropWhile ?P s \<noteq> []" by simp_all
  with hd_dropWhile[of ?P s] show ?thesis by simp
qed

lemma replace_runs_chars: "c \<in> set (replace_runs b s) \<Longrightarrow> group_char c"
  by (induction b s rule: replace_runs.induct) (auto simp: group_char_def safe_char_def split: if_splits)

lemma strip_marks_chars: "c \<in> set (strip_marks s) \<Longrightarrow> c \<in> set s"
  by (auto simp: strip_marks_def dest!: set_dropWhileD)

lemma sanitize_plain: "plain_name (sanitize v) \<and> sanitize v \<noteq> ''..''"
proof (cases "strip_marks (replace_runs False (str_strip v)) = []")
  case True
  then show ?thesis by (simp add: sanitize_def plain_name_def)
next
  case False
  then have s: "sanitize v = strip_marks (replace_runs False (str_strip v))" by (simp add: sanitize_def)
  have "group_char c" if "c \<in> set (sanitize v)" for c
    using that replace_runs_chars strip_marks_chars unfolding s by blast
  moreover have "\<not> group_char (CHR ''/'')" by (simp add: group_char_def safe_char_def)
  moreover have "hd (sanitize v) \<noteq> CHR ''.''" using strip_marks_hd[OF False] by (simp add: s)
  moreover have "sanitize v \<noteq> []" using False s by simp
  ultimately show ?thesis by (auto simp: plain_name_def)
qed

lemma path_join_plain: "plain_name c \<Longrightarrow> path_join p c = p @ [c]"
  using split_slash_name[of c "[]"] by (cases c) (auto simp: path_join_def is_absolute_def path_parts_def plain_name_def)

lemma cgroup_path_is: "cgroup_path env g = cgroup_root env @ [sanitize g]"
  using sanitize_plain by (simp add: cgroup_path_def path_join_plain)

section \<open>Confinement\<close>

lemma below_group: "strictly_below (cgroup_path env g @ [n]) (cgroup_root env)"
  by (simp add: cgroup_path_is strictly_below_def)

lemma frame_in_files: "frame (\<lambda>fs. fs p) m \<Longrightarrow> frame (\<lambda>st. fst st p) (in_files m)"
  by (auto simp: frame_def in_files_def split: prod.splits) (metis fst_conv)

lemma frame_write_other: "q \<noteq> p \<Longrightarrow> frame (\<lambda>fs. fs p) (write_bytes env q v)"
  by (auto simp: frame_def write_bytes_def eff_simps split: option.split)

lemma frame_make_dir: "frame (\<lambda>fs. fs p) (make_dir env q)"
  by (auto simp: make_dir_def intro!: frame_intros)

lemma frame_read_bytes: "frame (\<lambda>fs. fs p) (read_bytes env q)"
  by (auto simp: read_bytes_def intro!: frame_intros)

lemma frame_cgroup_write: "dir @ [n] \<noteq> p \<Longrightarrow> frame (\<lambda>st. fst st p) (cgroup_write env dir n v)"
  unfolding cgroup_write_def by (intro frame_in_files frame_write_other)

lemma frame_answer: "frame q m \<Longrightarrow> frame q (answer env dir m)"
  unfolding answer_def by (intro frame_intros)

lemma frame_control_lines: "frame (\<lambda>st. fst st p) (control_lines env dir n)"
  unfolding control_lines_def by (intro frame_intros frame_in_files frame_read_bytes)

lemma frame_read_stats: "frame (\<lambda>st. fst st p) (read_stats env g)"
  unfolding read_stats_def read_kv_def read_pressure_def Let_def by (intro frame_intros frame_control_lines)

text \<open>A path outside the part of the file system that belongs to the runtime.\<close>

definition foreign :: "cgroup_env \<Rightarrow> path \<Rightarrow> bool" where
  "foreign env p \<longleftrightarrow> \<not> strictly_below p (cgroup_root env) \<and> p \<noteq> cg_base env @ [''cgroup.subtree_control'']"

lemma frame_group_write: "foreign env p \<Longrightarrow> frame (\<lambda>st. fst st p) (cgroup_write env (cgroup_path env g) n v)"
  using below_group by (intro frame_cgroup_write) (auto simp: foreign_def)

lemma frame_enable: "foreign env p \<Longrightarrow> frame (\<lambda>st. fst st p) (enable_subtree_control env)"
  unfolding enable_subtree_control_def Let_def
  by (intro frame_intros frame_in_files frame_make_dir frame_read_bytes frame_cgroup_write) (auto simp: foreign_def)

lemma frame_update: "foreign env p \<Longrightarrow> frame (\<lambda>st. fst st p) (cgroup_update env g l)"
  unfolding cgroup_update_def write_positive_def Let_def
  by (intro frame_answer frame_seq) (auto intro!: frame_intros frame_group_write)

lemma frame_create: "foreign env p \<Longrightarrow> frame (\<lambda>st. fst st p) (cgroup_create env g l)"
  unfolding cgroup_create_def Let_def
  by (intro frame_answer frame_seq) (auto intro!: frame_intros frame_in_files frame_make_dir frame_enable frame_update)

lemma frame_attach: "foreign env p \<Longrightarrow> frame (\<lambda>st. fst st p) (cgroup_attach env g pid)"
  unfolding cgroup_attach_def Let_def by (intro frame_answer frame_group_write)

lemma frame_kill: "foreign env p \<Longrightarrow> frame (\<lambda>st. fst st p) (cgroup_kill env g)"
  unfolding cgroup_kill_def kill_pid_def Let_def
  by (intro frame_answer frame_intros frame_group_write frame_control_lines) auto

lemma strictly_below_mono:
  assumes "strictly_below p (r @ [x])"
  shows "strictly_below p r"
proof -
  have "p = (r @ [x]) @ drop (length (r @ [x])) p"
    using assms append_take_drop_id[of "length (r @ [x])" p] by (simp add: strictly_below_def)
  then obtain ys where "p = (r @ [x]) @ ys" by blast
  then show ?thesis by (simp add: strictly_below_def)
qed

lemma frame_remove:
  assumes "foreign env p"
  shows "frame (\<lambda>fs. fs p) (remove_dir env (cgroup_path env g))" "frame (\<lambda>fs. fs p) (remove_file env (cgroup_path env g @ [n]))"
proof -
  have "\<not> strictly_below p (cgroup_path env g)"
    using assms strictly_below_mono by (auto simp: foreign_def cgroup_path_is)
  then show "frame (\<lambda>fs. fs p) (remove_dir env (cgroup_path env g))"
    unfolding remove_dir_def by (intro frame_intros) auto
  have "cgroup_path env g @ [n] \<noteq> p" using assms below_group by (auto simp: foreign_def)
  then show "frame (\<lambda>fs. fs p) (remove_file env (cgroup_path env g @ [n]))"
    unfolding remove_file_def by (intro frame_intros) auto
qed

lemma frame_cleanup: "foreign env p \<Longrightarrow> frame (\<lambda>st. fst st p) (cgroup_cleanup env g)"
  unfolding cgroup_cleanup_def Let_def by (intro frame_answer frame_in_files frame_intros frame_remove)

text \<open>Whatever a group is called, the control groups stay in their own directory: applying limits to a
process, its clean-up after a failure included, and killing a group change no file outside the root of
the runtime's groups, except the list of controllers enabled for the hierarchy.\<close>

theorem cgroup_confined:
  assumes "foreign env p"
  shows "fst (fst (apply_cgroup_v2 env pid g l st)) p = fst st p \<and> fst (fst (cgroup_kill env g st)) p = fst st p"
proof -
  have "frame (\<lambda>st. fst st p) (apply_cgroup_v2 env pid g l)"
    unfolding apply_cgroup_v2_def
    by (intro frame_intros frame_create frame_attach frame_cleanup frame_read_stats assms)
  with frame_kill[OF assms, of g] show ?thesis by (cases st) (simp add: frame_def)
qed

section \<open>What the answer means\<close>

lemma answer_cases:
  "answer env dir m st = (case m st of
     (st', Inr _) \<Rightarrow> (st', Inr [(''ok'', JBool True), (''path'', JStr (path_str dir))])
   | (st', Inl e) \<Rightarrow> (st', Inr [(''ok'', JBool False), (''path'', JStr (path_str dir)), (''error'', JStr (cg_str env e))]))"
  by (simp add: answer_def eff_simps eff_try_def split: prod.split sum.split)

lemma cgroup_write_done: "cgroup_write env dir n v st = (st', Inr x) \<Longrightarrow> fst st' (dir @ [n]) = Some (os_encode (cg_os env) v)"
  by (auto simp: cgroup_write_def in_files_def write_bytes_def eff_simps split: prod.splits option.splits)

lemma attach_ok:
  assumes "cgroup_attach env g pid st = (st', Inr d)" "said_ok d"
  shows "fst st' (cgroup_path env g @ [''cgroup.procs'']) = Some (os_encode (cg_os env) (int_str pid))"
  using assms cgroup_write_done[of env "cgroup_path env g" "''cgroup.procs''" "int_str pid" st]
  by (auto simp: cgroup_attach_def answer_cases said_ok_def Let_def split: prod.splits sum.splits)

text \<open>An answer that says ok means the process was handed to the group.\<close>

lemma apply_ok_attached:
  assumes "apply_cgroup_v2 env pid g l st = (st', Inr d)" "said_ok d"
  shows "fst st' (cgroup_path env g @ [''cgroup.procs'']) = Some (os_encode (cg_os env) (int_str pid))"
proof -
  from assms obtain st1 st2 attached stats where a: "cgroup_attach env g pid st1 = (st2, Inr attached)" "said_ok attached"
      and r: "read_stats env g st2 = (st', Inr stats)"
    by (auto simp: apply_cgroup_v2_def eff_bind_def eff_return_def split: prod.split_asm sum.split_asm if_split_asm)
  have "fst (fst (read_stats env g st2)) p = fst st2 p" for p
    using frame_read_stats[of p env g] by (cases st2) (simp add: frame_def)
  with r have "fst st' = fst st2" by (simp add: fun_eq_iff)
  with attach_ok[OF a] show ?thesis by simp
qed

text \<open>It does not mean the limits were written: \<open>create\<close> ignores the answer of \<open>update\<close>.\<close>

lemma create_ignores_update:
  assumes "in_files (make_dir (cg_os env) (cgroup_path env g)) st = (st1, Inr ())" "enable_subtree_control env st1 = (st2, Inr ())"
  shows "\<exists>st' d. cgroup_create env g l st = (st', Inr d) \<and> said_ok d"
  using assms
  by (auto simp: cgroup_create_def cgroup_update_def answer_cases eff_simps said_ok_def Let_def split: prod.splits sum.splits)

end
