(* ===== verification/Spec2Isabelle.thy ===== *)
theory Spec2Isabelle
  imports Task_Lifecycle Agent_Lifecycle Kernel_Policies Resource_Accounting Fifo_Scheduler Dag_Properties
    Context_Properties Planner_Properties Incident_Properties Store_Properties Router_Persistence
    Fault_Service Workflow_Properties Daemon_Leases Daemon_Admission Daemon_Attempts Codex_Backend Workspace_Manager Cgroup_Control
begin

text \<open>
  \<^bold>\<open>Verification of AgentRuntime.\<close> AgentRuntime is a daemon that runs tasks on agents, each agent a
  worker process. A request to the daemon becomes a task; the kernel scheduler holds it until its
  dependencies are done and the resource monitor grants a lease; the daemon then sends it to the worker of its
  agent, waits for the answer, retries or falls back as the failure policy of the task says, releases the lease
  and tells the scheduler, the workflow service, the trace and the store. Agents talk to each other through the
  message router. On top of the runtime the incident repair application plans a repair and drives
  planner, coder, tester and reviewer as a graph. All paths below are relative to \<open>src/\<close>.

  \<^bold>\<open>How Python is read.\<close> \<open>Py_Prelude\<close> has the vocabulary: exceptions are values of \<open>py_error\<close>, a stateful
  operation is an \<open>eff\<close>, a function from the state to the new state and an exception or a result, so that what
  was changed before a raise stays changed; dictionaries are association lists in insertion order. \<open>Py_Json\<close>
  has the values of \<open>dict[str, Any]\<close> and their printers. Floats are rationals, time is in microseconds, strings
  are Latin-1. Iteration over a Python set, the clock, fresh identifiers, sockets, processes, files that are
  links and libraries outside the repository are fields of an environment record or arguments, over which the
  theorems quantify.

  \<^bold>\<open>Parts.\<close> Every theory of definitions follows one part of the source, function by function.

    \<^item> \<open>Task_Model\<close> (\<open>aruntime/core/models.py\<close>), with \<open>Task_Lifecycle\<close>: any sequence of calls keeps the fields of
      a task in agreement with its control block and moves its status along the table only.
    \<^item> \<open>Agent_Lifecycle\<close> (\<open>core/lifecycle.py\<close>, \<open>core/acb.py\<close>): the two implementations of the agent state machine agree.
    \<^item> \<open>Task_Graph\<close>, \<open>Kernel_Scheduler\<close> (\<open>scheduler/kernel.py\<close>), with \<open>Kernel_Invariants\<close>, \<open>Kernel_Properties\<close>,
      \<open>Kernel_Admission\<close> and \<open>Kernel_Policies\<close>: the queue discipline in every reachable state, what a dispatch hands
      out and in which order, acyclicity, completion and failure of a task, admission, policies.
    \<^item> \<open>Fifo_Scheduler\<close>, \<open>Dag_Scheduler\<close>, \<open>Dag_Properties\<close> (\<open>scheduler/fifo.py\<close>, \<open>resource_aware.py\<close>, \<open>base.py\<close>, \<open>dag.py\<close>).
    \<^item> \<open>Resource_Monitor\<close>, \<open>Resource_Accounting\<close> (\<open>resource/types.py\<close>, \<open>resource/monitor.py\<close>): usage is the sum of the
      active leases, quotas hold.
    \<^item> \<open>Context_Manager\<close>, \<open>Context_Properties\<close> (\<open>context/\<close>): the store of contexts is an LRU store, versions of
      read-only contexts, isolation of private ones.
    \<^item> \<open>Cycle_Check\<close>, \<open>Planner\<close>, \<open>Planner_Properties\<close> (\<open>planner/\<close> and \<open>applications/incident_repair/planning/\<close>): the
      validator accepts exactly the well-formed plans, and an accepted plan never gets stuck.
    \<^item> \<open>Incident_Graph\<close>, \<open>Incident_Properties\<close> (\<open>applications/incident_repair/\<close>: state, nodes, routing, runner).
    \<^item> \<open>State_Store\<close>, \<open>Store_Properties\<close> (\<open>daemon/store.py\<close>, \<open>comm/message.py\<close>, \<open>daemon/recovery_service.py\<close>): tables as
      ordered dictionaries, round trips, what recovery makes of any stored history.
    \<^item> \<open>Message_Router\<close>, \<open>Router_Properties\<close>, \<open>Router_Persistence\<close> (\<open>comm/router.py\<close>): coroutines are jobs that
      interleave at their awaits; no accepted message disappears, and what waits is stored.
    \<^item> \<open>Fault_Service\<close> (\<open>daemon/fault_service.py\<close>), \<open>Trace_Recorder\<close> (\<open>observability/trace.py\<close>).
    \<^item> \<open>Workflow_Service\<close>, \<open>Workflow_Properties\<close> (\<open>workflow/service.py\<close>): a plan arrives whole in scheduler, task table
      and store; repairs are bounded.
    \<^item> \<open>Daemon_State\<close>, \<open>Daemon_Execution\<close>, \<open>Daemon_Policy\<close>, \<open>Daemon_Requests\<close> (\<open>daemon/main.py\<close>, \<open>workflow/recovery.py\<close>): the
      daemon composed of the parts above. An \<open>await\<close> applies \<open>de_world\<close>, an arbitrary change by the
      other coroutines, constrained only by the hypotheses of a theorem; between two awaits the clock is read
      once. \<open>Daemon_Views\<close> shows which parts of the state an execution leaves alone; \<open>Daemon_Leases\<close>, \<open>Daemon_Admission\<close>
      and \<open>Daemon_Attempts\<close> have the theorems, \<open>Daemon_Examples\<close> a concrete daemon for their witnesses.
    \<^item> \<open>Uds_Transport\<close> (\<open>comm/transport.py\<close>), \<open>Agent_Worker\<close> (\<open>worker/agent_worker.py\<close>, \<open>backends/base.py\<close>): both ends of
      the connection between daemon and worker, and that the answer to a message of the daemon reaches its attempt.
    \<^item> \<open>Tool_Sandbox\<close> (\<open>tools/\<close>, \<open>executor/task_executor.py\<close>, \<open>backends/direct_tool.py\<close>), \<open>Artifact_Store\<close> and
      \<open>Workspace_Manager\<close> (\<open>workspace/\<close>), \<open>Codex_Backend\<close> (\<open>backends/codex_cli.py\<close>): what a task may touch, what it
      leaves behind, and what a backend answers.
    \<^item> \<open>Cgroup_Control\<close> (\<open>resource/cgroup.py\<close>): group names cannot leave the hierarchy of the runtime.

  \<^bold>\<open>Interfaces.\<close> The contracts between parts are locales, each interpreted on the definitions of the code:
  \<open>dependency_scheduler\<close> (kernel and DAG scheduler), \<open>fifo_service\<close> (FIFO queue), \<open>lease_pool\<close> (resource monitor),
  \<open>recency_store\<close> (context manager), \<open>checked_graph\<close> (plan validator and coder plan), \<open>router_invariant\<close> (two
  invariants of the router), \<open>daemon_view\<close>, its extension \<open>quiet_view\<close> and \<open>lease_view\<close> (parts of the daemon's state),
  \<open>confined_registry\<close> (the file tools). The framing and triple rules of \<open>Py_Prelude\<close>, collected in \<open>frame_intros\<close>
  and \<open>triple_intros\<close>, carry the proofs about effects.

  \<^bold>\<open>Bounds.\<close> Recursion is structural or has a termination proof. Searches in the dependency graphs recurse on the
  set of nodes not yet visited. \<open>run_graph\<close> of the incident graph takes fuel; \<open>incident_run_ends\<close> shows that
  \<open>5 + 3 * tasks + 4 * rounds\<close> node executions are always enough. Retries of an attempt and of the codex process
  recurse on the number of tries left.

  \<^bold>\<open>Not modelled.\<close>
    \<^item> Of the daemon: handlers that only read, metrics, demonstration runs and their agents, the debug signal, the
      dispatch semaphores (the number of executions at a time is no part of any theorem) and the HTTP server.
    \<^item> Opening sockets, the client end of \<open>transport.py\<close>, the heartbeat loop of a worker, starting, signalling and
      killing processes (\<open>daemon/worker_service.py\<close>, \<open>cancel\<close> of the codex backend).
    \<^item> \<open>llm/gateway.py\<close>, \<open>backends/legacy_llm.py\<close>, \<open>backends/native_planner.py\<close>: HTTP calls to language models with texts
      outside Latin-1; the planning pipeline they call is in \<open>Planner\<close>.
    \<^item> The execution providers, the run store, the event bus, replay and patch integration of the incident
      application: HTTP calls, child processes and files behind the interface the graph is modelled with.
    \<^item> \<open>api/client.py\<close>, \<open>cli/main.py\<close>, the dashboard, scripts, benchmarks and examples.
\<close>

end
